(* ===== verification/Prelude.thy ===== *)
theory Prelude
  imports Main "HOL-Library.Word" "HOL-Library.Monad_Syntax"
begin

unbundle bit_operations_syntax

text \<open>
  Shared vocabulary of the development: the machine integers of the firmware, checked
  accesses to C buffers, C strings, and the generic lemmas and rule collections the
  component theories draw on.

  Memory.  A C buffer is the list of its cells.  Reading or writing a cell outside the
  buffer is undefined behaviour in C; here it is the value \<open>None\<close> of the option monad
  (\<open>rd\<close>, \<open>wr\<close>), which no caller can recover from.  A model function of type
  \<open>\<dots> option\<close> therefore says by \<open>Some\<close> that the C code stays inside its
  buffers, and the return codes of the C code are ordinary values inside \<open>Some\<close>.
\<close>

section \<open>Machine integers\<close>

type_synonym u8 = "8 word"
type_synonym u16 = "16 word"
type_synonym u32 = "32 word"
type_synonym u64 = "64 word"
type_synonym bytes = "u8 list"

named_theorems buffer_simps \<open>equations for checked buffer accesses\<close>
named_theorems bind_elims \<open>inversion of successful monadic computations\<close>

section \<open>Checked buffer accesses\<close>

definition rd :: "'a list \<Rightarrow> nat \<Rightarrow> 'a option" where
  "rd xs i = (if i < length xs then Some (xs ! i) else None)"

definition wr :: "'a list \<Rightarrow> nat \<Rightarrow> 'a \<Rightarrow> 'a list option" where
  "wr xs i v = (if i < length xs then Some (xs[i := v]) else None)"

lemma rd_in [simp, buffer_simps]: "i < length xs \<Longrightarrow> rd xs i = Some (xs ! i)"
  by (simp add: rd_def)

lemma rd_out [simp, buffer_simps]: "length xs \<le> i \<Longrightarrow> rd xs i = None"
  by (simp add: rd_def)

lemma wr_in [simp, buffer_simps]: "i < length xs \<Longrightarrow> wr xs i v = Some (xs[i := v])"
  by (simp add: wr_def)

lemma wr_out [simp, buffer_simps]: "length xs \<le> i \<Longrightarrow> wr xs i v = None"
  by (simp add: wr_def)

lemma rd_SomeD [dest, bind_elims]: "rd xs i = Some x \<Longrightarrow> i < length xs \<and> x = xs ! i"
  by (auto simp: rd_def split: if_splits)

lemma wr_SomeD [dest, bind_elims]: "wr xs i v = Some ys \<Longrightarrow> i < length xs \<and> ys = xs[i := v]"
  by (auto simp: wr_def split: if_splits)

lemma wr_length [bind_elims]: "wr xs i v = Some ys \<Longrightarrow> length ys = length xs"
  by (auto simp: wr_def split: if_splits)

section \<open>C strings\<close>

text \<open>
  A string literal is the list of its bytes with the terminating zero; \<open>cstr\<close> is the
  text up to the terminator, \<open>strlen\<close> its length, and both are undefined on a buffer
  without a terminator.
\<close>

definition ascii :: "string \<Rightarrow> bytes" where
  "ascii s = map of_char s"

definition lit :: "string \<Rightarrow> bytes" where
  "lit s = ascii s @ [0]"

definition cstr :: "bytes \<Rightarrow> bytes" where
  "cstr xs = takeWhile (\<lambda>c. c \<noteq> 0) xs"

definition strlen :: "bytes \<Rightarrow> nat option" where
  "strlen xs = (if 0 \<in> set xs then Some (length (cstr xs)) else None)"

lemma cstr_append_zero [simp]: "0 \<notin> set xs \<Longrightarrow> cstr (xs @ 0 # ys) = xs"
  by (induction xs) (auto simp: cstr_def)

lemma strlen_append_zero [simp]: "0 \<notin> set xs \<Longrightarrow> strlen (xs @ 0 # ys) = Some (length xs)"
  by (simp add: strlen_def)

lemma cstr_no_zero [simp]: "0 \<notin> set (cstr xs)"
  by (auto simp: cstr_def dest: set_takeWhileD)

lemma cstr_split: "0 \<in> set xs \<Longrightarrow> \<exists>r. xs = cstr xs @ 0 # r"
proof (induction xs)
  case (Cons x xs)
  then show ?case by (cases "x = 0") (auto simp: cstr_def)
qed simp

section \<open>Lists and words\<close>

lemma upt_add_split: "[0..<m + n] = [0..<m] @ map (\<lambda>k. m + k) [0..<n]"
  by (induction n) auto

lemma take_Suc_drop:
  "p + Suc n \<le> length xs \<Longrightarrow> take (Suc n) (drop p xs) = xs ! p # take n (drop (Suc p) xs)"
  by (metis Cons_nth_drop_Suc Suc_le_lessD add_Suc_right le_add1 order_le_less_trans take_Suc_Cons)

lemma unat_Suc_no_overflow: "x < y \<Longrightarrow> unat (x + 1) = Suc (unat (x :: 'a::len word))"
proof -
  assume "x < y"
  moreover have "unat y < 2 ^ LENGTH('a)" by (rule unsigned_less)
  ultimately show ?thesis by (simp add: word_less_nat_alt unat_plus_if' del: unsigned_less)
qed

lemma u8_less_256: "unat (x :: u8) < 256"
  using unsigned_less [of x] by simp

lemma u16_less_65536: "unat (x :: u16) < 65536"
  using unsigned_less [of x] by simp

lemma u32_bound: "unat (x :: u32) < 4294967296"
  using unsigned_less [of x] by simp

text \<open>A byte list property holds of every byte if it holds of the 256 values.\<close>

lemma all_u8: "(\<And>n. n < 256 \<Longrightarrow> P (word_of_nat n :: u8)) \<Longrightarrow> P x"
  by (metis u8_less_256 of_nat_unat ucast_id)

end
