(* ===== verification/SysTick.thy ===== *)
theory SysTick
  imports Prelude
begin

text \<open>
  The millisecond tick of \<open>ampm_lib/lib/sys_tick.c\<close>: the interrupt routine, the timeout
  objects and the two busy-waiting delays.  A delay reads the tick counter again and again;
  its model takes the successive readings as a list and returns what is left of it, or
  \<open>None\<close> when the readings end before the delay does.
\<close>

section \<open>The interrupt\<close>

record systick =
  sysTickTimeSec :: u32
  sysTickCounter32 :: u32
  sysTickCounter64 :: u64

definition SysTick_Task :: "systick \<Rightarrow> systick" where
  "SysTick_Task s =
     (let s = s\<lparr>sysTickCounter32 := sysTickCounter32 s + 1, sysTickCounter64 := sysTickCounter64 s + 1\<rparr>
      in if sysTickCounter32 s mod 999 = 0 then s\<lparr>sysTickTimeSec := sysTickTimeSec s + 1\<rparr> else s)"

definition SysTick_Get :: "systick \<Rightarrow> u32" where
  "SysTick_Get s = sysTickCounter32 s"

definition SysTick_Get64 :: "systick \<Rightarrow> u32" where
  "SysTick_Get64 s = ucast (sysTickCounter64 s)"

section \<open>Timeouts\<close>

record Timeout_Type =
  to_start :: u32
  to_timeout :: u32
  to_crc :: u32

definition InitTimeout :: "u32 \<Rightarrow> Timeout_Type \<Rightarrow> u32 \<Rightarrow> Timeout_Type" where
  "InitTimeout now t timeout =
     (let t = t\<lparr>to_start := now, to_timeout := timeout\<rparr>
      in t\<lparr>to_crc := to_start t + to_timeout t\<rparr>)"

text \<open>The ticks between \<open>start\<close> and \<open>now\<close> as the code computes them.\<close>

definition elapsed :: "u32 \<Rightarrow> u32 \<Rightarrow> u32" where
  "elapsed start now = (if now \<ge> start then now - start else (0xFFFFFFFF - start) + now)"

definition CheckTimeout :: "u32 \<Rightarrow> Timeout_Type \<Rightarrow> u32 \<times> Timeout_Type" where
  "CheckTimeout now t =
     (let u32temp = to_start t + to_timeout t
      in if u32temp \<noteq> to_crc t then (0, t)
         else let t = t\<lparr>to_crc := to_start t + to_timeout t\<rparr>;
                  u32temp1 = elapsed (to_start t) now
              in if u32temp1 \<ge> to_timeout t then (0, t) else (to_timeout t - u32temp1, t))"

section \<open>Delays\<close>

fun SysTick_DelayMs_loop :: "u32 \<Rightarrow> u32 \<Rightarrow> u32 list \<Rightarrow> u32 list option" where
  "SysTick_DelayMs_loop start ms [] = None"
| "SysTick_DelayMs_loop start ms (now # ticks) =
     (if now - start < ms then SysTick_DelayMs_loop start ms ticks else Some ticks)"

definition SysTick_DelayMs :: "u32 \<Rightarrow> u32 list \<Rightarrow> u32 list option" where
  "SysTick_DelayMs ms ticks = (case ticks of [] \<Rightarrow> None | t # ts \<Rightarrow> SysTick_DelayMs_loop t ms ts)"

fun TimerDelayms_loop :: "u32 \<Rightarrow> u32 \<Rightarrow> u32 list \<Rightarrow> u32 list option" where
  "TimerDelayms_loop start time [] = None"
| "TimerDelayms_loop start time (now # ticks) =
     (if now \<ge> start then
        (if now - start \<ge> time then Some ticks else TimerDelayms_loop start time ticks)
      else
        (if (0xFFFFFFFF - start) + now \<ge> time then Some ticks else TimerDelayms_loop start time ticks))"

definition TimerDelayms :: "u32 \<Rightarrow> u32 list \<Rightarrow> u32 list option" where
  "TimerDelayms time ticks = (case ticks of [] \<Rightarrow> None | t # ts \<Rightarrow> TimerDelayms_loop t time ts)"

section \<open>Properties\<close>

lemma u32_diff_wrap: "now < start \<Longrightarrow> unat (now - start :: u32) = unat now + 4294967296 - unat start"
  using u32_bound [of start] by (simp add: unat_sub_if' word_less_nat_alt)

lemma elapsed_before_wrap: "start \<le> now \<Longrightarrow> elapsed start now = now - start"
  by (simp add: elapsed_def)

lemma elapsed_after_wrap: "now < start \<Longrightarrow> elapsed start now = now - start - 1"
  by (simp add: elapsed_def)

text \<open>A timeout object set at \<open>start\<close> reports the ticks that remain, 0 from the
  deadline on; after the counter wrapped it reports one tick more than remains.\<close>

theorem CheckTimeout_remaining:
  "CheckTimeout (start + n) (InitTimeout start t timeout) =
    (of_nat (unat timeout - (unat n - (if start \<le> start + n then 0 else 1))),
     InitTimeout start t timeout)"
proof -
  have e: "unat (elapsed start (start + n)) = unat n - (if start \<le> start + n then 0 else 1)"
  proof (cases "start \<le> start + n")
    case True
    then show ?thesis by (simp add: elapsed_before_wrap)
  next
    case False
    then have "0 < unat n" by (auto simp: unat_gt_0)
    then have "unat (n - 1) = unat n - 1" using unat_sub [of 1 n] by (simp add: word_le_nat_alt)
    moreover have "start + n < start" using False by (simp add: not_le)
    ultimately show ?thesis using False by (simp add: elapsed_after_wrap)
  qed
  let ?e = "elapsed start (start + n)"
  have r: "(if ?e \<ge> timeout then 0 else timeout - ?e) = of_nat (unat timeout - unat ?e)"
    by (auto simp: word_le_nat_alt unat_sub word_unat_eq_iff unat_of_nat
        take_bit_nat_eq_self less_imp_diff_less u32_bound)
  have "CheckTimeout (start + n) (InitTimeout start t timeout) =
      ((if ?e \<ge> timeout then 0 else timeout - ?e), InitTimeout start t timeout)"
    by (simp add: CheckTimeout_def InitTimeout_def Let_def)
  then show ?thesis by (simp only: r e)
qed

text \<open>The readings of a counter that advances by one tick from \<open>start\<close> on.\<close>

definition ticks_from :: "u32 \<Rightarrow> nat \<Rightarrow> nat \<Rightarrow> u32 list" where
  "ticks_from start i n = map (\<lambda>k. start + of_nat k) [i..<i + n]"

lemma ticks_from_Suc: "ticks_from start i (Suc n) = (start + of_nat i) # ticks_from start (Suc i) n"
  by (simp add: ticks_from_def upt_conv_Cons del: upt_Suc)

lemma SysTick_DelayMs_loop_waits:
  "i + n \<le> unat ms \<Longrightarrow> unat ms \<le> i + n + k \<Longrightarrow>
   SysTick_DelayMs_loop start ms (ticks_from start i n @ rest) = SysTick_DelayMs_loop start ms rest"
proof (induction n arbitrary: i)
  case 0
  then show ?case by (simp add: ticks_from_def)
next
  case (Suc n)
  have "unat (of_nat i :: u32) = i" using Suc.prems u32_bound [of ms]
    by (simp add: unat_of_nat take_bit_eq_mod)
  with Suc show ?case by (simp add: ticks_from_Suc word_less_nat_alt)
qed

text \<open>\<open>SysTick_DelayMs\<close> waits exactly \<open>ms\<close> ticks of a running counter, also when the
  counter wraps meanwhile.\<close>

theorem SysTick_DelayMs_exact:
  "SysTick_DelayMs ms (start # ticks_from start 0 (unat ms) @ (start + ms) # rest) = Some rest"
  using SysTick_DelayMs_loop_waits [of 0 "unat ms" ms 0 start "(start + ms) # rest"]
  by (simp add: SysTick_DelayMs_def)

lemma Suc_div_999: "Suc n div 999 = n div 999 + (if Suc n mod 999 = 0 then 1 else 0)"
  by (simp add: div_Suc)

text \<open>From power up, \<open>n\<close> interrupts leave the millisecond counter at \<open>n\<close> and the
  seconds counter at \<open>n div 999\<close>: it advances every 999 ticks, not every 1000.\<close>

theorem SysTick_Task_run:
  assumes "n < 4294967296"
  shows "(SysTick_Task ^^ n) \<lparr>sysTickTimeSec = 0, sysTickCounter32 = 0, sysTickCounter64 = 0\<rparr> =
    \<lparr>sysTickTimeSec = of_nat (n div 999), sysTickCounter32 = of_nat n, sysTickCounter64 = of_nat n\<rparr>"
  using assms
proof (induction n)
  case (Suc n)
  have "(of_nat (Suc n) :: u32) mod 999 = 0 \<longleftrightarrow> Suc n mod 999 = 0"
    using Suc.prems by (simp add: word_unat_eq_iff unat_mod unat_of_nat take_bit_nat_eq_self
        del: of_nat_Suc)
  with Suc show ?case
    by (simp add: SysTick_Task_def Let_def Suc_div_999 ac_simps)
qed simp

lemma SysTick_Task_run_witness:
  "sysTickTimeSec ((SysTick_Task ^^ 1000000)
      \<lparr>sysTickTimeSec = 0, sysTickCounter32 = 0, sysTickCounter64 = 0\<rparr>) = 1001"
  by (simp add: SysTick_Task_run)

end
