(* ===== verification/AmpmList.thy ===== *)
theory AmpmList
  imports Prelude
begin

text \<open>
  The intrusive singly linked lists of \<open>ampm_lib/lib/ampm_list.c\<close>, on a heap of \<open>next\<close>
  fields, and the abstract sequences they implement.  The GSM components keep their
  command, call and message lists in this form; they rely on the locale \<open>item_list\<close> only.
\<close>

section \<open>The heap\<close>

text \<open>
  \<open>h p = Some n\<close>: \<open>p\<close> is a list item whose \<open>next\<close> field is \<open>n\<close> (\<open>None\<close> is the null
  pointer); \<open>h p = None\<close>: there is no item at \<open>p\<close>, and following it is undefined.
  A list variable holds its first item.  Loops are partial functions: on a cyclic list
  they have no value.
\<close>

type_synonym 'p heap = "'p \<Rightarrow> 'p option option"

definition list_init :: "'p option" where
  "list_init = None"

definition list_head :: "'p option \<Rightarrow> 'p option" where
  "list_head l = l"

definition list_copy :: "'p option \<Rightarrow> 'p option \<Rightarrow> 'p option" where
  "list_copy dest src = src"

definition set_next :: "'p heap \<Rightarrow> 'p \<Rightarrow> 'p option \<Rightarrow> 'p heap option" where
  "set_next h p n = (case h p of None \<Rightarrow> None | Some _ \<Rightarrow> Some (h(p \<mapsto> n)))"

partial_function (option) list_tail_loop :: "'p heap \<Rightarrow> 'p \<Rightarrow> 'p option" where
  "list_tail_loop h l = do {
     n \<leftarrow> h l;
     case n of None \<Rightarrow> Some l | Some l' \<Rightarrow> list_tail_loop h l'
   }"

definition list_tail :: "'p heap \<Rightarrow> 'p option \<Rightarrow> 'p option option" where
  "list_tail h l =
     (case l of None \<Rightarrow> Some None | Some p \<Rightarrow> do { t \<leftarrow> list_tail_loop h p; Some (Some t) })"

partial_function (option) list_remove_loop ::
  "'p heap \<Rightarrow> 'p option \<Rightarrow> 'p option \<Rightarrow> 'p option \<Rightarrow> 'p \<Rightarrow> ('p heap \<times> 'p option) option" where
  "list_remove_loop h first r l item =
     (case l of None \<Rightarrow> Some (h, first)
      | Some p \<Rightarrow> do {
          n \<leftarrow> h p;
          if p = item then do {
            (h, first) \<leftarrow> (case r of
                None \<Rightarrow> Some (h, n)
              | Some r' \<Rightarrow> do { h \<leftarrow> set_next h r' n; Some (h, first) });
            h \<leftarrow> set_next h p None;
            Some (h, first)
          }
          else list_remove_loop h first (Some p) n item
        })"

definition list_remove :: "'p heap \<Rightarrow> 'p option \<Rightarrow> 'p \<Rightarrow> ('p heap \<times> 'p option) option" where
  "list_remove h l item =
     (case l of None \<Rightarrow> Some (h, l) | Some _ \<Rightarrow> list_remove_loop h l None l item)"

definition list_add :: "'p heap \<Rightarrow> 'p option \<Rightarrow> 'p \<Rightarrow> ('p heap \<times> 'p option) option" where
  "list_add h l item = do {
     (h, l) \<leftarrow> list_remove h l item;
     h \<leftarrow> set_next h item None;
     t \<leftarrow> list_tail h l;
     case t of
       None \<Rightarrow> Some (h, Some item)
     | Some t \<Rightarrow> do { h \<leftarrow> set_next h t (Some item); Some (h, l) }
   }"

definition list_push :: "'p heap \<Rightarrow> 'p option \<Rightarrow> 'p \<Rightarrow> ('p heap \<times> 'p option) option" where
  "list_push h l item = do {
     (h, l) \<leftarrow> list_remove h l item;
     h \<leftarrow> set_next h item l;
     Some (h, Some item)
   }"

partial_function (option) list_chop_loop :: "'p heap \<Rightarrow> 'p \<Rightarrow> ('p heap \<times> 'p) option" where
  "list_chop_loop h l = do {
     n \<leftarrow> h l;
     r \<leftarrow> n;
     rn \<leftarrow> h r;
     case rn of
       None \<Rightarrow> do { h \<leftarrow> set_next h l None; Some (h, r) }
     | Some _ \<Rightarrow> list_chop_loop h r
   }"

definition list_chop :: "'p heap \<Rightarrow> 'p option \<Rightarrow> ('p heap \<times> 'p option \<times> 'p option) option" where
  "list_chop h l =
     (case l of None \<Rightarrow> Some (h, l, None)
      | Some p \<Rightarrow> do {
          n \<leftarrow> h p;
          case n of None \<Rightarrow> Some (h, None, Some p)
          | Some _ \<Rightarrow> do { (h, r) \<leftarrow> list_chop_loop h p; Some (h, l, Some r) }
        })"

definition list_pop :: "'p heap \<Rightarrow> 'p option \<Rightarrow> ('p option \<times> 'p option) option" where
  "list_pop h l =
     (case l of None \<Rightarrow> Some (l, None) | Some p \<Rightarrow> do { n \<leftarrow> h p; Some (n, Some p) })"

partial_function (option) list_length_loop :: "'p heap \<Rightarrow> 'p option \<Rightarrow> int \<Rightarrow> int option" where
  "list_length_loop h l n =
     (case l of None \<Rightarrow> Some n | Some p \<Rightarrow> do { l' \<leftarrow> h p; list_length_loop h l' (n + 1) })"

definition list_length :: "'p heap \<Rightarrow> 'p option \<Rightarrow> int option" where
  "list_length h l = list_length_loop h l 0"

definition list_insert ::
  "'p heap \<Rightarrow> 'p option \<Rightarrow> 'p option \<Rightarrow> 'p \<Rightarrow> ('p heap \<times> 'p option) option" where
  "list_insert h l previtem newitem =
     (case previtem of
        None \<Rightarrow> list_push h l newitem
      | Some p \<Rightarrow> do {
          n \<leftarrow> h p;
          h \<leftarrow> set_next h newitem n;
          h \<leftarrow> set_next h p (Some newitem);
          Some (h, l)
        })"

definition list_item_next :: "'p heap \<Rightarrow> 'p option \<Rightarrow> 'p option option" where
  "list_item_next h item = (case item of None \<Rightarrow> Some None | Some p \<Rightarrow> h p)"

section \<open>Paths\<close>

fun path :: "'p heap \<Rightarrow> 'p option \<Rightarrow> 'p list \<Rightarrow> 'p option \<Rightarrow> bool" where
  "path h p [] q \<longleftrightarrow> p = q"
| "path h p (x # xs) q \<longleftrightarrow> p = Some x \<and> (\<exists>n. h x = Some n \<and> path h n xs q)"

lemma path_append [simp]:
  "path h p (xs @ ys) q \<longleftrightarrow> (\<exists>m. path h p xs m \<and> path h m ys q)"
  by (induction xs arbitrary: p) auto

lemma path_upd [simp]: "x \<notin> set xs \<Longrightarrow> path (h(x \<mapsto> v)) p xs q = path h p xs q"
  by (induction xs arbitrary: p) auto

lemma path_cong: "(\<And>x. x \<in> set xs \<Longrightarrow> h' x = h x) \<Longrightarrow> path h' p xs q = path h p xs q"
  by (induction xs arbitrary: p) auto

lemma path_unique: "path h p xs None \<Longrightarrow> path h p ys None \<Longrightarrow> xs = ys"
proof (induction xs arbitrary: p ys)
  case Nil
  then show ?case by (cases ys) auto
next
  case (Cons x xs)
  then show ?case by (cases ys) auto
qed

lemma path_distinct: "path h p xs None \<Longrightarrow> distinct xs"
proof (induction xs arbitrary: p)
  case (Cons x xs)
  have "x \<notin> set xs"
  proof
    assume "x \<in> set xs"
    then obtain ys zs where xs: "xs = ys @ x # zs" by (auto simp: in_set_conv_decomp)
    with Cons.prems have "path h (Some x) (x # zs) None" "path h (Some x) (x # xs) None" by auto
    then have "x # zs = x # xs" by (rule path_unique)
    then show False using xs by simp
  qed
  with Cons show ?case by auto
qed simp

lemma path_alloc: "path h p xs q \<Longrightarrow> x \<in> set xs \<Longrightarrow> \<exists>n. h x = Some n"
  by (induction xs arbitrary: p) auto

text \<open>The list variable \<open>l\<close> holds the sequence \<open>xs\<close>.\<close>

definition is_list :: "'p heap \<Rightarrow> 'p option \<Rightarrow> 'p list \<Rightarrow> bool" where
  "is_list h l xs \<longleftrightarrow> path h l xs None"

lemma is_list_distinct: "is_list h l xs \<Longrightarrow> distinct xs"
  by (auto simp: is_list_def dest: path_distinct)

section \<open>The abstract sequence operations\<close>

definition seq_remove :: "'p \<Rightarrow> 'p list \<Rightarrow> 'p list" where
  "seq_remove x xs = remove1 x xs"

definition seq_add :: "'p \<Rightarrow> 'p list \<Rightarrow> 'p list" where
  "seq_add x xs = remove1 x xs @ [x]"

definition seq_push :: "'p \<Rightarrow> 'p list \<Rightarrow> 'p list" where
  "seq_push x xs = x # remove1 x xs"

definition seq_tail :: "'p list \<Rightarrow> 'p option" where
  "seq_tail xs = (if xs = [] then None else Some (last xs))"

definition seq_head :: "'p list \<Rightarrow> 'p option" where
  "seq_head xs = (case xs of [] \<Rightarrow> None | x # _ \<Rightarrow> Some x)"

text \<open>The item after \<open>x\<close>, for walking a list from a known item.\<close>

fun seq_next :: "'p list \<Rightarrow> 'p \<Rightarrow> 'p option" where
  "seq_next [] x = None"
| "seq_next (y # ys) x = (if y = x then seq_head ys else seq_next ys x)"

section \<open>Correctness\<close>

lemma list_tail_loop_path:
  "path h (Some p) (p # xs) None \<Longrightarrow> list_tail_loop h p = Some (last (p # xs))"
proof (induction xs arbitrary: p)
  case Nil
  then show ?case by (simp add: list_tail_loop.simps)
next
  case (Cons x xs)
  then have "h p = Some (Some x)" "path h (Some x) (x # xs) None" by auto
  with Cons.IH [of x] show ?case by (simp add: list_tail_loop.simps [of h p])
qed

lemma list_tail_seq: "is_list h l xs \<Longrightarrow> list_tail h l = Some (seq_tail xs)"
  using list_tail_loop_path [of h "hd xs" "tl xs"]
  by (cases xs) (auto simp: list_tail_def is_list_def seq_tail_def)

lemma list_length_loop_path:
  "path h p xs None \<Longrightarrow> list_length_loop h p n = Some (n + int (length xs))"
proof (induction xs arbitrary: p n)
  case Nil
  then show ?case by (simp add: list_length_loop.simps)
next
  case (Cons x xs)
  then show ?case by (auto simp: list_length_loop.simps [of h "Some x" n])
qed

lemma list_length_seq: "is_list h l xs \<Longrightarrow> list_length h l = Some (int (length xs))"
  by (simp add: list_length_def is_list_def list_length_loop_path)

lemma list_pop_seq:
  "is_list h l xs \<Longrightarrow>
   \<exists>l'. list_pop h l = Some (l', seq_head xs) \<and> is_list h l' (tl xs)"
  by (cases xs) (auto simp: list_pop_def is_list_def seq_head_def)

lemma list_remove_loop_path:
  assumes "path h first (pre @ post) None" "path h l post None"
    and "r = (if pre = [] then None else Some (last pre))" "item \<notin> set pre"
  shows "\<exists>h' first'. list_remove_loop h first r l item = Some (h', first')
    \<and> path h' first' (pre @ remove1 item post) None
    \<and> (\<forall>q. q \<notin> set (pre @ post) \<longrightarrow> h' q = h q) \<and> (\<forall>q. h' q = None \<longleftrightarrow> h q = None)"
  using assms
proof (induction post arbitrary: pre l r)
  case Nil
  then show ?case by (auto simp: list_remove_loop.simps)
next
  case (Cons x post)
  then obtain n where n: "l = Some x" "h x = Some n" "path h n post None" by auto
  have dist: "distinct (pre @ x # post)" using path_distinct [OF Cons.prems(1)] .
  show ?case
  proof (cases "x = item")
    case False
    then have step: "list_remove_loop h first r l item = list_remove_loop h first (Some x) n item"
      using n by (subst list_remove_loop.simps) simp
    have "\<exists>h' first'. list_remove_loop h first (Some x) n item = Some (h', first')
        \<and> path h' first' ((pre @ [x]) @ remove1 item post) None
        \<and> (\<forall>q. q \<notin> set ((pre @ [x]) @ post) \<longrightarrow> h' q = h q) \<and> (\<forall>q. h' q = None \<longleftrightarrow> h q = None)"
      using Cons.prems n False by (intro Cons.IH) simp_all
    then show ?thesis using False by (simp add: step)
  next
    case True
    show ?thesis
    proof (cases pre rule: rev_cases)
      case Nil
      with True n Cons.prems(3) have "list_remove_loop h first r l item = Some (h(x \<mapsto> None), n)"
        by (subst list_remove_loop.simps) (simp add: set_next_def)
      then show ?thesis using True n dist Nil by simp
    next
      case (snoc pre' y)
      with Cons.prems obtain m where m: "path h first pre' (Some y)" "h y = Some (Some x)"
        by auto
      have "list_remove_loop h first r l item = Some (h(y \<mapsto> n, x \<mapsto> None), first)"
        using True snoc n m dist Cons.prems(3)
        by (subst list_remove_loop.simps) (simp add: set_next_def)
      moreover have "path (h(y \<mapsto> n, x \<mapsto> None)) first (pre' @ [y] @ post) None"
        using m n dist snoc by (auto simp: fun_upd_twist)
      moreover have "\<forall>q. (h(y \<mapsto> n, x \<mapsto> None)) q = None \<longleftrightarrow> h q = None" using m n by auto
      ultimately show ?thesis using True snoc by simp
    qed
  qed
qed

lemma list_remove_seq:
  assumes "is_list h l xs"
  shows "\<exists>h' l'. list_remove h l item = Some (h', l') \<and> is_list h' l' (seq_remove item xs)
    \<and> (\<forall>q. q \<notin> set xs \<longrightarrow> h' q = h q) \<and> (\<forall>q. h' q = None \<longleftrightarrow> h q = None)"
proof (cases l)
  case None
  with assms have "xs = []" by (cases xs) (auto simp: is_list_def)
  with None show ?thesis by (simp add: list_remove_def is_list_def seq_remove_def)
next
  case (Some p)
  with list_remove_loop_path [of h l "[]" xs l None item] assms show ?thesis
    by (simp add: list_remove_def is_list_def seq_remove_def)
qed

lemma list_push_seq:
  assumes "is_list h l xs" "h item \<noteq> None"
  shows "\<exists>h' l'. list_push h l item = Some (h', l') \<and> is_list h' l' (seq_push item xs)
    \<and> (\<forall>q. q \<notin> set xs \<and> q \<noteq> item \<longrightarrow> h' q = h q) \<and> (\<forall>q. h' q = None \<longleftrightarrow> h q = None)"
proof -
  from list_remove_seq [OF assms(1), of item] obtain h1 l1 where r:
    "list_remove h l item = Some (h1, l1)" "is_list h1 l1 (remove1 item xs)"
    "\<forall>q. q \<notin> set xs \<longrightarrow> h1 q = h q" "\<forall>q. h1 q = None \<longleftrightarrow> h q = None"
    by (auto simp: seq_remove_def)
  have ni: "item \<notin> set (remove1 item xs)" using is_list_distinct [OF assms(1)] by simp
  have "h1 item \<noteq> None" using r(4) assms(2) by simp
  with r ni show ?thesis
    by (auto simp: list_push_def set_next_def seq_push_def is_list_def split: option.splits)
qed

lemma list_add_seq:
  assumes "is_list h l xs" "h item \<noteq> None"
  shows "\<exists>h' l'. list_add h l item = Some (h', l') \<and> is_list h' l' (seq_add item xs)
    \<and> (\<forall>q. q \<notin> set xs \<and> q \<noteq> item \<longrightarrow> h' q = h q) \<and> (\<forall>q. h' q = None \<longleftrightarrow> h q = None)"
proof -
  from list_remove_seq [OF assms(1), of item] obtain h1 l1 where r:
    "list_remove h l item = Some (h1, l1)" "is_list h1 l1 (remove1 item xs)"
    "\<forall>q. q \<notin> set xs \<longrightarrow> h1 q = h q" "\<forall>q. h1 q = None \<longleftrightarrow> h q = None"
    by (auto simp: seq_remove_def)
  have ni: "item \<notin> set (remove1 item xs)" using is_list_distinct [OF assms(1)] by simp
  have "h1 item \<noteq> None" using r(4) assms(2) by simp
  then obtain n1 where al: "h1 item = Some n1" by auto
  let ?h2 = "h1(item \<mapsto> None)"
  have l2: "is_list ?h2 l1 (remove1 item xs)" using r(2) ni by (simp add: is_list_def)
  show ?thesis
  proof (cases "remove1 item xs" rule: rev_cases)
    case Nil
    with l2 have "list_tail ?h2 l1 = Some None" by (simp add: list_tail_seq seq_tail_def)
    with r al Nil assms(2) show ?thesis
      by (auto simp: list_add_def set_next_def seq_add_def is_list_def)
  next
    case (snoc ys y)
    have t: "list_tail ?h2 l1 = Some (Some y)"
      using list_tail_seq [OF l2] by (simp add: snoc seq_tail_def)
    have y: "y \<noteq> item" "y \<in> set xs" "y \<notin> set ys"
      using ni is_list_distinct [OF l2] set_remove1_subset [of item xs] by (auto simp: snoc)
    have "path ?h2 l1 ys (Some y) \<and> ?h2 y = Some None"
      using l2 by (auto simp: is_list_def snoc)
    then have "is_list (?h2(y \<mapsto> Some item)) l1 (ys @ [y, item])"
      using y ni by (auto simp: is_list_def snoc)
    moreover have "list_add h l item = Some (?h2(y \<mapsto> Some item), l1)"
      using r t al y(1) \<open>path ?h2 l1 ys (Some y) \<and> ?h2 y = Some None\<close>
      by (auto simp: list_add_def set_next_def)
    moreover have "\<forall>q. (?h2(y \<mapsto> Some item)) q = None \<longleftrightarrow> h q = None"
    proof -
      have "?h2 y \<noteq> None" using \<open>path ?h2 l1 ys (Some y) \<and> ?h2 y = Some None\<close> by simp
      with y(1) have "h y \<noteq> None" using r(4) by simp
      then show ?thesis using r(4) assms(2) by simp
    qed
    ultimately show ?thesis using r(3) y by (auto simp: seq_add_def snoc)
  qed
qed

lemma list_chop_loop_path:
  "path h (Some p) (p # xs @ [z]) None \<Longrightarrow>
   list_chop_loop h p = Some (h(last (p # xs) \<mapsto> None), z)"
proof (induction xs arbitrary: p)
  case Nil
  then show ?case by (auto simp: list_chop_loop.simps [of h p] set_next_def)
next
  case (Cons x xs)
  then obtain m where "h p = Some (Some x)" "h x = Some (Some m)"
    "path h (Some x) (x # xs @ [z]) None" by (cases xs) auto
  with Cons.IH [of x] show ?case by (simp add: list_chop_loop.simps [of h p])
qed

lemma list_chop_seq:
  assumes "is_list h l xs"
  shows "\<exists>h' l'. list_chop h l = Some (h', l', seq_tail xs) \<and> is_list h' l' (butlast xs)"
proof (cases xs)
  case Nil
  with assms show ?thesis by (simp add: list_chop_def is_list_def seq_tail_def)
next
  case (Cons p ys)
  show ?thesis
  proof (cases ys rule: rev_cases)
    case Nil
    with Cons assms show ?thesis by (auto simp: list_chop_def is_list_def seq_tail_def)
  next
    case (snoc zs z)
    have pth: "path h (Some p) (p # zs @ [z]) None" "l = Some p"
      using assms Cons snoc by (auto simp: is_list_def)
    have "h p \<noteq> None \<and> h p \<noteq> Some None" using pth by (cases zs) auto
    then have "list_chop h l = Some (h(last (p # zs) \<mapsto> None), l, Some z)"
      using pth(2) list_chop_loop_path [OF pth(1)] by (auto simp: list_chop_def)
    moreover have "is_list (h(last (p # zs) \<mapsto> None)) l (p # zs)"
    proof (cases "p # zs" rule: rev_cases)
      case (snoc ws w)
      then have "path h (Some p) (ws @ [w, z]) None" using pth(1) by (simp flip: append_Cons)
      moreover from this have "distinct (ws @ [w, z])" by (rule path_distinct)
      ultimately show ?thesis unfolding snoc is_list_def using pth(2) by auto
    qed simp
    ultimately show ?thesis using Cons snoc by (auto simp: seq_tail_def)
  qed
qed

section \<open>The contract of an intrusive list\<close>

datatype 'p list_op = Add 'p | Push 'p | Remove 'p | Pop | Chop

text \<open>What a call answers: the item taken out, for the two calls that return one.\<close>

fun seq_op :: "'p list_op \<Rightarrow> 'p list \<Rightarrow> 'p list \<times> 'p option" where
  "seq_op (Add x) xs = (seq_add x xs, None)"
| "seq_op (Push x) xs = (seq_push x xs, None)"
| "seq_op (Remove x) xs = (seq_remove x xs, None)"
| "seq_op Pop xs = (tl xs, seq_head xs)"
| "seq_op Chop xs = (butlast xs, seq_tail xs)"

fun seq_run :: "'p list_op list \<Rightarrow> 'p list \<Rightarrow> 'p list \<times> 'p option list" where
  "seq_run [] xs = (xs, [])"
| "seq_run (op # ops) xs =
     (let (ys, a) = seq_op op xs; (zs, as) = seq_run ops ys in (zs, a # as))"

fun op_items :: "'p list_op \<Rightarrow> 'p set" where
  "op_items (Add x) = {x}" | "op_items (Push x) = {x}" | "op_items (Remove x) = {}"
| "op_items Pop = {}" | "op_items Chop = {}"

fun ops_run :: "('s \<Rightarrow> 'p list_op \<Rightarrow> ('s \<times> 'p option) option) \<Rightarrow> 's \<Rightarrow> 'p list_op list
    \<Rightarrow> ('s \<times> 'p option list) option" where
  "ops_run step s [] = Some (s, [])"
| "ops_run step s (op # ops) = do {
     (s, a) \<leftarrow> step s op;
     (s, as) \<leftarrow> ops_run step s ops;
     Some (s, a # as)
   }"

locale item_list =
  fixes rep :: "'s \<Rightarrow> 'p list \<Rightarrow> bool"
    and item :: "'s \<Rightarrow> 'p \<Rightarrow> bool"
    and step :: "'s \<Rightarrow> 'p list_op \<Rightarrow> ('s \<times> 'p option) option"
  assumes simulates: "rep s xs \<Longrightarrow> \<forall>x\<in>op_items op. item s x \<Longrightarrow>
      \<exists>s'. step s op = Some (s', snd (seq_op op xs)) \<and> rep s' (fst (seq_op op xs))"
    and items_kept: "rep s xs \<Longrightarrow> step s op = Some (s', a) \<Longrightarrow> item s' x \<longleftrightarrow> item s x"
begin

lemma run_simulates:
  "rep s xs \<Longrightarrow> \<forall>op\<in>set ops. \<forall>x\<in>op_items op. item s x \<Longrightarrow>
   \<exists>s'. ops_run step s ops = Some (s', snd (seq_run ops xs)) \<and> rep s' (fst (seq_run ops xs))"
proof (induction ops arbitrary: s xs)
  case (Cons op ops)
  then obtain s1 where s1: "step s op = Some (s1, snd (seq_op op xs))" "rep s1 (fst (seq_op op xs))"
    using simulates [of s xs op] by auto
  then have "\<forall>op\<in>set ops. \<forall>x\<in>op_items op. item s1 x"
    using Cons.prems items_kept [OF Cons.prems(1) s1(1)] by simp
  from Cons.IH [OF s1(2) this] s1 show ?case by (auto simp: Let_def split: prod.split)
qed simp

end

text \<open>The five mutators of the C library as steps of a heap and a list variable.\<close>

definition c_list_step ::
  "'p heap \<times> 'p option \<Rightarrow> 'p list_op \<Rightarrow> (('p heap \<times> 'p option) \<times> 'p option) option" where
  "c_list_step s op = (case s of (h, l) \<Rightarrow>
     (case op of
        Add x \<Rightarrow> do { s \<leftarrow> list_add h l x; Some (s, None) }
      | Push x \<Rightarrow> do { s \<leftarrow> list_push h l x; Some (s, None) }
      | Remove x \<Rightarrow> do { s \<leftarrow> list_remove h l x; Some (s, None) }
      | Pop \<Rightarrow> do { (l, x) \<leftarrow> list_pop h l; Some ((h, l), x) }
      | Chop \<Rightarrow> do { (h, l, x) \<leftarrow> list_chop h l; Some ((h, l), x) }))"

lemma set_next_dom: "set_next h p n = Some h' \<Longrightarrow> dom h' = dom h"
  by (auto simp: set_next_def split: option.splits if_splits)

lemma list_chop_loop_dom:
  "path h (Some p) (p # xs @ [z]) None \<Longrightarrow> list_chop_loop h p = Some (h', r) \<Longrightarrow>
   dom h' = dom h"
  using list_chop_loop_path [of h p xs z] path_alloc [of h "Some p" "p # xs @ [z]" None "last (p # xs)"]
  by (cases "xs = []") (auto split: if_splits)

lemma list_chop_dom:
  assumes "is_list h l xs" "list_chop h l = Some (h', l', x)"
  shows "dom h' = dom h"
proof (cases xs)
  case Nil
  with assms show ?thesis by (auto simp: list_chop_def is_list_def)
next
  case (Cons p ys)
  show ?thesis
  proof (cases ys rule: rev_cases)
    case Nil
    with Cons assms show ?thesis by (auto simp: list_chop_def is_list_def)
  next
    case (snoc zs z)
    have "path h (Some p) (p # zs @ [z]) None" "l = Some p"
      using assms(1) Cons snoc by (auto simp: is_list_def)
    with assms(2) list_chop_loop_dom [of h p zs z h'] show ?thesis
      by (auto simp: list_chop_def split: Option.bind_splits option.splits del: equalityI)
  qed
qed

lemma c_list_step_simulates:
  assumes "is_list h l xs" "\<forall>x\<in>op_items op. h x \<noteq> None"
  shows "\<exists>h' l'. c_list_step (h, l) op = Some ((h', l'), snd (seq_op op xs))
    \<and> is_list h' l' (fst (seq_op op xs))"
proof (cases op)
  case (Add x)
  with assms list_add_seq [OF assms(1), of x] show ?thesis by (fastforce simp: c_list_step_def)
next
  case (Push x)
  with assms list_push_seq [OF assms(1), of x] show ?thesis by (fastforce simp: c_list_step_def)
next
  case (Remove x)
  with list_remove_seq [OF assms(1), of x] show ?thesis by (fastforce simp: c_list_step_def)
next
  case Pop
  with list_pop_seq [OF assms(1)] show ?thesis by (fastforce simp: c_list_step_def)
next
  case Chop
  with list_chop_seq [OF assms(1)] show ?thesis by (fastforce simp: c_list_step_def)
qed

lemma list_remove_dom:
  "is_list h l xs \<Longrightarrow> list_remove h l x = Some (h', l') \<Longrightarrow> dom h' = dom h"
  using list_remove_seq [of h l xs x] by (auto simp: dom_def)

lemma list_push_dom:
  "is_list h l xs \<Longrightarrow> list_push h l x = Some (h', l') \<Longrightarrow> dom h' = dom h"
  by (auto simp: list_push_def split: Option.bind_splits dest!: set_next_dom list_remove_dom
      del: equalityI)

lemma list_add_dom:
  "is_list h l xs \<Longrightarrow> list_add h l x = Some (h', l') \<Longrightarrow> dom h' = dom h"
  by (auto simp: list_add_def split: Option.bind_splits option.splits
      dest!: set_next_dom list_remove_dom
      del: equalityI)

lemma c_list_step_dom:
  "is_list h l xs \<Longrightarrow> c_list_step (h, l) op = Some ((h', l'), a) \<Longrightarrow> dom h' = dom h"
  by (cases op) (auto simp: c_list_step_def split: Option.bind_splits
      del: equalityI
      intro: list_add_dom list_push_dom list_remove_dom list_chop_dom)

interpretation c_list: item_list "\<lambda>s. is_list (fst s) (snd s)" "\<lambda>s x. fst s x \<noteq> None" c_list_step
proof
  fix s :: "'a heap \<times> 'a option" and xs op
  assume "is_list (fst s) (snd s) xs" "\<forall>x\<in>op_items op. fst s x \<noteq> None"
  from c_list_step_simulates [OF this]
  show "\<exists>s'. c_list_step s op = Some (s', snd (seq_op op xs)) \<and>
      is_list (fst s') (snd s') (fst (seq_op op xs))" by fastforce
next
  fix s :: "'a heap \<times> 'a option" and xs op s' a x
  assume "is_list (fst s) (snd s) xs" "c_list_step s op = Some (s', a)"
  with c_list_step_dom [of "fst s" "snd s" xs op "fst s'" "snd s'" a]
  show "fst s' x \<noteq> None \<longleftrightarrow> fst s x \<noteq> None" by (simp add: dom_def set_eq_iff)
qed

section \<open>Properties of the list library\<close>

text \<open>Property C30. Every sequence of \<open>list_add\<close>, \<open>list_push\<close>, \<open>list_remove\<close>, \<open>list_pop\<close> and
  \<open>list_chop\<close> calls on a well-formed list of allocated items ends, follows no invalid
  pointer, and answers as the abstract sequence does.\<close>

theorem list_refines_sequence:
  assumes "is_list h l xs" "\<forall>op\<in>set ops. \<forall>x\<in>op_items op. h x \<noteq> None"
  shows "\<exists>h' l'. ops_run c_list_step (h, l) ops = Some ((h', l'), snd (seq_run ops xs))
    \<and> is_list h' l' (fst (seq_run ops xs))"
  using c_list.run_simulates [of "(h, l)" xs ops] assms by auto

lemma list_refines_sequence_witness:
  "\<exists>h' l'. ops_run c_list_step (\<lambda>p. if p < (3 :: nat) then Some None else None, None)
      [Add 0, Add 1, Add 0, Push 2, Remove 1, Pop, Chop, Pop]
    = Some ((h', l'), [None, None, None, None, None, Some 2, Some 0, None]) \<and> is_list h' l' []"
  using list_refines_sequence [of "\<lambda>p. if p < (3 :: nat) then Some None else None" None "[]"
      "[Add 0, Add 1, Add 0, Push 2, Remove 1, Pop, Chop, Pop]"]
  by (simp add: is_list_def seq_add_def seq_push_def seq_remove_def seq_head_def seq_tail_def)

text \<open>\<open>list_tail\<close> returns the last item and \<open>list_length\<close> the number of items of a
  well-formed list; \<open>list_insert\<close> after an item of the list puts the new item there.\<close>

theorem list_queries:
  assumes "is_list h l (ys @ p # zs)" "new \<notin> set (ys @ p # zs)" "h new \<noteq> None"
  shows "list_tail h l = Some (Some (last (p # zs)))
    \<and> list_length h l = Some (int (length ys + length zs + 1))
    \<and> (\<exists>h'. list_insert h l (Some p) new = Some (h', l) \<and> is_list h' l (ys @ p # new # zs))"
proof -
  from assms(1) obtain n where n: "path h l ys (Some p)" "h p = Some n" "path h n zs None"
    by (auto simp: is_list_def)
  have d: "distinct (ys @ p # zs)" using is_list_distinct [OF assms(1)] .
  have "list_insert h l (Some p) new = Some (h(new \<mapsto> n, p \<mapsto> Some new), l)"
    using n assms(2,3) by (auto simp: list_insert_def set_next_def)
  moreover have "is_list (h(new \<mapsto> n, p \<mapsto> Some new)) l (ys @ p # new # zs)"
    using n d assms(2) by (simp add: is_list_def)
  ultimately show ?thesis
    using list_tail_seq [OF assms(1)] list_length_seq [OF assms(1)] by (simp add: seq_tail_def)
qed

lemma list_queries_witness:
  "\<exists>h'. list_insert (\<lambda>p. if p = 0 then Some (Some 1) else Some None) (Some (0 :: nat)) (Some 0) 2
     = Some (h', Some 0) \<and> is_list h' (Some 0) [0, 2, 1]"
  using list_queries [of "\<lambda>p. if p = 0 then Some (Some 1) else Some None" "Some (0 :: nat)" "[]" 0 "[1]" 2]
  by (simp add: is_list_def)

end
