(* ===== verification/CmdEngine.thy ===== *)
theory CmdEngine
  imports SysTick AmpmList
begin

text \<open>
  The command engine of \<open>ampm_lib/lib/sparser.c\<close> (\<open>Ampm_SendCmd\<close> to
  \<open>Ampm_Cmd_Task\<close>): it sends one command, waits for its answer under a timeout,
  repeats it a bounded number of times and goes on to the next command of a chain or list.

  A command is a constant of the program or a working copy of one.  Its pointer to the next
  command of the chain is a key that \<open>rom\<close> resolves, its three callbacks are
  addresses that the dispatch arguments \<open>send_cb\<close>, \<open>recv_cb\<close> and \<open>end_cb\<close>
  resolve.  The engine's variables are the first fields of the state of the program that
  uses it, so a callback may change them as the C callbacks do.  The tick counter is read
  once per call.  The command list holds items with their address; the operations on it are
  the sequence operations that the linked list implements (\<open>list_refines_sequence\<close>).
\<close>

section \<open>State\<close>

datatype AMPM_CMD_PHASE =
  AMPM_CMD_SEND | AMPM_CMD_RESEND | AMPM_CMD_WAIT | AMPM_CMD_DELAY
| AMPM_CMD_GOTO_ERROR | AMPM_CMD_ERROR | AMPM_CMD_OK

record ('k, 'a, 's, 'r, 'e) AMPM_CMD_PROCESS =
  cmd_next :: "'k option"
  appStruct :: "'a option"
  send_data_callback :: "'s option"
  recv_data_callback :: "'r option"
  end_data_callback :: "'e option"
  retryNum :: u8
  cmd_timeout :: u16
  cmd_delay :: u16

record ('k, 'a, 's, 'r, 'e) cmd_engine =
  CmdPhase :: AMPM_CMD_PHASE
  CmdSend :: "('k, 'a, 's, 'r, 'e) AMPM_CMD_PROCESS"
  CmdList :: "(nat \<times> 'k) list"
  TaskTimeout :: Timeout_Type
  tick :: u32

section \<open>The list of waiting commands\<close>

definition Ampm_CmdAddToList :: "nat \<times> 'k \<Rightarrow> (nat \<times> 'k) list \<Rightarrow> (nat \<times> 'k) list" where
  "Ampm_CmdAddToList item l = filter (\<lambda>x. fst x \<noteq> fst item) l @ [item]"

definition Ampm_CmdResetList :: "(nat \<times> 'k) list \<Rightarrow> (nat \<times> 'k) list" where
  "Ampm_CmdResetList l = []"

definition Ampm_CmdCheckList_IsEmpty :: "(nat \<times> 'k) list \<Rightarrow> u8" where
  "Ampm_CmdCheckList_IsEmpty l = (if l = [] then 1 else 0)"

definition Ampm_CmdCheck_IsEmpty :: "('k, 'a, 's, 'r, 'e) AMPM_CMD_PROCESS \<Rightarrow> bool" where
  "Ampm_CmdCheck_IsEmpty cmd = (cmd_next cmd = None)"

definition Ampm_CmdTask_IsIdle :: "AMPM_CMD_PHASE \<Rightarrow> bool" where
  "Ampm_CmdTask_IsIdle phase = (case phase of AMPM_CMD_ERROR \<Rightarrow> True | AMPM_CMD_OK \<Rightarrow> True | _ \<Rightarrow> False)"

section \<open>Starting a command\<close>

definition start_timeout :: "u32 \<Rightarrow> ('k, 'a, 's, 'r, 'e, 'z) cmd_engine_scheme \<Rightarrow> ('k, 'a, 's, 'r, 'e, 'z) cmd_engine_scheme" where
  "start_timeout ms s = s\<lparr>TaskTimeout := InitTimeout (tick s) (TaskTimeout s) ms\<rparr>"

definition check_timeout :: "('k, 'a, 's, 'r, 'e, 'z) cmd_engine_scheme \<Rightarrow> u32 \<times> ('k, 'a, 's, 'r, 'e, 'z) cmd_engine_scheme" where
  "check_timeout s = (let (r, t) = CheckTimeout (tick s) (TaskTimeout s) in (r, s\<lparr>TaskTimeout := t\<rparr>))"

definition Ampm_SendCmdNow ::
  "('k, 'a, 's, 'r, 'e) AMPM_CMD_PROCESS \<Rightarrow> ('k, 'a, 's, 'r, 'e, 'z) cmd_engine_scheme
   \<Rightarrow> ('k, 'a, 's, 'r, 'e, 'z) cmd_engine_scheme" where
  "Ampm_SendCmdNow cmd s =
     (let s = s\<lparr>CmdSend := cmd\<rparr>;
          s = start_timeout (ucast (cmd_delay (CmdSend s))) s
      in s\<lparr>CmdPhase := AMPM_CMD_SEND\<rparr>)"

definition Ampm_SendCmd ::
  "('k, 'a, 's, 'r, 'e) AMPM_CMD_PROCESS \<Rightarrow> ('k, 'a, 's, 'r, 'e, 'z) cmd_engine_scheme
   \<Rightarrow> bool \<times> ('k, 'a, 's, 'r, 'e, 'z) cmd_engine_scheme" where
  "Ampm_SendCmd cmd s =
     (if Ampm_CmdTask_IsIdle (CmdPhase s) then
        (let s = s\<lparr>CmdSend := cmd\<rparr>;
             s = start_timeout (ucast (cmd_delay (CmdSend s))) s
         in (True, s\<lparr>CmdPhase := AMPM_CMD_SEND\<rparr>))
      else (False, s))"

section \<open>The task\<close>

definition cmd_phase_send ::
  "('s \<Rightarrow> ('k, 'a, 's, 'r, 'e, 'z) cmd_engine_scheme \<Rightarrow> ('k, 'a, 's, 'r, 'e, 'z) cmd_engine_scheme option)
   \<Rightarrow> ('k, 'a, 's, 'r, 'e, 'z) cmd_engine_scheme \<Rightarrow> ('k, 'a, 's, 'r, 'e, 'z) cmd_engine_scheme option" where
  "cmd_phase_send send_cb s =
     (let (r, s) = check_timeout s
      in if r = 0 then
           (case send_data_callback (CmdSend s) of
              Some f \<Rightarrow> do {
                s \<leftarrow> send_cb f s;
                let s = start_timeout (ucast (cmd_timeout (CmdSend s))) s;
                Some (s\<lparr>CmdPhase := AMPM_CMD_WAIT\<rparr>)
              }
            | None \<Rightarrow> Some (s\<lparr>CmdPhase := AMPM_CMD_DELAY\<rparr>))
         else Some s)"

definition cmd_phase_resend ::
  "('k, 'a, 's, 'r, 'e, 'z) cmd_engine_scheme \<Rightarrow> ('k, 'a, 's, 'r, 'e, 'z) cmd_engine_scheme" where
  "cmd_phase_resend s =
     (if retryNum (CmdSend s) \<noteq> 0 then
        (let s = s\<lparr>CmdSend := (CmdSend s)\<lparr>retryNum := retryNum (CmdSend s) - 1\<rparr>\<rparr>;
             s = start_timeout (ucast (cmd_delay (CmdSend s))) s
         in s\<lparr>CmdPhase := AMPM_CMD_SEND\<rparr>)
      else s\<lparr>CmdPhase := AMPM_CMD_GOTO_ERROR\<rparr>)"

text \<open>The end of a command in \<open>phase\<close>, reported as \<open>result\<close>: the phase is only
  moved on when the callback asks for it and left it alone.\<close>

definition cmd_finish ::
  "('e \<Rightarrow> AMPM_CMD_PHASE \<Rightarrow> ('k, 'a, 's, 'r, 'e, 'z) cmd_engine_scheme \<Rightarrow> (u8 \<times> ('k, 'a, 's, 'r, 'e, 'z) cmd_engine_scheme) option)
   \<Rightarrow> AMPM_CMD_PHASE \<Rightarrow> AMPM_CMD_PHASE \<Rightarrow> ('k, 'a, 's, 'r, 'e, 'z) cmd_engine_scheme
   \<Rightarrow> ('k, 'a, 's, 'r, 'e, 'z) cmd_engine_scheme option" where
  "cmd_finish end_cb phase result s =
     (case end_data_callback (CmdSend s) of
        Some f \<Rightarrow> do {
          (r, s) \<leftarrow> end_cb f result s;
          Some (if r \<noteq> 0 \<and> CmdPhase s = phase then s\<lparr>CmdPhase := result\<rparr> else s)
        }
      | None \<Rightarrow> Some (s\<lparr>CmdPhase := result\<rparr>))"

definition cmd_phase_wait ::
  "('r \<Rightarrow> ('k, 'a, 's, 'r, 'e, 'z) cmd_engine_scheme \<Rightarrow> (AMPM_CMD_PHASE \<times> ('k, 'a, 's, 'r, 'e, 'z) cmd_engine_scheme) option)
   \<Rightarrow> ('k, 'a, 's, 'r, 'e, 'z) cmd_engine_scheme \<Rightarrow> ('k, 'a, 's, 'r, 'e, 'z) cmd_engine_scheme option" where
  "cmd_phase_wait recv_cb s =
     (case recv_data_callback (CmdSend s) of
        None \<Rightarrow> Some (s\<lparr>CmdPhase := AMPM_CMD_DELAY\<rparr>)
      | Some f \<Rightarrow>
          (let (r, s) = check_timeout s
           in if r = 0 then Some (s\<lparr>CmdPhase := AMPM_CMD_RESEND\<rparr>)
              else do {
                (res, s) \<leftarrow> recv_cb f s;
                Some (if res = AMPM_CMD_DELAY then
                        (start_timeout (ucast (cmd_delay (CmdSend s))) s)\<lparr>CmdPhase := AMPM_CMD_DELAY\<rparr>
                      else if res = AMPM_CMD_RESEND then
                        start_timeout (ucast (cmd_delay (CmdSend s))) (s\<lparr>CmdPhase := AMPM_CMD_RESEND\<rparr>)
                      else s)
              }))"

definition cmd_phase_idle ::
  "('k \<Rightarrow> ('k, 'a, 's, 'r, 'e) AMPM_CMD_PROCESS) \<Rightarrow> ('k, 'a, 's, 'r, 'e, 'z) cmd_engine_scheme
   \<Rightarrow> ('k, 'a, 's, 'r, 'e, 'z) cmd_engine_scheme" where
  "cmd_phase_idle rom s =
     (case cmd_next (CmdSend s) of
        Some k \<Rightarrow> Ampm_SendCmdNow (rom k) s
      | None \<Rightarrow>
          (case CmdList s of
             [] \<Rightarrow> s
           | (a, k) # l \<Rightarrow>
               (if CmdPhase s \<noteq> AMPM_CMD_ERROR then Ampm_SendCmdNow (rom k) (s\<lparr>CmdList := l\<rparr>)
                else s\<lparr>CmdList := []\<rparr>)))"

definition Ampm_Cmd_Task ::
  "('k \<Rightarrow> ('k, 'a, 's, 'r, 'e) AMPM_CMD_PROCESS)
   \<Rightarrow> ('s \<Rightarrow> ('k, 'a, 's, 'r, 'e, 'z) cmd_engine_scheme \<Rightarrow> ('k, 'a, 's, 'r, 'e, 'z) cmd_engine_scheme option)
   \<Rightarrow> ('r \<Rightarrow> ('k, 'a, 's, 'r, 'e, 'z) cmd_engine_scheme \<Rightarrow> (AMPM_CMD_PHASE \<times> ('k, 'a, 's, 'r, 'e, 'z) cmd_engine_scheme) option)
   \<Rightarrow> ('e \<Rightarrow> AMPM_CMD_PHASE \<Rightarrow> ('k, 'a, 's, 'r, 'e, 'z) cmd_engine_scheme \<Rightarrow> (u8 \<times> ('k, 'a, 's, 'r, 'e, 'z) cmd_engine_scheme) option)
   \<Rightarrow> ('k, 'a, 's, 'r, 'e, 'z) cmd_engine_scheme \<Rightarrow> ('k, 'a, 's, 'r, 'e, 'z) cmd_engine_scheme option" where
  "Ampm_Cmd_Task rom send_cb recv_cb end_cb s =
     (case CmdPhase s of
        AMPM_CMD_SEND \<Rightarrow> cmd_phase_send send_cb s
      | AMPM_CMD_RESEND \<Rightarrow> Some (cmd_phase_resend s)
      | AMPM_CMD_GOTO_ERROR \<Rightarrow> cmd_finish end_cb AMPM_CMD_GOTO_ERROR AMPM_CMD_ERROR s
      | AMPM_CMD_WAIT \<Rightarrow> cmd_phase_wait recv_cb s
      | AMPM_CMD_DELAY \<Rightarrow>
          (let (r, s) = check_timeout s
           in if r = 0 then cmd_finish end_cb AMPM_CMD_DELAY AMPM_CMD_OK s else Some s)
      | AMPM_CMD_ERROR \<Rightarrow> Some (cmd_phase_idle rom s)
      | AMPM_CMD_OK \<Rightarrow> Some (cmd_phase_idle rom s))"

section \<open>Elementary facts\<close>

lemma idle_phases: "Ampm_CmdTask_IsIdle p \<longleftrightarrow> p = AMPM_CMD_ERROR \<or> p = AMPM_CMD_OK"
  by (cases p) (auto simp: Ampm_CmdTask_IsIdle_def)

lemma SendCmdNow_fields [simp]:
  "CmdPhase (Ampm_SendCmdNow cmd s) = AMPM_CMD_SEND"
  "CmdSend (Ampm_SendCmdNow cmd s) = cmd"
  "CmdList (Ampm_SendCmdNow cmd s) = CmdList s"
  "tick (Ampm_SendCmdNow cmd s) = tick s"
  "TaskTimeout (Ampm_SendCmdNow cmd s) = InitTimeout (tick s) (TaskTimeout s) (ucast (cmd_delay cmd))"
  by (simp_all add: Ampm_SendCmdNow_def start_timeout_def Let_def)

lemma start_timeout_fields [simp]:
  "CmdPhase (start_timeout ms s) = CmdPhase s" "CmdSend (start_timeout ms s) = CmdSend s"
  "CmdList (start_timeout ms s) = CmdList s" "tick (start_timeout ms s) = tick s"
  "TaskTimeout (start_timeout ms s) = InitTimeout (tick s) (TaskTimeout s) ms"
  by (simp_all add: start_timeout_def)

text \<open>Handing a command to the engine: \<open>Ampm_SendCmd\<close> takes it exactly when
  the engine is idle, and then the command is the current one, is sent next and its start
  delay is running; a busy engine is left as it is.\<close>

theorem Ampm_SendCmd_exclusive:
  "Ampm_SendCmd cmd s = (if CmdPhase s \<in> {AMPM_CMD_ERROR, AMPM_CMD_OK} then (True, Ampm_SendCmdNow cmd s) else (False, s))
   \<and> CmdSend (Ampm_SendCmdNow cmd s) = cmd \<and> CmdPhase (Ampm_SendCmdNow cmd s) = AMPM_CMD_SEND
   \<and> TaskTimeout (Ampm_SendCmdNow cmd s) =
       \<lparr>to_start = tick s, to_timeout = ucast (cmd_delay cmd), to_crc = tick s + ucast (cmd_delay cmd)\<rparr>"
  by (simp add: Ampm_SendCmd_def Ampm_SendCmdNow_def idle_phases Let_def start_timeout_def InitTimeout_def)

section \<open>A command nobody answers\<close>

text \<open>Polling the engine once per tick, from tick \<open>t + 1\<close> to \<open>t + n\<close>.\<close>

fun poll_ticks ::
  "(('k, 'a, 's, 'r, 'e, 'z) cmd_engine_scheme \<Rightarrow> ('k, 'a, 's, 'r, 'e, 'z) cmd_engine_scheme option)
   \<Rightarrow> nat \<Rightarrow> nat \<Rightarrow> ('k, 'a, 's, 'r, 'e, 'z) cmd_engine_scheme \<Rightarrow> ('k, 'a, 's, 'r, 'e, 'z) cmd_engine_scheme option" where
  "poll_ticks task t 0 s = Some s"
| "poll_ticks task t (Suc n) s = do {
     s \<leftarrow> task (s\<lparr>tick := of_nat (Suc t)\<rparr>);
     poll_ticks task (Suc t) n s
   }"

lemma poll_ticks_add:
  "poll_ticks task t (m + n) s = do { s \<leftarrow> poll_ticks task t m s; poll_ticks task (t + m) n s }"
proof (induction m arbitrary: t s)
  case (Suc m)
  then show ?case by (cases "task (s\<lparr>tick := of_nat (Suc t)\<rparr>)") auto
qed simp

lemma poll_ticks_last:
  assumes "0 < m" "poll_ticks task t (m - 1) s = Some s1"
  shows "poll_ticks task t m s = task (s1\<lparr>tick := of_nat (t + m)\<rparr>)"
proof -
  obtain k where k: "m = Suc k" using assms(1) by (cases m) auto
  have "poll_ticks task t (k + Suc 0) s = task (s1\<lparr>tick := of_nat (Suc (t + k))\<rparr>)"
    using assms(2) unfolding k poll_ticks_add
    by (cases "task (s1\<lparr>tick := of_nat (Suc (t + k))\<rparr>)") (simp_all del: of_nat_Suc)
  then show ?thesis by (simp add: k del: of_nat_Suc poll_ticks.simps)
qed

text \<open>The engine's running timeout: set at tick \<open>t\<close> for \<open>ms\<close>.\<close>

definition running :: "nat \<Rightarrow> nat \<Rightarrow> ('k, 'a, 's, 'r, 'e, 'z) cmd_engine_scheme \<Rightarrow> bool" where
  "running t ms s \<longleftrightarrow> TaskTimeout s = \<lparr>to_start = of_nat t, to_timeout = of_nat ms, to_crc = of_nat t + of_nat ms\<rparr>"

lemma running_check:
  assumes "running t ms s" "t \<le> t'" "t' < 2 ^ 32" "ms < 2 ^ 32" "tick s = of_nat t'"
  shows "\<exists>r. check_timeout s = (r, s) \<and> (r = 0 \<longleftrightarrow> t + ms \<le> t')"
proof -
  have le: "(of_nat t :: u32) \<le> of_nat t'"
    using assms by (simp add: word_le_nat_alt unat_of_nat)
  have d: "(of_nat t' - of_nat t :: u32) = of_nat (t' - t)" using assms by simp
  have u: "unat (of_nat (t' - t) :: u32) = t' - t" "unat (of_nat ms :: u32) = ms"
    using assms by (simp_all add: unat_of_nat take_bit_nat_eq_self del: of_nat_diff)
  have c: "((of_nat ms :: u32) \<le> of_nat t' - of_nat t) \<longleftrightarrow> ms \<le> t' - t"
    unfolding d word_le_nat_alt u ..
  have z: "(of_nat ms :: u32) - (of_nat t' - of_nat t) = 0 \<Longrightarrow> ms = t' - t"
    using u unfolding d by (metis eq_iff_diff_eq_0)
  have "check_timeout s = (if (of_nat ms :: u32) \<le> of_nat t' - of_nat t then 0
      else of_nat ms - (of_nat t' - of_nat t), s)"
    using assms(1,5) le by (simp add: running_def check_timeout_def CheckTimeout_def elapsed_def Let_def)
  then show ?thesis using c z assms(2) by auto
qed

text \<open>The polls until an unanswered command is given up.\<close>

definition give_up :: "nat \<Rightarrow> nat \<Rightarrow> nat \<Rightarrow> nat" where
  "give_up n d w = Suc n * (max 1 d + max 1 w + 1) + 1"

locale silent_modem =
  fixes send_cb :: "'s \<Rightarrow> ('k, 'a, 's, 'r, 'e, 'z) cmd_engine_scheme \<Rightarrow> ('k, 'a, 's, 'r, 'e, 'z) cmd_engine_scheme option"
    and recv_cb :: "'r \<Rightarrow> ('k, 'a, 's, 'r, 'e, 'z) cmd_engine_scheme \<Rightarrow> (AMPM_CMD_PHASE \<times> ('k, 'a, 's, 'r, 'e, 'z) cmd_engine_scheme) option"
    and silent :: "'o list \<Rightarrow> ('k, 'a, 's, 'r, 'e, 'z) cmd_engine_scheme \<Rightarrow> bool"
    and out :: "('k, 'a, 's, 'r, 'e, 'z) cmd_engine_scheme \<Rightarrow> 'o list"
  assumes send_silent: "silent txt s \<Longrightarrow> send_data_callback (CmdSend s) = Some f \<Longrightarrow>
      \<exists>s'. send_cb f s = Some s' \<and> silent txt s' \<and> cmd_engine.truncate s' = cmd_engine.truncate s
        \<and> out s' = out s @ txt"
    and recv_silent: "silent txt s \<Longrightarrow> recv_data_callback (CmdSend s) = Some g \<Longrightarrow>
      \<exists>s'. recv_cb g s = Some (AMPM_CMD_WAIT, s') \<and> silent txt s'
        \<and> cmd_engine.truncate s' = cmd_engine.truncate s \<and> out s' = out s"
    and silent_phase: "silent txt s \<Longrightarrow> silent txt (s\<lparr>CmdPhase := p\<rparr>) \<and> out (s\<lparr>CmdPhase := p\<rparr>) = out s"
    and silent_timeout: "silent txt s \<Longrightarrow> silent txt (s\<lparr>TaskTimeout := t\<rparr>) \<and> out (s\<lparr>TaskTimeout := t\<rparr>) = out s"
    and silent_tick: "silent txt s \<Longrightarrow> silent txt (s\<lparr>tick := n\<rparr>) \<and> out (s\<lparr>tick := n\<rparr>) = out s"
    and silent_retry: "silent txt s \<Longrightarrow>
      silent txt (s\<lparr>CmdSend := (CmdSend s)\<lparr>retryNum := r\<rparr>\<rparr>) \<and> out (s\<lparr>CmdSend := (CmdSend s)\<lparr>retryNum := r\<rparr>\<rparr>) = out s"
begin

lemma truncate_fields:
  "cmd_engine.truncate s = cmd_engine.truncate s' \<longleftrightarrow>
    CmdPhase s = CmdPhase s' \<and> CmdSend s = CmdSend s' \<and> CmdList s = CmdList s'
    \<and> TaskTimeout s = TaskTimeout s' \<and> tick s = tick s'"
  by (auto simp: cmd_engine.defs)

text \<open>An unanswered command \<open>cmd\<close> in phase \<open>p\<close> with \<open>n\<close> retries left and
  a timeout of \<open>ms\<close> started at tick \<open>t\<close>.\<close>

definition trying ::
  "('k, 'a, 's, 'r, 'e) AMPM_CMD_PROCESS \<Rightarrow> (nat \<times> 'k) list \<Rightarrow> 'o list \<Rightarrow> AMPM_CMD_PHASE \<Rightarrow> nat \<Rightarrow> nat \<Rightarrow> nat
   \<Rightarrow> ('k, 'a, 's, 'r, 'e, 'z) cmd_engine_scheme \<Rightarrow> bool" where
  "trying cmd l txt p n t ms s \<longleftrightarrow> silent txt s \<and> CmdPhase s = p \<and> CmdSend s = cmd\<lparr>retryNum := of_nat n\<rparr>
     \<and> CmdList s = l \<and> running t ms s \<and> end_data_callback cmd = None
     \<and> send_data_callback cmd \<noteq> None \<and> recv_data_callback cmd \<noteq> None"

lemma trying_tick: "trying cmd l txt p n t ms s \<Longrightarrow> trying cmd l txt p n t ms (s\<lparr>tick := u\<rparr>) \<and> out (s\<lparr>tick := u\<rparr>) = out s"
  using silent_tick by (auto simp: trying_def running_def)

lemma trying_phase: "trying cmd l txt p n t ms s \<Longrightarrow>
  trying cmd l txt q n t ms (s\<lparr>CmdPhase := q\<rparr>) \<and> out (s\<lparr>CmdPhase := q\<rparr>) = out s"
  using silent_phase by (auto simp: trying_def running_def)

lemma trying_start: "trying cmd l txt p n t ms s \<Longrightarrow> tick s = of_nat u \<Longrightarrow> unat x = ms' \<Longrightarrow>
  trying cmd l txt p n u ms' (start_timeout (ucast (x :: u16)) s) \<and> out (start_timeout (ucast x) s) = out s"
  using silent_timeout
  by (auto simp: trying_def running_def start_timeout_def InitTimeout_def Let_def)

lemma send_early:
  assumes "trying cmd l txt AMPM_CMD_SEND n t ms s" "tick s = of_nat u" "t \<le> u" "u < t + ms" "u < 2 ^ 32" "ms < 2 ^ 32"
  shows "Ampm_Cmd_Task rom send_cb recv_cb end_cb s = Some s"
proof -
  have "running t ms s" using assms(1) by (simp add: trying_def)
  from running_check [OF this assms(3,5,6,2)] assms show ?thesis
    by (auto simp: Ampm_Cmd_Task_def cmd_phase_send_def trying_def)
qed

lemma send_due:
  assumes "trying cmd l txt AMPM_CMD_SEND n t ms s" "tick s = of_nat u" "t + ms \<le> u" "u < 2 ^ 32"
  shows "\<exists>s'. Ampm_Cmd_Task rom send_cb recv_cb end_cb s = Some s'
    \<and> trying cmd l txt AMPM_CMD_WAIT n u (unat (cmd_timeout cmd)) s' \<and> out s' = out s @ txt"
proof -
  have r: "running t ms s" and p: "CmdPhase s = AMPM_CMD_SEND" and sl: "silent txt s"
    using assms(1) by (simp_all add: trying_def)
  obtain f where f: "send_data_callback (CmdSend s) = Some f" using assms(1) by (auto simp: trying_def)
  have "t \<le> u" "ms < 2 ^ 32" using assms(3,4) by linarith+
  from running_check [OF r this(1) assms(4) this(2) assms(2)] have c: "check_timeout s = (0, s)"
    using assms(3) by auto
  from send_silent [OF sl f] obtain s1 where s1: "send_cb f s = Some s1" "silent txt s1"
    "cmd_engine.truncate s1 = cmd_engine.truncate s" "out s1 = out s @ txt" by auto
  have t1: "trying cmd l txt AMPM_CMD_SEND n t ms s1"
    using assms(1) s1 by (auto simp: trying_def truncate_fields running_def)
  have "tick s1 = of_nat u" using s1(3) assms(2) by (simp add: truncate_fields)
  from trying_start [OF t1 this refl, of "cmd_timeout cmd"]
  have t2: "trying cmd l txt AMPM_CMD_SEND n u (unat (cmd_timeout cmd)) (start_timeout (ucast (cmd_timeout cmd)) s1)"
    "out (start_timeout (ucast (cmd_timeout cmd)) s1) = out s1" by auto
  have "cmd_timeout (CmdSend s1) = cmd_timeout cmd" using t1 by (simp add: trying_def)
  with trying_phase [OF t2(1), of AMPM_CMD_WAIT] t2(2) s1(4) show ?thesis
    by (simp add: Ampm_Cmd_Task_def cmd_phase_send_def p c f s1(1))
qed

lemma wait_early:
  assumes "trying cmd l txt AMPM_CMD_WAIT n t ms s" "tick s = of_nat u" "t \<le> u" "u < t + ms" "u < 2 ^ 32" "ms < 2 ^ 32"
  shows "\<exists>s'. Ampm_Cmd_Task rom send_cb recv_cb end_cb s = Some s'
    \<and> trying cmd l txt AMPM_CMD_WAIT n t ms s' \<and> out s' = out s"
proof -
  have r: "running t ms s" and p: "CmdPhase s = AMPM_CMD_WAIT" and sl: "silent txt s"
    using assms(1) by (simp_all add: trying_def)
  obtain g where g: "recv_data_callback (CmdSend s) = Some g" using assms(1) by (auto simp: trying_def)
  from running_check [OF r assms(3,5,6,2)] assms(4) obtain x where c: "check_timeout s = (x, s)" "x \<noteq> 0" by auto
  from recv_silent [OF sl g] obtain s1 where s1: "recv_cb g s = Some (AMPM_CMD_WAIT, s1)" "silent txt s1"
    "cmd_engine.truncate s1 = cmd_engine.truncate s" "out s1 = out s" by auto
  then show ?thesis
    using assms(1) c p g
    by (auto simp: Ampm_Cmd_Task_def cmd_phase_wait_def trying_def truncate_fields running_def)
qed

lemma wait_due:
  assumes "trying cmd l txt AMPM_CMD_WAIT n t ms s" "tick s = of_nat u" "t + ms \<le> u" "u < 2 ^ 32"
  shows "\<exists>s'. Ampm_Cmd_Task rom send_cb recv_cb end_cb s = Some s'
    \<and> trying cmd l txt AMPM_CMD_RESEND n t ms s' \<and> out s' = out s"
proof -
  have r: "running t ms s" and p: "CmdPhase s = AMPM_CMD_WAIT"
    using assms(1) by (simp_all add: trying_def)
  obtain g where g: "recv_data_callback (CmdSend s) = Some g" using assms(1) by (auto simp: trying_def)
  have "t \<le> u" "ms < 2 ^ 32" using assms(3,4) by linarith+
  from running_check [OF r this(1) assms(4) this(2) assms(2)] have c: "check_timeout s = (0, s)"
    using assms(3) by auto
  from trying_phase [OF assms(1), of AMPM_CMD_RESEND] show ?thesis
    by (simp add: Ampm_Cmd_Task_def cmd_phase_wait_def p c g)
qed

lemma resend_again:
  assumes "trying cmd l txt AMPM_CMD_RESEND (Suc n) t ms s" "tick s = of_nat u" "n < 255"
  shows "\<exists>s'. Ampm_Cmd_Task rom send_cb recv_cb end_cb s = Some s'
    \<and> trying cmd l txt AMPM_CMD_SEND n u (unat (cmd_delay cmd)) s' \<and> out s' = out s"
proof -
  have p: "CmdPhase s = AMPM_CMD_RESEND" and cs: "CmdSend s = cmd\<lparr>retryNum := of_nat (Suc n)\<rparr>"
    using assms(1) by (simp_all add: trying_def)
  have nz: "(of_nat (Suc n) :: u8) \<noteq> 0"
    using assms(3) by (simp add: word_unat_eq_iff unat_of_nat take_bit_nat_eq_self del: of_nat_Suc)
  let ?s1 = "s\<lparr>CmdSend := (CmdSend s)\<lparr>retryNum := of_nat n\<rparr>\<rparr>"
  have t1: "trying cmd l txt AMPM_CMD_RESEND n t ms ?s1" "out ?s1 = out s"
    using assms(1) silent_retry [of _ s "of_nat n"] by (auto simp: trying_def running_def)
  have "tick ?s1 = of_nat u" using assms(2) by simp
  from trying_start [OF t1(1) this refl, of "cmd_delay cmd"] t1(2)
  have t2: "trying cmd l txt AMPM_CMD_RESEND n u (unat (cmd_delay cmd)) (start_timeout (ucast (cmd_delay cmd)) ?s1)"
    "out (start_timeout (ucast (cmd_delay cmd)) ?s1) = out s" by auto
  from trying_phase [OF t2(1), of AMPM_CMD_SEND] t2(2) show ?thesis
    using nz cs by (simp add: Ampm_Cmd_Task_def cmd_phase_resend_def p Let_def)
qed

lemma resend_out:
  assumes "trying cmd l txt AMPM_CMD_RESEND 0 t ms s"
  shows "\<exists>s'. Ampm_Cmd_Task rom send_cb recv_cb end_cb s = Some s'
    \<and> trying cmd l txt AMPM_CMD_GOTO_ERROR 0 t ms s' \<and> out s' = out s"
  using trying_phase [OF assms, of AMPM_CMD_GOTO_ERROR] assms
  by (simp add: Ampm_Cmd_Task_def cmd_phase_resend_def trying_def)

lemma goto_error:
  assumes "trying cmd l txt AMPM_CMD_GOTO_ERROR n t ms s"
  shows "\<exists>s'. Ampm_Cmd_Task rom send_cb recv_cb end_cb s = Some s'
    \<and> trying cmd l txt AMPM_CMD_ERROR n t ms s' \<and> out s' = out s"
  using trying_phase [OF assms, of AMPM_CMD_ERROR] assms
  by (simp add: Ampm_Cmd_Task_def cmd_finish_def trying_def)

lemma send_early_polls:
  "trying cmd l txt AMPM_CMD_SEND n t ms s \<Longrightarrow> t \<le> u \<Longrightarrow> u + k < t + ms \<Longrightarrow> u + k < 2 ^ 32 \<Longrightarrow> ms < 2 ^ 32 \<Longrightarrow>
   \<exists>s'. poll_ticks (Ampm_Cmd_Task rom send_cb recv_cb end_cb) u k s = Some s'
     \<and> trying cmd l txt AMPM_CMD_SEND n t ms s' \<and> out s' = out s"
proof (induction k arbitrary: u s)
  case (Suc k)
  let ?s = "s\<lparr>tick := of_nat (Suc u)\<rparr>"
  have s: "trying cmd l txt AMPM_CMD_SEND n t ms ?s" "out ?s = out s"
    using trying_tick [OF Suc.prems(1)] by auto
  have tk: "tick ?s = of_nat (Suc u)" by simp
  have "Ampm_Cmd_Task rom send_cb recv_cb end_cb ?s = Some ?s"
    by (rule send_early [OF s(1) tk]) (use Suc.prems in linarith)+
  moreover have "\<exists>s'. poll_ticks (Ampm_Cmd_Task rom send_cb recv_cb end_cb) (Suc u) k ?s = Some s'
     \<and> trying cmd l txt AMPM_CMD_SEND n t ms s' \<and> out s' = out ?s"
    by (rule Suc.IH [OF s(1)]) (use Suc.prems in linarith)+
  ultimately show ?case using s(2) by (simp del: of_nat_Suc)
qed auto

lemma wait_early_polls:
  "trying cmd l txt AMPM_CMD_WAIT n t ms s \<Longrightarrow> t \<le> u \<Longrightarrow> u + k < t + ms \<Longrightarrow> u + k < 2 ^ 32 \<Longrightarrow> ms < 2 ^ 32 \<Longrightarrow>
   \<exists>s'. poll_ticks (Ampm_Cmd_Task rom send_cb recv_cb end_cb) u k s = Some s'
     \<and> trying cmd l txt AMPM_CMD_WAIT n t ms s' \<and> out s' = out s"
proof (induction k arbitrary: u s)
  case (Suc k)
  let ?s = "s\<lparr>tick := of_nat (Suc u)\<rparr>"
  have s: "trying cmd l txt AMPM_CMD_WAIT n t ms ?s" "out ?s = out s"
    using trying_tick [OF Suc.prems(1)] by auto
  have tk: "tick ?s = of_nat (Suc u)" by simp
  have "\<exists>s1. Ampm_Cmd_Task rom send_cb recv_cb end_cb ?s = Some s1
    \<and> trying cmd l txt AMPM_CMD_WAIT n t ms s1 \<and> out s1 = out ?s"
    by (rule wait_early [OF s(1) tk]) (use Suc.prems in linarith)+
  then obtain s1 where s1: "Ampm_Cmd_Task rom send_cb recv_cb end_cb ?s = Some s1"
    "trying cmd l txt AMPM_CMD_WAIT n t ms s1" "out s1 = out s" using s(2) by auto
  have "\<exists>s'. poll_ticks (Ampm_Cmd_Task rom send_cb recv_cb end_cb) (Suc u) k s1 = Some s'
     \<and> trying cmd l txt AMPM_CMD_WAIT n t ms s' \<and> out s' = out s1"
    by (rule Suc.IH [OF s1(2)]) (use Suc.prems in linarith)+
  then show ?case using s1 by (simp del: of_nat_Suc)
qed auto

text \<open>One attempt: the delay, the transmission, the wait for the answer.\<close>

lemma send_polls:
  assumes "trying cmd l txt AMPM_CMD_SEND n t d s" "t + max 1 d < 2 ^ 32" "d < 2 ^ 32"
  shows "\<exists>s'. poll_ticks (Ampm_Cmd_Task rom send_cb recv_cb end_cb) t (max 1 d) s = Some s'
    \<and> trying cmd l txt AMPM_CMD_WAIT n (t + max 1 d) (unat (cmd_timeout cmd)) s' \<and> out s' = out s @ txt"
proof -
  let ?T = "Ampm_Cmd_Task rom send_cb recv_cb end_cb"
  have "\<exists>s1. poll_ticks ?T t (max 1 d - 1) s = Some s1 \<and> trying cmd l txt AMPM_CMD_SEND n t d s1 \<and> out s1 = out s"
  proof (cases "d = 0")
    case True
    then show ?thesis using assms(1) by simp
  next
    case False
    then show ?thesis by (intro send_early_polls [OF assms(1)]) (use assms in linarith)+
  qed
  then obtain s1 where s1: "poll_ticks ?T t (max 1 d - 1) s = Some s1"
    "trying cmd l txt AMPM_CMD_SEND n t d s1" "out s1 = out s" by auto
  let ?s = "s1\<lparr>tick := of_nat (t + max 1 d)\<rparr>"
  have s: "trying cmd l txt AMPM_CMD_SEND n t d ?s" "out ?s = out s"
    using trying_tick [OF s1(2)] s1(3) by auto
  have tk: "tick ?s = of_nat (t + max 1 d)" by simp
  have "t + d \<le> t + max 1 d" by simp
  from send_due [OF s(1) tk this assms(2), of rom end_cb] obtain s2 where s2: "?T ?s = Some s2"
    "trying cmd l txt AMPM_CMD_WAIT n (t + max 1 d) (unat (cmd_timeout cmd)) s2" "out s2 = out s @ txt"
    using s(2) by auto
  have "poll_ticks ?T t (max 1 d) s = Some s2"
    using poll_ticks_last [OF _ s1(1)] s2(1) by simp
  then show ?thesis using s2 by auto
qed

lemma wait_polls:
  assumes "trying cmd l txt AMPM_CMD_WAIT n t w s" "t + max 1 w < 2 ^ 32" "w < 2 ^ 32"
  shows "\<exists>s'. poll_ticks (Ampm_Cmd_Task rom send_cb recv_cb end_cb) t (max 1 w) s = Some s'
    \<and> trying cmd l txt AMPM_CMD_RESEND n t w s' \<and> out s' = out s"
proof -
  let ?T = "Ampm_Cmd_Task rom send_cb recv_cb end_cb"
  have "\<exists>s1. poll_ticks ?T t (max 1 w - 1) s = Some s1 \<and> trying cmd l txt AMPM_CMD_WAIT n t w s1 \<and> out s1 = out s"
  proof (cases "w = 0")
    case True
    then show ?thesis using assms(1) by simp
  next
    case False
    then show ?thesis by (intro wait_early_polls [OF assms(1)]) (use assms in linarith)+
  qed
  then obtain s1 where s1: "poll_ticks ?T t (max 1 w - 1) s = Some s1"
    "trying cmd l txt AMPM_CMD_WAIT n t w s1" "out s1 = out s" by auto
  let ?s = "s1\<lparr>tick := of_nat (t + max 1 w)\<rparr>"
  have s: "trying cmd l txt AMPM_CMD_WAIT n t w ?s" "out ?s = out s"
    using trying_tick [OF s1(2)] s1(3) by auto
  have tk: "tick ?s = of_nat (t + max 1 w)" by simp
  have "t + w \<le> t + max 1 w" by simp
  from wait_due [OF s(1) tk this assms(2), of rom end_cb] obtain s2 where s2: "?T ?s = Some s2"
    "trying cmd l txt AMPM_CMD_RESEND n t w s2" "out s2 = out s"
    using s(2) by auto
  have "poll_ticks ?T t (max 1 w) s = Some s2"
    using poll_ticks_last [OF _ s1(1)] s2(1) by simp
  then show ?thesis using s2 by auto
qed

lemma attempt_polls:
  assumes "trying cmd l txt AMPM_CMD_SEND n t d s" "w = unat (cmd_timeout cmd)"
    "t + max 1 d + max 1 w < 2 ^ 32" "d < 2 ^ 32"
  shows "\<exists>s'. poll_ticks (Ampm_Cmd_Task rom send_cb recv_cb end_cb) t (max 1 d + max 1 w) s = Some s'
    \<and> trying cmd l txt AMPM_CMD_RESEND n (t + max 1 d) w s' \<and> out s' = out s @ txt"
proof -
  let ?T = "Ampm_Cmd_Task rom send_cb recv_cb end_cb"
  have "t + max 1 d < 2 ^ 32" using assms(3) by linarith
  from send_polls [OF assms(1) this assms(4), of rom end_cb] obtain s1 where
    s1: "poll_ticks ?T t (max 1 d) s = Some s1"
      "trying cmd l txt AMPM_CMD_WAIT n (t + max 1 d) w s1" "out s1 = out s @ txt"
    using assms(2) by auto
  have "w < 2 ^ 32" using assms(3) by linarith
  from wait_polls [OF s1(2) assms(3) this, of rom end_cb] s1 show ?thesis
    unfolding poll_ticks_add by auto
qed

lemma gives_up:
  assumes "trying cmd l txt AMPM_CMD_SEND n t d s" "n < 256"
    "d = unat (cmd_delay cmd)" "w = unat (cmd_timeout cmd)" "t + give_up n d w < 2 ^ 32"
  shows "\<exists>s'. poll_ticks (Ampm_Cmd_Task rom send_cb recv_cb end_cb) t (give_up n d w) s = Some s'
    \<and> CmdPhase s' = AMPM_CMD_ERROR \<and> out s' = out s @ concat (replicate (Suc n) txt)"
  using assms
proof (induction n arbitrary: t s)
  case 0
  let ?T = "Ampm_Cmd_Task rom send_cb recv_cb end_cb"
  have d: "d < 2 ^ 32" using 0(3) u16_less_65536 [of "cmd_delay cmd"] by simp
  have b: "t + max 1 d + max 1 w < 2 ^ 32" using "0.prems"(5) by (simp add: give_up_def)
  from attempt_polls [OF "0.prems"(1,4) b d, of rom end_cb] obtain s1 where
    s1: "poll_ticks ?T t (max 1 d + max 1 w) s = Some s1"
      "trying cmd l txt AMPM_CMD_RESEND 0 (t + max 1 d) w s1" "out s1 = out s @ txt" by auto
  let ?u = "t + (max 1 d + max 1 w)"
  have s1': "trying cmd l txt AMPM_CMD_RESEND 0 (t + max 1 d) w (s1\<lparr>tick := of_nat (Suc ?u)\<rparr>)"
    "out (s1\<lparr>tick := of_nat (Suc ?u)\<rparr>) = out s1"
    using trying_tick [OF s1(2)] by auto
  from resend_out [OF s1'(1), of rom end_cb] s1' obtain s2 where
    s2: "?T (s1\<lparr>tick := of_nat (Suc ?u)\<rparr>) = Some s2"
      "trying cmd l txt AMPM_CMD_GOTO_ERROR 0 (t + max 1 d) w s2" "out s2 = out s1" by auto
  have s2': "trying cmd l txt AMPM_CMD_GOTO_ERROR 0 (t + max 1 d) w (s2\<lparr>tick := of_nat (Suc (Suc ?u))\<rparr>)"
    "out (s2\<lparr>tick := of_nat (Suc (Suc ?u))\<rparr>) = out s2"
    using trying_tick [OF s2(2)] by auto
  from goto_error [OF s2'(1), of rom end_cb] s2' obtain s3 where
    s3: "?T (s2\<lparr>tick := of_nat (Suc (Suc ?u))\<rparr>) = Some s3"
      "trying cmd l txt AMPM_CMD_ERROR 0 (t + max 1 d) w s3" "out s3 = out s2" by auto
  have g: "give_up 0 d w = (max 1 d + max 1 w) + Suc (Suc 0)" by (simp add: give_up_def)
  have "poll_ticks ?T ?u (Suc (Suc 0)) s1 = Some s3"
    using s2(1) s3(1) by (simp del: of_nat_Suc of_nat_add)
  then have "poll_ticks ?T t (give_up 0 d w) s = Some s3"
    unfolding g poll_ticks_add [of _ _ "max 1 d + max 1 w"] s1(1) by simp
  moreover have "CmdPhase s3 = AMPM_CMD_ERROR" using s3(2) by (simp add: trying_def)
  ultimately show ?case using s1(3) s2(3) s3(3) by auto
next
  case (Suc n)
  let ?T = "Ampm_Cmd_Task rom send_cb recv_cb end_cb"
  let ?u = "t + (max 1 d + max 1 w)"
  have d: "d < 2 ^ 32" using Suc(4) u16_less_65536 [of "cmd_delay cmd"] by simp
  have b: "t + max 1 d + max 1 w < 2 ^ 32" using Suc.prems(5) by (simp add: give_up_def)
  from attempt_polls [OF Suc.prems(1,4) b d, of rom end_cb] obtain s1 where
    s1: "poll_ticks ?T t (max 1 d + max 1 w) s = Some s1"
      "trying cmd l txt AMPM_CMD_RESEND (Suc n) (t + max 1 d) w s1" "out s1 = out s @ txt" by auto
  have s1': "trying cmd l txt AMPM_CMD_RESEND (Suc n) (t + max 1 d) w (s1\<lparr>tick := of_nat (Suc ?u)\<rparr>)"
    "out (s1\<lparr>tick := of_nat (Suc ?u)\<rparr>) = out s1"
    using trying_tick [OF s1(2)] by auto
  have tk: "tick (s1\<lparr>tick := of_nat (Suc ?u)\<rparr>) = of_nat (Suc ?u)" by simp
  have n: "n < 255" using Suc.prems(2) by simp
  from resend_again [OF s1'(1) tk n, of rom end_cb] s1' Suc.prems(3) obtain s2 where
    s2: "?T (s1\<lparr>tick := of_nat (Suc ?u)\<rparr>) = Some s2"
      "trying cmd l txt AMPM_CMD_SEND n (Suc ?u) d s2" "out s2 = out s1" by auto
  have g: "give_up (Suc n) d w = (max 1 d + max 1 w) + (Suc 0 + give_up n d w)"
    by (simp add: give_up_def)
  have "\<exists>s'. poll_ticks ?T (Suc ?u) (give_up n d w) s2 = Some s'
    \<and> CmdPhase s' = AMPM_CMD_ERROR \<and> out s' = out s2 @ concat (replicate (Suc n) txt)"
    by (rule Suc.IH [OF s2(2)]) (use Suc.prems n g in simp_all)
  moreover have "poll_ticks ?T t (give_up (Suc n) d w) s = poll_ticks ?T (Suc ?u) (give_up n d w) s2"
    using s2(1) unfolding g poll_ticks_add [of _ _ "max 1 d + max 1 w"] s1(1)
    by (simp del: of_nat_Suc of_nat_add)
  ultimately show ?case using s1(3) s2(3) by auto
qed

end

end
