(* ===== verification/StrParser.thy ===== *)
theory StrParser
  imports Prelude
begin

text \<open>
  The response parser of \<open>ampm_lib/lib/sparser.c\<close> (\<open>StrParserInit\<close>,
  \<open>StrParserCtl\<close>, \<open>StrComnandParser\<close>): it matches the received bytes against
  several command texts at once and, once a text is complete, hands the following bytes one
  by one to the command's callback, until the callback returns 0, too many bytes came or
  they came too slowly.

  A command text is the memory it lies in, terminator included.  Callbacks are addresses
  that the argument \<open>cb\<close> resolves; a callback may change the state \<open>'w\<close> of the
  program.  The routine's static variable \<open>lastChar\<close> is passed and returned; both
  parsers of the program share it.
\<close>

section \<open>State\<close>

datatype STR_STATE = STR_NEW_STATE | STR_WAIT_FINISH | STR_FINISH

record STR_PARSER =
  st_state :: STR_STATE
  dataRecvLength :: u16
  dataRecvMaxLength :: u16
  strParserCntMax :: u8
  strInProcess :: u8
  st_timeout :: u32
  timeoutSet :: u32

record 'a STR_INFO =
  str_command :: bytes
  str_callback :: 'a

section \<open>The code\<close>

text \<open>\<open>for(i = 0; i < max; i++) numCharParsed[i] = 0\<close>, with \<open>n\<close> rounds to go.\<close>

fun clear_counts :: "u8 list \<Rightarrow> nat \<Rightarrow> nat \<Rightarrow> u8 list option" where
  "clear_counts nums i 0 = Some nums"
| "clear_counts nums i (Suc n) = do { nums \<leftarrow> wr nums i 0; clear_counts nums (Suc i) n }"

definition reset_counts :: "STR_PARSER \<Rightarrow> u8 list \<Rightarrow> u8 list option" where
  "reset_counts process nums = clear_counts nums 0 (unat (strParserCntMax process))"

definition StrParserInit :: "STR_PARSER \<Rightarrow> u8 list \<Rightarrow> u8 \<Rightarrow> u16 \<Rightarrow> (STR_PARSER \<times> u8 list) option" where
  "StrParserInit process nums cntMax dataLengthMax =
     (let process = process\<lparr>st_state := STR_FINISH, dataRecvLength := 0, strParserCntMax := cntMax,
            st_timeout := 0, timeoutSet := 10000, dataRecvMaxLength := dataLengthMax\<rparr>
      in do { nums \<leftarrow> reset_counts process nums; Some (process, nums) })"

definition StrParserCtl :: "u32 \<Rightarrow> STR_PARSER \<Rightarrow> u8 list \<Rightarrow> (STR_PARSER \<times> u8 list) option" where
  "StrParserCtl sysTimeMs process nums =
     (if st_state process = STR_FINISH then Some (process\<lparr>st_timeout := sysTimeMs\<rparr>, nums)
      else if sysTimeMs - st_timeout process \<ge> timeoutSet process then do {
        let process = process\<lparr>st_timeout := sysTimeMs, st_state := STR_FINISH\<rparr>;
        nums \<leftarrow> reset_counts process nums;
        Some (process, nums)
      }
      else Some (process, nums))"

text \<open>One command text of the matching loop.\<close>

definition match_char ::
  "'a STR_INFO list \<Rightarrow> u8 \<Rightarrow> nat \<Rightarrow> STR_PARSER \<Rightarrow> u8 list \<Rightarrow> u8 \<Rightarrow> (STR_PARSER \<times> u8 list \<times> u8) option" where
  "match_char info c i process nums lastChar = do {
     si \<leftarrow> rd info i;
     k \<leftarrow> rd nums i;
     b \<leftarrow> rd (str_command si) (unat k);
     if c = b \<or> b = 0x09 then do {
       let k = k + 1;
       nums \<leftarrow> wr nums i k;
       b \<leftarrow> rd (str_command si) (unat k);
       if b = 0 then
         Some (process\<lparr>strInProcess := of_nat i, st_state := STR_WAIT_FINISH, dataRecvLength := 0\<rparr>, nums, c)
       else Some (process, nums, c)
     }
     else do {
       b0 \<leftarrow> rd (str_command si) 0;
       nums \<leftarrow> wr nums i (if lastChar = b0 then 1 else 0);
       Some (process, nums, lastChar)
     }
   }"

fun match_loop ::
  "'a STR_INFO list \<Rightarrow> u8 \<Rightarrow> nat \<Rightarrow> nat \<Rightarrow> STR_PARSER \<Rightarrow> u8 list \<Rightarrow> u8 \<Rightarrow> (STR_PARSER \<times> u8 list \<times> u8) option" where
  "match_loop info c i 0 process nums lastChar = Some (process, nums, lastChar)"
| "match_loop info c i (Suc n) process nums lastChar = do {
     (process, nums, lastChar) \<leftarrow> match_char info c i process nums lastChar;
     match_loop info c (Suc i) n process nums lastChar
   }"

definition deliver ::
  "('a \<Rightarrow> u16 \<Rightarrow> u8 \<Rightarrow> 'w \<Rightarrow> (u32 \<times> 'w) option) \<Rightarrow> 'a STR_INFO list \<Rightarrow> u8 \<Rightarrow> STR_PARSER \<Rightarrow> u8 list \<Rightarrow> 'w
   \<Rightarrow> (STR_PARSER \<times> u8 list \<times> 'w) option" where
  "deliver cb info c process nums w = do {
     si \<leftarrow> rd info (unat (strInProcess process));
     (r, w) \<leftarrow> cb (str_callback si) (dataRecvLength process) c w;
     (process, nums) \<leftarrow>
       (if r = 0 then do {
          let process = process\<lparr>st_state := STR_FINISH\<rparr>;
          nums \<leftarrow> reset_counts process nums;
          Some (process, nums)
        }
        else Some (process, nums));
     let process = process\<lparr>dataRecvLength := dataRecvLength process + 1\<rparr>;
     if dataRecvLength process \<ge> dataRecvMaxLength process then do {
       let process = process\<lparr>st_state := STR_FINISH\<rparr>;
       nums \<leftarrow> reset_counts process nums;
       Some (process, nums, w)
     }
     else Some (process, nums, w)
   }"

definition StrComnandParser ::
  "('a \<Rightarrow> u16 \<Rightarrow> u8 \<Rightarrow> 'w \<Rightarrow> (u32 \<times> 'w) option) \<Rightarrow> u32 \<Rightarrow> 'a STR_INFO list \<Rightarrow> STR_PARSER \<Rightarrow> u8 list \<Rightarrow> u8
   \<Rightarrow> u8 \<Rightarrow> 'w \<Rightarrow> (STR_PARSER \<times> u8 list \<times> u8 \<times> 'w) option" where
  "StrComnandParser cb sysTimeMs info process nums lastChar c w = do {
     (process, nums) \<leftarrow> StrParserCtl sysTimeMs process nums;
     case st_state process of
       STR_FINISH \<Rightarrow> do {
         (process, nums, lastChar) \<leftarrow>
           match_loop info c 0 (unat (strParserCntMax process)) process nums lastChar;
         Some (process, nums, lastChar, w)
       }
     | STR_WAIT_FINISH \<Rightarrow> do {
         (process, nums, w) \<leftarrow> deliver cb info c process nums w;
         Some (process, nums, lastChar, w)
       }
     | STR_NEW_STATE \<Rightarrow> do {
         let process = process\<lparr>st_state := STR_FINISH\<rparr>;
         nums \<leftarrow> reset_counts process nums;
         Some (process, nums, lastChar, w)
       }
   }"

section \<open>The parser stays inside its tables\<close>

lemma clear_counts_total:
  "i + n \<le> length nums \<Longrightarrow> \<exists>ns. clear_counts nums i n = Some ns \<and> length ns = length nums
     \<and> (\<forall>j < length nums. ns ! j = (if i \<le> j \<and> j < i + n then 0 else nums ! j))"
proof (induction n arbitrary: nums i)
  case (Suc n)
  then have "Suc i + n \<le> length (nums[i := 0])" by simp
  from Suc.IH [OF this] Suc.prems obtain ns where
    "clear_counts (nums[i := 0]) (Suc i) n = Some ns" "length ns = length nums"
    "\<forall>j < length nums. ns ! j = (if Suc i \<le> j \<and> j < Suc i + n then 0 else nums[i := 0] ! j)" by auto
  with Suc.prems show ?case by (auto simp: nth_list_update)
qed auto

text \<open>A command table the parser can use: every text ends inside its memory, has at least two
  characters and fewer than 256.\<close>

definition text_len :: "'a STR_INFO \<Rightarrow> nat" where
  "text_len si = length (cstr (str_command si))"

definition table_ok :: "'a STR_INFO list \<Rightarrow> bool" where
  "table_ok info \<longleftrightarrow> (\<forall>si \<in> set info. 0 \<in> set (str_command si) \<and> 2 \<le> text_len si \<and> text_len si < 256)"

text \<open>Matched prefixes are shorter than their texts while matching; the command in progress
  exists while its data is delivered.\<close>

definition parser_inv :: "'a STR_INFO list \<Rightarrow> STR_PARSER \<Rightarrow> u8 list \<Rightarrow> bool" where
  "parser_inv info process nums \<longleftrightarrow>
     table_ok info \<and> unat (strParserCntMax process) = length info \<and> length info \<le> length nums
     \<and> (st_state process = STR_FINISH \<longrightarrow> (\<forall>i < length info. unat (nums ! i) < text_len (info ! i)))
     \<and> (st_state process = STR_WAIT_FINISH \<longrightarrow> unat (strInProcess process) < length info)"

lemma text_at:
  assumes "0 \<in> set (str_command si)" "k \<le> text_len si"
  shows "k < length (str_command si)" "(str_command si ! k = 0) \<longleftrightarrow> k = text_len si"
proof -
  obtain r where r: "str_command si = cstr (str_command si) @ 0 # r"
    using cstr_split [OF assms(1)] by blast
  show "k < length (str_command si)" using assms(2) by (subst r) (simp add: text_len_def)
  have "k < text_len si \<Longrightarrow> cstr (str_command si) ! k \<noteq> 0"
    using cstr_no_zero nth_mem by (metis text_len_def)
  then show "(str_command si ! k = 0) \<longleftrightarrow> k = text_len si"
    using assms(2) by (subst r) (auto simp: text_len_def nth_append)
qed

lemma reset_counts_total:
  assumes "table_ok info" "unat (strParserCntMax process) = length info" "length info \<le> length nums"
  shows "\<exists>ns. reset_counts process nums = Some ns \<and> length ns = length nums
    \<and> (\<forall>i < length info. unat (ns ! i) < text_len (info ! i) \<and> ns ! i = 0)"
proof -
  have "text_len (info ! i) > 0" if "i < length info" for i
    using assms(1) nth_mem [OF that] unfolding table_ok_def by fastforce
  then show ?thesis
    using clear_counts_total [of 0 "length info" nums] assms by (auto simp: reset_counts_def)
qed

lemma match_char_total:
  assumes "table_ok info" "i < length info" "length info \<le> length nums" "length info < 256"
    "unat (nums ! i) < text_len (info ! i)"
  shows "\<exists>p ns l. match_char info c i process nums lastChar = Some (p, ns, l)
    \<and> length ns = length nums \<and> (\<forall>j. j \<noteq> i \<longrightarrow> ns ! j = nums ! j)
    \<and> (p = process \<and> unat (ns ! i) < text_len (info ! i)
       \<or> p = process\<lparr>strInProcess := of_nat i, st_state := STR_WAIT_FINISH, dataRecvLength := 0\<rparr>)"
proof -
  let ?si = "info ! i" and ?k = "nums ! i"
  have t: "0 \<in> set (str_command ?si)" "2 \<le> text_len ?si" "text_len ?si < 256"
    using assms(1) nth_mem [OF assms(2)] by (auto simp: table_ok_def)
  have k1: "unat (?k + 1) = Suc (unat ?k)"
    using assms(5) t(3) by (simp add: unat_word_ariths)
  note a = text_at(1) [OF t(1), of "unat ?k"] text_at(1) [OF t(1), of 0]
    text_at [OF t(1), of "Suc (unat ?k)"]
  show ?thesis
    using a assms t k1
    by (auto simp: match_char_def Let_def nth_list_update)
qed

lemma match_loop_total:
  assumes "table_ok info" "i + n = length info" "length info \<le> length nums" "length info < 256"
    and "\<forall>j < length info. i \<le> j \<or> st_state process = STR_FINISH \<longrightarrow> unat (nums ! j) < text_len (info ! j)"
    and "st_state process = STR_FINISH \<or> st_state process = STR_WAIT_FINISH \<and> unat (strInProcess process) < length info"
  shows "\<exists>p ns l. match_loop info c i n process nums lastChar = Some (p, ns, l)
    \<and> length ns = length nums \<and> strParserCntMax p = strParserCntMax process
    \<and> (st_state p = STR_FINISH \<and> (\<forall>j < length info. unat (ns ! j) < text_len (info ! j))
       \<or> st_state p = STR_WAIT_FINISH \<and> unat (strInProcess p) < length info)"
  using assms
proof (induction n arbitrary: i process nums lastChar)
  case (Suc n)
  have i: "i < length info" using Suc.prems(2) by simp
  have "unat (nums ! i) < text_len (info ! i)" using Suc.prems(5) i by auto
  from match_char_total [OF Suc.prems(1) i Suc.prems(3,4) this, of c process lastChar]
  obtain p ns l where m: "match_char info c i process nums lastChar = Some (p, ns, l)"
    "length ns = length nums" "\<forall>j. j \<noteq> i \<longrightarrow> ns ! j = nums ! j"
    "p = process \<and> unat (ns ! i) < text_len (info ! i)
       \<or> p = process\<lparr>strInProcess := of_nat i, st_state := STR_WAIT_FINISH, dataRecvLength := 0\<rparr>"
    by blast
  have u: "unat (of_nat i :: u8) = i" using i Suc.prems(4) by (simp add: unat_of_nat)
  have "\<forall>j < length info. Suc i \<le> j \<or> st_state p = STR_FINISH \<longrightarrow> unat (ns ! j) < text_len (info ! j)"
  proof (intro allI impI)
    fix j assume j: "j < length info" "Suc i \<le> j \<or> st_state p = STR_FINISH"
    show "unat (ns ! j) < text_len (info ! j)"
    proof (cases "j = i")
      case True
      then show ?thesis using j(2) m(4) by auto
    next
      case False
      then have "ns ! j = nums ! j" using m(3) by simp
      moreover have "i \<le> j \<or> st_state process = STR_FINISH" using j(2) m(4) by auto
      ultimately show ?thesis using Suc.prems(5) j(1) by auto
    qed
  qed
  moreover have "st_state p = STR_FINISH \<or> st_state p = STR_WAIT_FINISH \<and> unat (strInProcess p) < length info"
    using m(4) Suc.prems(6) i u by auto
  moreover have "strParserCntMax p = strParserCntMax process" using m(4) by auto
  moreover have "Suc i + n = length info" "length info \<le> length ns" using Suc.prems(2,3) m(2) by simp_all
  ultimately show ?case
    using Suc.IH [of "Suc i" ns p l] Suc.prems(1,4) m(1,2) by auto
qed auto


lemma parser_inv_reset:
  assumes "table_ok info" "unat (strParserCntMax process) = length info" "length info \<le> length nums"
    "st_state process = STR_FINISH"
  shows "\<exists>ns. reset_counts process nums = Some ns \<and> length ns = length nums \<and> parser_inv info process ns
    \<and> (\<forall>i < length info. ns ! i = 0)"
  using reset_counts_total [OF assms(1-3)] assms by (auto simp: parser_inv_def)

lemma StrParserCtl_total:
  assumes "parser_inv info process nums"
  shows "\<exists>p ns. StrParserCtl t process nums = Some (p, ns) \<and> parser_inv info p ns
    \<and> (st_state p = STR_WAIT_FINISH \<longrightarrow> p = process \<and> ns = nums)"
proof (cases "st_state process \<noteq> STR_FINISH \<and> t - st_timeout process \<ge> timeoutSet process")
  case True
  let ?p = "process\<lparr>st_timeout := t, st_state := STR_FINISH\<rparr>"
  have "table_ok info" "unat (strParserCntMax ?p) = length info" "length info \<le> length nums"
    "st_state ?p = STR_FINISH" using assms by (simp_all add: parser_inv_def)
  from parser_inv_reset [OF this] True show ?thesis by (auto simp: StrParserCtl_def Let_def)
next
  case False
  then show ?thesis using assms by (auto simp: StrParserCtl_def parser_inv_def)
qed

lemma parser_inv_len: "parser_inv info process nums \<Longrightarrow> length info < 256"
  using u8_less_256 [of "strParserCntMax process"] by (simp add: parser_inv_def)

lemma deliver_total:
  assumes "parser_inv info process nums" "st_state process = STR_WAIT_FINISH"
    and cb: "\<forall>si \<in> set info. \<forall>n c w. cb (str_callback si) n c w \<noteq> None"
  shows "\<exists>p ns w'. deliver cb info c process nums w = Some (p, ns, w') \<and> parser_inv info p ns"
proof -
  have k: "unat (strInProcess process) < length info" using assms by (simp add: parser_inv_def)
  then have "cb (str_callback (info ! unat (strInProcess process))) (dataRecvLength process) c w \<noteq> None"
    using cb nth_mem [OF k] by blast
  then obtain r w' where c: "cb (str_callback (info ! unat (strInProcess process))) (dataRecvLength process) c w = Some (r, w')"
    by auto
  let ?n = "dataRecvLength process + 1"
  have R: "\<exists>ns'. reset_counts p ns = Some ns' \<and> length ns' = length ns \<and> parser_inv info p ns'"
    if "strParserCntMax p = strParserCntMax process" "length ns = length nums" "st_state p = STR_FINISH" for p ns
    using parser_inv_reset [of info p ns] that assms(1) by (auto simp: parser_inv_def)
  have I: "parser_inv info (p\<lparr>dataRecvLength := x\<rparr>) ns = parser_inv info p ns" for p x ns
    by (simp add: parser_inv_def)
  obtain p1 ns1 where 1: "(if r = 0 then do {
          let process = process\<lparr>st_state := STR_FINISH\<rparr>;
          nums \<leftarrow> reset_counts process nums;
          Some (process, nums)
        } else Some (process, nums)) = Some (p1, ns1)"
    "parser_inv info p1 ns1" "length ns1 = length nums" "strParserCntMax p1 = strParserCntMax process"
    using R [of "process\<lparr>st_state := STR_FINISH\<rparr>" nums] assms(1) by (cases "r = 0") auto
  have "\<exists>p ns. (let process = p1\<lparr>dataRecvLength := dataRecvLength p1 + 1\<rparr> in
     if dataRecvLength process \<ge> dataRecvMaxLength process then do {
       let process = process\<lparr>st_state := STR_FINISH\<rparr>;
       nums \<leftarrow> reset_counts process ns1;
       Some (process, nums, w')
     }
     else Some (process, ns1, w')) = Some (p, ns, w') \<and> parser_inv info p ns"
    using R [of "p1\<lparr>dataRecvLength := dataRecvLength p1 + 1, st_state := STR_FINISH\<rparr>" ns1] 1(2-4)
    by (auto simp: I Let_def)
  then obtain p ns where "(let process = p1\<lparr>dataRecvLength := dataRecvLength p1 + 1\<rparr> in
     if dataRecvLength process \<ge> dataRecvMaxLength process then do {
       let process = process\<lparr>st_state := STR_FINISH\<rparr>;
       nums \<leftarrow> reset_counts process ns1;
       Some (process, nums, w')
     }
     else Some (process, ns1, w')) = Some (p, ns, w')" "parser_inv info p ns" by blast
  moreover from this(1) have "deliver cb info c process nums w = Some (p, ns, w')"
    using k c 1(1) by (simp add: deliver_def Let_def)
  ultimately show ?thesis by blast
qed

text \<open>Property C20. Whatever bytes arrive and whenever, the response parser stays inside its
  command table, its counters and its texts, provided every text has at least two characters;
  the invariant holds again after every byte.\<close>

theorem StrComnandParser_safe:
  assumes "parser_inv info process nums"
    and "\<forall>si \<in> set info. \<forall>n c w. cb (str_callback si) n c w \<noteq> None"
  shows "\<exists>p ns l w'. StrComnandParser cb t info process nums lastChar c w = Some (p, ns, l, w')
    \<and> parser_inv info p ns"
proof -
  from StrParserCtl_total [OF assms(1), of t] obtain p ns where
    ctl: "StrParserCtl t process nums = Some (p, ns)" "parser_inv info p ns" by auto
  show ?thesis
  proof (cases "st_state p")
    case STR_NEW_STATE
    let ?p = "p\<lparr>st_state := STR_FINISH\<rparr>"
    have "table_ok info" "unat (strParserCntMax ?p) = length info" "length info \<le> length ns"
      "st_state ?p = STR_FINISH" using ctl(2) by (simp_all add: parser_inv_def)
    from parser_inv_reset [OF this] ctl STR_NEW_STATE show ?thesis
      by (auto simp: StrComnandParser_def Let_def)
  next
    case STR_WAIT_FINISH
    from deliver_total [OF ctl(2) this assms(2), of c w] obtain p' ns' w' where
      "deliver cb info c p ns w = Some (p', ns', w')" "parser_inv info p' ns'" by auto
    with ctl(1) STR_WAIT_FINISH show ?thesis by (simp add: StrComnandParser_def)
  next
    case STR_FINISH
    have c: "table_ok info" "unat (strParserCntMax p) = length info" "length info \<le> length ns"
      "\<forall>j < length info. unat (ns ! j) < text_len (info ! j)"
      using ctl(2) STR_FINISH by (simp_all add: parser_inv_def)
    have "\<exists>p' ns' l. match_loop info c 0 (length info) p ns lastChar = Some (p', ns', l)
      \<and> length ns' = length ns \<and> strParserCntMax p' = strParserCntMax p
      \<and> (st_state p' = STR_FINISH \<and> (\<forall>j < length info. unat (ns' ! j) < text_len (info ! j))
         \<or> st_state p' = STR_WAIT_FINISH \<and> unat (strInProcess p') < length info)"
      by (rule match_loop_total) (use c parser_inv_len [OF ctl(2)] STR_FINISH in auto)
    then show ?thesis
      using ctl(1) STR_FINISH c by (auto simp: StrComnandParser_def parser_inv_def)
  qed
qed


section \<open>A response is recognised and its data delivered\<close>

text \<open>Feeding bytes with their arrival times, and the callback's view of the data.\<close>

fun feed_parser where
  "feed_parser cb info [] (process, nums, lastChar, w) = Some (process, nums, lastChar, w)"
| "feed_parser cb info ((t, c) # cs) (process, nums, lastChar, w) = do {
     s \<leftarrow> StrComnandParser cb t info process nums lastChar c w;
     feed_parser cb info cs s
   }"

fun calls :: "('a \<Rightarrow> u16 \<Rightarrow> u8 \<Rightarrow> 'w \<Rightarrow> (u32 \<times> 'w) option) \<Rightarrow> 'a \<Rightarrow> u16 \<Rightarrow> bytes \<Rightarrow> 'w \<Rightarrow> ('w \<times> bool) option" where
  "calls cb a n [] w = Some (w, True)"
| "calls cb a n (c # cs) w = do {
     (r, w) \<leftarrow> cb a n c w;
     if r = 0 then (if cs = [] then Some (w, False) else None) else calls cb a (n + 1) cs w
   }"

lemma feed_parser_append:
  "feed_parser cb info (xs @ ys) s = do { s \<leftarrow> feed_parser cb info xs s; feed_parser cb info ys s }"
proof (induction xs arbitrary: s)
  case Nil
  then show ?case by (cases s) simp
next
  case (Cons x xs)
  obtain t c p ns l w where "x = (t, c)" "s = (p, ns, l, w)" by (metis prod_cases4 surj_pair)
  then show ?case using Cons.IH by (cases "StrComnandParser cb t info p ns l c w") auto
qed

definition single :: "bytes \<Rightarrow> 'a \<Rightarrow> 'a STR_INFO list" where
  "single text a = [\<lparr>str_command = text @ [0], str_callback = a\<rparr>]"

text \<open>The parser of one text, with the first \<open>k\<close> characters matched.\<close>

definition matching :: "nat \<Rightarrow> STR_PARSER \<Rightarrow> u8 list \<Rightarrow> bool" where
  "matching k p ns \<longleftrightarrow> st_state p = STR_FINISH \<and> strParserCntMax p = 1 \<and> ns \<noteq> [] \<and> ns ! 0 = of_nat k"

lemma match_step:
  assumes "matching k p ns" "0 \<notin> set text" "k < length text" "length text < 256"
  shows "\<exists>p' ns'. StrComnandParser cb t (single text a) p ns l (text ! k) w = Some (p', ns', text ! k, w)
    \<and> dataRecvMaxLength p' = dataRecvMaxLength p \<and> timeoutSet p' = timeoutSet p \<and> st_timeout p' = t
    \<and> (if Suc k < length text then matching (Suc k) p' ns'
       else st_state p' = STR_WAIT_FINISH \<and> strInProcess p' = 0 \<and> dataRecvLength p' = 0
         \<and> strParserCntMax p' = 1 \<and> ns' \<noteq> [])"
proof -
  have k: "unat (of_nat k :: u8) = k" "unat (1 + of_nat k :: u8) = Suc k"
    using assms(3,4) by (simp_all add: unat_of_nat unat_word_ariths take_bit_nat_eq_self)
  have r: "rd (text @ [0]) k = Some (text ! k)"
    "rd (text @ [0]) (Suc k) = Some (if Suc k < length text then text ! Suc k else 0)"
    using assms(3) by (auto simp: rd_def nth_append)
  have nz: "(if Suc k < length text then text ! Suc k else 0) = 0 \<longleftrightarrow> \<not> Suc k < length text"
    using assms(2) nth_mem by metis
  let ?p = "p\<lparr>st_timeout := t\<rparr>"
  have "match_char (single text a) (text ! k) 0 ?p ns l =
      Some (if Suc k < length text then ?p
            else ?p\<lparr>strInProcess := of_nat 0, st_state := STR_WAIT_FINISH, dataRecvLength := 0\<rparr>,
            ns[0 := 1 + of_nat k], text ! k)"
    using assms(1) k r nz
    by (simp add: matching_def match_char_def single_def Let_def add.commute)
  then have "StrComnandParser cb t (single text a) p ns l (text ! k) w =
      Some (if Suc k < length text then ?p
            else ?p\<lparr>strInProcess := of_nat 0, st_state := STR_WAIT_FINISH, dataRecvLength := 0\<rparr>,
            ns[0 := 1 + of_nat k], text ! k, w)"
    using assms(1) by (simp add: matching_def StrComnandParser_def StrParserCtl_def)
  then show ?thesis using assms(1) by (simp add: matching_def add.commute)
qed

lemma match_text:
  "matching k p ns \<Longrightarrow> 0 \<notin> set text \<Longrightarrow> k < length text \<Longrightarrow> length text < 256 \<Longrightarrow>
   cs = drop k text \<Longrightarrow> length ts = length cs \<Longrightarrow>
   \<exists>p' ns' l'. feed_parser cb (single text a) (zip ts cs) (p, ns, l, w) = Some (p', ns', l', w)
    \<and> dataRecvMaxLength p' = dataRecvMaxLength p \<and> timeoutSet p' = timeoutSet p \<and> st_timeout p' = last ts
    \<and> st_state p' = STR_WAIT_FINISH \<and> strInProcess p' = 0 \<and> dataRecvLength p' = 0
    \<and> strParserCntMax p' = 1 \<and> ns' \<noteq> []"
proof (induction cs arbitrary: k p ns ts l)
  case Nil
  then show ?case by simp
next
  case (Cons c cs)
  obtain t ts' where ts: "ts = t # ts'" using Cons.prems(6) by (cases ts) auto
  have c: "c = text ! k" "cs = drop (Suc k) text"
    using Cons.prems(3,5) by (metis Cons_nth_drop_Suc list.inject)+
  from match_step [OF Cons.prems(1-4), of cb t a l w] obtain p1 ns1 where
    s1: "StrComnandParser cb t (single text a) p ns l c w = Some (p1, ns1, c, w)"
    "dataRecvMaxLength p1 = dataRecvMaxLength p" "timeoutSet p1 = timeoutSet p" "st_timeout p1 = t"
    "if Suc k < length text then matching (Suc k) p1 ns1
       else st_state p1 = STR_WAIT_FINISH \<and> strInProcess p1 = 0 \<and> dataRecvLength p1 = 0
         \<and> strParserCntMax p1 = 1 \<and> ns1 \<noteq> []"
    using c(1) by auto
  show ?case
  proof (cases "Suc k < length text")
    case True
    then have m: "matching (Suc k) p1 ns1" using s1(5) by simp
    have ne: "ts' \<noteq> []" using True c(2) Cons.prems(6) ts by auto
    have "length ts' = length cs" using Cons.prems(6) ts by simp
    from Cons.IH [OF m Cons.prems(2) True Cons.prems(4) c(2) this, of c] s1 ts ne show ?thesis by auto
  next
    case False
    then have "cs = []" using c(2) by simp
    then show ?thesis using s1 ts False Cons.prems(6) by auto
  qed
qed

lemma deliver_data:
  "st_state p = STR_WAIT_FINISH \<Longrightarrow> strInProcess p = 0 \<Longrightarrow> strParserCntMax p = 1 \<Longrightarrow> ns \<noteq> [] \<Longrightarrow>
   unat (dataRecvLength p) + length ds < unat (dataRecvMaxLength p) \<Longrightarrow>
   \<forall>t \<in> set ts. t - st_timeout p < timeoutSet p \<Longrightarrow> length ts = length ds \<Longrightarrow>
   calls cb a (dataRecvLength p) ds w = Some (w', go_on) \<Longrightarrow>
   \<exists>p' ns' l'. feed_parser cb (single text a) (zip ts ds) (p, ns, l, w) = Some (p', ns', l', w')
    \<and> (if go_on then st_state p' = STR_WAIT_FINISH else matching 0 p' ns')"
proof (induction ds arbitrary: p ns ts w)
  case Nil
  then show ?case by auto
next
  case (Cons c ds)
  obtain t ts' where ts: "ts = t # ts'" using Cons.prems(7) by (cases ts) auto
  have tm: "\<not> t - st_timeout p \<ge> timeoutSet p" using Cons.prems(6) ts by (simp add: not_le)
  obtain r w1 where cb: "cb a (dataRecvLength p) c w = Some (r, w1)"
    using Cons.prems(8) by (auto split: bind_splits)
  have n: "unat (dataRecvLength p + 1) = Suc (unat (dataRecvLength p))"
    using Cons.prems(5) unat_Suc_no_overflow [of "dataRecvLength p" "dataRecvMaxLength p"]
    by (simp add: word_less_nat_alt)
  have lt: "\<not> dataRecvMaxLength p \<le> dataRecvLength p + 1"
    using Cons.prems(5) n by (simp add: word_le_nat_alt)
  show ?case
  proof (cases "r = 0")
    case True
    then have d: "ds = []" "w' = w1" "\<not> go_on"
      using Cons.prems(8) cb by (auto split: if_splits)
    have "\<exists>ns'. reset_counts (p\<lparr>st_state := STR_FINISH\<rparr>) ns = Some ns' \<and> ns' \<noteq> [] \<and> ns' ! 0 = 0"
      using Cons.prems(3,4) by (cases ns) (auto simp: reset_counts_def numeral_eq_Suc)
    then show ?thesis
      using d ts cb lt tm Cons.prems True
      by (auto simp: StrComnandParser_def StrParserCtl_def deliver_def single_def Let_def matching_def)
  next
    case False
    let ?p = "p\<lparr>dataRecvLength := dataRecvLength p + 1\<rparr>"
    have "StrComnandParser cb t (single text a) p ns l c w = Some (?p, ns, l, w1)"
      using cb lt tm Cons.prems(1-4) False
      by (simp add: StrComnandParser_def StrParserCtl_def deliver_def single_def Let_def)
    moreover have "\<exists>p' ns' l'. feed_parser cb (single text a) (zip ts' ds) (?p, ns, l, w1) = Some (p', ns', l', w')
      \<and> (if go_on then st_state p' = STR_WAIT_FINISH else matching 0 p' ns')"
      by (rule Cons.IH) (use Cons.prems n ts cb False in auto)
    ultimately show ?thesis using ts by simp
  qed
qed

text \<open>Property C19. A parser for one response text that starts afresh recognises the text whenever
  its characters arrive, and hands the bytes that follow within the timeout to the callback,
  numbered from 0; when the callback returns 0 it is ready for the next response.\<close>

theorem StrComnandParser_delivers:
  assumes "matching 0 p ns" "0 \<notin> set text" "text \<noteq> []" "length text < 256"
    and "length ts = length text" "length us = length ds"
    and "\<forall>t \<in> set us. t - last ts < timeoutSet p" "length ds < unat (dataRecvMaxLength p)"
    and "calls cb a 0 ds w = Some (w', go_on)"
  shows "\<exists>p' ns' l'. feed_parser cb (single text a) (zip ts text @ zip us ds) (p, ns, l, w) = Some (p', ns', l', w')
    \<and> (if go_on then st_state p' = STR_WAIT_FINISH else matching 0 p' ns')"
proof -
  have "0 < length text" using assms(3) by simp
  from match_text [OF assms(1,2) this assms(4) drop_0 [symmetric] assms(5), of cb a l w]
  obtain p1 ns1 l1 where m: "feed_parser cb (single text a) (zip ts text) (p, ns, l, w) = Some (p1, ns1, l1, w)"
    "dataRecvMaxLength p1 = dataRecvMaxLength p" "timeoutSet p1 = timeoutSet p" "st_timeout p1 = last ts"
    "st_state p1 = STR_WAIT_FINISH" "strInProcess p1 = 0" "dataRecvLength p1 = 0"
    "strParserCntMax p1 = 1" "ns1 \<noteq> []" by blast
  have "\<exists>p' ns' l'. feed_parser cb (single text a) (zip us ds) (p1, ns1, l1, w) = Some (p', ns', l', w')
    \<and> (if go_on then st_state p' = STR_WAIT_FINISH else matching 0 p' ns')"
    by (rule deliver_data) (use m assms in simp_all)
  then show ?thesis by (simp add: feed_parser_append m(1))
qed

text \<open>A callback that collects the data up to a carriage return.\<close>

definition collect_line :: "unit \<Rightarrow> u16 \<Rightarrow> u8 \<Rightarrow> bytes \<Rightarrow> (u32 \<times> bytes) option" where
  "collect_line a n c w = Some (if c = 0x0D then 0 else 0xff, w @ [c])"

definition fresh_parser :: STR_PARSER where
  "fresh_parser = \<lparr>st_state = STR_FINISH, dataRecvLength = 0, dataRecvMaxLength = 1024,
     strParserCntMax = 1, strInProcess = 0, st_timeout = 0, timeoutSet = 1000\<rparr>"

lemma StrComnandParser_delivers_witness:
  "\<exists>p' ns' l'. feed_parser collect_line (single (ascii ''+CSQ:'') ())
      (zip [1, 2, 3, 4, 5] (ascii ''+CSQ:'') @ zip [6, 9, 12] [0x32, 0x31, 0x0D]) (fresh_parser, [0], 0, [])
      = Some (p', ns', l', [0x32, 0x31, 0x0D])
    \<and> (if False then st_state p' = STR_WAIT_FINISH else matching 0 p' ns')"
  by (rule StrComnandParser_delivers)
    (simp_all add: matching_def fresh_parser_def ascii_def of_char_def collect_line_def)

lemma StrComnandParser_safe_witness:
  "\<exists>p ns l w'. StrComnandParser collect_line 5 (single (ascii ''OK'') ()) fresh_parser [0] 0 0x4F [] = Some (p, ns, l, w')
    \<and> parser_inv (single (ascii ''OK'') ()) p ns"
  by (rule StrComnandParser_safe)
    (simp_all add: parser_inv_def table_ok_def text_len_def single_def fresh_parser_def ascii_def of_char_def
      collect_line_def cstr_def)

end
