(* ===== verification/DataCmp.thy ===== *)
theory DataCmp
  imports Prelude
begin

text \<open>
  The incremental text search of \<open>ampm_lib/lib/data_cmp.c\<close>, fed one received byte at a
  time.  It finds a text that arrives in one piece; the theorems also pin down where its
  restart rule departs from a search.
\<close>

record COMPARE_TYPE =
  cd_c :: u8
  cd_buff :: bytes
  cd_index :: u8
  cd_len :: u8

definition InitFindData :: "COMPARE_TYPE \<Rightarrow> bytes \<Rightarrow> COMPARE_TYPE option" where
  "InitFindData cmpData data = do {
     n \<leftarrow> strlen data;
     Some (cmpData\<lparr>cd_c := 0, cd_buff := data, cd_index := 0, cd_len := of_nat n\<rparr>)
   }"

definition FindData :: "COMPARE_TYPE \<Rightarrow> u8 \<Rightarrow> (u8 \<times> COMPARE_TYPE) option" where
  "FindData cmpData c = do {
     b \<leftarrow> rd (cd_buff cmpData) (unat (cd_index cmpData));
     b0 \<leftarrow> rd (cd_buff cmpData) 0;
     let cmpData =
       (if b = c then cmpData\<lparr>cd_c := c, cd_index := cd_index cmpData + 1\<rparr>
        else if cd_c cmpData = b0 then cmpData\<lparr>cd_index := 1\<rparr>
        else cmpData\<lparr>cd_index := 0\<rparr>);
     if cd_index cmpData \<ge> cd_len cmpData then Some (0, cmpData\<lparr>cd_c := 0\<rparr>)
     else Some (0xff, cmpData)
   }"

text \<open>The return values for a sequence of bytes.\<close>

fun FindData_run :: "COMPARE_TYPE \<Rightarrow> bytes \<Rightarrow> (u8 list \<times> COMPARE_TYPE) option" where
  "FindData_run cmpData [] = Some ([], cmpData)"
| "FindData_run cmpData (c # cs) = do {
     (r, cmpData) \<leftarrow> FindData cmpData c;
     (rs, cmpData) \<leftarrow> FindData_run cmpData cs;
     Some (r # rs, cmpData)
   }"

section \<open>Invariant\<close>

text \<open>A search in progress for \<open>text\<close>, of which \<open>k\<close> bytes are matched.\<close>

definition searching :: "bytes \<Rightarrow> nat \<Rightarrow> COMPARE_TYPE \<Rightarrow> bool" where
  "searching pat k s \<longleftrightarrow> k < length pat \<and> length pat < 256 \<and> 0 \<notin> set pat
     \<and> (\<exists>junk. cd_buff s = pat @ 0 # junk) \<and> unat (cd_index s) = k \<and> unat (cd_len s) = length pat"

lemma of_nat_u8: "n < 256 \<Longrightarrow> unat (of_nat n :: u8) = n"
  by (simp add: unat_of_nat take_bit_eq_mod)

lemma InitFindData_searching:
  assumes "0 \<notin> set pat" "pat \<noteq> []" "length pat < 256"
  shows "\<exists>s'. InitFindData s (pat @ 0 # junk) = Some s' \<and> searching pat 0 s' \<and> cd_c s' = 0"
  using assms by (simp add: InitFindData_def searching_def of_nat_u8)

lemma FindData_step:
  fixes c :: u8
  assumes s: "searching pat k s"
  defines "j \<equiv> (if pat ! k = c then Suc k else if cd_c s = pat ! 0 then 1 else 0)"
  shows "\<exists>s'. FindData s c = Some (if j < length pat then 0xff else 0, s')
    \<and> (j < length pat \<longrightarrow> searching pat j s')
    \<and> cd_c s' = (if j < length pat then if pat ! k = c then c else cd_c s else 0)"
proof -
  obtain junk where b: "cd_buff s = pat @ 0 # junk" using s by (auto simp: searching_def)
  have k: "k < length pat" "length pat < 256" "0 \<notin> set pat" "unat (cd_index s) = k"
    "unat (cd_len s) = length pat" using s by (auto simp: searching_def)
  have S: "unat (cd_index s + 1) = Suc k"
    using k by (metis unat_Suc_no_overflow word_less_nat_alt)
  have ne: "pat \<noteq> []" using k by auto
  show ?thesis
    using k ne unfolding j_def
    by (auto simp: FindData_def b S searching_def Let_def nth_append word_le_nat_alt)
qed

section \<open>Properties\<close>

text \<open>A search never reads past the text's terminator: as long as it reports
  \<open>0xff\<close> it stays in progress, whatever bytes arrive.\<close>

theorem FindData_safe:
  assumes "searching pat k s"
  shows "\<exists>r s'. FindData s c = Some (r, s') \<and> (r = 0 \<or> (r = 0xff \<and> (\<exists>j. searching pat j s')))"
  using FindData_step [OF assms, of c] by (auto split: if_splits)

definition demo_search :: COMPARE_TYPE where
  "demo_search = \<lparr>cd_c = 0, cd_buff = lit ''OK'', cd_index = 0, cd_len = 2\<rparr>"

lemma demo_search: "searching (ascii ''OK'') 0 demo_search"
  by (simp add: searching_def demo_search_def ascii_def lit_def of_char_def)

lemma FindData_safe_witness:
  "\<exists>r s'. FindData demo_search 0x4F = Some (r, s')
     \<and> (r = 0 \<or> (r = 0xff \<and> (\<exists>j. searching (ascii ''OK'') j s')))"
  by (rule FindData_safe [OF demo_search])

lemma FindData_run_junk:
  "searching pat 0 s \<Longrightarrow> cd_c s = 0 \<Longrightarrow> pat ! 0 \<notin> set junk \<Longrightarrow>
   \<exists>s'. FindData_run s junk = Some (replicate (length junk) 0xff, s') \<and> searching pat 0 s' \<and> cd_c s' = 0"
proof (induction junk arbitrary: s)
  case (Cons c cs)
  have ne: "0 < length pat" "pat ! 0 \<noteq> 0"
    using Cons.prems(1) nth_mem [of 0 pat] by (auto simp: searching_def simp del: nth_mem)
  from FindData_step [OF Cons.prems(1), of c] Cons.prems ne obtain s1 where
    "FindData s c = Some (0xff, s1)" "searching pat 0 s1" "cd_c s1 = 0" by auto
  with Cons.IH [of s1] Cons.prems show ?case by auto
qed simp

lemma FindData_run_match:
  "searching pat k s \<Longrightarrow> rest = drop k pat \<Longrightarrow>
   \<exists>s'. FindData_run s rest = Some (replicate (length rest - 1) 0xff @ [0], s')"
proof (induction rest arbitrary: k s)
  case Nil
  then show ?case by (auto simp: searching_def)
next
  case (Cons c rest)
  have k: "k < length pat" using Cons.prems(1) by (simp add: searching_def)
  then have c: "pat ! k = c" "rest = drop (Suc k) pat"
    using Cons.prems(2) by (metis Cons_nth_drop_Suc list.inject)+
  show ?case
  proof (cases "Suc k < length pat")
    case True
    with FindData_step [OF Cons.prems(1), of c] c obtain s1 where s1:
      "FindData s c = Some (0xff, s1)" "searching pat (Suc k) s1" by auto
    then have "length rest = Suc (length pat - Suc (Suc k))" using c(2) True by simp
    with Cons.IH [OF s1(2) c(2)] s1(1) show ?thesis by auto
  next
    case False
    with FindData_step [OF Cons.prems(1), of c] c show ?thesis by auto
  qed
qed

lemma FindData_run_append:
  "FindData_run s (xs @ ys) = do {
     (rs, s) \<leftarrow> FindData_run s xs; (rs', s) \<leftarrow> FindData_run s ys; Some (rs @ rs', s) }"
proof (induction xs arbitrary: s)
  case Nil
  show ?case by (cases "FindData_run s ys") auto
next
  case (Cons x xs)
  show ?case
  proof (cases "FindData s x")
    case (Some p)
    with Cons show ?thesis
      by (cases p; cases "FindData_run (snd p) xs") (auto split: prod.split option.split Option.bind_split)
  qed simp
qed

text \<open>A text whose first byte does not occur before it is reported exactly at its
  last byte.\<close>

theorem FindData_finds:
  assumes "0 \<notin> set pat" "pat \<noteq> []" "length pat < 256" "pat ! 0 \<notin> set junk"
  shows "\<exists>s1 s2. InitFindData s (pat @ [0]) = Some s1 \<and>
    FindData_run s1 (junk @ pat) = Some (replicate (length junk + length pat - 1) 0xff @ [0], s2)"
proof -
  from InitFindData_searching [OF assms(1-3), of s "[]"] obtain s1 where
    s1: "InitFindData s (pat @ [0]) = Some s1" "searching pat 0 s1" "cd_c s1 = 0" by auto
  from FindData_run_junk [OF s1(2,3) assms(4)] obtain s2 where
    s2: "FindData_run s1 junk = Some (replicate (length junk) 0xff, s2)" "searching pat 0 s2" by auto
  from FindData_run_match [OF s2(2), of pat] obtain s3 where
    "FindData_run s2 pat = Some (replicate (length pat - 1) 0xff @ [0], s3)" by auto
  moreover have "length junk + length pat - 1 = length junk + (length pat - 1)"
    using assms(2) by (cases pat) auto
  ultimately show ?thesis using s1(1) s2(1)
    by (auto simp: FindData_run_append replicate_add)
qed

lemma FindData_finds_witness:
  "\<exists>s1 s2. InitFindData demo_search (ascii ''OK'' @ [0]) = Some s1 \<and>
    FindData_run s1 (ascii ''.K'' @ ascii ''OK'') = Some ([0xff, 0xff, 0xff, 0], s2)"
  using FindData_finds [of "ascii ''OK''" "ascii ''.K''" demo_search]
  by (simp add: ascii_def of_char_def replicate_add upt_conv_Cons)

text \<open>The restart rule tests the last matched byte and not the current one: ``OxK''
  is reported as ``OK'', and ``ABC'' is missed in ``ABABC''.\<close>

theorem FindData_not_a_search:
  "map_option fst (InitFindData s (lit ''OK'') \<bind> (\<lambda>s. FindData_run s (ascii ''OxK'')))
     = Some [0xff, 0xff, 0]
   \<and> map_option fst (InitFindData s (lit ''ABC'') \<bind> (\<lambda>s. FindData_run s (ascii ''ABABC'')))
     = Some [0xff, 0xff, 0xff, 0xff, 0xff]"
  by (simp add: InitFindData_def FindData_def lit_def ascii_def of_char_def strlen_def cstr_def Let_def
      word_le_nat_alt)

end
