(* ===== verification/Sprintf.thy ===== *)
theory Sprintf
  imports Prelude
begin

text \<open>
  The formatter of \<open>ampm_lib/lib/ampm_sprintf.c\<close>.  The output is a buffer with the
  index at which the next character goes; every character written is followed by a
  terminator, so both cells must lie in the buffer.  The variable arguments are a list;
  taking an argument of the wrong kind, or one too many, is \<open>None\<close>.  A \<open>char\<close> is
  unsigned, as in the ARM ABI the firmware is built for.
\<close>

section \<open>The code\<close>

datatype va_arg = IntArg u32 | StrArg bytes

type_synonym outp = "bytes \<times> nat"

definition IsLower :: "u8 \<Rightarrow> bool" where "IsLower c = (0x61 \<le> c \<and> c \<le> 0x7A)"

definition IsDigit :: "u8 \<Rightarrow> bool" where "IsDigit c = (0x30 \<le> c \<and> c \<le> 0x39)"

definition EOF :: int where "EOF = -1"

definition ampm_f_putc :: "u8 \<Rightarrow> outp \<Rightarrow> (int \<times> outp) option" where
  "ampm_f_putc c fp = (case fp of (buf, p) \<Rightarrow> do {
     buf \<leftarrow> wr buf p c;
     buf \<leftarrow> wr buf (p + 1) 0;
     Some (uint c, (buf, p + 1))
   })"

function ampm_f_puts_loop :: "bytes \<Rightarrow> nat \<Rightarrow> int \<Rightarrow> outp \<Rightarrow> (int \<times> outp) option" where
  "ampm_f_puts_loop str i n fp =
     (if i \<ge> length str then None
      else if str ! i = 0 then Some (n, fp)
      else do {
        (r, fp) \<leftarrow> ampm_f_putc (str ! i) fp;
        if r = EOF then Some (EOF, fp) else ampm_f_puts_loop str (i + 1) (n + 1) fp
      })"
  by pat_completeness auto
termination by (relation "measure (\<lambda>(str, i, n, fp). length str - i)") auto

declare ampm_f_puts_loop.simps [simp del]

definition ampm_f_puts :: "bytes \<Rightarrow> outp \<Rightarrow> (int \<times> outp) option" where
  "ampm_f_puts str fp = ampm_f_puts_loop str 0 0 fp"

text \<open>The padding loop \<open>while (j++ < w) chc += (cc = ampm_f_putc(d, &fp))\<close>.\<close>

function pad :: "u8 \<Rightarrow> u16 \<Rightarrow> u16 \<Rightarrow> int \<Rightarrow> int \<Rightarrow> outp \<Rightarrow> (u16 \<times> int \<times> int \<times> outp) option" where
  "pad d j w chc cc fp =
     (if j < w then do {
        (cc, fp) \<leftarrow> ampm_f_putc d fp;
        pad d (j + 1) w (chc + cc) cc fp
      }
      else Some (j + 1, chc, cc, fp))"
  by pat_completeness auto
termination
  by (relation "measure (\<lambda>(d, j, w, chc, cc, fp). unat w - unat j)")
     (auto simp: unat_Suc_no_overflow word_less_nat_alt)

declare pad.simps [simp del]

text \<open>The precision digits, from the character \<open>c\<close> read at \<open>n - 1\<close>.\<close>

function width :: "bytes \<Rightarrow> nat \<Rightarrow> u8 \<Rightarrow> u16 \<Rightarrow> (nat \<times> u8 \<times> u16) option" where
  "width fmt n c w =
     (if IsDigit c then
        (if n < length fmt then width fmt (n + 1) (fmt ! n) (w * 10 + ucast c - 0x30) else None)
      else Some (n, c, w))"
  by pat_completeness auto
termination by (relation "measure (\<lambda>(fmt, n, c, w). length fmt - n)") auto

declare width.simps [simp del]

text \<open>The flags, precision and prefix after a percent sign: the position behind the type
  character, the flags, the precision and the type character.\<close>

definition flags :: "bytes \<Rightarrow> nat \<Rightarrow> (nat \<times> u8 \<times> u16 \<times> u8) option" where
  "flags fmt n = do {
     c \<leftarrow> rd fmt n;
     (n, f, c) \<leftarrow>
       (if c = 0x30 then do { c \<leftarrow> rd fmt (n + 1); Some (n + 2, 1, c) }
        else if c = 0x2D then do { c \<leftarrow> rd fmt (n + 1); Some (n + 2, 2, c) }
        else Some (n + 1, 0 :: u8, c));
     (n, c, w) \<leftarrow> width fmt n c 0;
     (n, f, c) \<leftarrow>
       (if c = 0x6C \<or> c = 0x4C then do { c \<leftarrow> rd fmt n; Some (n + 1, f OR 4, c) }
        else Some (n, f, c));
     Some (n, f, w, c)
   }"

text \<open>The digits of \<open>v\<close> in \<open>s\<close>, lowest first; \<open>lower\<close> when the type is a small x.\<close>

function digits :: "u32 \<Rightarrow> u32 \<Rightarrow> bool \<Rightarrow> bytes \<Rightarrow> bytes" where
  "digits v r lower s =
     (let d = ucast (v mod r) :: u8;
          v = v div r;
          d = (if d > 9 then d + (if lower then 0x27 else 0x07) else d);
          s = s @ [d + 0x30]
      in if v \<noteq> 0 \<and> length s < 16 then digits v r lower s else s)"
  by pat_completeness auto
termination by (relation "measure (\<lambda>(v, r, lower, s). 16 - length s)") auto

declare digits.simps [simp del]

text \<open>The loop \<open>do chc += (cc = ampm_f_putc(s[--i], &fp)); while(i)\<close>.\<close>

fun put_digits :: "bytes \<Rightarrow> int \<Rightarrow> int \<Rightarrow> outp \<Rightarrow> (int \<times> int \<times> outp) option" where
  "put_digits [] chc cc fp = Some (chc, cc, fp)"
| "put_digits (c # cs) chc cc fp = do {
     (cc, fp) \<leftarrow> ampm_f_putc c fp;
     put_digits cs (chc + cc) cc fp
   }"

definition conv_string :: "bytes \<Rightarrow> u8 \<Rightarrow> u16 \<Rightarrow> outp \<Rightarrow> (int \<times> outp) option" where
  "conv_string p f w fp = do {
     n \<leftarrow> strlen p;
     (if n \<ge> 65536 then None else Some ());
     (j, chc, cc, fp) \<leftarrow>
       (if f AND 2 = 0 then pad 0x20 (of_nat n) w 0 0 fp else Some (of_nat n, 0, 0, fp));
     (cc, fp) \<leftarrow> ampm_f_puts p fp;
     (j, chc, cc, fp) \<leftarrow> pad 0x20 j w (chc + cc) cc fp;
     Some (if cc \<noteq> EOF then chc else cc, fp)
   }"

definition conv_number :: "u32 \<Rightarrow> u32 \<Rightarrow> u8 \<Rightarrow> u8 \<Rightarrow> u16 \<Rightarrow> outp \<Rightarrow> (int \<times> outp) option" where
  "conv_number r v c f w fp = (
     let neg = ((c = 0x64 \<or> c = 0x44) \<and> v AND 0x80000000 \<noteq> 0);
         f = (if neg then f OR 8 else f);
         v = (if neg then 0 - v else v);
         s = digits v r (c = 0x78) []
     in do {
       s \<leftarrow> (if f AND 8 \<noteq> 0 then (if length s < 16 then Some (s @ [0x2D]) else None) else Some s);
       (j, chc, cc, fp) \<leftarrow>
         (if f AND 2 = 0 then pad (if f AND 1 \<noteq> 0 then 0x30 else 0x20) (of_nat (length s)) w 0 0 fp
          else Some (of_nat (length s), 0, 0, fp));
       (chc, cc, fp) \<leftarrow> put_digits (rev s) chc cc fp;
       (j, chc, cc, fp) \<leftarrow> pad 0x20 j w chc cc fp;
       Some (if cc \<noteq> EOF then chc else cc, fp)
     })"

definition radix :: "u8 \<Rightarrow> u32 option" where
  "radix d = (if d = 0x42 then Some 2 else if d = 0x4F then Some 8
              else if d = 0x44 \<or> d = 0x55 then Some 10 else if d = 0x58 then Some 16 else None)"

text \<open>One conversion of type \<open>c\<close>.\<close>

definition convert :: "u8 \<Rightarrow> u8 \<Rightarrow> u16 \<Rightarrow> va_arg list \<Rightarrow> outp \<Rightarrow> (int \<times> va_arg list \<times> outp) option" where
  "convert c f w args fp = (
     let d = (if IsLower c then c - 0x20 else c)
     in if d = 0x53 then
          (case args of StrArg p # args \<Rightarrow> do { (cc, fp) \<leftarrow> conv_string p f w fp; Some (cc, args, fp) }
           | _ \<Rightarrow> None)
        else if d = 0x43 then
          (case args of IntArg v # args \<Rightarrow> do { (cc, fp) \<leftarrow> ampm_f_putc (ucast v) fp; Some (cc, args, fp) }
           | _ \<Rightarrow> None)
        else
          (case radix d of
             Some r \<Rightarrow>
               (case args of IntArg v # args \<Rightarrow> do { (cc, fp) \<leftarrow> conv_number r v c f w fp; Some (cc, args, fp) }
                | _ \<Rightarrow> None)
           | None \<Rightarrow> do { (cc, fp) \<leftarrow> ampm_f_putc c fp; Some (cc, args, fp) }))"

partial_function (option) ampm_vsprintf_loop ::
  "bytes \<Rightarrow> nat \<Rightarrow> va_arg list \<Rightarrow> int \<Rightarrow> int \<Rightarrow> outp \<Rightarrow> (int \<times> outp) option" where
  "ampm_vsprintf_loop fmt n args res cc fp =
     (if cc = EOF then Some (cc, fp)
      else do {
        c \<leftarrow> rd fmt n;
        if c = 0 then Some (res, fp)
        else if c \<noteq> 0x25 then do {
          (cc, fp) \<leftarrow> ampm_f_putc c fp;
          let cc = (if cc \<noteq> EOF then 1 else cc);
          ampm_vsprintf_loop fmt (n + 1) args (res + cc) cc fp
        }
        else do {
          (n, f, w, c) \<leftarrow> flags fmt (n + 1);
          if c = 0 then Some (res, fp)
          else do {
            (cc, args, fp) \<leftarrow> convert c f w args fp;
            ampm_vsprintf_loop fmt n args (res + cc) cc fp
          }
        }
      })"

definition ampm_vsprintf :: "bytes \<Rightarrow> bytes \<Rightarrow> va_arg list \<Rightarrow> (int \<times> bytes) option" where
  "ampm_vsprintf fp format arg = do {
     (res, fp) \<leftarrow> ampm_vsprintf_loop format 0 arg 0 0 (fp, 0);
     Some (res, fst fp)
   }"

definition ampm_sprintf :: "bytes \<Rightarrow> bytes \<Rightarrow> va_arg list \<Rightarrow> (int \<times> bytes) option" where
  "ampm_sprintf fp format args = ampm_vsprintf fp format args"

section \<open>Characters written one after another\<close>

text \<open>What writing a text does to the output: the empty text writes nothing, not even a
  terminator.\<close>

fun emit :: "bytes \<Rightarrow> outp \<Rightarrow> outp" where
  "emit [] fp = fp"
| "emit (c # cs) (b, p) = emit cs (b[p := c, Suc p := 0], Suc p)"

definition room :: "nat \<Rightarrow> outp \<Rightarrow> bool" where
  "room n fp = (n = 0 \<or> snd fp + n < length (fst fp))"

lemma emit_append: "emit (s @ t) fp = emit t (emit s fp)"
  by (induction s fp rule: emit.induct) auto

lemma length_emit [simp]: "length (fst (emit t fp)) = length (fst fp)"
  by (induction t fp rule: emit.induct) auto

lemma snd_emit [simp]: "snd (emit t fp) = snd fp + length t"
  by (induction t fp rule: emit.induct) auto

lemma room_emit [simp]: "room (length t + n) fp \<Longrightarrow> room n (emit t fp)"
  by (auto simp: room_def)

lemma emit_closed:
  "t \<noteq> [] \<Longrightarrow> p + length t < length b \<Longrightarrow>
   fst (emit t (b, p)) = take p b @ t @ 0 # drop (Suc (p + length t)) b"
proof (induction t arbitrary: b p)
  case (Cons c cs)
  let ?b = "b[p := c, Suc p := 0]"
  have b: "take (Suc p) ?b = take p b @ [c]"
    using Cons.prems by (simp add: take_Suc_conv_app_nth take_update_swap list_update_append)
  show ?case
  proof (cases "cs = []")
    case True
    then show ?thesis using Cons.prems b
      using upd_conv_take_nth_drop [of "Suc p" "b[p := c]" 0]
      by (simp add: take_Suc_conv_app_nth list_update_append)
  next
    case False
    then have "fst (emit cs (?b, Suc p)) = take (Suc p) ?b @ cs @ 0 # drop (Suc (Suc p + length cs)) ?b"
      using Cons.prems by (intro Cons.IH) auto
    with False show ?thesis by (simp add: b)
  qed
qed simp

lemma uint_not_EOF [simp]: "uint (c :: u8) \<noteq> EOF" "int n \<noteq> EOF" "EOF \<noteq> numeral k"
  using uint_ge_0 [of c] by (simp_all add: EOF_def del: uint_ge_0 unsigned_greater_eq)

lemma putc_emit: "room 1 fp \<Longrightarrow> ampm_f_putc c fp = Some (uint c, emit [c] fp)"
  by (cases fp) (auto simp: ampm_f_putc_def room_def)

lemma room_mono: "room n fp \<Longrightarrow> m \<le> n \<Longrightarrow> room m fp"
  by (auto simp: room_def)

lemma put_digits_emit:
  "room (length s) fp \<Longrightarrow> s \<noteq> [] \<Longrightarrow>
   put_digits s chc cc fp = Some (chc + (\<Sum>c\<leftarrow>s. uint c), uint (last s), emit s fp)"
proof (induction s arbitrary: chc cc fp)
  case (Cons c s)
  have r: "room 1 fp" by (rule room_mono [OF Cons.prems(1)]) simp
  have r': "room (length s) (emit [c] fp)" by (rule room_emit) (use Cons.prems in simp)
  show ?case
  proof (cases "s = []")
    case True
    then show ?thesis by (simp add: putc_emit [OF r])
  next
    case False
    then show ?thesis
      using Cons.IH [OF r' False] emit_append [of "[c]" s fp] by (simp add: putc_emit [OF r])
  qed
qed simp

lemma puts_loop_emit:
  "0 \<notin> set t \<Longrightarrow> 0 \<notin> set s \<Longrightarrow> room (length t) fp \<Longrightarrow>
   ampm_f_puts_loop (s @ t @ 0 # r) (length s) m fp = Some (m + int (length t), emit t fp)"
proof (induction t arbitrary: s m fp)
  case Nil
  then show ?case by (subst ampm_f_puts_loop.simps) (simp add: nth_append)
next
  case (Cons c t)
  have r: "room 1 fp" by (rule room_mono [OF Cons.prems(3)]) simp
  have r': "room (length t) (emit [c] fp)" by (rule room_emit) (use Cons.prems in simp)
  have "ampm_f_puts_loop ((s @ [c]) @ t @ 0 # r) (length (s @ [c])) (m + 1) (emit [c] fp) =
      Some (m + 1 + int (length t), emit t (emit [c] fp))"
    by (rule Cons.IH) (use Cons.prems r' in auto)
  then show ?case
    using Cons.prems(1) emit_append [of "[c]" t fp]
    by (subst ampm_f_puts_loop.simps) (auto simp: nth_append putc_emit [OF r])
qed

lemma puts_emit:
  assumes "0 \<in> set str" "room (length (cstr str)) fp"
  shows "ampm_f_puts str fp = Some (int (length (cstr str)), emit (cstr str) fp)"
proof -
  obtain r where "str = cstr str @ 0 # r" using cstr_split [OF assms(1)] by blast
  then show ?thesis
    using puts_loop_emit [of "cstr str" "[]" fp r 0] assms(2) by (simp add: ampm_f_puts_def)
qed

lemma pad_stop: "w \<le> j \<Longrightarrow> pad d j w chc cc fp = Some (j + 1, chc, cc, fp)"
  by (subst pad.simps) (simp add: not_less [symmetric])

lemma pad_go: "j < w \<Longrightarrow> room 1 fp \<Longrightarrow>
  pad d j w chc cc fp = pad d (j + 1) w (chc + uint d) (uint d) (emit [d] fp)"
  by (subst pad.simps) (simp add: putc_emit)

lemma pad_run:
  "room k fp \<Longrightarrow> unat j + k = unat w \<Longrightarrow>
   pad d j w chc cc fp =
    Some (w + 1, chc + int k * uint d, if k = 0 then cc else uint d, emit (replicate k d) fp)"
proof (induction k arbitrary: j chc cc fp)
  case 0
  then have "j = w" by (simp add: word_unat_eq_iff)
  then show ?case by (simp add: pad_stop)
next
  case (Suc k)
  have lt: "j < w" using Suc.prems(2) by (simp add: word_less_nat_alt)
  have r: "room 1 fp" by (rule room_mono [OF Suc.prems(1)]) simp
  have r': "room k (emit [d] fp)" by (rule room_emit) (use Suc.prems(1) in simp)
  have "unat (j + 1) + k = unat w"
    using Suc.prems(2) unat_Suc_no_overflow [OF lt] by simp
  from Suc.IH [OF r' this] show ?case
    using emit_append [of "[d]" "replicate k d" fp]
    by (simp add: pad_go [OF lt r] algebra_simps)
qed

lemma pad_emit:
  assumes "j < 65536" "w < 65536" "room (w - j) fp"
  shows "pad d (of_nat j) (of_nat w) chc cc fp =
    Some (of_nat (Suc (max j w)), chc + int (w - j) * uint d,
          if j < w then uint d else cc, emit (replicate (w - j) d) fp)"
proof (cases "j < w")
  case True
  have "unat (of_nat j :: u16) + (w - j) = unat (of_nat w :: u16)"
    using True assms by (simp add: unat_of_nat)
  from pad_run [OF assms(3) this, of d chc cc] True show ?thesis
    by (simp add: max_def add.commute)
next
  case False
  then have "(of_nat w :: u16) \<le> of_nat j"
    using assms by (simp add: word_le_nat_alt unat_of_nat)
  from pad_stop [OF this, of d chc cc fp] False show ?thesis by (simp add: max_def add.commute)
qed

section \<open>Digits\<close>

text \<open>The digits of a number, lowest first, and the character of a digit.\<close>

fun numeral_of :: "nat \<Rightarrow> nat \<Rightarrow> nat list" where
  "numeral_of r n = (if n < r \<or> r < 2 then [n] else n mod r # numeral_of r (n div r))"

declare numeral_of.simps [simp del]

definition digit_char :: "bool \<Rightarrow> nat \<Rightarrow> u8" where
  "digit_char lower d = of_nat (if d < 10 then 0x30 + d else if lower then 0x57 + d else 0x37 + d)"

lemma numeral_of_value: "2 \<le> r \<Longrightarrow> (\<Sum>i<length (numeral_of r n). numeral_of r n ! i * r ^ i) = n"
proof (induction r n rule: numeral_of.induct)
  case (1 r n)
  show ?case
  proof (cases "n < r")
    case True
    then show ?thesis by (simp add: numeral_of.simps)
  next
    case False
    let ?d = "numeral_of r (n div r)"
    have IH: "(\<Sum>i<length ?d. ?d ! i * r ^ i) = n div r"
      using False 1 by simp
    have "(\<Sum>i<length ?d. ?d ! i * r ^ Suc i) = r * (\<Sum>i<length ?d. ?d ! i * r ^ i)"
      unfolding sum_distrib_left by (rule sum.cong) simp_all
    then have "(\<Sum>i<Suc (length ?d). (n mod r # ?d) ! i * r ^ i) = n"
      unfolding sum.lessThan_Suc_shift IH by simp
    then show ?thesis using False 1(2) by (subst (1 2) numeral_of.simps) simp
  qed
qed

lemma numeral_of_range: "2 \<le> r \<Longrightarrow> d \<in> set (numeral_of r n) \<Longrightarrow> d < r"
proof (induction r n rule: numeral_of.induct)
  case (1 r n)
  show ?case
  proof (cases "n < r")
    case True
    then show ?thesis using 1(3) by (subst (asm) numeral_of.simps) simp
  next
    case False
    then show ?thesis using 1 by (subst (asm) (2) numeral_of.simps) (auto split: if_splits)
  qed
qed

lemma numeral_of_length: "2 \<le> r \<Longrightarrow> n < r ^ Suc k \<Longrightarrow> length (numeral_of r n) \<le> Suc k"
proof (induction k arbitrary: n)
  case 0
  then show ?case by (subst numeral_of.simps) simp
next
  case (Suc k)
  then have "n div r < r ^ Suc k" by (simp add: less_mult_imp_div_less mult.commute)
  from Suc.IH [OF Suc.prems(1) this] show ?case by (subst numeral_of.simps) simp
qed

lemma numeral_of_not_Nil [simp]: "numeral_of r n \<noteq> []"
  by (subst numeral_of.simps) simp

lemma digits_numeral:
  assumes r: "2 \<le> unat r" "unat r \<le> 16" and s: "length s < 16"
  shows "digits v r lower s =
    s @ take (16 - length s) (map (digit_char lower) (numeral_of (unat r) (unat v)))"
  using s
proof (induction "16 - length s" arbitrary: v s)
  case 0
  then show ?case by simp
next
  case (Suc k)
  let ?d = "ucast (v mod r) :: u8"
  have d: "unat ?d = unat v mod unat r"
  proof -
    have "unat v mod unat r < unat r" using r by simp
    then have "unat v mod unat r < 256" using r by linarith
    then show ?thesis by (simp add: unsigned_ucast_eq unat_mod take_bit_nat_eq_self)
  qed
  have "unat v mod unat r < unat r" using r by simp
  then have lt: "unat ?d < 16" unfolding d using r by linarith
  have dig: "(if ?d > 9 then ?d + (if lower then 0x27 else 0x07) else ?d) + 0x30
      = digit_char lower (unat v mod unat r)"
    using lt unfolding d [symmetric]
    by (auto simp: digit_char_def word_less_nat_alt word_unat_eq_iff unat_of_nat unat_word_ariths)
  have z: "v div r = 0 \<longleftrightarrow> unat v < unat r"
    using r by (auto simp: word_unat_eq_iff unat_div div_eq_0_iff)
  have sp: "numeral_of (unat r) (unat v) = (if v div r = 0 then [unat v mod unat r]
      else unat v mod unat r # numeral_of (unat r) (unat (v div r)))"
    using r z by (subst numeral_of.simps) (auto simp: unat_div)
  show ?case
  proof (cases "v div r \<noteq> 0 \<and> Suc (length s) < 16")
    case True
    have "digits (v div r) r lower (s @ [digit_char lower (unat v mod unat r)]) =
       (s @ [digit_char lower (unat v mod unat r)]) @
       take (16 - length (s @ [digit_char lower (unat v mod unat r)]))
        (map (digit_char lower) (numeral_of (unat r) (unat (v div r))))"
      by (rule Suc.hyps(1)) (use Suc.hyps(2) True in auto)
    moreover have "16 - length s = Suc (15 - length s)" using True by arith
    ultimately show ?thesis using True
      by (subst digits.simps) (simp add: Let_def dig sp)
  next
    case False
    then have "v div r = 0 \<or> 16 - length s = 1" using Suc.hyps(2) Suc.prems by auto
    then show ?thesis using False Suc.prems
      by (subst digits.simps) (auto simp: Let_def dig sp Suc_diff_le take_Cons')
  qed
qed

section \<open>What a format means\<close>

text \<open>A format is a list of pieces: plain characters, and conversions with their flag,
  minimal width, long prefix and type character.\<close>

datatype pad_flag = Plain | Zero | Left

datatype piece = Char u8 | Conv pad_flag nat bool u8

definition padded :: "pad_flag \<Rightarrow> nat \<Rightarrow> bytes \<Rightarrow> bytes" where
  "padded fl w t = (case fl of
     Plain \<Rightarrow> replicate (w - length t) 0x20 @ t
   | Zero \<Rightarrow> replicate (w - length t) 0x30 @ t
   | Left \<Rightarrow> t @ replicate (w - length t) 0x20)"

definition num_digits :: "u32 \<Rightarrow> bool \<Rightarrow> u32 \<Rightarrow> bytes" where
  "num_digits r lower v = rev (take 16 (map (digit_char lower) (numeral_of (unat r) (unat v))))"

definition is_signed :: "u8 \<Rightarrow> bool" where "is_signed c = (c = 0x64 \<or> c = 0x44)"

definition number_text :: "u32 \<Rightarrow> u8 \<Rightarrow> u32 \<Rightarrow> bytes" where
  "number_text r c v = (if is_signed c \<and> v AND 0x80000000 \<noteq> 0
     then 0x2D # num_digits r False (0 - v) else num_digits r (c = 0x78) v)"

text \<open>The text of a piece, what it adds to the returned count, and the arguments left.\<close>

definition render :: "piece \<Rightarrow> va_arg list \<Rightarrow> (bytes \<times> int \<times> va_arg list) option" where
  "render pc args = (case pc of
     Char c \<Rightarrow> Some ([c], 1, args)
   | Conv fl w l c \<Rightarrow>
       let d = (if IsLower c then c - 0x20 else c)
       in if d = 0x53 then
            (case args of StrArg p # args \<Rightarrow>
               if 0 \<in> set p \<and> length (cstr p) < 65535
               then Some (padded (if fl = Zero then Plain else fl) w (cstr p),
                          int (length (cstr p)) + int (w - length (cstr p)) * 32, args)
               else None
             | _ \<Rightarrow> None)
          else if d = 0x43 then
            (case args of IntArg v # args \<Rightarrow> Some ([ucast v], uint (ucast v :: u8), args) | _ \<Rightarrow> None)
          else (case radix d of
              Some r \<Rightarrow> (case args of IntArg v # args \<Rightarrow>
                  (let t = padded fl w (number_text r c v) in Some (t, \<Sum>c\<leftarrow>t. uint c, args)) | _ \<Rightarrow> None)
            | None \<Rightarrow> Some ([c], uint c, args)))"

fun render_all :: "piece list \<Rightarrow> va_arg list \<Rightarrow> (bytes \<times> int) option" where
  "render_all [] args = Some ([], 0)"
| "render_all (pc # pcs) args = do {
     (t, n, args) \<leftarrow> render pc args;
     (ts, ns) \<leftarrow> render_all pcs args;
     Some (t @ ts, n + ns)
   }"

text \<open>The notation of a piece in a format.\<close>

definition decimal :: "nat \<Rightarrow> bytes" where
  "decimal n = map (digit_char False) (rev (numeral_of 10 n))"

definition written :: "piece \<Rightarrow> bytes" where
  "written pc = (case pc of
     Char c \<Rightarrow> [c]
   | Conv fl w l c \<Rightarrow>
       0x25 # (case fl of Plain \<Rightarrow> [] | Zero \<Rightarrow> [0x30] | Left \<Rightarrow> [0x2D]) @
       (if w = 0 then [] else decimal w) @ (if l then [0x6C] else []) @ [c])"

definition piece_ok :: "piece \<Rightarrow> bool" where
  "piece_ok pc = (case pc of
     Char c \<Rightarrow> c \<noteq> 0 \<and> c \<noteq> 0x25
   | Conv fl w l c \<Rightarrow> w < 65535 \<and> c \<notin> {0, 0x2D, 0x6C, 0x4C} \<and> \<not> IsDigit c)"

section \<open>The conversions\<close>

lemma length_padded [simp]: "length (padded fl w t) = max w (length t)"
  by (cases fl) (auto simp: padded_def)

definition flag_bits :: "pad_flag \<Rightarrow> bool \<Rightarrow> u8" where
  "flag_bits fl l = (case fl of Plain \<Rightarrow> 0 | Zero \<Rightarrow> 1 | Left \<Rightarrow> 2) OR (if l then 4 else 0)"

lemma flag_bits_tests [simp]:
  "flag_bits fl l AND 2 = 0 \<longleftrightarrow> fl \<noteq> Left"
  "(flag_bits fl l OR 8) AND 2 = 0 \<longleftrightarrow> fl \<noteq> Left"
  "flag_bits fl l AND 1 = 0 \<longleftrightarrow> fl \<noteq> Zero"
  "(flag_bits fl l OR 8) AND 1 = 0 \<longleftrightarrow> fl \<noteq> Zero"
  "flag_bits fl l AND 8 = 0" "(flag_bits fl l OR 8) AND 8 \<noteq> 0"
  by (cases fl; cases l; simp add: flag_bits_def)+

text \<open>Padding before, a text, padding behind: the shape of both conversions.\<close>

lemma conv_string_emit:
  assumes "0 \<in> set p" "length (cstr p) < 65535" "w < 65535"
    and room: "room (max w (length (cstr p))) fp"
  shows "conv_string p (flag_bits fl l) (of_nat w) fp =
    Some (int (length (cstr p)) + int (w - length (cstr p)) * 32,
          emit (padded (if fl = Zero then Plain else fl) w (cstr p)) fp)"
proof -
  let ?n = "length (cstr p)"
  have n: "strlen p = Some ?n" using assms(1) by (simp add: strlen_def)
  show ?thesis
  proof (cases "fl = Left")
    case True
    have r1: "room ?n fp" by (rule room_mono [OF room]) simp
    have r2: "room (w - ?n) (emit (cstr p) fp)"
      by (rule room_emit, rule room_mono [OF room]) simp
    show ?thesis
      using True assms pad_emit [OF _ _ r2] puts_emit [OF assms(1) r1]
      by (simp add: conv_string_def n padded_def emit_append del: uint_word_of_int)
  next
    case False
    have r1: "room (w - ?n) fp" by (rule room_mono [OF room]) simp
    have r2: "room ?n (emit (replicate (w - ?n) 0x20) fp)"
      by (rule room_emit, rule room_mono [OF room]) simp
    have st: "(of_nat w :: u16) \<le> of_nat (Suc (max ?n w))"
      using assms by (simp add: word_le_nat_alt unat_of_nat del: of_nat_Suc)
    show ?thesis
      using False assms pad_emit [OF _ _ r1, of "0x20"] puts_emit [OF assms(1) r2] pad_stop [OF st]
      by (cases fl) (simp_all add: conv_string_def n padded_def emit_append del: of_nat_Suc)
  qed
qed

lemma last_padded_not_EOF [simp]: "uint (last s) \<noteq> EOF" for s :: bytes
  by simp

lemma number_text_length: "is_signed c \<longrightarrow> r = 10 \<Longrightarrow> 2 \<le> unat r \<Longrightarrow> length (number_text r c v) \<le> 16"
proof -
  assume a: "is_signed c \<longrightarrow> r = 10" "2 \<le> unat r"
  have "length (numeral_of 10 (unat (0 - v))) \<le> Suc 9"
    by (rule numeral_of_length) (use u32_bound [of "0 - v"] in simp_all)
  then show ?thesis using a by (auto simp: number_text_def num_digits_def)
qed

lemma number_text_not_Nil [simp]: "number_text r c v \<noteq> []"
  by (simp add: number_text_def num_digits_def)

lemma number_digits:
  assumes "2 \<le> unat r" "unat r \<le> 16" "is_signed c \<longrightarrow> r = 10"
    and that: "f AND 8 = 0" "(f OR 8) AND 8 \<noteq> 0"
  shows "conv_number r v c f w fp = (
     let s = number_text r c v; f = (if is_signed c \<and> v AND 0x80000000 \<noteq> 0 then f OR 8 else f)
     in do {
       (j, chc, cc, fp) \<leftarrow>
         (if f AND 2 = 0 then pad (if f AND 1 \<noteq> 0 then 0x30 else 0x20) (of_nat (length s)) w 0 0 fp
          else Some (of_nat (length s), 0, 0, fp));
       (chc, cc, fp) \<leftarrow> put_digits s chc cc fp;
       (j, chc, cc, fp) \<leftarrow> pad 0x20 j w chc cc fp;
       Some (if cc \<noteq> EOF then chc else cc, fp)
     })"
proof -
  have len: "length (numeral_of 10 (unat (- v))) \<le> Suc 9"
    by (rule numeral_of_length) (use u32_bound [of "- v"] in simp_all)
  then have t: "take 16 (map (digit_char False) (numeral_of 10 (unat (- v)))) =
      map (digit_char False) (numeral_of 10 (unat (- v)))"
    by simp
  show ?thesis
    using that assms len
    by (auto simp: conv_number_def number_text_def num_digits_def is_signed_def Let_def t
        digits_numeral [of r "[]"] digits_numeral [of 10 "[]"])
qed

lemma conv_number_emit:
  assumes r: "2 \<le> unat r" "unat r \<le> 16" "is_signed c \<longrightarrow> r = 10" and "w < 65535"
    and t: "t = number_text r c v" and room: "room (max w (length t)) fp"
  shows "conv_number r v c (flag_bits fl l) (of_nat w) fp =
    Some (\<Sum>c\<leftarrow>padded fl w t. uint c, emit (padded fl w t) fp)"
proof -
  let ?n = "length t"
  have n: "?n \<le> 16" unfolding t by (rule number_text_length [OF r(3,1)])
  have ne: "t \<noteq> []" unfolding t by simp
  let ?f = "if is_signed c \<and> v AND 0x80000000 \<noteq> 0 then flag_bits fl l OR 8 else flag_bits fl l"
  have f2: "?f AND 2 = 0 \<longleftrightarrow> fl \<noteq> Left" and f1: "?f AND 1 = 0 \<longleftrightarrow> fl \<noteq> Zero"
    by auto
  note u = number_digits [OF r, of "flag_bits fl l" v "of_nat w" fp,
      OF flag_bits_tests(5,6), unfolded Let_def, folded t, unfolded f1 f2]
  show ?thesis
  proof (cases "fl = Left")
    case True
    have r1: "room ?n fp" by (rule room_mono [OF room]) simp
    have r2: "room (w - ?n) (emit t fp)"
      by (rule room_emit, rule room_mono [OF room]) simp
    show ?thesis unfolding u
      using True n \<open>w < 65535\<close> pad_emit [OF _ _ r2] put_digits_emit [OF r1 ne]
      by (simp add: padded_def emit_append sum_list_replicate)
  next
    case False
    let ?d = "if fl = Zero then 0x30 else 0x20 :: u8"
    have r1: "room (w - ?n) fp" by (rule room_mono [OF room]) simp
    have r2: "room ?n (emit (replicate (w - ?n) ?d) fp)"
      by (rule room_emit, rule room_mono [OF room]) simp
    have st: "(of_nat w :: u16) \<le> of_nat (Suc (max ?n w))"
      using n \<open>w < 65535\<close> by (simp add: word_le_nat_alt unat_of_nat del: of_nat_Suc)
    have p: "padded fl w t = replicate (w - ?n) ?d @ t"
      using False by (cases fl) (auto simp: padded_def)
    show ?thesis unfolding u p
      using False n \<open>w < 65535\<close> pad_emit [OF _ _ r1, of ?d] put_digits_emit [OF r2 ne] pad_stop [OF st]
      by (simp add: emit_append sum_list_replicate del: of_nat_Suc)
  qed
qed

section \<open>Reading a format\<close>

lemma numeral_of_fold:
  "foldl (\<lambda>w d. w * 10 + of_nat d) 0 (rev (numeral_of 10 n)) = (of_nat n :: u16)"
proof (induction "10 :: nat" n rule: numeral_of.induct)
  case (1 n)
  show ?case
  proof (cases "n < 10")
    case True
    then show ?thesis by (simp add: numeral_of.simps)
  next
    case False
    have "(of_nat (n div 10) * 10 + of_nat (n mod 10) :: u16) = of_nat n"
      by (metis div_mult_mod_eq of_nat_add of_nat_mult of_nat_numeral)
    then show ?thesis using False 1 by (subst numeral_of.simps) simp
  qed
qed

lemma numeral_of_top: "0 < n \<Longrightarrow> last (numeral_of 10 n) \<noteq> 0"
proof (induction "10 :: nat" n rule: numeral_of.induct)
  case (1 n)
  then show ?case by (subst numeral_of.simps) auto
qed

lemma digit_char_digit:
  "d < 10 \<Longrightarrow> IsDigit (digit_char False d)"
  "d < 10 \<Longrightarrow> ucast (digit_char False d) - 0x30 = (of_nat d :: u16)"
  "d < 10 \<Longrightarrow> d \<noteq> 0 \<Longrightarrow> digit_char False d \<noteq> 0x30"
  "d < 10 \<Longrightarrow> digit_char False d \<noteq> 0x2D"
proof -
  have "\<forall>d\<in>set [0..<10]. IsDigit (digit_char False d) \<and> ucast (digit_char False d) - 0x30 = (of_nat d :: u16)
      \<and> (d \<noteq> 0 \<longrightarrow> digit_char False d \<noteq> 0x30) \<and> digit_char False d \<noteq> 0x2D"
    by code_simp
  then show "d < 10 \<Longrightarrow> IsDigit (digit_char False d)"
    "d < 10 \<Longrightarrow> ucast (digit_char False d) - 0x30 = (of_nat d :: u16)"
    "d < 10 \<Longrightarrow> d \<noteq> 0 \<Longrightarrow> digit_char False d \<noteq> 0x30"
    "d < 10 \<Longrightarrow> digit_char False d \<noteq> 0x2D"
    by (simp_all add: Ball_def)
qed

lemma width_reads:
  assumes "\<not> IsDigit c" "\<And>d. d \<in> set ds \<Longrightarrow> d < 10" "fmt = xs @ map (digit_char False) ds @ c # ys"
  shows "width fmt (Suc (length xs)) (hd (map (digit_char False) ds @ [c])) w =
    Some (Suc (length xs + length ds), c, foldl (\<lambda>w d. w * 10 + of_nat d) w ds)"
  using assms(2,3)
proof (induction ds arbitrary: xs w)
  case Nil
  then show ?case using assms(1) by (subst width.simps) simp
next
  case (Cons d ds)
  have d: "d < 10" using Cons.prems(1) by simp
  have nth: "fmt ! Suc (length xs) = hd (map (digit_char False) ds @ [c])"
    using Cons.prems(2) by (cases ds) (auto simp: nth_append nth_Cons')
  have "width fmt (Suc (length (xs @ [digit_char False d]))) (hd (map (digit_char False) ds @ [c]))
      (w * 10 + of_nat d) =
    Some (Suc (length (xs @ [digit_char False d]) + length ds), c,
      foldl (\<lambda>w d. w * 10 + of_nat d) (w * 10 + of_nat d) ds)"
    by (rule Cons.IH) (use Cons.prems in auto)
  moreover have e: "w * 10 + ucast (digit_char False d) - 0x30 = w * 10 + of_nat d"
    using digit_char_digit(2) [OF d] by (simp add: algebra_simps)
  have "width fmt (Suc (length xs)) (digit_char False d) w =
      width fmt (Suc (Suc (length xs))) (fmt ! Suc (length xs)) (w * 10 + of_nat d)"
    using Cons.prems(2) digit_char_digit(1) [OF d] by (subst width.simps) (simp add: e)
  ultimately show ?case using nth by simp
qed

lemma width_decimal:
  assumes "\<not> IsDigit c" "fmt = xs @ (if w = 0 then [] else decimal w) @ c # ys"
  shows "width fmt (Suc (length xs)) (hd ((if w = 0 then [] else decimal w) @ [c])) 0 =
    Some (Suc (length xs + length (if w = 0 then [] else decimal w)), c, of_nat w)"
proof -
  let ?ds = "if w = 0 then [] else rev (numeral_of 10 w)"
  have *: "(if w = 0 then [] else decimal w) = map (digit_char False) ?ds"
    by (simp add: decimal_def)
  have "d \<in> set ?ds \<Longrightarrow> d < 10" for d
    using numeral_of_range [of 10 d w] by (auto split: if_splits)
  from width_reads [OF assms(1) this assms(2)[unfolded *], of 0] show ?thesis
    using numeral_of_fold [of w] unfolding * by auto
qed

lemma hd_decimal: "0 < w \<Longrightarrow> hd (decimal w) \<noteq> 0x30 \<and> hd (decimal w) \<noteq> 0x2D"
proof -
  assume "0 < w"
  have "hd (decimal w) = digit_char False (last (numeral_of 10 w))"
    by (simp add: decimal_def hd_map hd_rev)
  moreover have "last (numeral_of 10 w) < 10" by (rule numeral_of_range [of _ _ w]) auto
  ultimately show ?thesis using numeral_of_top [OF \<open>0 < w\<close>] digit_char_digit by simp
qed

lemma flags_reads:
  assumes ok: "piece_ok (Conv fl w l c)"
    and fmt: "fmt = xs @ tl (written (Conv fl w l c)) @ ys"
  shows "flags fmt (length xs) =
    Some (length xs + length (tl (written (Conv fl w l c))), flag_bits fl l, of_nat w, c)"
proof -
  let ?d = "if w = 0 then [] else decimal w"
  let ?b = "if l then 0x6C else c" and ?r = "if l then c # ys else ys"
  let ?p = "(case fl of Plain \<Rightarrow> [] | Zero \<Rightarrow> [0x30] | Left \<Rightarrow> [0x2D]) :: bytes"
  have nd: "\<not> IsDigit ?b" using ok by (auto simp: piece_ok_def IsDigit_def word_le_nat_alt)
  have f: "fmt = (xs @ ?p) @ ?d @ ?b # ?r" using fmt by (auto simp: written_def)
  note wd = width_decimal [OF nd f]
  have c: "c \<noteq> 0" "c \<noteq> 0x2D" "c \<noteq> 0x6C" "c \<noteq> 0x4C" "c \<noteq> 0x30"
    using ok by (auto simp: piece_ok_def IsDigit_def word_le_nat_alt)
  have at: "fmt ! length (xs @ ?p) = hd (?d @ [?b])" "length (xs @ ?p) < length fmt"
    unfolding f by (simp_all only: nth_append_length_plus [of _ _ 0, simplified] append.assoc)
      (cases "w = 0"; simp add: nth_append hd_append decimal_def hd_conv_nth)+
  have h: "hd (?d @ [?b]) \<noteq> 0x30 \<and> hd (?d @ [?b]) \<noteq> 0x2D"
    using hd_decimal [of w] c by (auto simp: decimal_def)
  have first: "fl \<noteq> Plain \<Longrightarrow> fmt ! length xs = (if fl = Zero then 0x30 else 0x2D) \<and> length xs < length fmt"
    unfolding f by (cases fl) auto
  have last: "l \<Longrightarrow> rd fmt (Suc (length (xs @ ?p) + length ?d)) = Some c"
    unfolding f by (simp add: rd_def nth_append)
  show ?thesis
    using at h first last wd c
    by (cases fl; cases l) (auto simp: flags_def written_def flag_bits_def)
qed

section \<open>The formatter prints what the format means\<close>

lemma sum_uint_nonneg: "0 \<le> (\<Sum>c\<leftarrow>t. uint c)" for t :: bytes
  by (rule sum_list_nonneg) auto

lemma nonneg_not_EOF: "0 \<le> k \<Longrightarrow> k \<noteq> EOF"
  by (simp add: EOF_def)

lemma radix_range: "radix d = Some r \<Longrightarrow> 2 \<le> unat r \<and> unat r \<le> 16"
  by (auto simp: radix_def split: if_splits)

lemma convert_emit:
  assumes "piece_ok (Conv fl w l c)" "render (Conv fl w l c) args = Some (t, k, args')"
    "room (length t) fp"
  shows "convert c (flag_bits fl l) (of_nat w) args fp = Some (k, args', emit t fp) \<and> k \<noteq> EOF"
proof -
  let ?d = "if IsLower c then c - 0x20 else c"
  have w: "w < 65535" using assms(1) by (simp add: piece_ok_def)
  consider "?d = 0x53" | "?d = 0x43" | r where "?d \<noteq> 0x53" "?d \<noteq> 0x43" "radix ?d = Some r"
    | "?d \<noteq> 0x53" "?d \<noteq> 0x43" "radix ?d = None"
    by (cases "radix ?d") auto
  then show ?thesis
  proof cases
    case 1
    then obtain p where p: "args = StrArg p # args'" "0 \<in> set p" "length (cstr p) < 65535"
      "t = padded (if fl = Zero then Plain else fl) w (cstr p)"
      "k = int (length (cstr p)) + int (w - length (cstr p)) * 32"
      using assms(2) by (auto simp: render_def Let_def split: list.splits va_arg.splits if_splits)
    have "room (max w (length (cstr p))) fp" using assms(3) p(4) by simp
    from conv_string_emit [OF p(2,3) w this, of fl l] show ?thesis
      using 1 p by (simp add: convert_def Let_def nonneg_not_EOF)
  next
    case 2
    then show ?thesis using assms
      by (auto simp: render_def convert_def Let_def putc_emit split: list.splits va_arg.splits)
  next
    case 3
    then obtain v where v: "args = IntArg v # args'" "t = padded fl w (number_text r c v)"
      "k = (\<Sum>c\<leftarrow>t. uint c)"
      using assms(2) by (auto simp: render_def Let_def split: list.splits va_arg.splits)
    have s: "is_signed c \<longrightarrow> r = 10"
      using 3 by (auto simp: is_signed_def radix_def IsLower_def)
    have "room (max w (length (number_text r c v))) fp" using assms(3) v(2) by simp
    from conv_number_emit [OF _ _ s w refl this, of fl l] radix_range [OF 3(3)] show ?thesis
      using 3 v sum_uint_nonneg [of t] by (simp add: convert_def Let_def nonneg_not_EOF)
  next
    case 4
    then show ?thesis using assms
      by (auto simp: render_def convert_def Let_def putc_emit)
  qed
qed

lemma vsprintf_loop_emit:
  "list_all piece_ok pcs \<Longrightarrow> render_all pcs args = Some (t, k) \<Longrightarrow> room (length t) fp \<Longrightarrow>
   cc \<noteq> EOF \<Longrightarrow> fmt = xs @ concat (map written pcs) @ 0 # ys \<Longrightarrow>
   ampm_vsprintf_loop fmt (length xs) args res cc fp = Some (res + k, emit t fp)"
proof (induction pcs arbitrary: xs args t k fp cc res)
  case Nil
  then show ?case by (subst ampm_vsprintf_loop.simps) simp
next
  case (Cons pc pcs)
  obtain t1 k1 args' t2 k2 where r: "render pc args = Some (t1, k1, args')"
      "render_all pcs args' = Some (t2, k2)" "t = t1 @ t2" "k = k1 + k2"
    using Cons.prems(2) by (auto split: bind_splits)
  have ok: "piece_ok pc" "list_all piece_ok pcs" using Cons.prems(1) by auto
  have r1: "room (length t1) fp" by (rule room_mono [OF Cons.prems(3)]) (simp add: r(3))
  have r2: "room (length t2) (emit t1 fp)" by (rule room_emit) (use Cons.prems(3) r(3) in simp)
  have fmt: "fmt = (xs @ written pc) @ concat (map written pcs) @ 0 # ys" using Cons.prems(5) by simp
  note IH = Cons.IH [OF ok(2) r(2) r2 _ fmt]
  show ?case
  proof (cases pc)
    case (Char c)
    then have c: "c \<noteq> 0" "c \<noteq> 0x25" "rd fmt (length xs) = Some c" "t1 = [c]" "k1 = 1" "args' = args"
      using ok(1) fmt r(1) by (auto simp: piece_ok_def written_def render_def rd_def nth_append)
    have "room 1 fp" using r1 c(4) by simp
    then show ?thesis
      using c Cons.prems(4) IH [of 1 "res + 1"] Char r emit_append [of t1 t2 fp]
      by (subst ampm_vsprintf_loop.simps)
         (simp add: putc_emit written_def nonneg_not_EOF Let_def)
  next
    case (Conv fl w l c)
    have p: "rd fmt (length xs) = Some 0x25"
      using Cons.prems(5) Conv by (simp add: written_def rd_def nth_append)
    have "written (Conv fl w l c) = 0x25 # tl (written (Conv fl w l c))"
      by (simp add: written_def)
    with fmt Conv have "fmt = (xs @ [0x25]) @ tl (written (Conv fl w l c)) @ concat (map written pcs) @ 0 # ys"
      by (metis append.assoc append_Cons append_Nil)
    from flags_reads [OF ok(1)[unfolded Conv] this]
    have f: "flags fmt (Suc (length xs)) =
        Some (length (xs @ written pc), flag_bits fl l, of_nat w, c)"
      using Conv by (simp add: written_def)
    have c: "c \<noteq> 0" using ok(1) Conv by (simp add: piece_ok_def)
    from convert_emit [OF ok(1)[unfolded Conv] r(1)[unfolded Conv] r1]
    show ?thesis
      using p f c Cons.prems(4) IH [of k1 "res + k1"] r emit_append [of t1 t2 fp]
      by (subst ampm_vsprintf_loop.simps) simp
  qed
qed



end
