(* ===== verification/GsmIo.thy ===== *)
theory GsmIo
  imports CmdEngine StrParser DataCmp Sprintf
begin

text \<open>
  The AT command channel of \<open>ampm_lib/ampm_gsm/ampm_gsm_io.c\<close>, and the vocabulary the
  GSM theories share.

  State.  Every module of the GSM library keeps its variables in global storage; here each
  theory extends the state record of the theories below it with its own variables, so one
  record value is the whole program state and a handler is a function on it.  The engine of
  \<open>CmdEngine\<close> comes first.  Variables that only ever hold 0 and 1 are booleans.

  Function pointers are addresses (\<open>end_fn\<close>, \<open>sprintf_fn\<close>, \<open>resp_fn\<close>); the
  dispatch arguments of the functions that call through a pointer resolve them, and the
  theory \<open>GsmMain\<close>, where all functions are known, closes the loop.

  The modem port.  \<open>rx\<close> holds the bytes received and not read yet (the ring buffer
  behind \<open>COMM_Getc\<close>, which refines a list); \<open>outs\<close> records, in order, what the
  library does to its surroundings: bytes sent, modem pins, calls into the PPP stack and
  into the application.

  Strings.  A string constant is its memory.  The texts that the common command takes over
  from the startup module are captured when it is set up, because that module rewrites its
  buffers only while the engine is idle.
\<close>

section \<open>Addresses\<close>

datatype send_fn = Fn_GsmSendCallback

datatype recv_fn = Fn_GsmRecvCallback

datatype end_fn =
  Fn_SetCmdOK
| Fn_GsmCallEndCallback | Fn_GsmVoiceCallCheckCeerEndCallback | Fn_GsmVoiceCallCheckStateEndCallback
| Fn_GsmCallDialEndCallback | Fn_GsmATM1EndCallback
| Fn_GsmSmsRecv0 | Fn_GsmSmsRecv1 | Fn_GsmSmsRecv2 | Fn_GsmSmsSent | Fn_GsmCREG
| Fn_GsmSmsSendCallback_CMGF | Fn_GsmSmsSendCallback_CSCA
| Fn_GsmMainCallPhaseFinished | Fn_GsmMainATPhaseFinished

datatype sprintf_fn =
  Fn_DialupAtCallback0 | Fn_GsmCallDialStartCallback | Fn_GsmCHLD_1X_Callback
| Fn_GsmSmsRecvCallback_CMGR | Fn_GsmSmsRecvCallback_CMGD
| Fn_GsmSmsSendCallback_CMGS | Fn_GsmSmsSendMessageCallback

datatype resp_fn =
  Fn_GsmGetCSQ | Fn_GSM_GetIMEI | Fn_GSM_GetSimCID | Fn_GSM_GetATI
| Fn_GetListOfCurrentCall | Fn_GetCeer | Fn_GetServiceCenterNumber | Fn_MainSwithToIdle
| Fn_URC_CLIP_Process | Fn_URC_RING_Process | Fn_SMS_URC_Incomming | Fn_SMS_ReadMsg
| Fn_SMS_Process | Fn_CallListSetEmpty

text \<open>The command constants that another command's \<open>next\<close> points to.\<close>

datatype cmd_key =
  Cmd_ampmCmdProcess_AT
| Cmd_dialupCmdProcess_1 | Cmd_dialupCmdProcess_2 | Cmd_dialupCmdProcess_3 | Cmd_dialupCmdProcess_4
| Cmd_voiceCallSendCmdProcess_end | Cmd_voiceCallSendCmdProcess_AT_CLCC | Cmd_voiceCallSendCmdProcess_ATD
| Cmd_voiceCallSendCmdProcess_ATM | Cmd_voiceCallSendCmdProcess_CLVL | Cmd_voiceCallSendCmdProcess_ATL
| Cmd_smsRecvCmdProcess_1 | Cmd_smsRecvCmdProcess_2 | Cmd_smsRecvCmdProcess_3 | Cmd_smsRecvCmdProcess_4
| Cmd_smsRecvCmdProcess_5
| Cmd_smsSendCmdProcess_end | Cmd_smsSendCmdProcess_1 | Cmd_smsSendCmdProcess_3 | Cmd_smsSendCmdProcess_4
| Cmd_smsSendCmdProcess_5
| Cmd_ampmMainCmdProcess_End | Cmd_ampmMainCmdProcess_AT_CFUN_9 | Cmd_ampmMainCmdProcess_ATH

section \<open>Texts\<close>

text \<open>A string constant in whose notation a vertical bar stands for a carriage return and a
  tilde for a line feed.\<close>

definition cr_char :: "char \<Rightarrow> u8" where
  "cr_char c = (if c = CHR ''|'' then 0x0D else if c = CHR ''~'' then 0x0A else of_char c)"

definition cr_text :: "string \<Rightarrow> bytes" where
  "cr_text s = map cr_char s @ [0]"

datatype cstring = CNull | CLit bytes | CAtCmdBuf

section \<open>State\<close>

record AT_PACKET =
  command :: cstring
  at_sprintf :: "sprintf_fn option"
  response :: "bytes option"
  at_callback :: "resp_fn option"
  resOk :: bytes
  resFails :: bytes

text \<open>The packet of a command: a constant, or the common packet in memory.\<close>

datatype app_struct = RomPacket AT_PACKET | CommonPacket

type_synonym gsm_cmd = "(cmd_key, app_struct, send_fn, recv_fn, end_fn) AMPM_CMD_PROCESS"

datatype gsm_out =
  Tx u8 | ClearTx | UartInit u32 | MosfetOn | MosfetOff | PowerSet | PowerClr | ResetSet | ResetClr
| DtrClr | Wakeup | DelayMs u32
| TcpIpInit | PppInit | PppClose int | PppSigHUP int | PppSetAuth | PppOpen | TcpIpSetup
| SmsReceived bytes | SmsCallback nat | CallAction nat | GsmError

record gsm_io = "(cmd_key, app_struct, send_fn, recv_fn, end_fn) cmd_engine" +
  rx :: bytes
  outs :: "gsm_out list"
  AtCmd :: "app_struct option"
  GprsApn :: bytes
  CommonAppStruct :: AT_PACKET
  AtCmdBuf :: bytes
  CmdOk :: COMPARE_TYPE
  CmdFails :: COMPARE_TYPE
  AtCallBackParser :: STR_PARSER
  CmdParsedChar :: "u8 list"
  AtProcessCmd :: "resp_fn STR_INFO list"
  parserLastChar :: u8
  gotoCmdModeFlag :: bool
  gotoDataModeFlag :: bool

section \<open>The modem port\<close>

definition emits :: "gsm_out list \<Rightarrow> 'z gsm_io_scheme \<Rightarrow> 'z gsm_io_scheme" where
  "emits os s = s\<lparr>outs := outs s @ os\<rparr>"

definition COMM_Putc :: "u8 \<Rightarrow> 'z gsm_io_scheme \<Rightarrow> 'z gsm_io_scheme" where
  "COMM_Putc c s = emits [Tx c] s"

definition COMM_Puts :: "bytes \<Rightarrow> 'z gsm_io_scheme \<Rightarrow> 'z gsm_io_scheme option" where
  "COMM_Puts str s = (if 0 \<in> set str then Some (emits (map Tx (cstr str)) s) else None)"

definition COMM_Getc :: "'z gsm_io_scheme \<Rightarrow> u8 option \<times> 'z gsm_io_scheme" where
  "COMM_Getc s = (case rx s of [] \<Rightarrow> (None, s) | c # cs \<Rightarrow> (Some c, s\<lparr>rx := cs\<rparr>))"

text \<open>The loop \<open>while(COMM_Getc(&c)==0);\<close> reads until nothing is left.\<close>

definition COMM_drain :: "'z gsm_io_scheme \<Rightarrow> 'z gsm_io_scheme" where
  "COMM_drain s = s\<lparr>rx := []\<rparr>"

section \<open>Mode requests and the engine's instance\<close>

definition Ampm_GsmGotoCmdMode :: "'z gsm_io_scheme \<Rightarrow> 'z gsm_io_scheme" where
  "Ampm_GsmGotoCmdMode s = (if \<not> gotoCmdModeFlag s then s\<lparr>gotoCmdModeFlag := True\<rparr> else s)"

definition Ampm_GsmGotoDataMode :: "'z gsm_io_scheme \<Rightarrow> 'z gsm_io_scheme" where
  "Ampm_GsmGotoDataMode s = (if \<not> gotoDataModeFlag s then s\<lparr>gotoDataModeFlag := True\<rparr> else s)"

definition Ampm_GsmSetApn :: "bytes \<Rightarrow> 'z gsm_io_scheme \<Rightarrow> 'z gsm_io_scheme" where
  "Ampm_GsmSetApn apn s = s\<lparr>GprsApn := apn\<rparr>"

definition Ampm_SendAtCheck_IsEmpty :: "'z gsm_io_scheme \<Rightarrow> bool" where
  "Ampm_SendAtCheck_IsEmpty s = Ampm_CmdCheck_IsEmpty (CmdSend s)"

definition Ampm_SetCmdOK :: "AMPM_CMD_PHASE \<Rightarrow> 'z gsm_io_scheme \<Rightarrow> u8 \<times> 'z gsm_io_scheme" where
  "Ampm_SetCmdOK phase s = (0, s\<lparr>CmdPhase := AMPM_CMD_OK\<rparr>)"

definition Ampm_SendAtCmd :: "gsm_cmd \<Rightarrow> 'z gsm_io_scheme \<Rightarrow> bool \<times> 'z gsm_io_scheme" where
  "Ampm_SendAtCmd cmd s = Ampm_SendCmd cmd s"

definition Ampm_SendAtCmdNow :: "gsm_cmd \<Rightarrow> 'z gsm_io_scheme \<Rightarrow> 'z gsm_io_scheme" where
  "Ampm_SendAtCmdNow cmd s = Ampm_SendCmdNow cmd s"

text \<open>The common command.  The result is 0 when it was set up and 1 when the engine is busy.\<close>

definition Ampm_CmdTask_SendCmd ::
  "resp_fn option \<Rightarrow> bytes option \<Rightarrow> u32 \<Rightarrow> bytes \<Rightarrow> bytes \<Rightarrow> u32 \<Rightarrow> u8 \<Rightarrow> bytes option
   \<Rightarrow> 'z gsm_io_scheme \<Rightarrow> (u8 \<times> 'z gsm_io_scheme) option" where
  "Ampm_CmdTask_SendCmd callbk respons delay rok rfails timeout tryAgainNum format s =
     (if Ampm_CmdTask_IsIdle (CmdPhase s) then do {
        let s = emits [ClearTx] s;
        buf \<leftarrow> (case format of
                  Some f \<Rightarrow> do { (n, buf) \<leftarrow> ampm_vsprintf (AtCmdBuf s) f []; Some buf }
                | None \<Rightarrow> wr (AtCmdBuf s) 0 0);
        let s = s\<lparr>AtCmdBuf := buf,
              CommonAppStruct := \<lparr>command = CAtCmdBuf, at_sprintf = None, response = respons,
                at_callback = callbk, resOk = rok, resFails = rfails\<rparr>,
              CmdSend := \<lparr>cmd_next = None, appStruct = Some CommonPacket,
                send_data_callback = Some Fn_GsmSendCallback,
                recv_data_callback = Some Fn_GsmRecvCallback, end_data_callback = None,
                retryNum = tryAgainNum, cmd_timeout = ucast timeout, cmd_delay = ucast delay\<rparr>\<rparr>;
        let s = start_timeout (ucast (cmd_delay (CmdSend s))) s;
        Some (0, s\<lparr>CmdPhase := AMPM_CMD_SEND\<rparr>)
      }
      else Some (1, s))"

section \<open>Sending a command\<close>

definition packet_of :: "app_struct \<Rightarrow> 'z gsm_io_scheme \<Rightarrow> AT_PACKET" where
  "packet_of a s = (case a of RomPacket p \<Rightarrow> p | CommonPacket \<Rightarrow> CommonAppStruct s)"

definition AtCmd_packet :: "'z gsm_io_scheme \<Rightarrow> AT_PACKET option" where
  "AtCmd_packet s = map_option (\<lambda>a. packet_of a s) (AtCmd s)"

definition cstring_text :: "cstring \<Rightarrow> 'z gsm_io_scheme \<Rightarrow> bytes option" where
  "cstring_text c s = (case c of CNull \<Rightarrow> None | CLit t \<Rightarrow> Some t | CAtCmdBuf \<Rightarrow> Some (AtCmdBuf s))"

type_synonym 'w sprintf_dispatch = "sprintf_fn \<Rightarrow> bytes \<Rightarrow> 'w \<Rightarrow> (u8 \<times> bytes \<times> 'w) option"

type_synonym 'w resp_dispatch = "resp_fn \<Rightarrow> u16 \<Rightarrow> u8 \<Rightarrow> 'w \<Rightarrow> (u32 \<times> 'w) option"

definition Ampm_GsmSendCallback ::
  "'z gsm_io_scheme sprintf_dispatch \<Rightarrow> 'z gsm_io_scheme \<Rightarrow> 'z gsm_io_scheme option" where
  "Ampm_GsmSendCallback spf s = do {
     a \<leftarrow> appStruct (CmdSend s);
     let s = COMM_drain (s\<lparr>AtCmd := Some a\<rparr>);
     s \<leftarrow> (case at_sprintf (packet_of a s) of
             Some f \<Rightarrow> do {
               (r, buf, s) \<leftarrow> spf f (AtCmdBuf s) s;
               buf \<leftarrow> wr buf 255 0;
               COMM_Puts buf (s\<lparr>AtCmdBuf := buf\<rparr>)
             }
           | None \<Rightarrow> do {
               t \<leftarrow> cstring_text (command (packet_of a s)) s;
               COMM_Puts t s
             });
     p \<leftarrow> AtCmd_packet s;
     ok \<leftarrow> InitFindData (CmdOk s) (resOk p);
     fails \<leftarrow> InitFindData (CmdFails s) (resFails p);
     let s = s\<lparr>CmdOk := ok, CmdFails := fails\<rparr>;
     case (at_callback p, response p) of
       (Some f, Some r) \<Rightarrow> do {
         (parser, counts) \<leftarrow> StrParserInit (AtCallBackParser s) (CmdParsedChar s) 1 1024;
         Some (s\<lparr>AtCallBackParser := parser\<lparr>timeoutSet := ucast (cmd_timeout (CmdSend s))\<rparr>,
                 CmdParsedChar := counts,
                 AtProcessCmd := [\<lparr>str_command = r, str_callback = f\<rparr>]\<rparr>)
       }
     | _ \<Rightarrow> Some s
   }"

section \<open>Reading the answer\<close>

text \<open>One received byte: the phase to report, or \<open>None\<close> to read on.\<close>

definition recv_byte ::
  "'z gsm_io_scheme resp_dispatch \<Rightarrow> u8 \<Rightarrow> 'z gsm_io_scheme \<Rightarrow> (AMPM_CMD_PHASE option \<times> 'z gsm_io_scheme) option" where
  "recv_byte rsp c s =
     (if c \<noteq> 0x1A \<and> c \<noteq> 0x1B then do {
        p \<leftarrow> AtCmd_packet s;
        s \<leftarrow> (if at_callback p \<noteq> None \<and> response p \<noteq> None then do {
                (parser, counts, lastc, s) \<leftarrow>
                  StrComnandParser rsp (tick s) (AtProcessCmd s) (AtCallBackParser s) (CmdParsedChar s)
                    (parserLastChar s) c s;
                Some (s\<lparr>AtCallBackParser := parser, CmdParsedChar := counts, parserLastChar := lastc\<rparr>)
              }
              else Some s);
        (r, ok) \<leftarrow> FindData (CmdOk s) c;
        let s = s\<lparr>CmdOk := ok\<rparr>;
        if r = 0 then Some (Some AMPM_CMD_DELAY, s)
        else do {
          (r, fails) \<leftarrow> FindData (CmdFails s) c;
          let s = s\<lparr>CmdFails := fails\<rparr>;
          if r = 0 then Some (Some AMPM_CMD_RESEND, s) else Some (None, s)
        }
      }
      else Some (None, s))"

partial_function (option) Ampm_GsmRecvCallback ::
  "'z gsm_io_scheme resp_dispatch \<Rightarrow> 'z gsm_io_scheme \<Rightarrow> (AMPM_CMD_PHASE \<times> 'z gsm_io_scheme) option" where
  "Ampm_GsmRecvCallback rsp s =
     (case COMM_Getc s of
        (None, s) \<Rightarrow> Some (AMPM_CMD_WAIT, s)
      | (Some c, s) \<Rightarrow> do {
          (r, s) \<leftarrow> recv_byte rsp c s;
          case r of Some p \<Rightarrow> Some (p, s) | None \<Rightarrow> Ampm_GsmRecvCallback rsp s
        })"

section \<open>Blocking commands\<close>

text \<open>
  \<open>Ampm_AtCmdCheckResponse\<close> polls the port once per millisecond; \<open>polls\<close> is what it
  finds each time.  The result is the return value and the polls not made.
\<close>

fun AtCmdCheckResponse_loop :: "COMPARE_TYPE \<Rightarrow> nat \<Rightarrow> u8 option list \<Rightarrow> (u8 \<times> u8 option list) option" where
  "AtCmdCheckResponse_loop cmp 0 polls = Some (0xff, polls)"
| "AtCmdCheckResponse_loop cmp (Suc t) [] = None"
| "AtCmdCheckResponse_loop cmp (Suc t) (None # polls) = AtCmdCheckResponse_loop cmp t polls"
| "AtCmdCheckResponse_loop cmp (Suc t) (Some c # polls) = do {
     (r, cmp) \<leftarrow> FindData cmp c;
     if r = 0 then Some (0, polls) else AtCmdCheckResponse_loop cmp t polls
   }"

definition Ampm_AtCmdCheckResponse ::
  "COMPARE_TYPE \<Rightarrow> bytes \<Rightarrow> u32 \<Rightarrow> u8 option list \<Rightarrow> (u8 \<times> u8 option list) option" where
  "Ampm_AtCmdCheckResponse cmp str t polls = do {
     cmp \<leftarrow> InitFindData cmp str;
     AtCmdCheckResponse_loop cmp (unat t) polls
   }"


section \<open>A command nobody answers\<close>

lemma emits_fields [simp]:
  "outs (emits os s) = outs s @ os" "rx (emits os s) = rx s" "AtCmdBuf (emits os s) = AtCmdBuf s"
  "CmdPhase (emits os s) = CmdPhase s" "CmdSend (emits os s) = CmdSend s" "CmdList (emits os s) = CmdList s"
  "TaskTimeout (emits os s) = TaskTimeout s" "tick (emits os s) = tick s" "AtCmd (emits os s) = AtCmd s"
  "CommonAppStruct (emits os s) = CommonAppStruct s" "CmdOk (emits os s) = CmdOk s"
  "CmdFails (emits os s) = CmdFails s" "AtCallBackParser (emits os s) = AtCallBackParser s"
  "CmdParsedChar (emits os s) = CmdParsedChar s" "AtProcessCmd (emits os s) = AtProcessCmd s"
  "parserLastChar (emits os s) = parserLastChar s" "GprsApn (emits os s) = GprsApn s"
  by (simp_all add: emits_def)

lemma packet_of_engine [simp]:
  "packet_of a (s\<lparr>CmdPhase := ph\<rparr>) = packet_of a s" "packet_of a (s\<lparr>CmdSend := cm\<rparr>) = packet_of a s"
  "packet_of a (s\<lparr>TaskTimeout := tm\<rparr>) = packet_of a s" "packet_of a (s\<lparr>tick := n\<rparr>) = packet_of a s"
  "packet_of a (s\<lparr>AtCallBackParser := q\<rparr>) = packet_of a s" "packet_of a (s\<lparr>CmdParsedChar := ns\<rparr>) = packet_of a s"
  "packet_of a (s\<lparr>AtProcessCmd := l\<rparr>) = packet_of a s" "packet_of a (s\<lparr>CmdOk := k\<rparr>) = packet_of a s"
  "packet_of a (s\<lparr>CmdFails := k\<rparr>) = packet_of a s"
  by (cases a; simp add: packet_of_def)+

lemma cstring_text_engine [simp]:
  "cstring_text c (s\<lparr>CmdPhase := ph\<rparr>) = cstring_text c s" "cstring_text c (s\<lparr>CmdSend := cm\<rparr>) = cstring_text c s"
  "cstring_text c (s\<lparr>TaskTimeout := tm\<rparr>) = cstring_text c s" "cstring_text c (s\<lparr>tick := n\<rparr>) = cstring_text c s"
  "cstring_text c (s\<lparr>AtCallBackParser := q\<rparr>) = cstring_text c s" "cstring_text c (s\<lparr>CmdParsedChar := ns\<rparr>) = cstring_text c s"
  "cstring_text c (s\<lparr>AtProcessCmd := l\<rparr>) = cstring_text c s" "cstring_text c (s\<lparr>CmdOk := k\<rparr>) = cstring_text c s"
  "cstring_text c (s\<lparr>CmdFails := k\<rparr>) = cstring_text c s"
  by (cases c; simp add: cstring_text_def)+

text \<open>Nothing received, and a current command that sends the fixed text \<open>txt\<close>.\<close>

definition silent_cmd :: "gsm_out list \<Rightarrow> 'z gsm_io_scheme \<Rightarrow> bool" where
  "silent_cmd out_text s \<longleftrightarrow> rx s = [] \<and> CmdParsedChar s \<noteq> [] \<and>
     (\<exists>a t. appStruct (CmdSend s) = Some a \<and> at_sprintf (packet_of a s) = None
        \<and> cstring_text (command (packet_of a s)) s = Some t \<and> 0 \<in> set t \<and> out_text = map Tx (cstr t)
        \<and> 0 \<in> set (resOk (packet_of a s)) \<and> 0 \<in> set (resFails (packet_of a s)))"

lemma InitFindData_total: "0 \<in> set t \<Longrightarrow> \<exists>c. InitFindData cmp t = Some c"
  by (simp add: InitFindData_def strlen_def)

lemma StrParserInit_one: "nums \<noteq> [] \<Longrightarrow> \<exists>p ns. StrParserInit parser nums 1 m = Some (p, ns) \<and> ns \<noteq> []"
  by (cases nums) (auto simp: StrParserInit_def reset_counts_def Let_def)

lemma silent_send:
  assumes "silent_cmd out_text s"
  shows "\<exists>s'. Ampm_GsmSendCallback spf s = Some s' \<and> silent_cmd out_text s'
    \<and> cmd_engine.truncate s' = cmd_engine.truncate s \<and> outs s' = outs s @ out_text"
proof -
  obtain a t where a: "appStruct (CmdSend s) = Some a" "at_sprintf (packet_of a s) = None"
    "cstring_text (command (packet_of a s)) s = Some t" "0 \<in> set t" "out_text = map Tx (cstr t)"
    "0 \<in> set (resOk (packet_of a s))" "0 \<in> set (resFails (packet_of a s))" "rx s = []" "CmdParsedChar s \<noteq> []"
    using assms by (auto simp: silent_cmd_def)
  let ?s1 = "emits (map Tx (cstr t)) (COMM_drain (s\<lparr>AtCmd := Some a\<rparr>))"
  let ?p = "packet_of a s"
  have p: "packet_of a (COMM_drain (s\<lparr>AtCmd := Some a\<rparr>)) = ?p" "AtCmd_packet ?s1 = Some ?p"
    "cstring_text (command ?p) (COMM_drain (s\<lparr>AtCmd := Some a\<rparr>)) = Some t"
    using a(3) by (auto simp: packet_of_def AtCmd_packet_def COMM_drain_def cstring_text_def emits_def
      split: app_struct.splits cstring.splits)
  obtain ok where ok: "InitFindData (CmdOk ?s1) (resOk ?p) = Some ok"
    using InitFindData_total [OF a(6)] by blast
  obtain fl where fl: "InitFindData (CmdFails ?s1) (resFails ?p) = Some fl"
    using InitFindData_total [OF a(7)] by blast
  let ?s2 = "?s1\<lparr>CmdOk := ok, CmdFails := fl\<rparr>"
  have "CmdParsedChar ?s2 \<noteq> []" using a(9) by (simp add: COMM_drain_def)
  from StrParserInit_one [OF this] obtain q ns where
    q: "StrParserInit (AtCallBackParser ?s2) (CmdParsedChar ?s2) 1 1024 = Some (q, ns)" "ns \<noteq> []" by blast
  have e: "Ampm_GsmSendCallback spf s = (case (at_callback ?p, response ?p) of
       (Some f, Some r) \<Rightarrow> Some (?s2\<lparr>AtCallBackParser := q\<lparr>timeoutSet := ucast (cmd_timeout (CmdSend ?s2))\<rparr>,
         CmdParsedChar := ns, AtProcessCmd := [\<lparr>str_command = r, str_callback = f\<rparr>]\<rparr>)
     | _ \<Rightarrow> Some ?s2)"
    using a p ok fl q
    by (auto simp: Ampm_GsmSendCallback_def COMM_Puts_def Let_def split: option.splits)
  have f: "silent_cmd out_text ?s2" "cmd_engine.truncate ?s2 = cmd_engine.truncate s"
    "outs ?s2 = outs s @ out_text"
    using a p(3)
    by (auto simp: silent_cmd_def COMM_drain_def packet_of_def cstring_text_def cmd_engine.defs
        split: app_struct.splits cstring.splits)
  show ?thesis
  proof (cases "at_callback ?p = None \<or> response ?p = None")
    case True
    then have "Ampm_GsmSendCallback spf s = Some ?s2" unfolding e by (auto split: option.splits)
    with f show ?thesis by blast
  next
    case False
    then obtain g r where "at_callback ?p = Some g" "response ?p = Some r" by auto
    then have "Ampm_GsmSendCallback spf s = Some (?s2\<lparr>AtCallBackParser := q\<lparr>timeoutSet := ucast (cmd_timeout (CmdSend ?s2))\<rparr>,
         CmdParsedChar := ns, AtProcessCmd := [\<lparr>str_command = r, str_callback = g\<rparr>]\<rparr>)" (is "_ = Some ?s3")
      unfolding e by simp
    moreover have "silent_cmd out_text ?s3 \<and> cmd_engine.truncate ?s3 = cmd_engine.truncate s \<and> outs ?s3 = outs s @ out_text"
      using f q(2) by (simp add: silent_cmd_def cmd_engine.defs)
    ultimately show ?thesis by blast
  qed
qed

interpretation silent: silent_modem "\<lambda>f. Ampm_GsmSendCallback spf" "\<lambda>f. Ampm_GsmRecvCallback rsp" silent_cmd outs
  for spf :: "'z gsm_io_scheme sprintf_dispatch" and rsp :: "'z gsm_io_scheme resp_dispatch"
proof
  fix out_text :: "gsm_out list" and s :: "'z gsm_io_scheme"
  assume "silent_cmd out_text s"
  then have "rx s = []" by (simp add: silent_cmd_def)
  then have "Ampm_GsmRecvCallback rsp s = Some (AMPM_CMD_WAIT, s)"
    by (subst Ampm_GsmRecvCallback.simps) (simp add: COMM_Getc_def)
  then show "\<exists>s'. Ampm_GsmRecvCallback rsp s = Some (AMPM_CMD_WAIT, s') \<and> silent_cmd out_text s'
        \<and> cmd_engine.truncate s' = cmd_engine.truncate s \<and> outs s' = outs s"
    using \<open>silent_cmd out_text s\<close> by simp
qed (use silent_send in \<open>simp_all add: silent_cmd_def\<close>)

text \<open>Property C11. A command with a fixed text that the modem never answers is transmitted once
  more than its retry count and then reported as failed; polled every millisecond this takes
  exactly (retries + 1) * (delay + timeout + 1) + 1 polls, a zero delay or timeout counting as 1.\<close>

theorem AT_command_gives_up:
  assumes "CmdPhase s = AMPM_CMD_SEND" "CmdSend s = cmd" "tick s = of_nat t"
    and "TaskTimeout s = InitTimeout (of_nat t) t0 (ucast (cmd_delay cmd))"
    and "send_data_callback cmd = Some Fn_GsmSendCallback" "recv_data_callback cmd = Some Fn_GsmRecvCallback"
      "end_data_callback cmd = None"
    and "appStruct cmd = Some (RomPacket p)" "at_sprintf p = None" "command p = CLit text" "0 \<in> set text"
      "0 \<in> set (resOk p)" "0 \<in> set (resFails p)"
    and "rx s = []" "CmdParsedChar s \<noteq> []"
    and "t + give_up (unat (retryNum cmd)) (unat (cmd_delay cmd)) (unat (cmd_timeout cmd)) < 2 ^ 32"
  shows "\<exists>s'. poll_ticks (Ampm_Cmd_Task rom (\<lambda>f. Ampm_GsmSendCallback spf) (\<lambda>f. Ampm_GsmRecvCallback rsp) end_cb) t
      (give_up (unat (retryNum cmd)) (unat (cmd_delay cmd)) (unat (cmd_timeout cmd))) s = Some s'
    \<and> CmdPhase s' = AMPM_CMD_ERROR
    \<and> outs s' = outs s @ concat (replicate (Suc (unat (retryNum cmd))) (map Tx (cstr text)))"
proof (rule silent.gives_up [OF _ _ refl refl assms(16)])
  have "silent_cmd (map Tx (cstr text)) s"
    using assms by (simp add: silent_cmd_def packet_of_def cstring_text_def)
  then show "silent.trying cmd (CmdList s) (map Tx (cstr text)) AMPM_CMD_SEND (unat (retryNum cmd)) t
      (unat (cmd_delay cmd)) s"
    using assms unfolding silent.trying_def
    by (simp add: running_def InitTimeout_def Let_def)
  show "unat (retryNum cmd) < 256" by (rule u8_less_256)
qed


section \<open>A command the modem answers\<close>

text \<open>The received bytes \<open>bs\<close> end the wait for the answer with their last byte, which
  completes the text looked for by \<open>CmdOk\<close>; none of them completes the error text.\<close>

lemma recv_until_ok:
  "rx s = bs @ rest \<Longrightarrow> AtCmd_packet s = Some p \<Longrightarrow> at_callback p = None \<or> response p = None \<Longrightarrow>
   0x1A \<notin> set bs \<Longrightarrow> 0x1B \<notin> set bs \<Longrightarrow> bs \<noteq> [] \<Longrightarrow>
   FindData_run (CmdOk s) bs = Some (replicate (length bs - 1) 0xff @ [0], ok) \<Longrightarrow>
   FindData_run (CmdFails s) (butlast bs) = Some (replicate (length bs - 1) 0xff, fl) \<Longrightarrow>
   Ampm_GsmRecvCallback rsp s =
     Some (AMPM_CMD_DELAY, s\<lparr>rx := rest, CmdOk := ok, CmdFails := fl\<rparr>)"
proof (induction bs arbitrary: s)
  case (Cons c bs)
  have pk: "AtCmd_packet (s\<lparr>rx := bs @ rest\<rparr>) = Some p"
    "AtCmd_packet (s\<lparr>rx := bs @ rest, CmdOk := k, CmdFails := k'\<rparr>) = Some p" for k k'
    using Cons.prems(2) by (auto simp: AtCmd_packet_def packet_of_def split: app_struct.splits)
  show ?case
  proof (cases "bs = []")
    case True
    have "FindData (CmdOk s) c = Some (0, ok)" "fl = CmdFails s"
      using Cons.prems(7,8) True by (auto split: bind_splits)
    then show ?thesis
      using Cons.prems True pk(1)
      by (subst Ampm_GsmRecvCallback.simps) (auto simp: COMM_Getc_def recv_byte_def Let_def)
  next
    case False
    then obtain m where m: "length bs = Suc m" by (cases bs) auto
    obtain k where k: "FindData (CmdOk s) c = Some (0xff, k)"
      "FindData_run k bs = Some (replicate (length bs - 1) 0xff @ [0], ok)"
      using Cons.prems(7) m by (auto split: bind_splits)
    obtain k' where k': "FindData (CmdFails s) c = Some (0xff, k')"
      "FindData_run k' (butlast bs) = Some (replicate (length bs - 1) 0xff, fl)"
      using Cons.prems(8) m False by (auto split: bind_splits)
    let ?s = "s\<lparr>rx := bs @ rest, CmdOk := k, CmdFails := k'\<rparr>"
    have "Ampm_GsmRecvCallback rsp s = Ampm_GsmRecvCallback rsp ?s"
      using Cons.prems(1,3-5) pk(1) k(1) k'(1)
      by (subst Ampm_GsmRecvCallback.simps) (auto simp: COMM_Getc_def recv_byte_def Let_def)
    also have "\<dots> = Some (AMPM_CMD_DELAY, ?s\<lparr>rx := rest, CmdOk := ok, CmdFails := fl\<rparr>)"
      by (rule Cons.IH) (use Cons.prems False pk(2) k k' in auto)
    finally show ?thesis by simp
  qed
qed simp

text \<open>Property C10. A waiting command whose answer arrives in time goes on to its end: when the
  received bytes contain the expected text after bytes that start neither it nor the error
  text, one poll of the engine reads up to and including that text, leaves the rest of the
  bytes unread and starts the closing delay.\<close>

theorem AT_command_answered:
  assumes "CmdPhase s = AMPM_CMD_WAIT" "recv_data_callback (CmdSend s) = Some Fn_GsmRecvCallback"
    and "running t ms s" "tick s = of_nat u" "t \<le> u" "u < t + ms" "u < 2 ^ 32" "ms < 2 ^ 32"
    and "AtCmd_packet s = Some p" "at_callback p = None \<or> response p = None"
    and "searching ok_text 0 (CmdOk s)" "cd_c (CmdOk s) = 0"
    and "searching err_text 0 (CmdFails s)" "cd_c (CmdFails s) = 0"
    and "rx s = junk @ ok_text @ rest" "ok_text ! 0 \<notin> set junk" "err_text ! 0 \<notin> set (junk @ ok_text)"
    and "0x1A \<notin> set (junk @ ok_text)" "0x1B \<notin> set (junk @ ok_text)"
  shows "\<exists>s'. Ampm_Cmd_Task rom send_cb (\<lambda>f. Ampm_GsmRecvCallback rsp) end_cb s = Some s'
    \<and> CmdPhase s' = AMPM_CMD_DELAY \<and> rx s' = rest \<and> CmdSend s' = CmdSend s
    \<and> running u (unat (cmd_delay (CmdSend s))) s'"
proof -
  let ?bs = "junk @ ok_text"
  have ne: "ok_text \<noteq> []" using assms(11) by (auto simp: searching_def)
  from FindData_run_junk [OF assms(11,12,16)] obtain k1 where
    k1: "FindData_run (CmdOk s) junk = Some (replicate (length junk) 0xff, k1)" "searching ok_text 0 k1" by auto
  from FindData_run_match [OF k1(2), of ok_text] obtain ok where
    "FindData_run k1 ok_text = Some (replicate (length ok_text - 1) 0xff @ [0], ok)" by auto
  moreover have "length ?bs - 1 = length junk + (length ok_text - 1)" using ne by (cases ok_text) auto
  ultimately have f1: "FindData_run (CmdOk s) ?bs = Some (replicate (length ?bs - 1) 0xff @ [0], ok)"
    using k1(1) by (simp add: FindData_run_append replicate_add)
  have "err_text ! 0 \<notin> set (butlast ?bs)" using assms(17) by (meson in_set_butlastD)
  from FindData_run_junk [OF assms(13,14) this] obtain fl where
    f2: "FindData_run (CmdFails s) (butlast ?bs) = Some (replicate (length ?bs - 1) 0xff, fl)" by auto
  have r: "Ampm_GsmRecvCallback rsp s =
      Some (AMPM_CMD_DELAY, s\<lparr>rx := rest, CmdOk := ok, CmdFails := fl\<rparr>)"
    by (rule recv_until_ok [OF _ assms(9,10,18,19) _ f1 f2]) (use assms(15) ne in simp_all)
  from running_check [OF assms(3,5,7,8,4)] assms(6) obtain x where "check_timeout s = (x, s)" "x \<noteq> 0" by auto
  then show ?thesis
    using assms(1,2,4) r
    by (simp add: Ampm_Cmd_Task_def cmd_phase_wait_def running_def start_timeout_def InitTimeout_def Let_def)
qed

end
