(* ===== verification/GsmCommon.thy ===== *)
theory GsmCommon
  imports GsmIo
begin

text \<open>
  The shared command packets, the signal quality callback, the ring detector and the dial-up
  sequence: \<open>ampm_gsm_common.c\<close>, \<open>ampm_gsm_ring.c\<close> and \<open>ampm_gsm_dial_up.c\<close>
  of \<open>ampm_lib/ampm_gsm/\<close>.

  What the code takes from \<open>sscanf\<close> is written out as small scanners on the text before
  the terminator.  A conversion that fails leaves its variable as it was; reading a variable
  that was never set is \<open>None\<close>.
\<close>

section \<open>Scanning\<close>

definition is_space :: "u8 \<Rightarrow> bool" where
  "is_space c = (c = 0x20 \<or> 0x09 \<le> c \<and> c \<le> 0x0D)"

definition number_of_digits :: "bytes \<Rightarrow> int" where
  "number_of_digits ds = foldl (\<lambda>n c. n * 10 + (uint c - 0x30)) 0 ds"

text \<open>The conversion \<open>%d\<close>: the number and the rest of the text.\<close>

definition scan_d :: "bytes \<Rightarrow> (int \<times> bytes) option" where
  "scan_d t =
     (let t = dropWhile is_space t;
          neg = (t \<noteq> [] \<and> hd t = 0x2D);
          t = (if t \<noteq> [] \<and> (hd t = 0x2D \<or> hd t = 0x2B) then tl t else t);
          ds = takeWhile IsDigit t
      in if ds = [] then None
         else Some (if neg then - number_of_digits ds else number_of_digits ds, dropWhile IsDigit t))"

text \<open>The conversion \<open>%[^...]\<close>: at least one character outside the set.\<close>

definition scan_until :: "(u8 \<Rightarrow> bool) \<Rightarrow> bytes \<Rightarrow> (bytes \<times> bytes) option" where
  "scan_until stop t =
     (let w = takeWhile (\<lambda>c. \<not> stop c) t in if w = [] then None else Some (w, dropWhile (\<lambda>c. \<not> stop c) t))"

definition scan_char :: "u8 \<Rightarrow> bytes \<Rightarrow> bytes option" where
  "scan_char c t = (case t of x # xs \<Rightarrow> if x = c then Some xs else None | [] \<Rightarrow> None)"

text \<open>\<open>%f\<close> for the integers the modem reports; other spellings of a float are outside the
  model.\<close>

definition scan_float :: "bytes \<Rightarrow> int option" where
  "scan_float t = do {
     (n, rest) \<leftarrow> scan_d t;
     if rest \<noteq> [] \<and> hd rest \<in> {0x2E, 0x45, 0x65, 0x58, 0x78} then None else Some n
   }"

section \<open>Signal quality and the shared commands\<close>

record gsm_common = gsm_io +
  csqBuff :: bytes
  csqValue :: u8
  gsmSignal :: u8
  ampm_ModemResetFlag :: bool

definition at_plain :: "string \<Rightarrow> AT_PACKET" where
  "at_plain cmd = \<lparr>command = CLit (cr_text cmd), at_sprintf = None, response = None, at_callback = None,
     resOk = lit ''OK'', resFails = lit ''ERROR''\<rparr>"

definition at_query :: "string \<Rightarrow> string \<Rightarrow> resp_fn \<Rightarrow> AT_PACKET" where
  "at_query cmd resp f = \<lparr>command = CLit (cr_text cmd), at_sprintf = None, response = Some (cr_text resp),
     at_callback = Some f, resOk = lit ''OK'', resFails = lit ''ERROR''\<rparr>"

definition at_format :: "sprintf_fn \<Rightarrow> AT_PACKET" where
  "at_format f = \<lparr>command = CNull, at_sprintf = Some f, response = None, at_callback = None,
     resOk = lit ''OK'', resFails = lit ''ERROR''\<rparr>"

definition ampmAtCmd_AT :: AT_PACKET where "ampmAtCmd_AT = at_plain ''AT|''"

definition ampmAtCmd_AT_CHLD :: AT_PACKET where "ampmAtCmd_AT_CHLD = at_plain ''AT+CHLD=0|''"

definition ampmAtCmd_ATH :: AT_PACKET where "ampmAtCmd_ATH = at_plain ''ATH|''"

definition ampmAtCmd_AT_CSQ :: AT_PACKET where
  "ampmAtCmd_AT_CSQ = at_query ''AT+CSQ|'' ''+CSQ:'' Fn_GsmGetCSQ"

definition ampmAtCmd_AT_CLIP :: AT_PACKET where "ampmAtCmd_AT_CLIP = at_plain ''AT+CLIP=1|''"

definition ampmAtCmd_AT_CMGF_1 :: AT_PACKET where "ampmAtCmd_AT_CMGF_1 = at_plain ''AT+CMGF=1|''"

definition ampmAtCmd_AT_CMGF_0 :: AT_PACKET where "ampmAtCmd_AT_CMGF_0 = at_plain ''AT+CMGF=0|''"

definition ampmAtCmd_AT_CMGL :: AT_PACKET where
  "ampmAtCmd_AT_CMGL = at_plain (''AT+CMGL='' @ [CHR 0x22] @ ''ALL'' @ [CHR 0x22] @ ''|'')"

definition ampmAtCmd_AT_CGACT :: AT_PACKET where "ampmAtCmd_AT_CGACT = at_plain ''AT+CGACT=0|''"

definition ampmAtCmd_AT_DIALUP :: AT_PACKET where
  "ampmAtCmd_AT_DIALUP = (at_plain ''ATDT*99***1#|'')\<lparr>resOk := lit ''CONNECT''\<rparr>"

definition ampmAtCmd_AT_CREG :: AT_PACKET where
  "ampmAtCmd_AT_CREG = (at_plain ''AT+CREG?|'')\<lparr>resOk := lit ''+CREG: 0,1''\<rparr>"

text \<open>A command constant: next command, packet, end callback, retries, timeout and delay.\<close>

definition cmd_process :: "cmd_key option \<Rightarrow> AT_PACKET \<Rightarrow> end_fn option \<Rightarrow> u8 \<Rightarrow> u16 \<Rightarrow> u16 \<Rightarrow> gsm_cmd" where
  "cmd_process nxt packet fin retry timeout delay =
     \<lparr>cmd_next = nxt, appStruct = Some (RomPacket packet), send_data_callback = Some Fn_GsmSendCallback,
      recv_data_callback = Some Fn_GsmRecvCallback, end_data_callback = fin,
      retryNum = retry, cmd_timeout = timeout, cmd_delay = delay\<rparr>"

definition ampmCmdProcess_AT :: gsm_cmd where
  "ampmCmdProcess_AT = cmd_process None ampmAtCmd_AT None 1 1000 100"

definition ampmCmdProcess_ATH :: gsm_cmd where
  "ampmCmdProcess_ATH = cmd_process None ampmAtCmd_ATH None 1 1000 100"

definition signal_bars :: "u8 \<Rightarrow> u8" where
  "signal_bars v = (if v < 4 \<or> v = 99 then 0 else if v < 10 then 1 else if v < 16 then 2
     else if v < 22 then 3 else if v < 28 then 4 else if v < 51 then 5 else 0)"

text \<open>The conversion of the scanned float to \<open>uint8_t\<close> is undefined outside 0..255.\<close>

definition Ampm_GsmGetCSQ :: "u16 \<Rightarrow> u8 \<Rightarrow> 'z gsm_common_scheme \<Rightarrow> (u32 \<times> 'z gsm_common_scheme) option" where
  "Ampm_GsmGetCSQ cnt c s =
     (if c = 0x0D \<or> c = 0x0A \<or> cnt \<ge> 16 then do {
        buf \<leftarrow> wr (csqBuff s) (unat cnt) 0;
        n \<leftarrow> strlen buf;
        v \<leftarrow> scan_float (cstr buf);
        if v < 0 \<or> v > 255 then None
        else Some (0, s\<lparr>csqBuff := buf, csqValue := word_of_int v, gsmSignal := signal_bars (word_of_int v)\<rparr>)
      }
      else do {
        buf \<leftarrow> wr (csqBuff s) (unat cnt) c;
        Some (0xff, s\<lparr>csqBuff := buf\<rparr>)
      })"

section \<open>The ring detector\<close>

datatype AMPM_GSM_RING_PHASE =
  AMPM_GSM_RING_IDLE_PHASE | AMPM_GSM_RING_IS_DETECTING | AMPM_GSM_RING_IS_A_SMS | AMPM_GSM_RING_IS_A_CALL

record gsm_ring = gsm_common +
  ampm_MissCall :: bool
  ampm_NewSmsFlag :: bool
  ampm_RingingFlagTimes :: u8
  ampm_RingingFlag :: u8
  ampm_RingingTime :: u8
  ampm_RingingPauseTime :: u8
  ampm_RingingPhase :: AMPM_GSM_RING_PHASE

definition AMPM_RINGING_FLAG :: u8 where "AMPM_RINGING_FLAG = 0x01"

definition AMPM_RING_GOT_AT_CLIP :: u8 where "AMPM_RING_GOT_AT_CLIP = 0x02"

definition AMPM_RING_GOT_AT_RING :: u8 where "AMPM_RING_GOT_AT_RING = 0x04"

definition AMPM_RING_GOT_AT_CMTI :: u8 where "AMPM_RING_GOT_AT_CMTI = 0x08"

definition Ampm_RingingTimer :: "'z gsm_ring_scheme \<Rightarrow> 'z gsm_ring_scheme" where
  "Ampm_RingingTimer s =
     (let s = s\<lparr>ampm_RingingTime := ampm_RingingTime s + 1\<rparr>
      in if ampm_RingingPauseTime s \<noteq> 0 then s\<lparr>ampm_RingingPauseTime := ampm_RingingPauseTime s - 1\<rparr> else s)"

definition Ampm_Ringing_GetPhase :: "'z gsm_ring_scheme \<Rightarrow> AMPM_GSM_RING_PHASE" where
  "Ampm_Ringing_GetPhase s = ampm_RingingPhase s"

definition Ampm_RingingDisable :: "'z gsm_ring_scheme \<Rightarrow> 'z gsm_ring_scheme" where
  "Ampm_RingingDisable s =
     s\<lparr>ampm_RingingPauseTime := 15, ampm_RingingFlag := 0, ampm_RingingPhase := AMPM_GSM_RING_IDLE_PHASE\<rparr>"

definition Ampm_RingingEnable :: "'z gsm_ring_scheme \<Rightarrow> 'z gsm_ring_scheme" where
  "Ampm_RingingEnable s = s\<lparr>ampm_RingingPauseTime := 0\<rparr>"

definition Ampm_RingingReset :: "'z gsm_ring_scheme \<Rightarrow> 'z gsm_ring_scheme" where
  "Ampm_RingingReset s =
     s\<lparr>ampm_RingingFlag := 0, ampm_RingingPhase := AMPM_GSM_RING_IDLE_PHASE, ampm_RingingPauseTime := 1\<rparr>"

definition Ampm_SetRinging :: "'z gsm_ring_scheme \<Rightarrow> 'z gsm_ring_scheme" where
  "Ampm_SetRinging s =
     (if ampm_RingingPauseTime s = 0 then
        s\<lparr>ampm_RingingFlag := ampm_RingingFlag s OR AMPM_RINGING_FLAG,
          ampm_RingingFlagTimes := ampm_RingingFlagTimes s + 1, ampm_RingingTime := 0\<rparr>
      else s)"

definition Ampm_SetAtRing :: "'z gsm_ring_scheme \<Rightarrow> 'z gsm_ring_scheme" where
  "Ampm_SetAtRing s = s\<lparr>ampm_RingingFlag := ampm_RingingFlag s OR AMPM_RING_GOT_AT_RING, ampm_RingingTime := 0\<rparr>"

definition Ampm_SetAtClip :: "'z gsm_ring_scheme \<Rightarrow> 'z gsm_ring_scheme" where
  "Ampm_SetAtClip s = s\<lparr>ampm_RingingFlag := ampm_RingingFlag s OR AMPM_RING_GOT_AT_CLIP, ampm_RingingTime := 0\<rparr>"

definition Ampm_SetAtCmti :: "'z gsm_ring_scheme \<Rightarrow> 'z gsm_ring_scheme" where
  "Ampm_SetAtCmti s = s\<lparr>ampm_NewSmsFlag := True, ampm_RingingFlag := ampm_RingingFlag s OR AMPM_RING_GOT_AT_CMTI\<rparr>"

definition Ampm_RingingProcess :: "'z gsm_ring_scheme \<Rightarrow> 'z gsm_ring_scheme" where
  "Ampm_RingingProcess s = (case ampm_RingingPhase s of
     AMPM_GSM_RING_IDLE_PHASE \<Rightarrow>
       (if ampm_RingingFlag s AND AMPM_RINGING_FLAG \<noteq> 0 then
          s\<lparr>ampm_RingingFlag := 0, ampm_RingingFlagTimes := 0, ampm_RingingTime := 0,
            ampm_RingingPhase := AMPM_GSM_RING_IS_DETECTING\<rparr>
        else s)
   | AMPM_GSM_RING_IS_DETECTING \<Rightarrow>
       (if ampm_RingingFlag s AND AMPM_RING_GOT_AT_CLIP \<noteq> 0
           \<or> ampm_RingingFlag s AND AMPM_RING_GOT_AT_RING \<noteq> 0
           \<or> ampm_RingingFlagTimes s \<noteq> 0 then
          s\<lparr>ampm_RingingFlag := 0, ampm_RingingPhase := AMPM_GSM_RING_IS_A_CALL\<rparr>
        else if ampm_RingingFlag s AND AMPM_RING_GOT_AT_CMTI \<noteq> 0 then
          s\<lparr>ampm_RingingFlag := 0, ampm_RingingPhase := AMPM_GSM_RING_IS_A_SMS\<rparr>
        else if ampm_RingingTime s \<ge> 6 then s\<lparr>ampm_RingingPhase := AMPM_GSM_RING_IS_A_SMS\<rparr>
        else s)
   | AMPM_GSM_RING_IS_A_SMS \<Rightarrow>
       s\<lparr>ampm_NewSmsFlag := True, ampm_RingingFlag := 0, ampm_RingingTime := 0,
         ampm_RingingPhase := AMPM_GSM_RING_IDLE_PHASE\<rparr>
   | AMPM_GSM_RING_IS_A_CALL \<Rightarrow>
       (if ampm_RingingTime s \<ge> 6 then
          s\<lparr>ampm_MissCall := True, ampm_RingingFlag := 0, ampm_RingingPhase := AMPM_GSM_RING_IDLE_PHASE\<rparr>
        else s))"

section \<open>Dial-up\<close>

datatype dialup_phase =
  AMPM_GSM_DIALUP_START_PHASE | AMPM_GSM_DIALUP_RUNING_PHASE | AMPM_GSM_DIALUP_OK | AMPM_GSM_DIALUP_FAIL

record gsm_dial = gsm_ring +
  dialupTryCnt :: u8
  ampmGsmDialupPhase :: dialup_phase

definition ampmAtCmd_AT_CGDCONT :: AT_PACKET where
  "ampmAtCmd_AT_CGDCONT = at_format Fn_DialupAtCallback0"

definition dialupCmdProcess_4 :: gsm_cmd where
  "dialupCmdProcess_4 = cmd_process None ampmAtCmd_AT_DIALUP None 1 1000 100"

definition dialupCmdProcess_3 :: gsm_cmd where
  "dialupCmdProcess_3 = cmd_process (Some Cmd_dialupCmdProcess_4) ampmAtCmd_AT_CGDCONT None 1 1000 100"

definition dialupCmdProcess_2 :: gsm_cmd where
  "dialupCmdProcess_2 = cmd_process (Some Cmd_dialupCmdProcess_3) ampmAtCmd_AT_CGACT None 1 1000 100"

definition dialupCmdProcess_1 :: gsm_cmd where
  "dialupCmdProcess_1 = cmd_process (Some Cmd_dialupCmdProcess_2) ampmAtCmd_ATH None 1 1000 100"

definition dialupCmdProcess_0 :: gsm_cmd where
  "dialupCmdProcess_0 = cmd_process (Some Cmd_dialupCmdProcess_1) ampmAtCmd_AT None 1 1000 100"

definition DialupAtCallback0 :: "bytes \<Rightarrow> 'z gsm_dial_scheme \<Rightarrow> (u8 \<times> bytes \<times> 'z gsm_dial_scheme) option" where
  "DialupAtCallback0 buf s = do {
     (n, buf) \<leftarrow> ampm_sprintf buf (cr_text (''AT+CGDCONT=1,'' @ [CHR 0x22] @ ''IP'' @ [CHR 0x22, CHR 0x2C, CHR 0x22]
         @ ''%s'' @ [CHR 0x22] @ ''|'')) [StrArg (GprsApn s)];
     Some (word_of_int n, buf, s)
   }"

definition Ampm_GSM_DialUp_Reset :: "'z gsm_dial_scheme \<Rightarrow> 'z gsm_dial_scheme" where
  "Ampm_GSM_DialUp_Reset s = s\<lparr>ampmGsmDialupPhase := AMPM_GSM_DIALUP_START_PHASE\<rparr>"

definition Ampm_GSM_DialUp_IsOk :: "'z gsm_dial_scheme \<Rightarrow> bool" where
  "Ampm_GSM_DialUp_IsOk s = (ampmGsmDialupPhase s = AMPM_GSM_DIALUP_OK)"

definition Ampm_GSM_DialUp_IsDone :: "'z gsm_dial_scheme \<Rightarrow> bool" where
  "Ampm_GSM_DialUp_IsDone s =
     (case ampmGsmDialupPhase s of AMPM_GSM_DIALUP_FAIL \<Rightarrow> True | AMPM_GSM_DIALUP_OK \<Rightarrow> True | _ \<Rightarrow> False)"

definition dummy_ppp_packet :: bytes where
  "dummy_ppp_packet = [0x7E, 0xFF, 0x7D, 0x23, 0xC0, 0x21, 0x7E]"

definition Ampm_GSM_DialUp :: "'z gsm_dial_scheme \<Rightarrow> bool \<times> 'z gsm_dial_scheme" where
  "Ampm_GSM_DialUp s = (case ampmGsmDialupPhase s of
     AMPM_GSM_DIALUP_START_PHASE \<Rightarrow>
       (let (r, s) = Ampm_SendAtCmd dialupCmdProcess_0 s
        in (False, if r then s\<lparr>ampmGsmDialupPhase := AMPM_GSM_DIALUP_RUNING_PHASE\<rparr> else s))
   | AMPM_GSM_DIALUP_RUNING_PHASE \<Rightarrow>
       (if Ampm_SendAtCheck_IsEmpty s \<and> CmdPhase s = AMPM_CMD_OK then
          (False, (fold COMM_Putc dummy_ppp_packet s)\<lparr>ampmGsmDialupPhase := AMPM_GSM_DIALUP_OK, dialupTryCnt := 0\<rparr>)
        else if CmdPhase s = AMPM_CMD_ERROR then
          (let n = dialupTryCnt s; s = s\<lparr>dialupTryCnt := n + 1\<rparr>
           in if n \<ge> 5 then
                (False, s\<lparr>dialupTryCnt := 0, ampm_ModemResetFlag := True, ampmGsmDialupPhase := AMPM_GSM_DIALUP_FAIL\<rparr>)
              else (False, s\<lparr>ampmGsmDialupPhase := AMPM_GSM_DIALUP_START_PHASE\<rparr>))
        else (False, s))
   | AMPM_GSM_DIALUP_OK \<Rightarrow> (True, s)
   | AMPM_GSM_DIALUP_FAIL \<Rightarrow> (False, s))"


section \<open>The signal quality answer\<close>

lemma scan_d_digits:
  assumes "\<forall>c \<in> set sp. is_space c" "\<forall>c \<in> set ds. IsDigit c" "ds \<noteq> []" "rest = [] \<or> \<not> IsDigit (hd rest)"
  shows "scan_d (sp @ ds @ rest) = Some (number_of_digits ds, rest)"
proof -
  have h: "\<not> is_space (hd ds)" "hd ds \<noteq> 0x2D" "hd ds \<noteq> 0x2B"
    using assms(2,3) by (cases ds; auto simp: is_space_def IsDigit_def word_le_nat_alt)+
  have 1: "dropWhile is_space (sp @ ds @ rest) = ds @ rest"
    using assms(1,3) h(1) by (induction sp) (cases ds; auto)+
  have 2: "takeWhile IsDigit (ds @ rest) = ds" "dropWhile IsDigit (ds @ rest) = rest"
    using assms(2,4) by (induction ds) (cases rest; auto)+
  show ?thesis using 1 2 h assms(3) by (simp add: scan_d_def Let_def)
qed

text \<open>The bytes before the line end are stored one after the other.\<close>

fun csq_calls :: "u16 \<Rightarrow> bytes \<Rightarrow> 'z gsm_common_scheme \<Rightarrow> (u32 list \<times> 'z gsm_common_scheme) option" where
  "csq_calls n [] s = Some ([], s)"
| "csq_calls n (c # cs) s = do {
     (r, s) \<leftarrow> Ampm_GsmGetCSQ n c s;
     (rs, s) \<leftarrow> csq_calls (n + 1) cs s;
     Some (r # rs, s)
   }"

lemma csq_stores:
  "n + length t \<le> 16 \<Longrightarrow> length (csqBuff s) = 16 \<Longrightarrow> 0x0D \<notin> set t \<Longrightarrow> 0x0A \<notin> set t \<Longrightarrow>
   csq_calls (of_nat n) t s =
     Some (replicate (length t) 0xff, s\<lparr>csqBuff := take n (csqBuff s) @ t @ drop (n + length t) (csqBuff s)\<rparr>)"
proof (induction t arbitrary: n s)
  case (Cons c t)
  have n: "unat (of_nat n :: u16) = n" "\<not> (of_nat n :: u16) \<ge> 16"
    using Cons.prems(1) by (simp_all add: unat_of_nat word_le_nat_alt)
  let ?s = "s\<lparr>csqBuff := (csqBuff s)[n := c]\<rparr>"
  have 1: "Ampm_GsmGetCSQ (of_nat n) c s = Some (0xff, ?s)"
    using Cons.prems n by (simp add: Ampm_GsmGetCSQ_def)
  have 2: "csq_calls (of_nat (Suc n)) t ?s = Some (replicate (length t) 0xff,
      ?s\<lparr>csqBuff := take (Suc n) (csqBuff ?s) @ t @ drop (Suc n + length t) (csqBuff ?s)\<rparr>)"
    by (rule Cons.IH) (use Cons.prems in auto)
  have 3: "take (Suc n) ((csqBuff s)[n := c]) = take n (csqBuff s) @ [c]"
    using Cons.prems by (simp add: take_Suc_conv_app_nth)
  have 4: "(1 + of_nat n :: u16) = of_nat n + 1" by simp
  from 2 3 show ?case by (simp add: 1 4)
qed simp

lemma csq_calls_append:
  "csq_calls n (t @ u) s = do { (rs, s) \<leftarrow> csq_calls n t s; (rs', s) \<leftarrow> csq_calls (n + of_nat (length t)) u s;
      Some (rs @ rs', s) }"
  by (induction t arbitrary: n s) (auto simp: algebra_simps split: bind_splits)

lemma csq_line_end:
  assumes "length (csqBuff s) = 16" "csqBuff s = t @ u" "length t < 16" "0 \<notin> set t"
    "scan_float t = Some v" "0 \<le> v" "v \<le> 255"
  shows "\<exists>s'. Ampm_GsmGetCSQ (of_nat (length t)) 0x0D s = Some (0, s') \<and> csqValue s' = word_of_int v
    \<and> gsmSignal s' = signal_bars (word_of_int v)"
proof -
  have len: "unat (of_nat (length t) :: u16) = length t" using assms(3) by (simp add: unat_of_nat)
  obtain c u' where "u = c # u'" using assms(1-3) by (cases u) auto
  then have "(csqBuff s)[length t := 0] = t @ 0 # u'" using assms(2) by simp
  then show ?thesis unfolding Ampm_GsmGetCSQ_def len using assms by simp
qed

text \<open>The answer to \<open>AT+CSQ\<close>, at most 15 bytes of blanks, a number up to 255 and
  anything but a float's continuation, sets the signal quality and the bars shown for it; a
  line of 16 bytes or more without a line end is written past the end of the buffer.\<close>

theorem Ampm_GsmGetCSQ_line:
  assumes "length (csqBuff s) = 16"
    and "\<forall>c \<in> set sp. is_space c" "\<forall>c \<in> set ds. IsDigit c" "ds \<noteq> []"
    and "rest = [] \<or> \<not> IsDigit (hd rest) \<and> hd rest \<notin> {0x2E, 0x45, 0x65, 0x58, 0x78}"
    and "{0, 0x0A, 0x0D} \<inter> set (sp @ ds @ rest) = {}" "number_of_digits ds \<le> 255" "0 \<le> number_of_digits ds"
    and "length (sp @ ds @ rest) \<le> 15"
    and "length long = 16" "{0x0A, 0x0D} \<inter> set long = {}"
  shows "(\<exists>s'. csq_calls 0 ((sp @ ds @ rest) @ [0x0D]) s = Some (replicate (length (sp @ ds @ rest)) 0xff @ [0], s')
      \<and> uint (csqValue s') = number_of_digits ds \<and> gsmSignal s' = signal_bars (csqValue s'))
    \<and> csq_calls 0 (long @ [c]) s = None"
proof (rule conjI)
  let ?t = "sp @ ds @ rest"
  have t: "0 \<notin> set ?t" "0x0D \<notin> set ?t" "0x0A \<notin> set ?t" using assms(6) by auto
  let ?s = "s\<lparr>csqBuff := ?t @ drop (length ?t) (csqBuff s)\<rparr>"
  have st: "csq_calls 0 ?t s = Some (replicate (length ?t) 0xff, ?s)"
    using csq_stores [of 0 ?t s] assms(1,9) t by simp
  have sc: "scan_float ?t = Some (number_of_digits ds)"
    using assms(5) scan_d_digits [OF assms(2,3,4), of rest] by (auto simp: scan_float_def)
  have "\<exists>s'. Ampm_GsmGetCSQ (of_nat (length ?t)) 0x0D ?s = Some (0, s')
      \<and> csqValue s' = word_of_int (number_of_digits ds)
      \<and> gsmSignal s' = signal_bars (word_of_int (number_of_digits ds))"
    by (rule csq_line_end [OF _ _ _ t(1) sc assms(8,7)]) (use assms(1,9) in auto)
  moreover have "uint (word_of_int (number_of_digits ds) :: u8) = number_of_digits ds"
    using assms(7,8) by (simp add: uint_word_of_int)
  ultimately show "\<exists>s'. csq_calls 0 (?t @ [0x0D]) s = Some (replicate (length ?t) 0xff @ [0], s')
      \<and> uint (csqValue s') = number_of_digits ds \<and> gsmSignal s' = signal_bars (csqValue s')"
    unfolding csq_calls_append [of 0 ?t] st by (auto simp del: of_nat_add length_append)
  have "csq_calls 0 long s = Some (replicate 16 0xff, s\<lparr>csqBuff := long\<rparr>)"
    using csq_stores [of 0 long s] assms(1,10,11) by auto
  then show "csq_calls 0 (long @ [c]) s = None"
    using assms(10) by (simp add: csq_calls_append Ampm_GsmGetCSQ_def)
qed


section \<open>Telling calls from messages\<close>

datatype ring_event = RiEdge | AtRing | AtClip | Second | Poll

fun ring_step :: "ring_event \<Rightarrow> 'z gsm_ring_scheme \<Rightarrow> 'z gsm_ring_scheme" where
  "ring_step RiEdge = Ampm_SetRinging"
| "ring_step AtRing = Ampm_SetAtRing"
| "ring_step AtClip = Ampm_SetAtClip"
| "ring_step Second = Ampm_RingingTimer"
| "ring_step Poll = Ampm_RingingProcess"

definition seconds :: "ring_event list \<Rightarrow> nat" where
  "seconds evs = length (filter (\<lambda>e. e = Second) evs)"

text \<open>The detector in phase \<open>p\<close>, \<open>n\<close> seconds after the last indication, not paused.\<close>

definition ring_at :: "AMPM_GSM_RING_PHASE \<Rightarrow> nat \<Rightarrow> bool \<Rightarrow> bool \<Rightarrow> 'z gsm_ring_scheme \<Rightarrow> bool" where
  "ring_at p n missed sms s \<longleftrightarrow> ampm_RingingPhase s = p \<and> ampm_RingingTime s = of_nat n
     \<and> ampm_RingingPauseTime s = 0 \<and> ampm_RingingFlag s = 0 \<and> (p = AMPM_GSM_RING_IS_DETECTING \<longrightarrow> ampm_RingingFlagTimes s = 0)
     \<and> ampm_MissCall s = missed \<and> ampm_NewSmsFlag s = sms"

definition waiting_phase :: "AMPM_GSM_RING_PHASE \<Rightarrow> bool" where
  "waiting_phase p \<longleftrightarrow> p = AMPM_GSM_RING_IS_DETECTING \<or> p = AMPM_GSM_RING_IS_A_CALL"

lemma ring_quiet:
  "ring_at p n m sm s \<Longrightarrow> waiting_phase p \<Longrightarrow> set evs \<subseteq> {Second, Poll} \<Longrightarrow> n + seconds evs < 6 \<Longrightarrow>
   ring_at p (n + seconds evs) m sm (fold ring_step evs s)"
proof (induction evs arbitrary: n s)
  case Nil
  then show ?case by (simp add: seconds_def)
next
  case (Cons e evs)
  consider "e = Second" | "e = Poll" using Cons.prems(3) by auto
  then show ?case
  proof cases
    case 1
    then have "ring_at p (Suc n) m sm (ring_step e s)"
      using Cons.prems(1) by (simp add: ring_at_def Ampm_RingingTimer_def add.commute)
    moreover have "seconds (e # evs) = Suc (seconds evs)" using 1 by (simp add: seconds_def)
    ultimately show ?thesis using Cons.IH [of "Suc n" "ring_step e s"] Cons.prems by simp
  next
    case 2
    have n: "n < 6" using Cons.prems(4) by simp
    then have "\<not> (6 :: u8) \<le> of_nat n" by (simp add: word_le_nat_alt unat_of_nat)
    then have "ring_at p n m sm (ring_step e s)"
      using Cons.prems(1,2) 2 by (auto simp: ring_at_def Ampm_RingingProcess_def waiting_phase_def)
    moreover have "seconds (e # evs) = seconds evs" using 2 by (simp add: seconds_def)
    ultimately show ?thesis using Cons.IH [of n "ring_step e s"] Cons.prems by simp
  qed
qed

lemma ring_six:
  assumes "ring_at p 0 m sm s" "waiting_phase p" "set evs \<subseteq> {Second, Poll}" "seconds evs = 5"
  shows "ring_at p 6 m sm (fold ring_step (evs @ [Second]) s)"
  using ring_quiet [OF assms(1-3)] assms(4) by (simp add: ring_at_def Ampm_RingingTimer_def)

lemma ring_starts:
  "ring_at AMPM_GSM_RING_IDLE_PHASE n m sm s \<Longrightarrow>
   ring_at AMPM_GSM_RING_IS_DETECTING 0 m sm (Ampm_RingingProcess (Ampm_SetRinging s))"
  by (simp add: ring_at_def Ampm_SetRinging_def Ampm_RingingProcess_def AMPM_RINGING_FLAG_def)

lemma ring_is_call:
  assumes "ring_at AMPM_GSM_RING_IS_DETECTING n m sm s" "e \<in> {AtRing, AtClip, RiEdge}"
  shows "ring_at AMPM_GSM_RING_IS_A_CALL 0 m sm (Ampm_RingingProcess (ring_step e s))"
proof -
  consider "e = AtRing" | "e = AtClip" | "e = RiEdge" using assms(2) by auto
  then show ?thesis
  proof cases
    case 1
    then show ?thesis using assms(1)
      by (simp add: ring_at_def Ampm_SetAtRing_def Ampm_RingingProcess_def AMPM_RING_GOT_AT_RING_def AMPM_RING_GOT_AT_CLIP_def)
  next
    case 2
    then show ?thesis using assms(1)
      by (simp add: ring_at_def Ampm_SetAtClip_def Ampm_RingingProcess_def AMPM_RING_GOT_AT_CLIP_def)
  next
    case 3
    then show ?thesis using assms(1)
      by (simp add: ring_at_def Ampm_SetRinging_def Ampm_RingingProcess_def)
  qed
qed


section \<open>Dialling again and giving up\<close>

text \<open>One dial-up attempt that ends in an error: the handler starts the command chain, the
  engine fails, the handler sees the failure.\<close>

definition failed_dialup :: "'z gsm_dial_scheme \<Rightarrow> 'z gsm_dial_scheme" where
  "failed_dialup s = snd (Ampm_GSM_DialUp ((snd (Ampm_GSM_DialUp s))\<lparr>CmdPhase := AMPM_CMD_ERROR\<rparr>))"

lemma failed_dialup_once:
  assumes "ampmGsmDialupPhase s = AMPM_GSM_DIALUP_START_PHASE" "Ampm_CmdTask_IsIdle (CmdPhase s)"
  shows "dialupTryCnt (failed_dialup s) = (if dialupTryCnt s \<ge> 5 then 0 else dialupTryCnt s + 1)"
    "ampmGsmDialupPhase (failed_dialup s) = (if dialupTryCnt s \<ge> 5 then AMPM_GSM_DIALUP_FAIL else AMPM_GSM_DIALUP_START_PHASE)"
    "ampm_ModemResetFlag (failed_dialup s) \<longleftrightarrow> dialupTryCnt s \<ge> 5 \<or> ampm_ModemResetFlag s"
    "CmdPhase (failed_dialup s) = AMPM_CMD_ERROR"
proof -
  have 1: "Ampm_GSM_DialUp s = (False, (Ampm_SendCmdNow dialupCmdProcess_0 s)\<lparr>ampmGsmDialupPhase := AMPM_GSM_DIALUP_RUNING_PHASE\<rparr>)"
    using assms by (simp add: Ampm_GSM_DialUp_def Ampm_SendAtCmd_def Ampm_SendCmd_def Ampm_SendCmdNow_def Let_def)
  have f: "dialupTryCnt (Ampm_SendCmdNow c s) = dialupTryCnt s"
    "ampm_ModemResetFlag (Ampm_SendCmdNow c s) = ampm_ModemResetFlag s" for c
    by (simp_all add: Ampm_SendCmdNow_def start_timeout_def Let_def)
  show "dialupTryCnt (failed_dialup s) = (if dialupTryCnt s \<ge> 5 then 0 else dialupTryCnt s + 1)"
    "ampmGsmDialupPhase (failed_dialup s) = (if dialupTryCnt s \<ge> 5 then AMPM_GSM_DIALUP_FAIL else AMPM_GSM_DIALUP_START_PHASE)"
    "ampm_ModemResetFlag (failed_dialup s) \<longleftrightarrow> dialupTryCnt s \<ge> 5 \<or> ampm_ModemResetFlag s"
    "CmdPhase (failed_dialup s) = AMPM_CMD_ERROR"
    unfolding failed_dialup_def 1 by (simp_all add: Ampm_GSM_DialUp_def f Let_def)
qed

text \<open>Property C39. Six dial-up attempts in a row may fail: the first five are repeated, the sixth ends
  dial-up and asks for a reset of the modem, with the count back at zero.\<close>

theorem Ampm_GSM_DialUp_gives_up:
  assumes "ampmGsmDialupPhase s = AMPM_GSM_DIALUP_START_PHASE" "Ampm_CmdTask_IsIdle (CmdPhase s)"
    and "dialupTryCnt s = 0" "n \<le> 5"
  shows "ampmGsmDialupPhase ((failed_dialup ^^ n) s) = AMPM_GSM_DIALUP_START_PHASE
    \<and> ampm_ModemResetFlag ((failed_dialup ^^ n) s) = ampm_ModemResetFlag s
    \<and> ampmGsmDialupPhase ((failed_dialup ^^ 6) s) = AMPM_GSM_DIALUP_FAIL
    \<and> ampm_ModemResetFlag ((failed_dialup ^^ 6) s) \<and> dialupTryCnt ((failed_dialup ^^ 6) s) = 0"
proof -
  have inv: "k \<le> 5 \<Longrightarrow> ampmGsmDialupPhase ((failed_dialup ^^ k) s) = AMPM_GSM_DIALUP_START_PHASE
      \<and> Ampm_CmdTask_IsIdle (CmdPhase ((failed_dialup ^^ k) s)) \<and> dialupTryCnt ((failed_dialup ^^ k) s) = of_nat k
      \<and> ampm_ModemResetFlag ((failed_dialup ^^ k) s) = ampm_ModemResetFlag s" for k
  proof (induction k)
    case (Suc k)
    have "\<not> (5 :: u8) \<le> of_nat k" using Suc.prems by (simp add: word_le_nat_alt unat_of_nat)
    then show ?case using Suc failed_dialup_once [of "(failed_dialup ^^ k) s"]
      by (simp add: Ampm_CmdTask_IsIdle_def add.commute)
  qed (use assms in simp)
  define s5 where "s5 = (failed_dialup ^^ 5) s"
  have "(failed_dialup ^^ Suc 5) s = failed_dialup s5" by (simp only: funpow.simps comp_apply s5_def)
  then have 6: "(failed_dialup ^^ 6) s = failed_dialup s5" by simp
  have 5: "ampmGsmDialupPhase s5 = AMPM_GSM_DIALUP_START_PHASE" "Ampm_CmdTask_IsIdle (CmdPhase s5)" "dialupTryCnt s5 = 5"
    using inv [of 5] unfolding s5_def [symmetric] by simp_all
  show ?thesis
    unfolding 6 using inv [OF assms(4)] failed_dialup_once [OF 5(1,2)] 5(3) by simp
qed

end
