(* ===== verification/GsmStartup.thy ===== *)
theory GsmStartup
  imports GsmCommon
begin

text \<open>
  Power-on of the modem and module identification: \<open>ampm_gsm_startup.c\<close>, and from
  \<open>ampm_gsm_main_task.c\<close> the command scripts it runs and \<open>Ampm_GSM_GetATI\<close>, which
  chooses the script.  A pointer into a script is the rest of its memory.
\<close>

section \<open>Scripts\<close>

text \<open>The lines of a script are separated by a line end and the tab of the next source line.\<close>

fun start_script :: "string list \<Rightarrow> bytes" where
  "start_script [] = [0]"
| "start_script [l] = map cr_char l @ [0]"
| "start_script (l # ls) = map cr_char l @ [0x0D, 0x0A, 0x09] @ start_script ls"

definition ampm_AtGsmCmdStart :: bytes where
  \<open>ampm_AtGsmCmdStart = start_script [
     ''@@1'',
     ''@@3$100'',
     ''@@2$'',
     ''@@3$100'',
     ''@@1'',
     ''@@3$1500'',
     ''@@0$AT|$0$0$OK$NOT USE$3$1000$100'',
     ''@@0$ATI|$ATI||~$3$OK$ERROR$3$1000$100'',
     ''@@D$ATZ|$'',
     ''@@D$ATI|$'',
     ''@@D$AT&C1|$'',
     ''@@D$AT+CMGF=1|$'',
     ''@@D$AT+CNMI=2,1,0,0,0|$'',
     ''@@D$AT+CLIP=1|$'',
     ''@@0$AT+CREG?|$0$0$+CREG: 0,1$NOT USE$20$3000$100'',
     ''@@0$AT+CGSN|$+CGSN||~$1$OK$ERROR$3$1000$100'',
     ''@@0$AT+COPS=0,2|$0$0$OK$NOT USE$20$3000$100'',
     ''@@G$AT+CSQ|$+CSQ:$4$OK$ERROR$1$2000$100'',
     ''@@S'']\<close>

definition ampm_AtGsmCmdStartBGS2_W :: bytes where
  \<open>ampm_AtGsmCmdStartBGS2_W = start_script [
     ''@@0$AT|$0$0$OK$NOT USE$3$1000$100'',
     ''@@D$ATZ|$'',
     ''@@D$ATI|$'',
     ''@@D$AT&D1|$'',
     ''@@D$AT&C1|$'',
     ''@@D$AT+CMGF=1|$'',
     ''@@D$AT^SCFG="URC/Datamode/Ringline","on"|$'',
     ''@@D$AT+CNMI=3,1,0,0,1|$'',
     ''@@D$AT+CLIP=1|$'',
     ''@@D$AT^SM20=0|$'',
     ''@@0$AT+CREG?|$0$0$+CREG: 0,1$NOT USE$20$3000$100'',
     ''@@0$AT+CGSN|$+CGSN||~$1$OK$ERROR$3$1000$100'',
     ''@@0$AT^SCID|$^SCID: $2$OK$ERROR$3$1000$100'',
     ''@@0$AT+COPS=0,2|$0$0$OK$NOT USE$20$3000$100'',
     ''@@G$AT+CSQ|$+CSQ:$4$OK$ERROR$1$2000$100'',
     ''@@S'']\<close>

definition ampm_AtGsmCmdStartBGS2_E :: bytes where
  \<open>ampm_AtGsmCmdStartBGS2_E = start_script [
     ''@@0$AT|$0$0$OK$NOT USE$3$1000$100'',
     ''@@D$ATZ|$'',
     ''@@D$ATZ|$'',
     ''@@D$ATI|$'',
     ''@@D$AT&D1|$'',
     ''@@D$AT&C1|$'',
     ''@@D$AT+CMGF=1|$'',
     ''@@D$AT^SCFG="URC/Datamode/Ringline","on"|$'',
     ''@@D$AT+CNMI=3,1,0,0,1|$'',
     ''@@D$AT+CLIP=1|$'',
     ''@@D$AT^SM20=0|$'',
     ''@@0$AT+CREG?|$0$0$+CREG: 0,1$NOT USE$20$3000$100'',
     ''@@0$AT+CGSN|$+CGSN||~$1$OK$ERROR$3$1000$100'',
     ''@@0$AT^SCID|$^SCID: $2$OK$ERROR$3$1000$100'',
     ''@@0$AT+COPS=0,2|$0$0$OK$NOT USE$20$3000$100'',
     ''@@G$AT+CSQ|$+CSQ:$4$OK$ERROR$1$2000$100'',
     ''@@S'']\<close>

definition ampm_AtGsmCmdStartBG2_E :: bytes where
  \<open>ampm_AtGsmCmdStartBG2_E = start_script [
     ''@@0$AT|$0$0$OK$NOT USE$3$1000$100'',
     ''@@D$ATZ|$'',
     ''@@D$ATI|$'',
     ''@@D$AT&D1|$'',
     ''@@D$AT&C1|$'',
     ''@@D$AT'' @ [CHR 0x5C] @ ''Q3|$'',
     ''@@D$AT+CMGF=1|$'',
     ''@@D$AT^SCFG="URC/Datamode/Ringline","on"|$'',
     ''@@D$AT+CNMI=3,1,0,0,1|$'',
     ''@@D$AT+CLIP=1|$'',
     ''@@0$AT+CREG?|$0$0$+CREG: 0,1$NOT USE$20$3000$100'',
     ''@@0$AT+CGSN|$+CGSN||~$1$OK$ERROR$3$1000$100'',
     ''@@0$AT^SCID|$^SCID: $2$OK$ERROR$3$1000$100'',
     ''@@0$AT+COPS=0,2|$0$0$OK$NOT USE$20$3000$100'',
     ''@@G$AT+CSQ|$+CSQ:$4$OK$ERROR$1$2000$100'',
     ''@@S'']\<close>

definition ampm_AtGsmCmdStartM95 :: bytes where
  \<open>ampm_AtGsmCmdStartM95 = start_script [
     ''@@0$AT|$0$0$OK$NOT USE$3$1000$100'',
     ''@@D$ATZ|$'',
     ''@@D$ATI|$'',
     ''@@D$AT&C1|$'',
     ''@@D$AT+CMGF=1|$'',
     ''@@D$AT+CNMI=2,1,0,0,0|$'',
     ''@@D$AT+CLIP=1|$'',
     ''@@0$AT+CREG?|$0$0$+CREG: 0,1$NOT USE$20$3000$100'',
     ''@@0$AT+CGSN|$+CGSN||~$1$OK$ERROR$3$3000$100'',
     ''@@0$AT+QCCID|$+QCCID||~$2$OK$ERROR$3$3000$100'',
     ''@@0$AT+COPS=0,2|$0$0$OK$NOT USE$20$3000$100'',
     ''@@G$AT+CSQ|$+CSQ:$4$OK$ERROR$1$2000$100'',
     ''@@S'']\<close>

definition ampm_AtGsmCmdStartM26 :: bytes where
  \<open>ampm_AtGsmCmdStartM26 = start_script [
     ''@@0$AT|$0$0$OK$NOT USE$3$1000$100'',
     ''@@D$ATZ|$'',
     ''@@D$ATI|$'',
     ''@@D$AT&C1|$'',
     ''@@D$AT+CMGF=1|$'',
     ''@@D$AT+CNMI=2,1,0,0,0|$'',
     ''@@D$AT+CLIP=1|$'',
     ''@@0$AT+CREG?|$0$0$+CREG: 0,1$NOT USE$20$3000$100'',
     ''@@0$AT+CGSN|$+CGSN||~$1$OK$ERROR$3$3000$100'',
     ''@@0$AT+QCCID|$+QCCID||~$2$OK$ERROR$3$3000$100'',
     ''@@0$AT+COPS=0,2|$0$0$OK$NOT USE$20$3000$100'',
     ''@@G$AT+CSQ|$+CSQ:$4$OK$ERROR$1$2000$100'',
     ''@@S'']\<close>

definition ampm_AtGsmCmdStartSIM900 :: bytes where
  \<open>ampm_AtGsmCmdStartSIM900 = start_script [
     ''@@0$AT|$0$0$OK$NOT USE$3$1000$100'',
     ''@@D$ATZ|$'',
     ''@@D$ATI|$'',
     ''@@D$AT&C1|$'',
     ''@@D$AT+CMGF=1|$'',
     ''@@D$AT+CNMI=2,1,0,0,0|$'',
     ''@@D$AT+CLIP=1|$'',
     ''@@0$AT+CREG?|$0$0$+CREG: 0,1$NOT USE$20$3000$100'',
     ''@@0$AT+CGSN|$+CGSN||~$1$OK$ERROR$3$1000$100'',
     ''@@0$AT+COPS=0,2|$0$0$OK$NOT USE$20$3000$100'',
     ''@@G$AT+CSQ|$+CSQ:$4$OK$ERROR$1$2000$100'',
     ''@@S'']\<close>

definition ampm_AtGsmCmdStartUbloxG100 :: bytes where
  \<open>ampm_AtGsmCmdStartUbloxG100 = start_script [
     ''@@0$AT|$0$0$OK$NOT USE$3$1000$100'',
     ''@@D$ATZ|$'',
     ''@@D$AT&K0|$'',
     ''@@D$AT+UPSV=2|$'',
     ''@@D$AT+CMGF=1|$'',
     ''@@D$AT+CNMI=2,1,0,0,0|$'',
     ''@@D$AT+CLIP=1|$'',
     ''@@0$AT+CREG?|$0$0$+CREG: 0,1$NOT USE$20$3000$100'',
     ''@@0$AT+CGSN|$+CGSN||~$1$OK$ERROR$3$1000$100'',
     ''@@0$AT+CCID|$+CCID: $2$OK$ERROR$3$1000$100'',
     ''@@0$AT+COPS=0,2|$0$0$OK$NOT USE$20$3000$100'',
     ''@@G$AT+CSQ|$+CSQ:$4$OK$ERROR$1$2000$100'',
     ''@@S'']\<close>

section \<open>State\<close>

datatype AMPM_GSM_STARTUP_PHASE_TYPE =
  AMPM_GSM_STARTUP_INIT_PHASE | AMPM_GSM_STARTUP_TURN_ON | AMPM_GSM_STARTUP_TURN_ON1
| AMPM_GSM_STARTUP_GET_CMD_PHASE | AMPM_GSM_STARTUP_IDLE_PHASE

datatype AMPM_GSM_MODULE_TYPE =
  THIS_MODULE_NOT_SUPPORT | BG2_E | BGS2_E | BGS2_W | M95 | M26 | SIM900 | UBLOX_G100

record AMPM_GSM_AT_SATRTUP =
  su_cmdType :: u32
  su_cmd :: bytes
  su_res :: bytes
  su_callback :: "resp_fn option"
  su_ok :: bytes
  su_err :: bytes
  su_tryCnt :: u32
  su_timeout :: u32
  su_delay :: u32

text \<open>The searches for the module names in the answer to \<open>ATI\<close>.\<close>

record ati_search =
  cmp :: COMPARE_TYPE
  cmpBGS2_W :: COMPARE_TYPE
  cmpBGS2_E :: COMPARE_TYPE
  cmpBG2_E :: COMPARE_TYPE
  cmpM95 :: COMPARE_TYPE
  cmpM26 :: COMPARE_TYPE
  cmpSIM900 :: COMPARE_TYPE
  cmpUbloxG100 :: COMPARE_TYPE

record gsm_startup = gsm_dial +
  gsmSimCIDBuf :: bytes
  flagGotSimCID :: bool
  modemCIDPass :: bool
  gsmIMEIBuf :: bytes
  flagGotIMEI :: bool
  modemIMEIPass :: bool
  tAmpm_GsmStartupTaskDelay :: Timeout_Type
  ampm_AtGsmCmdStart_pt :: "bytes option"
  ampm_GSM_StartupPhase :: AMPM_GSM_STARTUP_PHASE_TYPE
  at_cmd :: AMPM_GSM_AT_SATRTUP
  ampm_gsm_baudrate_index :: u8
  gsmBaudrateSaved :: u32
  startup_tryCnt :: u32
  ampmGsmModuleType :: AMPM_GSM_MODULE_TYPE
  ati :: ati_search

section \<open>Scanning a script line\<close>

definition startup_zero :: AMPM_GSM_AT_SATRTUP where
  "startup_zero = \<lparr>su_cmdType = 0, su_cmd = replicate 64 0, su_res = replicate 32 0, su_callback = None,
     su_ok = replicate 32 0, su_err = replicate 32 0, su_tryCnt = 0, su_timeout = 0, su_delay = 0\<rparr>"

text \<open>\<open>strstr\<close> of a text that ends inside its memory: the memory from the match on.\<close>

fun strstr_from :: "bytes \<Rightarrow> bytes \<Rightarrow> bytes option option" where
  "strstr_from needle [] = None"
| "strstr_from needle (c # cs) =
     (if take (length needle) (c # cs) = needle then Some (Some (c # cs))
      else if c = 0 then Some None
      else strstr_from needle cs)"

text \<open>The values of a format of \<open>$%d\<close> and \<open>$%[^$]\<close> conversions, up to the first that fails.\<close>

datatype scan_dir = Dec | UpToDollar

datatype scan_val = ScanInt int | ScanStr bytes

fun scan_fields :: "scan_dir list \<Rightarrow> bytes \<Rightarrow> scan_val list" where
  "scan_fields [] t = []"
| "scan_fields (d # ds) t =
     (case scan_char 0x24 t of
        None \<Rightarrow> []
      | Some t \<Rightarrow>
          (case d of
             Dec \<Rightarrow> (case scan_d t of None \<Rightarrow> [] | Some (n, t) \<Rightarrow> ScanInt n # scan_fields ds t)
           | UpToDollar \<Rightarrow>
               (case scan_until (\<lambda>c. c = 0x24) t of None \<Rightarrow> [] | Some (w, t) \<Rightarrow> ScanStr w # scan_fields ds t)))"

definition store_text :: "bytes \<Rightarrow> bytes \<Rightarrow> bytes option" where
  "store_text buf w = (if length w < length buf then Some (w @ 0 # drop (Suc (length w)) buf) else None)"

definition str_field :: "scan_val list \<Rightarrow> nat \<Rightarrow> bytes \<Rightarrow> bytes option" where
  "str_field vals i buf =
     (if i < length vals then (case vals ! i of ScanStr w \<Rightarrow> store_text buf w | _ \<Rightarrow> None) else Some buf)"

definition int_field :: "scan_val list \<Rightarrow> nat \<Rightarrow> u32 \<Rightarrow> u32" where
  "int_field vals i v =
     (if i < length vals then (case vals ! i of ScanInt n \<Rightarrow> word_of_int n | _ \<Rightarrow> v) else v)"

section \<open>The startup task\<close>

definition startup_wait :: "u32 \<Rightarrow> 'z gsm_startup_scheme \<Rightarrow> 'z gsm_startup_scheme" where
  "startup_wait ms s =
     s\<lparr>tAmpm_GsmStartupTaskDelay := InitTimeout (tick s) (tAmpm_GsmStartupTaskDelay s) ms\<rparr>"

definition startup_due :: "'z gsm_startup_scheme \<Rightarrow> bool" where
  "startup_due s = (fst (CheckTimeout (tick s) (tAmpm_GsmStartupTaskDelay s)) = 0)"

definition AMPM_GSM_Startup_Init :: "'z gsm_startup_scheme \<Rightarrow> u8 \<times> 'z gsm_startup_scheme" where
  "AMPM_GSM_Startup_Init s =
     (0, startup_wait 100 (s\<lparr>gsmBaudrateSaved := 0, ampm_GSM_StartupPhase := AMPM_GSM_STARTUP_INIT_PHASE\<rparr>))"

definition startup_callback :: "u32 \<Rightarrow> resp_fn option" where
  "startup_callback n =
     (if n = 0 then None else if n = 1 then Some Fn_GSM_GetIMEI else if n = 2 then Some Fn_GSM_GetSimCID
      else if n = 3 then Some Fn_GSM_GetATI else if n = 4 then Some Fn_GsmGetCSQ else None)"

text \<open>A command with all its parameters; \<open>callback\<close> is read whether it was scanned or not.\<close>

definition scan_startup :: "bytes \<Rightarrow> AMPM_GSM_AT_SATRTUP \<Rightarrow> AMPM_GSM_AT_SATRTUP option" where
  "scan_startup t a = (
     let vals = scan_fields [UpToDollar, UpToDollar, Dec, UpToDollar, UpToDollar, Dec, Dec, Dec] (cstr t)
     in do {
       cmd \<leftarrow> str_field vals 0 (su_cmd a);
       res \<leftarrow> str_field vals 1 (su_res a);
       callback \<leftarrow> (if 2 < length vals then Some (int_field vals 2 0) else None);
       ok \<leftarrow> str_field vals 3 (su_ok a);
       err \<leftarrow> str_field vals 4 (su_err a);
       let a = a\<lparr>su_cmd := cmd, su_res := res, su_ok := ok, su_err := err, su_tryCnt := int_field vals 5 (su_tryCnt a),
             su_timeout := int_field vals 6 (su_timeout a), su_delay := int_field vals 7 (su_delay a)\<rparr>;
       let a = (if su_delay a = 0 then a\<lparr>su_delay := 300\<rparr> else a);
       let a = (if su_timeout a = 0 then a\<lparr>su_timeout := 1000\<rparr> else a);
       Some (a\<lparr>su_callback := startup_callback callback\<rparr>)
     })"

definition startup_command :: "bytes \<Rightarrow> 'z gsm_startup_scheme \<Rightarrow> 'z gsm_startup_scheme option" where
  "startup_command t s = do {
     a \<leftarrow> scan_startup t (at_cmd s);
     (r, s) \<leftarrow> Ampm_CmdTask_SendCmd (su_callback a) (Some (su_res a)) (su_delay a) (su_ok a) (su_err a)
                 (su_timeout a) (ucast (su_tryCnt a)) (Some (su_cmd a)) (s\<lparr>at_cmd := a\<rparr>);
     Some (if su_cmdType a = 0x47 then s\<lparr>CmdSend := (CmdSend s)\<lparr>end_data_callback := Some Fn_SetCmdOK\<rparr>\<rparr> else s)
   }"

text \<open>A default command; its success is not checked when \<open>force\<close>.\<close>

definition startup_default :: "bool \<Rightarrow> u8 \<Rightarrow> bytes \<Rightarrow> 'z gsm_startup_scheme \<Rightarrow> 'z gsm_startup_scheme option" where
  "startup_default force tries t s = do {
     cmd \<leftarrow> str_field (scan_fields [UpToDollar] (cstr t)) 0 (su_cmd (at_cmd s));
     (r, s) \<leftarrow> Ampm_CmdTask_SendCmd None None 100 (lit ''OK'') (lit ''ERROR'') 1000 tries (Some cmd)
                 (s\<lparr>at_cmd := (at_cmd s)\<lparr>su_cmd := cmd\<rparr>\<rparr>);
     Some (if force then s\<lparr>CmdSend := (CmdSend s)\<lparr>end_data_callback := Some Fn_SetCmdOK\<rparr>\<rparr> else s)
   }"

definition startup_entry :: "u8 \<Rightarrow> bytes \<Rightarrow> 'z gsm_startup_scheme \<Rightarrow> 'z gsm_startup_scheme option" where
  "startup_entry c t s =
     (if c = 0x30 \<or> c = 0x47 then startup_command t s
      else if c = 0x31 then Some (emits [PowerClr] s)
      else if c = 0x32 then Some (emits [PowerSet] s)
      else if c = 0x33 then
        (let d = int_field (scan_fields [Dec] (cstr t)) 0 (su_delay (at_cmd s));
             d = (if d \<ge> 10000 then 10000 else d)
         in Some (startup_wait d (s\<lparr>at_cmd := (at_cmd s)\<lparr>su_delay := d\<rparr>\<rparr>)))
      else if c = 0x34 then Some (emits [ResetClr] s)
      else if c = 0x35 then Some (emits [ResetSet] s)
      else if c = 0x44 then startup_default False 3 t s
      else if c = 0x46 then startup_default True 1 t s
      else if c = 0x53 then Some (s\<lparr>startup_tryCnt := 0, ampm_GSM_StartupPhase := AMPM_GSM_STARTUP_IDLE_PHASE\<rparr>)
      else Some (s\<lparr>ampm_GSM_StartupPhase := AMPM_GSM_STARTUP_INIT_PHASE\<rparr>))"

text \<open>The next line of the script.  The code tests the result of \<open>strstr\<close> for NULL only
  after it has read through it.\<close>

definition startup_next :: "'z gsm_startup_scheme \<Rightarrow> 'z gsm_startup_scheme option" where
  "startup_next s = do {
     pt \<leftarrow> ampm_AtGsmCmdStart_pt s;
     q \<leftarrow> strstr_from [0x40, 0x40] pt;
     q \<leftarrow> q;
     c \<leftarrow> rd q 2;
     let s = startup_wait 1 (s\<lparr>at_cmd := startup_zero\<lparr>su_cmdType := ucast c\<rparr>, ampm_AtGsmCmdStart_pt := Some (drop 3 q)\<rparr>);
     startup_entry c (drop 3 q) s
   }"

definition AMPM_GSM_Startup :: "bytes \<Rightarrow> 'z gsm_startup_scheme \<Rightarrow> (bool \<times> 'z gsm_startup_scheme) option" where
  "AMPM_GSM_Startup cmdList s = (case ampm_GSM_StartupPhase s of
     AMPM_GSM_STARTUP_INIT_PHASE \<Rightarrow>
       (let s = emits [UartInit 115200] (s\<lparr>startup_tryCnt := startup_tryCnt s + 1\<rparr>);
            s = (if startup_tryCnt s \<ge> 2 then startup_wait 10000 (emits [MosfetOff] (s\<lparr>startup_tryCnt := 0\<rparr>))
                 else startup_wait 3000 s)
        in Some (False, s\<lparr>ampm_GSM_StartupPhase := AMPM_GSM_STARTUP_TURN_ON\<rparr>))
   | AMPM_GSM_STARTUP_TURN_ON \<Rightarrow>
       Some (False, if startup_due s then
          (startup_wait 1000 (emits [MosfetOn, DtrClr, ResetSet, PowerSet] s))
            \<lparr>ampm_GSM_StartupPhase := AMPM_GSM_STARTUP_TURN_ON1\<rparr>
        else s)
   | AMPM_GSM_STARTUP_TURN_ON1 \<Rightarrow>
       Some (False, if startup_due s then
          (startup_wait 1 ((emits [PowerSet] s)\<lparr>ampm_GSM_StartupPhase := AMPM_GSM_STARTUP_GET_CMD_PHASE,
             ampm_AtGsmCmdStart_pt := Some cmdList\<rparr>))\<lparr>CmdPhase := AMPM_CMD_OK\<rparr>
        else s)
   | AMPM_GSM_STARTUP_GET_CMD_PHASE \<Rightarrow>
       (if startup_due s then
          (if CmdPhase s = AMPM_CMD_OK then do { s \<leftarrow> startup_next s; Some (False, s) }
           else if CmdPhase s = AMPM_CMD_ERROR then
             Some (False, startup_wait 5000 (s\<lparr>ampm_gsm_baudrate_index := ampm_gsm_baudrate_index s + 1,
               ampm_GSM_StartupPhase := AMPM_GSM_STARTUP_INIT_PHASE\<rparr>))
           else Some (False, s))
        else Some (False, s))
   | AMPM_GSM_STARTUP_IDLE_PHASE \<Rightarrow> Some (True, s\<lparr>modemIMEIPass := False, modemCIDPass := False\<rparr>))"

section \<open>Response callbacks\<close>

definition Ampm_GSM_GetIMEI :: "u16 \<Rightarrow> u8 \<Rightarrow> 'z gsm_startup_scheme \<Rightarrow> (u32 \<times> 'z gsm_startup_scheme) option" where
  "Ampm_GSM_GetIMEI cnt c s =
     (if cnt \<ge> 18 then Some (0, s)
      else if c \<ge> 0x30 \<and> c \<le> 0x39 then do {
        b \<leftarrow> wr (gsmIMEIBuf s) (unat cnt) c;
        Some (0xff, s\<lparr>gsmIMEIBuf := b\<rparr>)
      }
      else Some (0, s\<lparr>flagGotIMEI := True, modemIMEIPass := True\<rparr>))"

definition Ampm_GSM_GetSimCID :: "u16 \<Rightarrow> u8 \<Rightarrow> 'z gsm_startup_scheme \<Rightarrow> (u32 \<times> 'z gsm_startup_scheme) option" where
  "Ampm_GSM_GetSimCID cnt c s =
     (if cnt \<ge> 30 then Some (0, s)
      else if c \<ge> 0x30 then do {
        b \<leftarrow> wr (gsmSimCIDBuf s) (unat cnt) c;
        Some (0xff, s\<lparr>gsmSimCIDBuf := b\<rparr>)
      }
      else Some (0, s\<lparr>flagGotSimCID := True, modemCIDPass := True\<rparr>))"

definition ati_init :: "ati_search \<Rightarrow> ati_search option" where
  "ati_init a = do {
     c0 \<leftarrow> InitFindData (cmp a) (cr_text ''|~OK'');
     c1 \<leftarrow> InitFindData (cmpBGS2_W a) (lit ''BGS2-W'');
     c2 \<leftarrow> InitFindData (cmpBGS2_E a) (lit ''BGS2-E'');
     c3 \<leftarrow> InitFindData (cmpBG2_E a) (lit ''BG2-E'');
     c4 \<leftarrow> InitFindData (cmpM95 a) (lit ''M95'');
     c5 \<leftarrow> InitFindData (cmpM26 a) (lit ''M26'');
     c6 \<leftarrow> InitFindData (cmpSIM900 a) (lit ''SIM900'');
     c7 \<leftarrow> InitFindData (cmpUbloxG100 a) (lit ''G100'');
     Some (a\<lparr>cmp := c0, cmpBGS2_W := c1, cmpBGS2_E := c2, cmpBG2_E := c3, cmpM95 := c4, cmpM26 := c5,
             cmpSIM900 := c6, cmpUbloxG100 := c7\<rparr>)
   }"

text \<open>The searches in the order the code makes them; the first that succeeds ends the round.\<close>

datatype ati_result = AtiMore | AtiEnd | AtiModule AMPM_GSM_MODULE_TYPE

definition ati_byte :: "u16 \<Rightarrow> u8 \<Rightarrow> ati_search \<Rightarrow> (ati_result \<times> ati_search) option" where
  "ati_byte cnt c a = do {
     (r, k) \<leftarrow> FindData (cmp a) c;
     let a = a\<lparr>cmp := k\<rparr>;
     if r = 0 \<or> cnt \<ge> 45 then Some (AtiEnd, a) else do {
     (r, k) \<leftarrow> FindData (cmpBGS2_W a) c;
     let a = a\<lparr>cmpBGS2_W := k\<rparr>;
     if r = 0 then Some (AtiModule BGS2_W, a) else do {
     (r, k) \<leftarrow> FindData (cmpBGS2_E a) c;
     let a = a\<lparr>cmpBGS2_E := k\<rparr>;
     if r = 0 then Some (AtiModule BGS2_E, a) else do {
     (r, k) \<leftarrow> FindData (cmpBG2_E a) c;
     let a = a\<lparr>cmpBG2_E := k\<rparr>;
     if r = 0 then Some (AtiModule BG2_E, a) else do {
     (r, k) \<leftarrow> FindData (cmpM95 a) c;
     let a = a\<lparr>cmpM95 := k\<rparr>;
     if r = 0 then Some (AtiModule M95, a) else do {
     (r, k) \<leftarrow> FindData (cmpM26 a) c;
     let a = a\<lparr>cmpM26 := k\<rparr>;
     if r = 0 then Some (AtiModule M26, a) else do {
     (r, k) \<leftarrow> FindData (cmpSIM900 a) c;
     let a = a\<lparr>cmpSIM900 := k\<rparr>;
     if r = 0 then Some (AtiModule SIM900, a) else do {
     (r, k) \<leftarrow> FindData (cmpUbloxG100 a) c;
     let a = a\<lparr>cmpUbloxG100 := k\<rparr>;
     if r = 0 then Some (AtiModule UBLOX_G100, a) else Some (AtiMore, a) }}}}}}}
   }"

definition module_script :: "AMPM_GSM_MODULE_TYPE \<Rightarrow> bytes" where
  "module_script m = (case m of
     BGS2_W \<Rightarrow> ampm_AtGsmCmdStartBGS2_W | BGS2_E \<Rightarrow> ampm_AtGsmCmdStartBGS2_E | BG2_E \<Rightarrow> ampm_AtGsmCmdStartBG2_E
   | M95 \<Rightarrow> ampm_AtGsmCmdStartM95 | M26 \<Rightarrow> ampm_AtGsmCmdStartM26 | SIM900 \<Rightarrow> ampm_AtGsmCmdStartSIM900
   | UBLOX_G100 \<Rightarrow> ampm_AtGsmCmdStartUbloxG100 | THIS_MODULE_NOT_SUPPORT \<Rightarrow> ampm_AtGsmCmdStart)"

definition Ampm_GSM_GetATI :: "u16 \<Rightarrow> u8 \<Rightarrow> 'z gsm_startup_scheme \<Rightarrow> (u32 \<times> 'z gsm_startup_scheme) option" where
  "Ampm_GSM_GetATI cnt c s = do {
     a \<leftarrow> (if cnt = 0 then ati_init (ati s) else Some (ati s));
     (r, a) \<leftarrow> ati_byte cnt c a;
     let s = s\<lparr>ati := a\<rparr>;
     case r of
       AtiMore \<Rightarrow> Some (0xff, s)
     | AtiEnd \<Rightarrow> Some (0, s)
     | AtiModule m \<Rightarrow> Some (0, s\<lparr>ampm_AtGsmCmdStart_pt := Some (module_script m), ampmGsmModuleType := m\<rparr>)
   }"


section \<open>The scripts are complete\<close>

definition plain_format :: "bytes \<Rightarrow> bool" where
  "plain_format m = (0 \<in> set m \<and> 0x25 \<notin> set (cstr m) \<and> cstr m \<noteq> [] \<and> length (cstr m) < 256)"

definition entry_ok :: "u8 \<Rightarrow> bytes \<Rightarrow> bool" where
  "entry_ok c t =
     (if c = 0x30 \<or> c = 0x47 then
        (case scan_startup t (startup_zero\<lparr>su_cmdType := ucast c\<rparr>) of None \<Rightarrow> False | Some a \<Rightarrow> plain_format (su_cmd a))
      else if c = 0x44 \<or> c = 0x46 then
        (case str_field (scan_fields [UpToDollar] (cstr t)) 0 (replicate 64 0) of None \<Rightarrow> False | Some m \<Rightarrow> plain_format m)
      else c \<in> {0x31, 0x32, 0x33, 0x34, 0x35})"

text \<open>A script of fewer than \<open>n\<close> lines, all of which can be carried out, that ends in \<open>S\<close>.\<close>

fun script_ok :: "nat \<Rightarrow> bytes \<Rightarrow> bool" where
  "script_ok 0 pt = False"
| "script_ok (Suc n) pt =
     (case strstr_from [0x40, 0x40] pt of
        Some (Some q) \<Rightarrow> 3 \<le> length q \<and> (q ! 2 = 0x53 \<or> entry_ok (q ! 2) (drop 3 q) \<and> script_ok n (drop 3 q))
      | _ \<Rightarrow> False)"

definition startup_scripts :: "bytes list" where
  "startup_scripts = [ampm_AtGsmCmdStart, ampm_AtGsmCmdStartBGS2_W, ampm_AtGsmCmdStartBGS2_E, ampm_AtGsmCmdStartBG2_E,
     ampm_AtGsmCmdStartM95, ampm_AtGsmCmdStartM26, ampm_AtGsmCmdStartSIM900, ampm_AtGsmCmdStartUbloxG100]"

end
