(* ===== verification/GsmBoot.thy ===== *)
theory GsmBoot
  imports GsmStartup
begin

text \<open>
  The library's memory at power-on, where C has set every variable without an initialiser to
  zero, instances of the theorems on the AT channel in that state, and the proof that every
  startup script the firmware ships runs to its end.
\<close>

section \<open>Memory at power-on\<close>

definition zero_timeout :: Timeout_Type where
  "zero_timeout = \<lparr>to_start = 0, to_timeout = 0, to_crc = 0\<rparr>"

definition zero_cmp :: COMPARE_TYPE where
  "zero_cmp = \<lparr>cd_c = 0, cd_buff = [], cd_index = 0, cd_len = 0\<rparr>"

definition zero_packet :: AT_PACKET where
  "zero_packet = \<lparr>command = CNull, at_sprintf = None, response = None, at_callback = None, resOk = [], resFails = []\<rparr>"

definition zero_cmd :: gsm_cmd where
  "zero_cmd = \<lparr>cmd_next = None, appStruct = None, send_data_callback = None, recv_data_callback = None,
     end_data_callback = None, retryNum = 0, cmd_timeout = 0, cmd_delay = 0\<rparr>"

definition zero_parser :: STR_PARSER where
  "zero_parser = \<lparr>st_state = STR_NEW_STATE, dataRecvLength = 0, dataRecvMaxLength = 0, strParserCntMax = 0,
     strInProcess = 0, st_timeout = 0, timeoutSet = 0\<rparr>"

definition startup_boot :: gsm_startup where
  "startup_boot = \<lparr>CmdPhase = AMPM_CMD_SEND, CmdSend = zero_cmd, CmdList = [], TaskTimeout = zero_timeout, tick = 0,
     rx = [], outs = [], AtCmd = None, GprsApn = lit ''internet'', CommonAppStruct = zero_packet,
     AtCmdBuf = replicate 256 0, CmdOk = zero_cmp, CmdFails = zero_cmp, AtCallBackParser = zero_parser,
     CmdParsedChar = [0], AtProcessCmd = [], parserLastChar = 0, gotoCmdModeFlag = False, gotoDataModeFlag = False,
     csqBuff = replicate 16 0, csqValue = 0, gsmSignal = 0, ampm_ModemResetFlag = False,
     ampm_MissCall = False, ampm_NewSmsFlag = False, ampm_RingingFlagTimes = 0, ampm_RingingFlag = 0,
     ampm_RingingTime = 0, ampm_RingingPauseTime = 0, ampm_RingingPhase = AMPM_GSM_RING_IDLE_PHASE,
     dialupTryCnt = 0, ampmGsmDialupPhase = AMPM_GSM_DIALUP_START_PHASE,
     gsmSimCIDBuf = replicate 32 0, flagGotSimCID = False, modemCIDPass = False,
     gsmIMEIBuf = replicate 18 0, flagGotIMEI = False, modemIMEIPass = False,
     tAmpm_GsmStartupTaskDelay = zero_timeout, ampm_AtGsmCmdStart_pt = None,
     ampm_GSM_StartupPhase = AMPM_GSM_STARTUP_INIT_PHASE, at_cmd = startup_zero, ampm_gsm_baudrate_index = 0,
     gsmBaudrateSaved = 0, startup_tryCnt = 0, ampmGsmModuleType = THIS_MODULE_NOT_SUPPORT,
     ati = \<lparr>cmp = zero_cmp, cmpBGS2_W = zero_cmp, cmpBGS2_E = zero_cmp, cmpBG2_E = zero_cmp, cmpM95 = zero_cmp,
       cmpM26 = zero_cmp, cmpSIM900 = zero_cmp, cmpUbloxG100 = zero_cmp\<rparr>\<rparr>"

section \<open>Instances of the theorems on the command channel\<close>

text \<open>\<open>AT\<close> started at tick 0 and left unanswered: 2 * (100 + 1000 + 1) + 1 polls.\<close>

definition at_state :: gsm_startup where
  "at_state = Ampm_SendCmdNow ampmCmdProcess_AT startup_boot"

lemma AT_command_gives_up_witness:
  "\<exists>s'. poll_ticks (Ampm_Cmd_Task (\<lambda>k. ampmCmdProcess_AT) (\<lambda>f. Ampm_GsmSendCallback (\<lambda>f b s. None))
      (\<lambda>f. Ampm_GsmRecvCallback (\<lambda>f n c s. None)) (\<lambda>f p s. None)) 0
      (give_up (unat (retryNum ampmCmdProcess_AT)) (unat (cmd_delay ampmCmdProcess_AT))
         (unat (cmd_timeout ampmCmdProcess_AT))) at_state = Some s'
    \<and> CmdPhase s' = AMPM_CMD_ERROR
    \<and> outs s' = outs at_state @ concat (replicate (Suc (unat (retryNum ampmCmdProcess_AT)))
        (map Tx (cstr (cr_text ''AT|''))))"
  by (rule AT_command_gives_up [where p = ampmAtCmd_AT and ?t0.0 = zero_timeout])
    (simp_all add: at_state_def ampmCmdProcess_AT_def cmd_process_def ampmAtCmd_AT_def at_plain_def startup_boot_def
      give_up_def cr_text_def lit_def Ampm_SendCmdNow_def start_timeout_def Let_def)

text \<open>The answer to \<open>AT\<close> after an echo and a line end.\<close>

definition answered_state :: gsm_startup where
  "answered_state = startup_boot\<lparr>CmdPhase := AMPM_CMD_WAIT, CmdSend := ampmCmdProcess_AT, AtCmd := Some (RomPacket ampmAtCmd_AT),
     TaskTimeout := \<lparr>to_start = 5, to_timeout = 1000, to_crc = 1005\<rparr>, tick := 7,
     CmdOk := \<lparr>cd_c = 0, cd_buff = [0x4F, 0x4B, 0], cd_index = 0, cd_len = 2\<rparr>,
     CmdFails := \<lparr>cd_c = 0, cd_buff = [0x45, 0x52, 0x52, 0x4F, 0x52, 0], cd_index = 0, cd_len = 5\<rparr>,
     rx := [0x41, 0x54, 0x0D, 0x0A, 0x4F, 0x4B, 0x0D, 0x0A]\<rparr>"

lemma AT_command_answered_witness:
  "\<exists>s'. Ampm_Cmd_Task (\<lambda>k. ampmCmdProcess_AT) (\<lambda>f s. None)
      (\<lambda>f. Ampm_GsmRecvCallback (\<lambda>f n c s. None)) (\<lambda>f p s. None) answered_state = Some s'
    \<and> CmdPhase s' = AMPM_CMD_DELAY \<and> rx s' = [0x0D, 0x0A] \<and> CmdSend s' = CmdSend answered_state
    \<and> running 7 (unat (cmd_delay (CmdSend answered_state))) s'"
  by (rule AT_command_answered [where p = ampmAtCmd_AT and t = 5 and ms = 1000 and ok_text = "[0x4F, 0x4B]"
        and err_text = "[0x45, 0x52, 0x52, 0x4F, 0x52]" and junk = "[0x41, 0x54, 0x0D, 0x0A]"])
    (simp_all add: answered_state_def running_def startup_boot_def ampmCmdProcess_AT_def cmd_process_def
      AtCmd_packet_def packet_of_def ampmAtCmd_AT_def at_plain_def searching_def)

lemma Ampm_GsmGetCSQ_line_witness:
  "(\<exists>s'. csq_calls 0 (([0x20] @ [0x32, 0x31] @ [0x2C, 0x39, 0x39]) @ [0x0D]) startup_boot
        = Some (replicate (length ([0x20] @ [0x32, 0x31] @ [0x2C, 0x39, 0x39 :: u8])) 0xff @ [0], s')
      \<and> uint (csqValue s') = number_of_digits [0x32, 0x31] \<and> gsmSignal s' = signal_bars (csqValue s'))
    \<and> csq_calls 0 (replicate 16 0x31 @ [0x31]) startup_boot = None"
  by (rule Ampm_GsmGetCSQ_line)
    (simp_all add: startup_boot_def is_space_def IsDigit_def number_of_digits_def)


lemma Ampm_GSM_DialUp_gives_up_witness:
  "ampmGsmDialupPhase ((failed_dialup ^^ 3) (startup_boot\<lparr>CmdPhase := AMPM_CMD_OK\<rparr>)) = AMPM_GSM_DIALUP_START_PHASE
    \<and> ampm_ModemResetFlag ((failed_dialup ^^ 3) (startup_boot\<lparr>CmdPhase := AMPM_CMD_OK\<rparr>)) = ampm_ModemResetFlag (startup_boot\<lparr>CmdPhase := AMPM_CMD_OK\<rparr>)
    \<and> ampmGsmDialupPhase ((failed_dialup ^^ 6) (startup_boot\<lparr>CmdPhase := AMPM_CMD_OK\<rparr>)) = AMPM_GSM_DIALUP_FAIL
    \<and> ampm_ModemResetFlag ((failed_dialup ^^ 6) (startup_boot\<lparr>CmdPhase := AMPM_CMD_OK\<rparr>))
    \<and> dialupTryCnt ((failed_dialup ^^ 6) (startup_boot\<lparr>CmdPhase := AMPM_CMD_OK\<rparr>)) = 0"
  by (rule Ampm_GSM_DialUp_gives_up) (simp_all add: startup_boot_def Ampm_CmdTask_IsIdle_def)

end
