(* ===== verification/GsmScripts.thy ===== *)
theory GsmScripts
  imports GsmBoot
begin

text \<open>
  Every startup script of the firmware runs to its end when the modem accepts its commands.
  \<open>script_ok\<close> checks a script line by line, evaluation shows that the eight scripts pass,
  and a script that passes is carried out by the startup task.
\<close>

section \<open>A script that passes is carried out\<close>

lemma plain_pieces:
  "0 \<notin> set t \<Longrightarrow> 0x25 \<notin> set t \<Longrightarrow> list_all piece_ok (map Char t)
     \<and> render_all (map Char t) args = Some (t, int (length t)) \<and> concat (map written (map Char t)) = t"
  by (induction t) (auto simp: piece_ok_def render_def written_def)

lemma ampm_vsprintf_plain:
  assumes "plain_format m" "length buf = 256"
  shows "\<exists>n buf'. ampm_vsprintf buf m args = Some (n, buf') \<and> length buf' = 256
    \<and> cstr buf' = cstr m \<and> 0 \<in> set buf'"
proof -
  let ?t = "cstr m"
  have z: "0 \<notin> set ?t" "0x25 \<notin> set ?t" "?t \<noteq> []" "length ?t < 256" "0 \<in> set m"
    using assms(1) by (auto simp: plain_format_def)
  obtain r where r: "m = ?t @ 0 # r" using cstr_split [OF z(5)] by blast
  note p = plain_pieces [OF z(1,2), of args]
  have "room (length ?t) (buf, 0)" using z(4) assms(2) by (simp add: room_def)
  from vsprintf_loop_emit [OF conjunct1 [OF p] conjunct1 [OF conjunct2 [OF p]] this, of 0 m "[]" r 0]
  have "ampm_vsprintf_loop m 0 args 0 0 (buf, 0) = Some (int (length ?t), emit ?t (buf, 0))"
    using p r by (simp add: nonneg_not_EOF)
  moreover have "fst (emit ?t (buf, 0)) = ?t @ 0 # drop (Suc (length ?t)) buf"
    using emit_closed [OF z(3), of 0 buf] z(4) assms(2) by simp
  ultimately have "ampm_vsprintf buf m args = Some (int (length ?t), ?t @ 0 # drop (Suc (length ?t)) buf)"
    by (simp add: ampm_vsprintf_def)
  then show ?thesis using z assms(2) by simp
qed

text \<open>The task's delay as \<open>startup_wait\<close> leaves it, for at most 10000 ticks.\<close>

definition armed :: "'z gsm_startup_scheme \<Rightarrow> bool" where
  "armed s \<longleftrightarrow> (\<exists>d \<le> 10000. tAmpm_GsmStartupTaskDelay s = \<lparr>to_start = tick s, to_timeout = d, to_crc = tick s + d\<rparr>)"

lemma startup_wait_armed: "d \<le> 10000 \<Longrightarrow> armed (startup_wait d s)"
  by (auto simp: armed_def startup_wait_def InitTimeout_def Let_def)

lemma elapsed_10001: "10000 \<le> elapsed t (t + 10001)"
  by (simp add: elapsed_def)

lemma armed_due: "armed s \<Longrightarrow> startup_due (s\<lparr>CmdPhase := p, tick := tick s + 10001\<rparr>)"
  using elapsed_10001 [of "tick s"]
  by (auto simp: armed_def startup_due_def CheckTimeout_def Let_def intro: order.trans)

text \<open>The startup task 10001 ticks after its last step, the modem having answered OK.\<close>

definition startup_round :: "'z gsm_startup_scheme \<Rightarrow> 'z gsm_startup_scheme option" where
  "startup_round s = map_option snd (AMPM_GSM_Startup [] (s\<lparr>CmdPhase := AMPM_CMD_OK, tick := tick s + 10001\<rparr>))"

fun startup_rounds :: "nat \<Rightarrow> 'z gsm_startup_scheme \<Rightarrow> 'z gsm_startup_scheme option" where
  "startup_rounds 0 s = Some s"
| "startup_rounds (Suc n) s = do { s \<leftarrow> startup_round s; startup_rounds n s }"

definition at_script :: "bytes \<Rightarrow> 'z gsm_startup_scheme \<Rightarrow> bool" where
  "at_script pt s \<longleftrightarrow> ampm_GSM_StartupPhase s = AMPM_GSM_STARTUP_GET_CMD_PHASE
     \<and> ampm_AtGsmCmdStart_pt s = Some pt \<and> length (AtCmdBuf s) = 256 \<and> armed s"

lemma send_cmd_ready:
  assumes "CmdPhase s = AMPM_CMD_OK" "length (AtCmdBuf s) = 256" "plain_format m"
  shows "\<exists>r s'. Ampm_CmdTask_SendCmd cb res dl ok er tm n (Some m) s = Some (r, s')
    \<and> length (AtCmdBuf s') = 256 \<and> ampm_GSM_StartupPhase s' = ampm_GSM_StartupPhase s
    \<and> ampm_AtGsmCmdStart_pt s' = ampm_AtGsmCmdStart_pt s \<and> tick s' = tick s
    \<and> tAmpm_GsmStartupTaskDelay s' = tAmpm_GsmStartupTaskDelay s"
proof -
  obtain k buf where "ampm_vsprintf (AtCmdBuf s) m [] = Some (k, buf)" "length buf = 256"
    using ampm_vsprintf_plain [OF assms(3,2)] by blast
  then show ?thesis using assms(1)
    by (auto simp: Ampm_CmdTask_SendCmd_def Ampm_CmdTask_IsIdle_def emits_def start_timeout_def Let_def)
qed

lemma at_script_send:
  assumes "at_script pt s" "CmdPhase s = AMPM_CMD_OK" "plain_format m"
  shows "\<exists>r s'. Ampm_CmdTask_SendCmd cb res dl ok er tm n (Some m) (s\<lparr>at_cmd := a\<rparr>) = Some (r, s')
    \<and> at_script pt s' \<and> (\<forall>cm. at_script pt (s'\<lparr>CmdSend := cm\<rparr>))"
  using send_cmd_ready [of "s\<lparr>at_cmd := a\<rparr>" m cb res dl ok er tm n] assms
  by (auto simp: at_script_def armed_def)

lemma at_script_wait: "at_script pt s \<Longrightarrow> d \<le> 10000 \<Longrightarrow> at_script pt (startup_wait d (s\<lparr>at_cmd := a\<rparr>))"
  by (auto simp: at_script_def armed_def startup_wait_def InitTimeout_def Let_def)

lemma startup_entry_runs:
  assumes "at_script pt s" "CmdPhase s = AMPM_CMD_OK" "at_cmd s = startup_zero\<lparr>su_cmdType := ucast c\<rparr>"
    and "entry_ok c t"
  shows "\<exists>s'. startup_entry c t s = Some s' \<and> at_script pt s'"
proof -
  consider "c = 0x30 \<or> c = 0x47" | "c = 0x44 \<or> c = 0x46" | "c \<in> {0x31, 0x32, 0x34, 0x35}" | "c = 0x33"
    using assms(4) by (auto simp: entry_ok_def split: if_splits)
  then show ?thesis
  proof cases
    case 1
    then obtain a where a: "scan_startup t (at_cmd s) = Some a" "plain_format (su_cmd a)"
      using assms(3,4) by (auto simp: entry_ok_def split: option.splits if_splits)
    from at_script_send [OF assms(1,2) a(2), of "su_callback a" "Some (su_res a)" "su_delay a" "su_ok a" "su_err a"
        "su_timeout a" "ucast (su_tryCnt a)" a]
    obtain r s1 where "Ampm_CmdTask_SendCmd (su_callback a) (Some (su_res a)) (su_delay a) (su_ok a) (su_err a)
        (su_timeout a) (ucast (su_tryCnt a)) (Some (su_cmd a)) (s\<lparr>at_cmd := a\<rparr>) = Some (r, s1)"
        "at_script pt s1" "\<forall>cm. at_script pt (s1\<lparr>CmdSend := cm\<rparr>)" by blast
    then show ?thesis using 1 a(1) by (auto simp: startup_entry_def startup_command_def)
  next
    case 2
    have "su_cmd (at_cmd s) = replicate 64 0" by (simp add: assms(3) startup_zero_def)
    then obtain m where m: "str_field (scan_fields [UpToDollar] (cstr t)) 0 (su_cmd (at_cmd s)) = Some m" "plain_format m"
      using assms(4) 2 by (auto simp: entry_ok_def split: option.splits if_splits)
    have "\<exists>s'. startup_default force tries t s = Some s' \<and> at_script pt s'" for force tries
    proof -
      let ?s = "s\<lparr>at_cmd := (at_cmd s)\<lparr>su_cmd := m\<rparr>\<rparr>"
      obtain r s1 where "Ampm_CmdTask_SendCmd None None 100 (lit ''OK'') (lit ''ERROR'') 1000 tries (Some m) ?s = Some (r, s1)"
          "at_script pt s1" "\<forall>cm. at_script pt (s1\<lparr>CmdSend := cm\<rparr>)"
        using at_script_send [OF assms(1,2) m(2)] by blast
      then show ?thesis using m(1) by (auto simp: startup_default_def)
    qed
    then show ?thesis using 2 by (auto simp: startup_entry_def)
  next
    case 3
    then show ?thesis using assms(1) by (auto simp: startup_entry_def at_script_def armed_def emits_def)
  next
    case 4
    then show ?thesis using assms(1)
      by (auto simp: startup_entry_def Let_def simp del: scan_fields.simps intro!: at_script_wait)
  qed
qed

lemma startup_next_runs:
  assumes "at_script pt s" "strstr_from [0x40, 0x40] pt = Some (Some q)" "3 \<le> length q"
    and "entry_ok (q ! 2) (drop 3 q)"
  shows "\<exists>s'. startup_round s = Some s' \<and> at_script (drop 3 q) s'"
proof -
  let ?s = "s\<lparr>CmdPhase := AMPM_CMD_OK, tick := tick s + 10001\<rparr>"
  let ?s1 = "startup_wait 1 (?s\<lparr>at_cmd := startup_zero\<lparr>su_cmdType := ucast (q ! 2)\<rparr>,
    ampm_AtGsmCmdStart_pt := Some (drop 3 q)\<rparr>)"
  have "armed ?s1" by (rule startup_wait_armed) simp
  then have "at_script (drop 3 q) ?s1" "CmdPhase ?s1 = AMPM_CMD_OK"
      "at_cmd ?s1 = startup_zero\<lparr>su_cmdType := ucast (q ! 2)\<rparr>"
    using assms(1) by (simp_all add: at_script_def startup_wait_def)
  from startup_entry_runs [OF this assms(4)] obtain s' where
    "startup_entry (q ! 2) (drop 3 q) ?s1 = Some s'" "at_script (drop 3 q) s'" by blast
  moreover have "startup_due ?s" by (rule armed_due) (use assms(1) in \<open>simp add: at_script_def\<close>)
  ultimately show ?thesis using assms(1-3)
    by (simp add: startup_round_def AMPM_GSM_Startup_def startup_next_def at_script_def)
qed

lemma startup_next_ends:
  assumes "at_script pt s" "strstr_from [0x40, 0x40] pt = Some (Some q)" "3 \<le> length q" "q ! 2 = 0x53"
  shows "\<exists>s'. startup_round s = Some s' \<and> ampm_GSM_StartupPhase s' = AMPM_GSM_STARTUP_IDLE_PHASE"
proof -
  let ?s = "s\<lparr>CmdPhase := AMPM_CMD_OK, tick := tick s + 10001\<rparr>"
  have "startup_due ?s" by (rule armed_due) (use assms(1) in \<open>simp add: at_script_def\<close>)
  then show ?thesis using assms
    by (simp add: startup_round_def AMPM_GSM_Startup_def startup_next_def at_script_def startup_entry_def)
qed

lemma script_ok_runs:
  "script_ok n pt \<Longrightarrow> at_script pt s \<Longrightarrow>
   \<exists>k \<le> n. \<exists>s'. startup_rounds k s = Some s' \<and> ampm_GSM_StartupPhase s' = AMPM_GSM_STARTUP_IDLE_PHASE"
proof (induction n pt arbitrary: s rule: script_ok.induct)
  case (2 n pt)
  obtain q where q: "strstr_from [0x40, 0x40] pt = Some (Some q)" "3 \<le> length q"
      "q ! 2 = 0x53 \<or> entry_ok (q ! 2) (drop 3 q) \<and> script_ok n (drop 3 q)"
    using "2.prems"(1) by (auto split: option.splits)
  show ?case
  proof (cases "q ! 2 = 0x53")
    case True
    from startup_next_ends [OF "2.prems"(2) q(1,2) this] show ?thesis
      by (intro exI [of _ "Suc 0"]) auto
  next
    case False
    with q(3) have ok: "entry_ok (q ! 2) (drop 3 q)" "script_ok n (drop 3 q)" by auto
    from startup_next_runs [OF "2.prems"(2) q(1,2) ok(1)] obtain s1 where
      s1: "startup_round s = Some s1" "at_script (drop 3 q) s1" by blast
    have "\<exists>k \<le> n. \<exists>s'. startup_rounds k s1 = Some s' \<and> ampm_GSM_StartupPhase s' = AMPM_GSM_STARTUP_IDLE_PHASE"
      using "2.IH" [OF q(1) refl ok(2) s1(2)] by blast
    then obtain k s' where "k \<le> n" "startup_rounds k s1 = Some s'" "ampm_GSM_StartupPhase s' = AMPM_GSM_STARTUP_IDLE_PHASE"
      by blast
    then show ?thesis using s1(1) by (intro exI [of _ "Suc k"]) auto
  qed
qed simp

section \<open>The scripts pass\<close>

lemma script_ok_default: "script_ok 40 ampm_AtGsmCmdStart"
  by code_simp

lemma script_ok_BGS2_W: "script_ok 40 ampm_AtGsmCmdStartBGS2_W"
  by code_simp

lemma script_ok_BGS2_E: "script_ok 40 ampm_AtGsmCmdStartBGS2_E"
  by code_simp

lemma script_ok_BG2_E: "script_ok 40 ampm_AtGsmCmdStartBG2_E"
  by code_simp

lemma script_ok_M95: "script_ok 40 ampm_AtGsmCmdStartM95"
  by code_simp

lemma script_ok_M26: "script_ok 40 ampm_AtGsmCmdStartM26"
  by code_simp

lemma script_ok_SIM900: "script_ok 40 ampm_AtGsmCmdStartSIM900"
  by code_simp

lemma script_ok_UbloxG100: "script_ok 40 ampm_AtGsmCmdStartUbloxG100"
  by code_simp

lemma script_ok_shipped: "pt \<in> set startup_scripts \<Longrightarrow> script_ok 40 pt"
  unfolding startup_scripts_def
  using script_ok_default script_ok_BGS2_W script_ok_BGS2_E script_ok_BG2_E script_ok_M95 script_ok_M26
    script_ok_SIM900 script_ok_UbloxG100 by auto




end
