(* ===== verification/GsmCall.thy ===== *)
theory GsmCall
  imports GsmStartup
begin

text \<open>
  Voice calls: \<open>ampm_lib/ampm_gsm/ampm_gsm_call.c\<close>.  A call object is supplied by the
  application, or is the static \<open>incomingCall\<close>; \<open>calls\<close> holds the objects by
  address and \<open>call_next\<close> their list links, on which the list library works.  An object
  that is not there cannot be read or written.  The action callback of a call is an
  application function, recorded in the log.  DTMF detection is compiled out.
\<close>

section \<open>State\<close>

datatype CALL_RESPONSE =
  CALL_RESPONSE_NONE | CALL_RESPONSE_TIMEOUT | CALL_RESPONSE_MISS | CALL_RESPONSE_BUSY
| CALL_RESPONSE_ALERTING_BUT_NO_ANSWER | CALL_RESPONSE_NO_CARRIER | CALL_RESPONSE_UNSUCCESS
| CALL_RESPONSE_NORMAL_CALL_CLEARING | CALL_RESPONSE_CANCEL_BY_SOFTWARE | CALL_RESPONSE_SUCCESS

datatype CALL_ACTION =
  CALL_NONE | CALL_HANGUP_WHEN_ALERTING | CALL_HANGUP_WHEN_ACTIVE
| CALL_HANGUP_AFTER_ACTIVE_action_timeout | CALL_PICKUP_WHEN_INCOMING | CALL_HANGUP_NOW

text \<open>The state of a call is a number, because the code computes it from the modem's report.\<close>

definition CALL_START :: u8 where "CALL_START = 0"

definition CALL_ACTIVE :: u8 where "CALL_ACTIVE = 1"

definition CALL_HELD :: u8 where "CALL_HELD = 2"

definition CALL_DIALING :: u8 where "CALL_DIALING = 3"

definition CALL_ALERTING :: u8 where "CALL_ALERTING = 4"

definition CALL_INCOMING :: u8 where "CALL_INCOMING = 5"

definition CALL_WAITING :: u8 where "CALL_WAITING = 6"

definition CALL_ENDED :: u8 where "CALL_ENDED = 7"

lemmas call_state_defs = CALL_START_def CALL_ACTIVE_def CALL_HELD_def CALL_DIALING_def CALL_ALERTING_def
  CALL_INCOMING_def CALL_WAITING_def CALL_ENDED_def

datatype call_addr = IncomingCall | CallAt nat

record CALL_LIST_TYPE =
  phone :: "bytes option"
  call_index :: u8
  call_state :: u8
  call_timeout :: u16
  timeoutReload :: u16
  tryNum :: u8
  dtmf :: "nat option"
  call_response :: CALL_RESPONSE
  action :: CALL_ACTION
  action_callback :: "nat option"
  action_timeout :: u8

record gsm_call = gsm_startup +
  calls :: "call_addr \<Rightarrow> CALL_LIST_TYPE option"
  call_next :: "call_addr heap"
  callList :: "call_addr option"
  voiceCall :: "call_addr option"
  callTaskFailCnt :: u8
  listOfCurrentCall :: bytes
  clccLen :: u8
  gotListOfCurrentCall :: bool
  callListIsEmpty :: bool
  callTimeout :: Timeout_Type
  callAlertingTimeout :: Timeout_Type
  tCallDelayTimeout :: Timeout_Type
  ceerId :: u16
  getCeerFlag :: bool
  gotCeerId :: bool
  callDelayTime :: u8
  callTaskIsRunningCnt :: u8
  ampm_GotIncomingNumberFlag :: bool
  ampm_IncomingCallPhoneNo :: bytes

definition call_at :: "call_addr \<Rightarrow> 'z gsm_call_scheme \<Rightarrow> CALL_LIST_TYPE option" where
  "call_at p s = calls s p"

definition call_put :: "call_addr \<Rightarrow> (CALL_LIST_TYPE \<Rightarrow> CALL_LIST_TYPE) \<Rightarrow> 'z gsm_call_scheme \<Rightarrow> 'z gsm_call_scheme option" where
  "call_put p f s = (case calls s p of None \<Rightarrow> None | Some c \<Rightarrow> Some (s\<lparr>calls := (calls s)(p \<mapsto> f c)\<rparr>))"

text \<open>The object \<open>voiceCall\<close> points to.\<close>

definition voice :: "'z gsm_call_scheme \<Rightarrow> CALL_LIST_TYPE option" where
  "voice s = (case voiceCall s of None \<Rightarrow> None | Some p \<Rightarrow> calls s p)"

definition voice_put :: "(CALL_LIST_TYPE \<Rightarrow> CALL_LIST_TYPE) \<Rightarrow> 'z gsm_call_scheme \<Rightarrow> 'z gsm_call_scheme option" where
  "voice_put f s = (case voiceCall s of None \<Rightarrow> None | Some p \<Rightarrow> call_put p f s)"

definition seconds_ms :: "u8 \<Rightarrow> u32" where
  "seconds_ms n = ucast n * 1000"

section \<open>Command constants\<close>

definition ampmAtCmd_ATA :: AT_PACKET where "ampmAtCmd_ATA = at_plain ''ATA|''"

definition ampmAtCmd_AT_CLVL :: AT_PACKET where "ampmAtCmd_AT_CLVL = at_plain ''AT+CLVL=100|''"

definition ampmAtCmd_ATM :: AT_PACKET where "ampmAtCmd_ATM = at_plain ''ATM1|''"

definition ampmAtCmd_ATL :: AT_PACKET where "ampmAtCmd_ATL = at_plain ''ATL3|''"

definition callDial :: AT_PACKET where "callDial = at_format Fn_GsmCallDialStartCallback"

definition ampmAtCmd_AT_CLCC :: AT_PACKET where
  "ampmAtCmd_AT_CLCC = (at_query ''AT+CLCC|'' ''+CLCC: '' Fn_GetListOfCurrentCall)\<lparr>resFails := cr_text ''AT+CLCC||~OK''\<rparr>"

definition ampmAtCmd_AT_CEER :: AT_PACKET where
  "ampmAtCmd_AT_CEER = at_query ''AT+CEER|'' ''+CEER: '' Fn_GetCeer"

definition ampmAtCmd_AT_CHLD_1X :: AT_PACKET where "ampmAtCmd_AT_CHLD_1X = at_format Fn_GsmCHLD_1X_Callback"

definition voiceCallSendCmdProcess_end :: gsm_cmd where
  "voiceCallSendCmdProcess_end = cmd_process None ampmAtCmd_AT (Some Fn_GsmCallEndCallback) 1 1000 100"

definition voiceCallSendCmdProcess_AT_CHLD_1X :: gsm_cmd where
  "voiceCallSendCmdProcess_AT_CHLD_1X =
     cmd_process (Some Cmd_voiceCallSendCmdProcess_end) ampmAtCmd_AT_CHLD_1X None 3 1000 100"

definition voiceCallSendCmdProcess_AT_CHLD :: gsm_cmd where
  "voiceCallSendCmdProcess_AT_CHLD =
     cmd_process (Some Cmd_voiceCallSendCmdProcess_end) ampmAtCmd_AT_CHLD None 3 1000 100"

definition voiceCallSendCmdProcess_ATH :: gsm_cmd where
  "voiceCallSendCmdProcess_ATH =
     cmd_process (Some Cmd_voiceCallSendCmdProcess_end) ampmAtCmd_ATH None 3 1000 100"

definition voiceCallSendCmdProcess_AT_CEER :: gsm_cmd where
  "voiceCallSendCmdProcess_AT_CEER =
     cmd_process (Some Cmd_voiceCallSendCmdProcess_end) ampmAtCmd_AT_CEER
       (Some Fn_GsmVoiceCallCheckCeerEndCallback) 1 3000 500"

definition voiceCallSendCmdProcess_AT_CLCC :: gsm_cmd where
  "voiceCallSendCmdProcess_AT_CLCC =
     cmd_process (Some Cmd_voiceCallSendCmdProcess_AT_CLCC) ampmAtCmd_AT_CLCC
       (Some Fn_GsmVoiceCallCheckStateEndCallback) 1 3000 100"

definition voiceCallSendCmdProcess_ATD :: gsm_cmd where
  "voiceCallSendCmdProcess_ATD =
     cmd_process (Some Cmd_voiceCallSendCmdProcess_AT_CLCC) callDial (Some Fn_GsmCallDialEndCallback) 0 5000 1000"

definition voiceCallSendCmdProcess_ATM :: gsm_cmd where
  "voiceCallSendCmdProcess_ATM =
     cmd_process (Some Cmd_voiceCallSendCmdProcess_ATD) ampmAtCmd_ATM (Some Fn_GsmATM1EndCallback) 1 1000 100"

definition voiceCallSendCmdProcess_CLVL :: gsm_cmd where
  "voiceCallSendCmdProcess_CLVL =
     cmd_process (Some Cmd_voiceCallSendCmdProcess_ATM) ampmAtCmd_AT_CLVL None 1 1000 100"

definition voiceCallSendCmdProcess_ATL :: gsm_cmd where
  "voiceCallSendCmdProcess_ATL =
     cmd_process (Some Cmd_voiceCallSendCmdProcess_CLVL) ampmAtCmd_ATL None 1 1000 100"

definition voiceCallSendCmdProcess_Start :: gsm_cmd where
  "voiceCallSendCmdProcess_Start =
     cmd_process (Some Cmd_voiceCallSendCmdProcess_ATL) ampmAtCmd_AT None 1 1000 100"

definition voiceCallSendCmdProcess_ATA :: gsm_cmd where
  "voiceCallSendCmdProcess_ATA =
     cmd_process (Some Cmd_voiceCallSendCmdProcess_AT_CLCC) ampmAtCmd_ATA None 3 1000 100"

section \<open>The interface of the module\<close>

definition CALL_DELAY_TIME :: u8 where "CALL_DELAY_TIME = 3"

definition Ampm_CallTask_Init :: "'z gsm_call_scheme \<Rightarrow> 'z gsm_call_scheme" where
  "Ampm_CallTask_Init s = s\<lparr>callList := list_init, callDelayTime := CALL_DELAY_TIME\<rparr>"

definition Ampm_VoiceCallCheckList_IsEmpty :: "'z gsm_call_scheme \<Rightarrow> bool option" where
  "Ampm_VoiceCallCheckList_IsEmpty s = do { n \<leftarrow> list_length (call_next s) (callList s); Some (n = 0) }"

definition Ampm_VoiceCallSetAction ::
  "call_addr \<Rightarrow> CALL_ACTION \<Rightarrow> 'z gsm_call_scheme \<Rightarrow> 'z gsm_call_scheme option" where
  "Ampm_VoiceCallSetAction call act s =
     call_put call (\<lambda>c. if action c = CALL_NONE then c\<lparr>action := act\<rparr> else c) s"

definition Ampm_VoiceCallStartRecvCall :: "'z gsm_call_scheme \<Rightarrow> 'z gsm_call_scheme option" where
  "Ampm_VoiceCallStartRecvCall s =
     call_put IncomingCall (\<lambda>c. c\<lparr>phone := None, dtmf := None, action := CALL_NONE, action_timeout := 0,
       action_callback := None, call_index := 1, call_response := CALL_RESPONSE_NONE, call_timeout := 60,
       timeoutReload := 60, call_state := CALL_START, tryNum := 1\<rparr>) s"

definition Ampm_VoiceCallAdd :: "call_addr \<Rightarrow> 'z gsm_call_scheme \<Rightarrow> 'z gsm_call_scheme option" where
  "Ampm_VoiceCallAdd call s = do {
     (h, l) \<leftarrow> list_add (call_next s) (callList s) call;
     Some (s\<lparr>call_next := h, callList := l\<rparr>)
   }"

definition call_unlink :: "call_addr \<Rightarrow> 'z gsm_call_scheme \<Rightarrow> 'z gsm_call_scheme option" where
  "call_unlink call s = do {
     (h, l) \<leftarrow> list_remove (call_next s) (callList s) call;
     Some (s\<lparr>call_next := h, callList := l\<rparr>)
   }"

definition Ampm_VoiceCallCancel :: "call_addr \<Rightarrow> 'z gsm_call_scheme \<Rightarrow> 'z gsm_call_scheme option" where
  "Ampm_VoiceCallCancel call s = do {
     s \<leftarrow> call_put call (\<lambda>c. c\<lparr>action := CALL_HANGUP_NOW\<rparr>) s;
     if call \<noteq> IncomingCall then call_unlink call s else Some s
   }"

definition Ampm_VoiceCallSetup ::
  "call_addr \<Rightarrow> bytes option \<Rightarrow> nat option \<Rightarrow> CALL_ACTION \<Rightarrow> nat option \<Rightarrow> u8 \<Rightarrow> u16 \<Rightarrow> u8
   \<Rightarrow> 'z gsm_call_scheme \<Rightarrow> 'z gsm_call_scheme option" where
  "Ampm_VoiceCallSetup call ph dt act callback act_timeout timeout tries s = do {
     s \<leftarrow> call_put call (\<lambda>c. c\<lparr>phone := ph, dtmf := dt, action := act, action_timeout := act_timeout,
       action_callback := callback, call_index := 1, call_response := CALL_RESPONSE_NONE, call_timeout := 0,
       timeoutReload := timeout, call_state := CALL_START, tryNum := tries\<rparr>) s;
     Ampm_VoiceCallAdd call s
   }"

section \<open>The periodic tasks\<close>

partial_function (option) calls_tick :: "call_addr option \<Rightarrow> 'z gsm_call_scheme \<Rightarrow> 'z gsm_call_scheme option" where
  "calls_tick call s =
     (case call of None \<Rightarrow> Some s
      | Some p \<Rightarrow> do {
          s \<leftarrow> call_put p (\<lambda>c. if call_timeout c \<noteq> 0 then c\<lparr>call_timeout := call_timeout c - 1\<rparr> else c) s;
          n \<leftarrow> list_item_next (call_next s) (Some p);
          calls_tick n s
        })"

definition Ampm_CallTaskPeriodic_1Sec :: "'z gsm_call_scheme \<Rightarrow> (u8 \<times> 'z gsm_call_scheme) option" where
  "Ampm_CallTaskPeriodic_1Sec s = do {
     s \<leftarrow> (if callTaskIsRunningCnt s \<noteq> 0 then Some (s\<lparr>callTaskIsRunningCnt := callTaskIsRunningCnt s - 1\<rparr>)
           else call_put IncomingCall (\<lambda>c. c\<lparr>call_state := CALL_ENDED\<rparr>) s);
     s \<leftarrow> call_put IncomingCall
            (\<lambda>c. if call_timeout c \<noteq> 0 then c\<lparr>call_timeout := call_timeout c - 1\<rparr> else c) s;
     n \<leftarrow> list_length (call_next s) (callList s);
     if n = 0 then Some (0, s)
     else do { s \<leftarrow> calls_tick (list_head (callList s)) s; Some (1, s) }
   }"

text \<open>A call that is to be tried.  The code also compares the action with \<open>CALL_ENDED\<close>, a
  constant of another enumeration that no action equals.\<close>

definition call_wanted :: "CALL_LIST_TYPE \<Rightarrow> bool" where
  "call_wanted c \<longleftrightarrow> call_response c \<noteq> CALL_RESPONSE_SUCCESS \<and> phone c \<noteq> None \<and> tryNum c \<noteq> 0
     \<and> action c \<noteq> CALL_HANGUP_NOW"

partial_function (option) CallTask_loop ::
  "call_addr option \<Rightarrow> 'z gsm_call_scheme \<Rightarrow> 'z gsm_call_scheme option" where
  "CallTask_loop call s =
     (case call of None \<Rightarrow> Some s
      | Some p \<Rightarrow> do {
          c \<leftarrow> call_at p s;
          if call_wanted c then do {
            s \<leftarrow> call_put p (\<lambda>c. c\<lparr>call_timeout := timeoutReload c,
                   tryNum := (if tryNum c \<noteq> 0 then tryNum c - 1 else tryNum c), call_state := CALL_START\<rparr>) s;
            let s = s\<lparr>voiceCall := Some p, callDelayTime := CALL_DELAY_TIME\<rparr>;
            let s = s\<lparr>tCallDelayTimeout := InitTimeout (tick s) (tCallDelayTimeout s) (seconds_ms (callDelayTime s))\<rparr>;
            Some (Ampm_SendAtCmdNow voiceCallSendCmdProcess_Start s)
          }
          else do {
            s \<leftarrow> call_put p (\<lambda>c. c\<lparr>call_state := CALL_ENDED\<rparr>) s;
            s \<leftarrow> call_unlink p s;
            n \<leftarrow> list_item_next (call_next s) (Some p);
            CallTask_loop n s
          }
        })"

definition Ampm_CallTask :: "'z gsm_call_scheme \<Rightarrow> (u8 \<times> 'z gsm_call_scheme) option" where
  "Ampm_CallTask s =
     (let s = s\<lparr>callTaskIsRunningCnt := 1\<rparr>
      in if Ampm_SendAtCheck_IsEmpty s \<and> Ampm_CmdTask_IsIdle (CmdPhase s)
           \<and> fst (CheckTimeout (tick s) (tCallDelayTimeout s)) = 0
         then do {
           c \<leftarrow> call_at IncomingCall s;
           if call_state c = CALL_START then
             Some (0, Ampm_SendAtCmdNow voiceCallSendCmdProcess_Start (s\<lparr>voiceCall := Some IncomingCall\<rparr>))
           else do {
             n \<leftarrow> list_length (call_next s) (callList s);
             if n \<noteq> 0 then do { s \<leftarrow> CallTask_loop (list_head (callList s)) s; Some (0, s) }
             else Some (1, s)
           }
         }
         else Some (0, s))"

section \<open>Ends of commands\<close>

type_synonym 'w end_result = "(u8 \<times> 'w) option"

definition Ampm_GsmVoiceCallCheckCeerEndCallback ::
  "AMPM_CMD_PHASE \<Rightarrow> 'z gsm_call_scheme \<Rightarrow> 'z gsm_call_scheme end_result" where
  "Ampm_GsmVoiceCallCheckCeerEndCallback ph s = do {
     c \<leftarrow> voice s;
     s \<leftarrow> (if ph = AMPM_CMD_OK \<and> gotCeerId s \<and> call_response c = CALL_RESPONSE_NONE then
             voice_put (\<lambda>c. c\<lparr>call_response :=
               (if ceerId s = 16 then CALL_RESPONSE_NORMAL_CALL_CLEARING
                else if ceerId s = 17 then CALL_RESPONSE_BUSY
                else if ceerId s = 19 then CALL_RESPONSE_ALERTING_BUT_NO_ANSWER
                else if ceerId s = 31 then CALL_RESPONSE_NO_CARRIER
                else CALL_RESPONSE_NO_CARRIER)\<rparr>) s
           else Some s);
     s \<leftarrow> voice_put (\<lambda>c. c\<lparr>call_state := CALL_ENDED\<rparr>) s;
     Some (1, s)
   }"

text \<open>\<open>%d,%d,%d,%d,%d,"%[^", :\t\n\r]\<close>: the numbers converted and the telephone number.\<close>

fun scan_list :: "nat \<Rightarrow> bytes \<Rightarrow> int list \<times> bytes option" where
  "scan_list 0 t = ([], Some t)"
| "scan_list (Suc n) t =
     (case scan_d t of None \<Rightarrow> ([], None)
      | Some (v, t) \<Rightarrow>
          (case scan_char 0x2C t of None \<Rightarrow> ([v], None)
           | Some t \<Rightarrow> let (vs, r) = scan_list n t in (v # vs, r)))"

definition scan_clcc :: "bytes \<Rightarrow> int list \<times> bytes option" where
  "scan_clcc t =
     (let (vs, r) = scan_list 5 t
      in (vs, do { r \<leftarrow> r; r \<leftarrow> scan_char 0x22 r;
                   (w, _) \<leftarrow> scan_until (\<lambda>c. c \<in> {0x22, 0x2C, 0x20, 0x3A, 0x09, 0x0A, 0x0D}) r; Some w }))"

text \<open>\<open>memcpy\<close> of \<open>src\<close> to the start of \<open>dst\<close>.\<close>

definition memcpy :: "'a list \<Rightarrow> 'a list \<Rightarrow> 'a list option" where
  "memcpy dst src = (if length src \<le> length dst then Some (src @ drop (length src) dst) else None)"

text \<open>The report on the current calls: the state and index of the call.  The number is scanned
  into 32 bytes, and all of them are copied for an incoming call.\<close>

definition check_state_report :: "'z gsm_call_scheme \<Rightarrow> (bool \<times> 'z gsm_call_scheme) option" where
  "check_state_report s = do {
     n \<leftarrow> strlen (listOfCurrentCall s);
     let (vs, number) = scan_clcc (cstr (listOfCurrentCall s));
     phoneNumber \<leftarrow> (case number of None \<Rightarrow> Some (replicate 32 0) | Some w \<Rightarrow> store_text (replicate 32 0) w);
     s \<leftarrow> (if voiceCall s = Some IncomingCall then do {
             b \<leftarrow> memcpy (ampm_IncomingCallPhoneNo s) phoneNumber;
             Some (s\<lparr>ampm_IncomingCallPhoneNo := b, ampm_GotIncomingNumberFlag := True\<rparr>)
           }
           else Some s);
     let stat = (if 2 < length vs then word_of_int (vs ! 2) else 0 :: u32);
     s \<leftarrow> voice_put (\<lambda>c. c\<lparr>call_state := ucast (stat + 1)\<rparr>) s;
     idx \<leftarrow> (if vs \<noteq> [] then Some (word_of_int (hd vs) :: u32) else None);
     s \<leftarrow> voice_put (\<lambda>c. c\<lparr>call_index := ucast idx\<rparr>) s;
     c \<leftarrow> voice s;
     let wait = InitTimeout (tick s) (callTimeout s) (seconds_ms (action_timeout c));
     let st = call_state c;
     if st = CALL_DIALING then
       Some (False, s\<lparr>callTimeout := wait,
         callAlertingTimeout := InitTimeout (tick s) (callAlertingTimeout s) (seconds_ms (action_timeout c))\<rparr>)
     else if st = CALL_ALERTING then Some (False, s\<lparr>callTimeout := wait\<rparr>)
     else if st = CALL_INCOMING then
       (if voiceCall s \<noteq> Some IncomingCall then do {
          s \<leftarrow> voice_put (\<lambda>c. c\<lparr>call_state := CALL_ENDED, call_response := CALL_RESPONSE_UNSUCCESS\<rparr>) s;
          Some (False, s\<lparr>voiceCall := Some IncomingCall\<rparr>)
        }
        else Some (False, s))
     else if st = CALL_ENDED then Some (True, Ampm_SendAtCmdNow voiceCallSendCmdProcess_AT_CHLD_1X s)
     else Some (False, s)
   }"

definition hang_up :: "CALL_RESPONSE \<Rightarrow> 'z gsm_call_scheme \<Rightarrow> 'z gsm_call_scheme option" where
  "hang_up r s = voice_put (\<lambda>c. c\<lparr>call_response := r\<rparr>) (Ampm_SendAtCmdNow voiceCallSendCmdProcess_AT_CHLD_1X s)"

definition check_state_action :: "'z gsm_call_scheme \<Rightarrow> 'z gsm_call_scheme option" where
  "check_state_action s = do {
     c \<leftarrow> voice s;
     let st = call_state c;
     case action c of
       CALL_NONE \<Rightarrow> Some s
     | CALL_HANGUP_WHEN_ALERTING \<Rightarrow>
         (if st = CALL_ALERTING \<and> fst (CheckTimeout (tick s) (callAlertingTimeout s)) = 0
             \<or> st = CALL_ACTIVE \<or> st = CALL_INCOMING
          then hang_up CALL_RESPONSE_SUCCESS s else Some s)
     | CALL_HANGUP_WHEN_ACTIVE \<Rightarrow>
         (if st = CALL_ACTIVE then do {
            let s = Ampm_SendAtCmdNow voiceCallSendCmdProcess_AT_CHLD_1X s;
            let s = (case action_callback c of Some f \<Rightarrow> emits [CallAction f] s | None \<Rightarrow> s);
            voice_put (\<lambda>c. c\<lparr>call_response := CALL_RESPONSE_SUCCESS\<rparr>) s
          }
          else Some s)
     | CALL_HANGUP_AFTER_ACTIVE_action_timeout \<Rightarrow>
         (if st = CALL_ALERTING \<and> fst (CheckTimeout (tick s) (callTimeout s)) = 0
          then hang_up CALL_RESPONSE_SUCCESS s else Some s)
     | CALL_PICKUP_WHEN_INCOMING \<Rightarrow>
         Some (if st = CALL_INCOMING then Ampm_SendAtCmdNow voiceCallSendCmdProcess_ATA s else s)
     | CALL_HANGUP_NOW \<Rightarrow>
         (let s = Ampm_SendAtCmdNow (if gotListOfCurrentCall s \<or> st = CALL_ACTIVE
                    then voiceCallSendCmdProcess_AT_CHLD_1X else voiceCallSendCmdProcess_AT_CHLD) s
          in voice_put (\<lambda>c. c\<lparr>call_response := CALL_RESPONSE_CANCEL_BY_SOFTWARE\<rparr>) s)
   }"

definition Ampm_GsmVoiceCallCheckStateEndCallback ::
  "AMPM_CMD_PHASE \<Rightarrow> 'z gsm_call_scheme \<Rightarrow> 'z gsm_call_scheme end_result" where
  "Ampm_GsmVoiceCallCheckStateEndCallback ph s = do {
     c \<leftarrow> voice s;
     if call_timeout c = 0 then do {
       s \<leftarrow> voice_put (\<lambda>c. c\<lparr>call_response := CALL_RESPONSE_TIMEOUT\<rparr>) s;
       Some (1, Ampm_SendAtCmdNow voiceCallSendCmdProcess_AT_CHLD s)
     }
     else if \<not> (ph = AMPM_CMD_OK \<and> gotListOfCurrentCall s) \<and> \<not> gotListOfCurrentCall s \<and> callListIsEmpty s then
       Some (1, Ampm_SendAtCmdNow voiceCallSendCmdProcess_AT_CEER s)
     else do {
       (done, s) \<leftarrow> (if ph = AMPM_CMD_OK \<and> gotListOfCurrentCall s
                     then check_state_report (s\<lparr>callListIsEmpty := False\<rparr>) else Some (False, s));
       if done then Some (1, s)
       else do {
         s \<leftarrow> check_state_action s;
         Some (1, s\<lparr>gotListOfCurrentCall := False\<rparr>)
       }
     }
   }"

definition Ampm_GsmCallEndCallback ::
  "AMPM_CMD_PHASE \<Rightarrow> 'z gsm_call_scheme \<Rightarrow> 'z gsm_call_scheme end_result" where
  "Ampm_GsmCallEndCallback ph s = do {
     let s = s\<lparr>tCallDelayTimeout := InitTimeout (tick s) (tCallDelayTimeout s) (seconds_ms (callDelayTime s))\<rparr>;
     s \<leftarrow> voice_put (\<lambda>c. c\<lparr>call_state := CALL_ENDED\<rparr>) s;
     Some (1, s)
   }"

definition Ampm_GsmATM1EndCallback ::
  "AMPM_CMD_PHASE \<Rightarrow> 'z gsm_call_scheme \<Rightarrow> 'z gsm_call_scheme end_result" where
  "Ampm_GsmATM1EndCallback ph s = do {
     c \<leftarrow> call_at IncomingCall s;
     Some (1, if call_state c = CALL_START
              then Ampm_SendAtCmdNow voiceCallSendCmdProcess_AT_CLCC (s\<lparr>voiceCall := Some IncomingCall\<rparr>) else s)
   }"

definition Ampm_GsmCallDialEndCallback ::
  "AMPM_CMD_PHASE \<Rightarrow> 'z gsm_call_scheme \<Rightarrow> 'z gsm_call_scheme end_result" where
  "Ampm_GsmCallDialEndCallback ph s = do {
     c \<leftarrow> voice s;
     s \<leftarrow> (if ph = AMPM_CMD_ERROR then
             hang_up CALL_RESPONSE_UNSUCCESS (s\<lparr>callTaskFailCnt := callTaskFailCnt s + 1, callDelayTime := 10\<rparr>)
           else if action c = CALL_HANGUP_NOW then hang_up CALL_RESPONSE_CANCEL_BY_SOFTWARE s
           else Some s);
     let s = s\<lparr>gotListOfCurrentCall := False, callListIsEmpty := False\<rparr>;
     Some (1, s\<lparr>callTimeout := InitTimeout (tick s) (callTimeout s) (seconds_ms (action_timeout c))\<rparr>)
   }"

section \<open>Texts of commands\<close>

definition Ampm_GsmCHLD_1X_Callback ::
  "bytes \<Rightarrow> 'z gsm_call_scheme \<Rightarrow> (u8 \<times> bytes \<times> 'z gsm_call_scheme) option" where
  "Ampm_GsmCHLD_1X_Callback buf s =
     (if voiceCall s \<noteq> None then do {
        s \<leftarrow> voice_put (\<lambda>c. c\<lparr>call_state := CALL_ENDED\<rparr>) s;
        c \<leftarrow> voice s;
        (n, buf) \<leftarrow> ampm_sprintf buf (cr_text ''AT+CHLD=1%d|'') [IntArg (ucast (call_index c))];
        Some (1, buf, s)
      }
      else Some (1, buf, Ampm_SendAtCmdNow voiceCallSendCmdProcess_AT_CHLD s))"

definition Ampm_GsmCallDialStartCallback ::
  "bytes \<Rightarrow> 'z gsm_call_scheme \<Rightarrow> (u8 \<times> bytes \<times> 'z gsm_call_scheme) option" where
  "Ampm_GsmCallDialStartCallback buf s = do {
     c \<leftarrow> voice s;
     (n, buf) \<leftarrow> (if action c \<noteq> CALL_HANGUP_NOW then do {
                     p \<leftarrow> phone c;
                     ampm_sprintf buf (cr_text ''ATD%s;|'') [StrArg p]
                   }
                   else ampm_sprintf buf (cr_text ''AT|'') []);
     Some (1, buf, s)
   }"

section \<open>Response callbacks\<close>

definition Ampm_CallListSetEmpty :: "u16 \<Rightarrow> u8 \<Rightarrow> 'z gsm_call_scheme \<Rightarrow> (u32 \<times> 'z gsm_call_scheme) option" where
  "Ampm_CallListSetEmpty cnt c s = Some (0, s\<lparr>callListIsEmpty := True\<rparr>)"

definition Ampm_GetCeer :: "u16 \<Rightarrow> u8 \<Rightarrow> 'z gsm_call_scheme \<Rightarrow> (u32 \<times> 'z gsm_call_scheme) option" where
  "Ampm_GetCeer cnt c s =
     (let s = (if cnt = 0 then s\<lparr>ceerId := 0, getCeerFlag := False\<rparr> else s);
          finished = Some (0, s\<lparr>gotCeerId := True\<rparr>)
      in if getCeerFlag s \<and> \<not> (0x30 \<le> c \<and> c \<le> 0x39) then finished
         else let s = (if getCeerFlag s then s\<lparr>ceerId := ceerId s * 10 + (ucast c - 0x30)\<rparr> else s)
           in if c = 0x2C \<and> getCeerFlag s then Some (0, s\<lparr>gotCeerId := True\<rparr>)
              else let s = (if c = 0x2C then s\<lparr>ceerId := 0, getCeerFlag := True\<rparr> else s)
                in if c = 0x0D \<or> c = 0x0A \<or> cnt \<ge> 128 then Some (0, s\<lparr>gotCeerId := True\<rparr>)
                   else Some (0xff, s))"

definition Ampm_GetListOfCurrentCall ::
  "u16 \<Rightarrow> u8 \<Rightarrow> 'z gsm_call_scheme \<Rightarrow> (u32 \<times> 'z gsm_call_scheme) option" where
  "Ampm_GetListOfCurrentCall cnt c s = do {
     let s = (if cnt = 0 then s\<lparr>clccLen := 0\<rparr> else s);
     b \<leftarrow> wr (listOfCurrentCall s) (unat (clccLen s)) c;
     let s = s\<lparr>clccLen := clccLen s + 1\<rparr>;
     b \<leftarrow> wr b (unat (clccLen s)) 0;
     let s = s\<lparr>listOfCurrentCall := b\<rparr>;
     if c = 0x0D \<or> c = 0x0A \<or> unat (clccLen s) \<ge> 127 then Some (0, s\<lparr>gotListOfCurrentCall := True\<rparr>)
     else Some (0xff, s)
   }"

section \<open>Comparing telephone numbers\<close>

text \<open>The digits of a number that count: without the country code or the leading zero.\<close>

definition significant :: "u8 \<Rightarrow> u8 \<Rightarrow> u8" where
  "significant first i =
     (if first = 0x2B then (if i > 4 then i - 4 else i)
      else if first = 0x30 then (if i > 1 then i - 1 else i)
      else i)"

fun compare_back :: "bytes \<Rightarrow> bytes \<Rightarrow> nat \<Rightarrow> nat \<Rightarrow> u8 \<Rightarrow> u8 option" where
  "compare_back phone1 phone2 (Suc i) (Suc j) count = do {
     a \<leftarrow> rd phone1 i;
     b \<leftarrow> rd phone2 j;
     if a = b then compare_back phone1 phone2 i j (count + 1) else Some count
   }"
| "compare_back phone1 phone2 i j count = Some count"

definition Ampm_ComparePhoneNumber_1 :: "bytes \<Rightarrow> bytes \<Rightarrow> u8 \<Rightarrow> u8 option" where
  "Ampm_ComparePhoneNumber_1 phone1 phone2 digitThreshold = do {
     n1 \<leftarrow> strlen phone1;
     n2 \<leftarrow> strlen phone2;
     let i = of_nat n1;
     let j = of_nat n2;
     c1 \<leftarrow> rd phone1 0;
     c2 \<leftarrow> rd phone2 0;
     let l1 = significant c1 i;
     let l2 = significant c2 j;
     let minL = (if l2 < l1 then l2 else l1);
     count \<leftarrow> compare_back phone1 phone2 (unat i) (unat j) 0;
     Some (if count \<ge> digitThreshold \<and> count \<ge> minL then 1 else 0)
   }"

definition Ampm_ComparePhoneNumber :: "bytes \<Rightarrow> bytes \<Rightarrow> u8 option" where
  "Ampm_ComparePhoneNumber phone1 phone2 = do {
     n1 \<leftarrow> strlen phone1;
     n2 \<leftarrow> strlen phone2;
     let i = of_nat n1;
     let j = of_nat n2;
     c1 \<leftarrow> rd phone1 0;
     c2 \<leftarrow> rd phone2 0;
     let l1 = significant c1 i;
     let l2 = significant c2 j;
     let minL = (if l2 < l1 then l2 else l1);
     count \<leftarrow> compare_back phone1 phone2 (unat i) (unat j) 0;
     Some (if count \<ge> 6 \<and> count \<ge> minL then 1 else 0)
   }"

end
