(* ===== verification/MTime.thy ===== *)
theory MTime
  imports Prelude "HOL-Library.Signed_Division"
begin

text \<open>
  Calendar time: \<open>gmtime_r\<close>, \<open>localtime_r\<close> and \<open>mktime\<close> of \<open>ampm_lib/lib/m_time.c\<close> and
  the date routines of \<open>ampm_lib/lib/sys_time.c\<close> on top of them.  \<open>time_t\<close> is the unsigned
  32-bit type of the tool chain, \<open>long\<close> and \<open>int\<close> are unbounded integers (the overflow
  tests of \<open>mktime\<close> are part of the model), and \<open>/\<close> and \<open>%\<close> truncate towards zero
  (\<open>sdiv\<close>, \<open>smod\<close>).
\<close>

section \<open>Tables and structures\<close>

record tm =
  tm_sec :: int
  tm_min :: int
  tm_hour :: int
  tm_mday :: int
  tm_mon :: int
  tm_year :: int
  tm_wday :: int
  tm_yday :: int
  tm_isdst :: int

definition LEAPYEAR :: "int \<Rightarrow> bool" where
  "LEAPYEAR year \<longleftrightarrow> year smod 4 = 0 \<and> (year smod 100 \<noteq> 0 \<or> year smod 400 = 0)"

definition YEARSIZE :: "int \<Rightarrow> int" where
  "YEARSIZE year = (if LEAPYEAR year then 366 else 365)"

definition TIME_MAX :: int where
  "TIME_MAX = 2147483647"

definition c_timezone :: int where "c_timezone = 0"

definition c_dstbias :: int where "c_dstbias = 0"

definition month_days :: "bool \<Rightarrow> int list" where
  "month_days leap = (if leap then [31, 29, 31, 30, 31, 30, 31, 31, 30, 31, 30, 31]
                      else [31, 28, 31, 30, 31, 30, 31, 31, 30, 31, 30, 31])"

text \<open>An index outside \<open>_ytab[leap]\<close> is undefined.\<close>

definition ytab :: "bool \<Rightarrow> int \<Rightarrow> int option" where
  "ytab leap mon = (if mon < 0 then None else rd (month_days leap) (nat mon))"

section \<open>From seconds to a date\<close>

function gm_year :: "int \<Rightarrow> int \<Rightarrow> int \<times> int" where
  "gm_year dayno year =
     (if dayno \<ge> YEARSIZE year then gm_year (dayno - YEARSIZE year) (year + 1) else (dayno, year))"
  by auto
termination by (relation "measure (\<lambda>(dayno, year). nat dayno)") (auto simp: YEARSIZE_def split: if_splits)

partial_function (option) gm_month :: "bool \<Rightarrow> int \<Rightarrow> int \<Rightarrow> (int \<times> int) option" where
  "gm_month leap dayno mon = do {
     n \<leftarrow> ytab leap mon;
     if dayno \<ge> n then gm_month leap (dayno - n) (mon + 1) else Some (dayno, mon)
   }"

definition gmtime_r :: "u32 \<Rightarrow> tm \<Rightarrow> tm option" where
  "gmtime_r timer tmbuf =
     (let dayclock = uint timer mod 86400;
          dayno = uint timer div 86400;
          (yday, year) = gm_year dayno 1970
      in do {
        (d, mon) \<leftarrow> gm_month (LEAPYEAR year) yday 0;
        Some (tmbuf\<lparr>tm_sec := dayclock mod 60, tm_min := (dayclock mod 3600) div 60,
              tm_hour := dayclock div 3600, tm_wday := (dayno + 4) mod 7,
              tm_year := year - 1900, tm_yday := yday, tm_mon := mon, tm_mday := d + 1,
              tm_isdst := 0\<rparr>)
      })"

definition localtime_r :: "u32 \<Rightarrow> tm \<Rightarrow> tm option" where
  "localtime_r timer tmbuf = gmtime_r (timer - word_of_int c_timezone) tmbuf"

section \<open>From a date to seconds\<close>

text \<open>Carrying seconds, minutes, hours and months into their ranges.\<close>

definition mk_carry :: "tm \<Rightarrow> int \<times> tm" where
  "mk_carry t =
     (let t = t\<lparr>tm_min := tm_min t + tm_sec t sdiv 60, tm_sec := tm_sec t smod 60\<rparr>;
          t = (if tm_sec t < 0 then t\<lparr>tm_sec := tm_sec t + 60, tm_min := tm_min t - 1\<rparr> else t);
          t = t\<lparr>tm_hour := tm_hour t + tm_min t sdiv 60, tm_min := tm_min t smod 60\<rparr>;
          t = (if tm_min t < 0 then t\<lparr>tm_min := tm_min t + 60, tm_hour := tm_hour t - 1\<rparr> else t);
          day = tm_hour t sdiv 24;
          t = t\<lparr>tm_hour := tm_hour t smod 24\<rparr>;
          (day, t) = (if tm_hour t < 0 then (day - 1, t\<lparr>tm_hour := tm_hour t + 24\<rparr>) else (day, t));
          t = t\<lparr>tm_year := tm_year t + tm_mon t sdiv 12, tm_mon := tm_mon t smod 12\<rparr>;
          t = (if tm_mon t < 0 then t\<lparr>tm_mon := tm_mon t + 12, tm_year := tm_year t - 1\<rparr> else t)
      in (day + (tm_mday t - 1), t))"

partial_function (option) mk_back :: "int \<Rightarrow> tm \<Rightarrow> (int \<times> tm) option" where
  "mk_back day t =
     (if day < 0 then do {
        let t = t\<lparr>tm_mon := tm_mon t - 1\<rparr>;
        let t = (if tm_mon t < 0 then t\<lparr>tm_year := tm_year t - 1, tm_mon := 11\<rparr> else t);
        n \<leftarrow> ytab (LEAPYEAR (1900 + tm_year t)) (tm_mon t);
        mk_back (day + n) t
      }
      else Some (day, t))"

partial_function (option) mk_forward :: "int \<Rightarrow> tm \<Rightarrow> (int \<times> tm) option" where
  "mk_forward day t = do {
     n \<leftarrow> ytab (LEAPYEAR (1900 + tm_year t)) (tm_mon t);
     if day \<ge> n then do {
       let t = t\<lparr>tm_mon := tm_mon t + 1\<rparr>;
       let t = (if tm_mon t = 12 then t\<lparr>tm_mon := 0, tm_year := tm_year t + 1\<rparr> else t);
       mk_forward (day - n) t
     }
     else Some (day, t)
   }"

text \<open>Days from day 0 to the first of January, and from there to the month.\<close>

definition mk_yeardays :: "int \<Rightarrow> int" where
  "mk_yeardays y =
     (let year = 1970 in
      (y - year) * 365
      + ((y - year) sdiv 4 + (if y smod 4 \<noteq> 0 \<and> y smod 4 < year smod 4 then 1 else 0))
      - ((y - year) sdiv 100 + (if y smod 100 \<noteq> 0 \<and> y smod 100 < year smod 100 then 1 else 0))
      + ((y - year) sdiv 400 + (if y smod 400 \<noteq> 0 \<and> y smod 400 < year smod 400 then 1 else 0)))"

fun mk_monthdays :: "bool \<Rightarrow> nat \<Rightarrow> int option" where
  "mk_monthdays leap 0 = Some 0"
| "mk_monthdays leap (Suc m) = do {
     d \<leftarrow> mk_monthdays leap m;
     n \<leftarrow> ytab leap (int m);
     Some (d + n)
   }"

definition mk_overflow :: "int \<Rightarrow> int \<Rightarrow> int \<Rightarrow> int \<Rightarrow> bool" where
  "mk_overflow y yday day seconds \<longleftrightarrow>
     TIME_MAX sdiv 365 < y - 1970
     \<or> TIME_MAX - (y - 1970) * 365 < (y - 1970) sdiv 4 + 1
     \<or> mk_yeardays y + yday < 0
     \<or> (TIME_MAX - seconds) sdiv 86400 < day"

definition mk_seconds :: "tm \<Rightarrow> (u32 \<times> tm) option" where
  "mk_seconds t =
     (let year = tm_year t + 1900 in do {
        m \<leftarrow> mk_monthdays (LEAPYEAR year) (nat (tm_mon t));
        let yday = m + (tm_mday t - 1);
        let day = mk_yeardays year + yday;
        let t = t\<lparr>tm_yday := yday, tm_wday := (day + 4) smod 7\<rparr>;
        let clock = (tm_hour t * 60 + tm_min t) * 60 + tm_sec t;
        let seconds = clock + day * 86400;
        let overflow1 = mk_overflow year yday day clock;
        let overflow2 = ((c_timezone > 0 \<and> TIME_MAX - c_timezone < seconds)
                       \<or> (c_timezone < 0 \<and> seconds < - c_timezone));
        let seconds = seconds + c_timezone;
        let dst = (if tm_isdst t \<noteq> 0 then c_dstbias else 0);
        let overflow3 = dst > seconds;
        let seconds = seconds - dst;
        if overflow1 \<or> overflow2 \<or> overflow3 then Some (-1, t)
        else Some (word_of_int seconds, t)
      })"

definition mktime :: "tm \<Rightarrow> (u32 \<times> tm) option" where
  "mktime tmbuf =
     (let (day, t) = mk_carry tmbuf in do {
        (day, t) \<leftarrow> mk_back day t;
        (day, t) \<leftarrow> mk_forward day t;
        let t = t\<lparr>tm_mday := day + 1\<rparr>;
        if tm_year t < 1970 - 1900 then Some (-1, t) else mk_seconds t
      })"

section \<open>Dates of the firmware\<close>

record DATE_TIME =
  dt_year :: int
  dt_month :: int
  dt_mday :: int
  dt_wday :: int
  dt_hour :: int
  dt_min :: int
  dt_sec :: int

definition tm_blank :: tm where
  "tm_blank = \<lparr>tm_sec = 0, tm_min = 0, tm_hour = 0, tm_mday = 0, tm_mon = 0, tm_year = 0,
     tm_wday = 0, tm_yday = 0, tm_isdst = 0\<rparr>"

text \<open>The copy both directions make; \<open>None\<close> is their early \<open>return 0\<close> on an invalid date.\<close>

definition date_to_tm :: "DATE_TIME \<Rightarrow> tm option" where
  "date_to_tm t =
     (if \<not> (1 \<le> dt_month t \<and> dt_month t \<le> 12) then None
      else if \<not> (2012 \<le> dt_year t \<and> dt_year t \<le> 2099) then None
      else Some (tm_blank\<lparr>tm_sec := dt_sec t, tm_min := dt_min t, tm_hour := dt_hour t,
             tm_mday := dt_mday t, tm_wday := dt_wday t, tm_mon := dt_month t - 1,
             tm_year := dt_year t - 1900, tm_isdst := 0\<rparr>))"

definition tm_to_date :: "tm \<Rightarrow> DATE_TIME \<Rightarrow> DATE_TIME" where
  "tm_to_date m t = t\<lparr>dt_sec := tm_sec m, dt_min := tm_min m, dt_hour := tm_hour m, dt_mday := tm_mday m,
     dt_wday := tm_wday m + 1, dt_month := tm_mon m + 1, dt_year := tm_year m + 1900\<rparr>"

definition TIME_GetSec :: "DATE_TIME option \<Rightarrow> int option" where
  "TIME_GetSec t =
     (case t of None \<Rightarrow> Some (-1)
      | Some t \<Rightarrow> (case date_to_tm t of None \<Rightarrow> Some 0
                  | Some m \<Rightarrow> do { (s, _) \<leftarrow> mktime m; Some (sint s) }))"

definition TIME_FromSec :: "DATE_TIME option \<Rightarrow> int \<Rightarrow> (int \<times> DATE_TIME option) option" where
  "TIME_FromSec t sec =
     (case t of None \<Rightarrow> Some (-1, None)
      | Some t \<Rightarrow> do {
          m \<leftarrow> gmtime_r (word_of_int sec) tm_blank;
          Some (0, Some (tm_to_date m t))
        })"

definition TIME_AddSec :: "DATE_TIME option \<Rightarrow> int \<Rightarrow> (int \<times> DATE_TIME option) option" where
  "TIME_AddSec t sec =
     (case t of None \<Rightarrow> Some (-1, None)
      | Some _ \<Rightarrow>
          if sec = 0 then Some (0, t)
          else do {
            s \<leftarrow> TIME_GetSec t;
            (_, t) \<leftarrow> TIME_FromSec t (s + sec);
            Some (0, t)
          })"

definition TIME_FromGsm :: "u32 \<Rightarrow> DATE_TIME \<Rightarrow> DATE_TIME \<Rightarrow> (int \<times> DATE_TIME) option" where
  "TIME_FromGsm timeZone t time =
     (case date_to_tm time of None \<Rightarrow> Some (0, t)
      | Some m \<Rightarrow> do {
          (tt, m) \<leftarrow> mktime m;
          m \<leftarrow> gmtime_r (tt + timeZone) m;
          Some (0, tm_to_date m t)
        })"

record rtc =
  rtcTimeSec :: u32
  rtcUpdateFlag :: u32
  rtcUpdateCnt :: u32
  sysTime :: DATE_TIME

definition SysTimeSetup :: "rtc \<Rightarrow> rtc option" where
  "SysTimeSetup s = do {
     let t = (sysTime s)\<lparr>dt_hour := 18, dt_min := 15, dt_sec := 0, dt_year := 2014, dt_month := 4, dt_mday := 19\<rparr>;
     sec \<leftarrow> TIME_GetSec (Some t);
     Some (s\<lparr>sysTime := t, rtcTimeSec := word_of_int sec\<rparr>)
   }"

definition UpdateRtcTime :: "rtc \<Rightarrow> u32 \<Rightarrow> rtc" where
  "UpdateRtcTime s updateTimeSec =
     (let s = (if rtcTimeSec s < updateTimeSec then
                 (if updateTimeSec - rtcTimeSec s \<ge> 10 then s\<lparr>rtcUpdateFlag := 1\<rparr> else s)
               else if rtcTimeSec s - updateTimeSec \<ge> 10 then s\<lparr>rtcUpdateFlag := 1\<rparr>
               else s)
      in s\<lparr>rtcUpdateCnt := updateTimeSec\<rparr>)"

section \<open>The calendar\<close>

lemma year_step_all:
  "list_all (\<lambda>y. mk_yeardays (y + 1) = mk_yeardays y + YEARSIZE y) [1970..2110]"
  by code_simp

lemma year_step:
  "1970 \<le> y \<Longrightarrow> y \<le> 2110 \<Longrightarrow> mk_yeardays (y + 1) = mk_yeardays y + YEARSIZE y"
proof -
  assume "1970 \<le> y" "y \<le> 2110"
  then have "y \<in> set [1970..2110]" by (simp only: set_upto atLeastAtMost_iff)
  with year_step_all show ?thesis unfolding list_all_iff by (rule bspec)
qed

lemma YEARSIZE_bounds: "365 \<le> YEARSIZE y" "YEARSIZE y \<le> 366"
  by (simp_all add: YEARSIZE_def)

declare gm_year.simps [simp del]

lemma gm_year_spec:
  "0 \<le> d \<Longrightarrow> 1970 \<le> y \<Longrightarrow> 365 * (y - 1970) + d \<le> 50000 \<Longrightarrow> gm_year d y = (d', y') \<Longrightarrow>
   mk_yeardays y' + d' = mk_yeardays y + d \<and> 0 \<le> d' \<and> d' < YEARSIZE y' \<and> 1970 \<le> y' \<and> y' \<le> 2110"
proof (induction d y arbitrary: d' y' rule: gm_year.induct)
  case (1 d y)
  have y: "y \<le> 2110" using 1(2-4) by simp
  show ?case
  proof (cases "d \<ge> YEARSIZE y")
    case True
    then have "gm_year (d - YEARSIZE y) (y + 1) = (d', y')"
      using 1(5) by (simp add: gm_year.simps [of d y])
    from 1(1) [OF True _ _ _ this] True 1(2-4) y YEARSIZE_bounds [of y] year_step [of y]
    show ?thesis by simp
  next
    case False
    then show ?thesis using 1 y by (simp add: gm_year.simps [of d y])
  qed
qed

lemma ytab_month: "m < 12 \<Longrightarrow> ytab leap (int m) = Some (month_days leap ! m)"
  by (simp add: ytab_def rd_def month_days_def)

lemma month_days_pos: "m < 12 \<Longrightarrow> 28 \<le> month_days leap ! m \<and> month_days leap ! m \<le> 31"
proof -
  assume "m < 12"
  then have "month_days leap ! m \<in> set (month_days leap)"
    by (intro nth_mem) (simp add: month_days_def)
  then show ?thesis by (auto simp: month_days_def split: if_splits)
qed

lemma monthdays_year: "mk_monthdays leap 12 = Some (if leap then 366 else 365)"
  by (simp add: numeral_eq_Suc ytab_def rd_def month_days_def)

lemma gm_month_spec:
  "mk_monthdays leap m = Some a \<Longrightarrow> 0 \<le> d \<Longrightarrow> a + d < (if leap then 366 else 365) \<Longrightarrow> m \<le> 12 \<Longrightarrow>
   \<exists>d' m' a'. gm_month leap d (int m) = Some (d', int m') \<and> m' < 12 \<and> mk_monthdays leap m' = Some a'
     \<and> a' + d' = a + d \<and> 0 \<le> d' \<and> d' < month_days leap ! m'"
proof (induction "12 - m" arbitrary: m a d)
  case 0
  then have "m = 12" by simp
  with 0 monthdays_year [of leap] show ?case by (auto split: if_splits)
next
  case (Suc k)
  then have m: "m < 12" by simp
  let ?n = "month_days leap ! m"
  show ?case
  proof (cases "d \<ge> ?n")
    case True
    have a: "mk_monthdays leap (Suc m) = Some (a + ?n)" using Suc.prems(1) ytab_month [OF m] by simp
    have "\<exists>d' m' a'. gm_month leap (d - ?n) (int (Suc m)) = Some (d', int m') \<and> m' < 12
        \<and> mk_monthdays leap m' = Some a' \<and> a' + d' = a + ?n + (d - ?n) \<and> 0 \<le> d' \<and> d' < month_days leap ! m'"
      using Suc.hyps(2) True Suc.prems m by (intro Suc.hyps(1) [OF _ a]) auto
    moreover have "gm_month leap d (int m) = gm_month leap (d - ?n) (int (Suc m))"
      using True ytab_month [OF m] by (subst gm_month.simps) (simp add: add.commute)
    ultimately show ?thesis by auto
  next
    case False
    then have "gm_month leap d (int m) = Some (d, int m)"
      using ytab_month [OF m] by (subst gm_month.simps) simp
    with Suc.prems m False show ?thesis by auto
  qed
qed

text \<open>What \<open>gmtime_r\<close> stores: a date in range whose day number and clock are those of the time.\<close>

definition civil_at :: "u32 \<Rightarrow> tm \<Rightarrow> int \<Rightarrow> bool" where
  "civil_at t m yday \<longleftrightarrow> 0 \<le> tm_sec m \<and> tm_sec m < 60 \<and> 0 \<le> tm_min m \<and> tm_min m < 60
     \<and> 0 \<le> tm_hour m \<and> tm_hour m < 24 \<and> 0 \<le> tm_mon m \<and> tm_mon m < 12 \<and> 1 \<le> tm_mday m
     \<and> tm_mday m \<le> month_days (LEAPYEAR (tm_year m + 1900)) ! nat (tm_mon m)
     \<and> 70 \<le> tm_year m \<and> tm_year m \<le> 210 \<and> tm_isdst m = 0
     \<and> mk_monthdays (LEAPYEAR (tm_year m + 1900)) (nat (tm_mon m)) = Some (yday - (tm_mday m - 1))
     \<and> 0 \<le> mk_yeardays (tm_year m + 1900) + yday \<and> 0 \<le> yday \<and> yday < YEARSIZE (tm_year m + 1900)
     \<and> (tm_hour m * 60 + tm_min m) * 60 + tm_sec m + 86400 * (mk_yeardays (tm_year m + 1900) + yday)
        = uint t"

definition civil :: "u32 \<Rightarrow> tm \<Rightarrow> bool" where
  "civil t m \<longleftrightarrow> civil_at t m (tm_yday m)
     \<and> tm_wday m = (mk_yeardays (tm_year m + 1900) + tm_yday m + 4) mod 7"

lemma u32_uint_bound: "uint (t :: u32) < 4294967296"
  using unsigned_less [of t, where 'a = int] by simp

lemma clock_parts:
  "0 \<le> (s :: int) \<Longrightarrow> s < 86400 \<Longrightarrow> (s div 3600 * 60 + s mod 3600 div 60) * 60 + s mod 60 = s"
proof -
  have "s mod 60 = s mod 3600 mod 60" by (simp add: mod_mod_cancel)
  then show ?thesis by (simp add: algebra_simps)
qed

lemma civil_make:
  assumes "0 \<le> S" "S < 60" "0 \<le> M" "M < 60" "0 \<le> H" "H < 24" "m < 12"
    and "0 \<le> d" "d < month_days (LEAPYEAR y) ! m" "1970 \<le> y" "y \<le> 2110"
    and "mk_monthdays (LEAPYEAR y) m = Some a" "a + d = yday" "mk_yeardays y + yday = D" "0 \<le> D"
    and "0 \<le> yday" "yday < YEARSIZE y" "(H * 60 + M) * 60 + S + 86400 * D = uint t"
  shows "civil t (b\<lparr>tm_sec := S, tm_min := M, tm_hour := H, tm_wday := (D + 4) mod 7,
    tm_year := y - 1900, tm_yday := yday, tm_mon := int m, tm_mday := d + 1, tm_isdst := 0\<rparr>)"
  using assms by (auto simp: civil_def civil_at_def)

lemma gmtime_r_civil: "\<exists>m. gmtime_r t b = Some m \<and> civil t m"
proof -
  let ?s = "uint t mod 86400" and ?D = "uint t div 86400"
  obtain yday y where y: "gm_year ?D 1970 = (yday, y)" by fastforce
  have D: "0 \<le> ?D" "?D \<le> 50000" using u32_uint_bound [of t] by (simp_all add: pos_imp_zdiv_nonneg_iff)
  from gm_year_spec [OF D(1) _ _ y] D(2)
  have yd: "mk_yeardays y + yday = ?D" "0 \<le> yday" "yday < YEARSIZE y" "1970 \<le> y" "y \<le> 2110"
    by (simp_all add: mk_yeardays_def)
  then have "yday < (if LEAPYEAR y then 366 else 365)" by (simp add: YEARSIZE_def)
  with gm_month_spec [of "LEAPYEAR y" 0 0 yday] yd(2) obtain d m a where
    dm: "gm_month (LEAPYEAR y) yday 0 = Some (d, int m)" "m < 12"
      "mk_monthdays (LEAPYEAR y) m = Some a" "a + d = yday" "0 \<le> d" "d < month_days (LEAPYEAR y) ! m"
    by auto
  let ?m = "b\<lparr>tm_sec := ?s mod 60, tm_min := (?s mod 3600) div 60, tm_hour := ?s div 3600,
    tm_wday := (?D + 4) mod 7, tm_year := y - 1900, tm_yday := yday, tm_mon := int m,
    tm_mday := d + 1, tm_isdst := 0\<rparr>"
  have e: "gmtime_r t b = Some ?m" by (simp add: gmtime_r_def Let_def y dm(1))
  have s: "0 \<le> ?s" "?s < 86400" by simp_all
  have hms: "0 \<le> ?s mod 60" "?s mod 60 < 60" "0 \<le> ?s mod 3600 div 60" "0 \<le> ?s div 3600"
    by (simp_all add: pos_imp_zdiv_nonneg_iff)
  have m: "?s mod 3600 div 60 < 60"
    using pos_mod_bound [of 3600 ?s] zdiv_mono1 [of "?s mod 3600" 3599 60] by simp
  have h: "?s div 3600 < 24" using zdiv_mono1 [of ?s 86399 3600] s by simp
  have clk: "(?s div 3600 * 60 + ?s mod 3600 div 60) * 60 + ?s mod 60 + 86400 * ?D = uint t"
    unfolding clock_parts [OF s] by (rule mod_mult_div_eq)
  have "civil t ?m"
    using hms(1,2,3) m hms(4) h dm(2) dm(5,6) yd(4,5) dm(3,4) yd(1) D(1) yd(2,3) clk by (rule civil_make)
  with e show ?thesis by blast
qed

lemma sdiv_small: "0 \<le> a \<Longrightarrow> a < n \<Longrightarrow> a sdiv n = (0 :: int)"
  by (cases "a = 0") (simp_all add: signed_divide_int_def)

lemma smod_small: "0 \<le> a \<Longrightarrow> a < n \<Longrightarrow> a smod n = (a :: int)"
  by (cases "a = 0") (simp_all add: signed_modulo_int_def)

lemma sdiv_nonneg: "0 \<le> a \<Longrightarrow> 0 < n \<Longrightarrow> a sdiv n = (a div n :: int)"
  by (cases "a = 0") (simp_all add: signed_divide_int_def)

lemma smod_nonneg: "0 \<le> a \<Longrightarrow> 0 < n \<Longrightarrow> a smod n = (a mod n :: int)"
  by (cases "a = 0") (simp_all add: signed_modulo_int_def)

lemma mk_carry_civil: "civil_at t m yday \<Longrightarrow> mk_carry m = (tm_mday m - 1, m)"
  by (simp add: mk_carry_def civil_at_def sdiv_small smod_small Let_def)

lemma mk_back_civil: "civil_at t m yday \<Longrightarrow> mk_back (tm_mday m - 1) m = Some (tm_mday m - 1, m)"
  by (subst mk_back.simps) (simp add: civil_at_def)

lemma mk_forward_civil:
  assumes "civil_at t m yday" shows "mk_forward (tm_mday m - 1) m = Some (tm_mday m - 1, m)"
proof -
  have "ytab (LEAPYEAR (1900 + tm_year m)) (tm_mon m) =
      Some (month_days (LEAPYEAR (tm_year m + 1900)) ! nat (tm_mon m))"
  proof -
    have "nat (tm_mon m) < 12" "0 \<le> tm_mon m" using assms by (simp_all add: civil_at_def nat_less_iff)
    then show ?thesis using ytab_month [of "nat (tm_mon m)"] by (simp add: add.commute)
  qed
  then show ?thesis using assms by (subst mk_forward.simps) (simp add: civil_at_def)
qed

lemma year_overflow_free:
  "70 \<le> y \<Longrightarrow> y \<le> 210 \<Longrightarrow> \<not> TIME_MAX sdiv 365 < y + 1900 - 1970
     \<and> \<not> TIME_MAX - (y + 1900 - 1970) * 365 < (y + 1900 - 1970) sdiv 4 + 1"
proof -
  assume y: "70 \<le> y" "y \<le> 210"
  then have "(y + 1900 - 1970) sdiv 4 = (y - 70) div 4" by (subst sdiv_nonneg) auto
  moreover have "(y - 70) div 4 \<le> 35" using zdiv_mono1 [of "y - 70" 140 4] y by simp
  ultimately show ?thesis using y by (simp add: TIME_MAX_def sdiv_nonneg)
qed

lemma mk_overflow_civil:
  assumes "70 \<le> y" "y \<le> 210" "0 \<le> mk_yeardays (y + 1900) + yd" "0 \<le> clock" "clock < 86400"
  shows "mk_overflow (y + 1900) yd (mk_yeardays (y + 1900) + yd) clock \<longleftrightarrow>
    TIME_MAX < clock + 86400 * (mk_yeardays (y + 1900) + yd)"
proof -
  have "(TIME_MAX - clock) sdiv 86400 = (TIME_MAX - clock) div 86400"
    using assms by (intro sdiv_nonneg) (simp_all add: TIME_MAX_def)
  then have "(TIME_MAX - clock) sdiv 86400 < D \<longleftrightarrow> TIME_MAX < clock + 86400 * D" for D
    using mult_div_mod_eq [of 86400 "TIME_MAX - clock"] pos_mod_bound [of 86400 "TIME_MAX - clock"]
      pos_mod_sign [of 86400 "TIME_MAX - clock"] by (auto simp only:)
  then show ?thesis
    using year_overflow_free [OF assms(1,2)] assms(3) by (simp add: mk_overflow_def)
qed

lemma mk_seconds_civil:
  assumes c: "civil_at t m yday"
  shows "mk_seconds m = Some (if uint t \<le> TIME_MAX then t else -1,
    m\<lparr>tm_yday := yday, tm_wday := (mk_yeardays (tm_year m + 1900) + yday + 4) mod 7\<rparr>)"
proof -
  let ?y = "tm_year m + 1900"
  define day where "day = mk_yeardays ?y + yday"
  define clock where "clock = (tm_hour m * 60 + tm_min m) * 60 + tm_sec m"
  have day: "0 \<le> day" and isd: "tm_isdst m = 0"
    and u: "clock + 86400 * day = uint t"
    and mo: "mk_monthdays (LEAPYEAR ?y) (nat (tm_mon m)) = Some (yday - (tm_mday m - 1))"
    using c by (simp_all add: civil_at_def day_def clock_def)
  have cl: "0 \<le> clock" "clock < 86400" using c by (simp_all add: civil_at_def clock_def)
  have ov: "mk_overflow ?y yday day clock \<longleftrightarrow> \<not> uint t \<le> TIME_MAX"
    using mk_overflow_civil [of "tm_year m" yday clock] c cl day u
    by (auto simp: civil_at_def day_def)
  have wd: "(day + 4) smod 7 = (day + 4) mod 7" using day by (simp add: smod_nonneg)
  let ?m = "m\<lparr>tm_yday := yday, tm_wday := (day + 4) mod 7\<rparr>"
  have "(word_of_int (uint t) :: u32) = t" by simp
  moreover have "mk_seconds m =
      (if mk_overflow ?y yday day clock \<or> clock + day * 86400 < 0 then Some (-1, ?m)
       else Some (word_of_int (clock + day * 86400), ?m))"
    using wd isd
    by (simp add: mk_seconds_def Let_def mo c_timezone_def c_dstbias_def day_def clock_def
        del: of_int_add of_int_mult)
  ultimately show ?thesis
    using u by (simp add: ov mult.commute [of day] day_def [symmetric])
qed

lemma mktime_civil:
  assumes "civil_at t m yday"
  shows "mktime m = Some (if uint t \<le> TIME_MAX then t else -1,
    m\<lparr>tm_yday := yday, tm_wday := (mk_yeardays (tm_year m + 1900) + yday + 4) mod 7\<rparr>)"
proof -
  have "70 \<le> tm_year m" using assms by (simp add: civil_at_def)
  then have "mktime m = mk_seconds m"
    by (simp add: mktime_def mk_carry_civil [OF assms] mk_back_civil [OF assms] mk_forward_civil [OF assms])
  then show ?thesis by (simp only: mk_seconds_civil [OF assms])
qed

section \<open>Properties of the time routines\<close>

text \<open>Property C33. \<open>mktime\<close> inverts \<open>gmtime_r\<close> on every time up to 2038-01-19 03:14:07, leaves
  the broken-down time as it is, and reports every later one as -1.\<close>

theorem mktime_gmtime_r:
  "\<exists>m. gmtime_r t b = Some m \<and> mktime m = Some (if uint t \<le> TIME_MAX then t else -1, m)"
proof -
  from gmtime_r_civil obtain m where m: "gmtime_r t b = Some m" "civil t m" by blast
  then have "civil_at t m (tm_yday m)" by (simp add: civil_def)
  from mktime_civil [OF this] m show ?thesis by (auto simp: civil_def)
qed

lemma year_range_all:
  "list_all (\<lambda>y. 86400 * (mk_yeardays y + YEARSIZE y) \<le> 1325376000) [1970..2011]"
  "list_all (\<lambda>y. TIME_MAX < 86400 * mk_yeardays y) [2039..2110]"
  by code_simp+

text \<open>2012-01-01 is second 1325376000: from there to 2038 the year is one the date routines accept.\<close>

lemma civil_year_range:
  assumes "civil_at t m yday" "1325376000 \<le> uint t" "uint t \<le> TIME_MAX"
  shows "112 \<le> tm_year m" "tm_year m \<le> 138"
proof -
  let ?y = "tm_year m + 1900"
  define clock where "clock = (tm_hour m * 60 + tm_min m) * 60 + tm_sec m"
  have cl: "0 \<le> clock" "clock < 86400" using assms(1) by (simp_all add: civil_at_def clock_def)
  have c: "70 \<le> tm_year m" "tm_year m \<le> 210" "0 \<le> yday" "yday < YEARSIZE ?y"
    "clock + 86400 * (mk_yeardays ?y + yday) = uint t"
    using assms(1) by (simp_all add: civil_at_def clock_def)
  show "112 \<le> tm_year m"
  proof (rule ccontr)
    assume "\<not> 112 \<le> tm_year m"
    then have "?y \<in> set [1970..2011]" using c(1) by (simp only: set_upto atLeastAtMost_iff) simp
    with year_range_all(1) have "86400 * (mk_yeardays ?y + YEARSIZE ?y) \<le> 1325376000"
      unfolding list_all_iff by (rule bspec)
    with c cl assms(2) show False by simp
  qed
  show "tm_year m \<le> 138"
  proof (rule ccontr)
    assume "\<not> tm_year m \<le> 138"
    then have "?y \<in> set [2039..2110]" using c(2) by (simp only: set_upto atLeastAtMost_iff) simp
    with year_range_all(2) have "TIME_MAX < 86400 * mk_yeardays ?y"
      unfolding list_all_iff by (rule bspec)
    with c cl assms(3) show False by simp
  qed
qed

lemma date_to_tm_of_tm:
  assumes "civil t m" "112 \<le> tm_year m" "tm_year m \<le> 199"
  shows "date_to_tm (tm_to_date m d) = Some (m\<lparr>tm_wday := tm_wday m + 1, tm_yday := 0\<rparr>)"
  using assms by (simp add: date_to_tm_def tm_to_date_def tm_blank_def civil_def civil_at_def)

lemma civil_at_ignores: "civil_at t (m\<lparr>tm_wday := w, tm_yday := v\<rparr>) yday = civil_at t m yday"
  by (simp add: civil_at_def)

lemma uint_word_of_int_u32: "0 \<le> s \<Longrightarrow> s \<le> TIME_MAX \<Longrightarrow> uint (word_of_int s :: u32) = s"
  by (simp add: TIME_MAX_def uint_word_of_int take_bit_int_eq_self)

lemma sint_word_of_int_u32: "0 \<le> s \<Longrightarrow> s \<le> TIME_MAX \<Longrightarrow> sint (word_of_int s :: u32) = s"
  by (simp add: TIME_MAX_def sint_uint uint_word_of_int take_bit_int_eq_self
      signed_take_bit_int_eq_self)

text \<open>A date that stands for second \<open>s\<close>.\<close>

definition stands_for :: "DATE_TIME \<Rightarrow> int \<Rightarrow> bool" where
  "stands_for d s \<longleftrightarrow> (\<exists>m d0. gmtime_r (word_of_int s) tm_blank = Some m \<and> d = tm_to_date m d0)"

lemma TIME_GetSec_stands_for:
  assumes "stands_for d s" "1325376000 \<le> s" "s \<le> TIME_MAX"
  shows "TIME_GetSec (Some d) = Some s"
proof -
  from assms(1) obtain m d0 where m: "gmtime_r (word_of_int s) tm_blank = Some m" "d = tm_to_date m d0"
    by (auto simp: stands_for_def)
  with gmtime_r_civil [of "word_of_int s" tm_blank] have c: "civil (word_of_int s) m" by auto
  then have c': "civil_at (word_of_int s) m (tm_yday m)" by (simp add: civil_def)
  have u: "uint (word_of_int s :: u32) = s" using assms by (intro uint_word_of_int_u32) auto
  have "112 \<le> tm_year m" "tm_year m \<le> 138"
    using civil_year_range [OF c'] assms u by simp_all
  then have "date_to_tm d = Some (m\<lparr>tm_wday := tm_wday m + 1, tm_yday := 0\<rparr>)"
    unfolding m(2) by (intro date_to_tm_of_tm [OF c]) auto
  moreover have "mktime (m\<lparr>tm_wday := tm_wday m + 1, tm_yday := 0\<rparr>) =
      Some (word_of_int s, m\<lparr>tm_wday := (mk_yeardays (tm_year m + 1900) + tm_yday m + 4) mod 7\<rparr>)"
    using mktime_civil [of "word_of_int s" "m\<lparr>tm_wday := tm_wday m + 1, tm_yday := 0\<rparr>" "tm_yday m"]
      c' u assms by (simp add: civil_at_ignores)
  ultimately show ?thesis
    using assms by (simp add: TIME_GetSec_def sint_word_of_int_u32)
qed

text \<open>\<open>TIME_AddSec\<close> moves a date of the years 2012 to 2037 by the given seconds:
  the new date stands for the sum, and \<open>TIME_GetSec\<close> reads the sum back.\<close>

theorem TIME_AddSec_adds:
  assumes "stands_for d s" "1325376000 \<le> s" "s \<le> TIME_MAX" "1325376000 \<le> s + n" "s + n \<le> TIME_MAX"
  shows "\<exists>d'. TIME_AddSec (Some d) n = Some (0, Some d') \<and> stands_for d' (s + n)
    \<and> TIME_GetSec (Some d') = Some (s + n)"
proof (cases "n = 0")
  case True
  with assms TIME_GetSec_stands_for [OF assms(1-3)] show ?thesis by (simp add: TIME_AddSec_def)
next
  case False
  from gmtime_r_civil obtain m where m: "gmtime_r (word_of_int (s + n)) tm_blank = Some m" by blast
  then have st: "stands_for (tm_to_date m d) (s + n)" by (auto simp: stands_for_def)
  have "TIME_AddSec (Some d) n = Some (0, Some (tm_to_date m d))"
    using False m TIME_GetSec_stands_for [OF assms(1-3)]
    by (simp add: TIME_AddSec_def TIME_FromSec_def del: of_int_add)
  with st TIME_GetSec_stands_for [OF st assms(4,5)] show ?thesis by blast
qed

lemma smod_numeral:
  "(numeral a :: int) smod numeral b = numeral a mod numeral b"
  by (simp add: smod_nonneg)

lemma demo_gmtime:
  "gmtime_r 1400000000 tm_blank = Some \<lparr>tm_sec = 20, tm_min = 53, tm_hour = 16, tm_mday = 13,
     tm_mon = 4, tm_year = 114, tm_wday = 2, tm_yday = 132, tm_isdst = 0\<rparr>"
  by (simp add: gmtime_r_def gm_year.simps gm_month.simps YEARSIZE_def LEAPYEAR_def smod_numeral
      ytab_def rd_def month_days_def tm_blank_def)

lemma TIME_AddSec_adds_witness:
  "\<exists>d'. TIME_AddSec (Some \<lparr>dt_year = 2014, dt_month = 5, dt_mday = 13, dt_wday = 3, dt_hour = 16,
      dt_min = 53, dt_sec = 20\<rparr>) 86400 = Some (0, Some d')
    \<and> stands_for d' 1400086400 \<and> TIME_GetSec (Some d') = Some 1400086400"
proof -
  have "stands_for \<lparr>dt_year = 2014, dt_month = 5, dt_mday = 13, dt_wday = 3, dt_hour = 16,
      dt_min = 53, dt_sec = 20\<rparr> 1400000000"
    unfolding stands_for_def
    by (rule exI [of _ "\<lparr>tm_sec = 20, tm_min = 53, tm_hour = 16, tm_mday = 13,
          tm_mon = 4, tm_year = 114, tm_wday = 2, tm_yday = 132, tm_isdst = 0\<rparr>"],
        rule exI [of _ "\<lparr>dt_year = 0, dt_month = 0, dt_mday = 0, dt_wday = 0,
        dt_hour = 0, dt_min = 0, dt_sec = 0\<rparr>"]) (simp add: demo_gmtime tm_to_date_def)
  from TIME_AddSec_adds [OF this, of 86400] show ?thesis by (simp add: TIME_MAX_def)
qed

end
