(* ===== verification/Pdu.thy ===== *)
theory Pdu
  imports MTime
begin

text \<open>
  The SMS message format of \<open>ampm_lib/ampm_gsm/sms/pdu.c\<close>: septets packed into octets,
  telephone numbers as swapped digit pairs, and the encoders and the decoder of a whole
  message.  A pointer into the output buffer is the buffer with an offset.
\<close>

definition SwapDecimalNibble :: "u8 \<Rightarrow> u8" where
  "SwapDecimalNibble x = x div 16 + (x mod 16) * 10"

section \<open>Septets\<close>

text \<open>The loop of \<open>EncodePDUMessage\<close> with the final values of \<open>i\<close>,
  \<open>output_buffer_length\<close> and \<open>carry_on_bits\<close>.\<close>

function EncodePDU_loop ::
  "bytes \<Rightarrow> nat \<Rightarrow> nat \<Rightarrow> nat \<Rightarrow> nat \<Rightarrow> nat \<Rightarrow> bytes \<Rightarrow> (nat \<times> nat \<times> nat \<times> bytes) option" where
  "EncodePDU_loop sms n base i k carry out =
     (if i + 1 < n then do {
        a \<leftarrow> rd sms i;
        b \<leftarrow> rd sms (i + 1);
        out \<leftarrow> wr out (base + k) (drop_bit (carry - 1) (a AND 0x7F) OR push_bit (8 - carry) (b AND 0x7F));
        if carry + 1 = 8 then EncodePDU_loop sms n base (i + 2) (k + 1) 1 out
        else EncodePDU_loop sms n base (i + 1) (k + 1) (carry + 1) out
      }
      else Some (i, k, carry, out))"
  by pat_completeness auto
termination by (relation "measure (\<lambda>(sms, n, base, i, k, carry, out). n - i)") auto

declare EncodePDU_loop.simps [simp del]

definition EncodePDUMessage :: "bytes \<Rightarrow> nat \<Rightarrow> bytes \<Rightarrow> nat \<Rightarrow> int \<Rightarrow> (int \<times> bytes) option" where
  "EncodePDUMessage sms_text sms_text_length out base buffer_size =
     (if int ((sms_text_length * 7 + 7) div 8) > buffer_size then Some (-1, out)
      else do {
        (i, k, carry, out) \<leftarrow> EncodePDU_loop sms_text sms_text_length base 0 0 1 out;
        if i \<le> sms_text_length then do {
          c \<leftarrow> rd sms_text i;
          out \<leftarrow> wr out (base + k) (drop_bit (carry - 1) (c AND 0x7F));
          Some (int k + 1, out)
        }
        else Some (int k, out)
      })"

text \<open>The loop of \<open>DecodePDUMessage\<close>: \<open>i\<close>, \<open>output_text_length\<close> and
  \<open>carry_on_bits\<close> where it ends.\<close>

function DecodePDU_loop ::
  "bytes \<Rightarrow> nat \<Rightarrow> nat \<Rightarrow> nat \<Rightarrow> nat \<Rightarrow> nat \<Rightarrow> nat \<Rightarrow> bytes \<Rightarrow> (nat \<times> nat \<times> nat \<times> bytes) option" where
  "DecodePDU_loop buf base n m i k carry out =
     (if i < n then do {
        a \<leftarrow> rd buf (base + i);
        b \<leftarrow> rd buf (base + i - 1);
        out \<leftarrow> wr out k (0x7F AND (push_bit carry a OR drop_bit (8 - carry) b));
        if k + 1 = m then Some (i, k + 1, carry, out)
        else if carry + 1 = 8 then do {
          out \<leftarrow> wr out (k + 1) (a AND 0x7F);
          if k + 2 = m then Some (i, k + 2, 1, out)
          else DecodePDU_loop buf base n m (i + 1) (k + 2) 1 out
        }
        else DecodePDU_loop buf base n m (i + 1) (k + 1) (carry + 1) out
      }
      else Some (i, k, carry, out))"
  by pat_completeness auto
termination by (relation "measure (\<lambda>(buf, base, n, m, i, k, carry, out). n - i)") auto

declare DecodePDU_loop.simps [simp del]

definition DecodePDUMessage :: "bytes \<Rightarrow> nat \<Rightarrow> int \<Rightarrow> bytes \<Rightarrow> nat \<Rightarrow> (int \<times> bytes) option" where
  "DecodePDUMessage buf base buffer_length out sms_text_length = do {
     (k, out) \<leftarrow> (if buffer_length > 0 then do {
                    a \<leftarrow> rd buf base;
                    out \<leftarrow> wr out 0 (0x7F AND a);
                    Some (1, out)
                  }
                  else Some (0, out));
     (i, k, carry, out) \<leftarrow> DecodePDU_loop buf base (nat buffer_length) sms_text_length 1 k 1 out;
     if k < sms_text_length then do {
       b \<leftarrow> rd buf (base + i - 1);
       out \<leftarrow> wr out k (drop_bit (8 - carry) b);
       Some (int k + 1, out)
     }
     else Some (int k, out)
   }"

section \<open>Telephone numbers\<close>

text \<open>The digits from position \<open>i\<close> on.  The check for a digit in the code can never fail.\<close>

fun EncodePhone_loop :: "bytes \<Rightarrow> nat \<Rightarrow> nat \<Rightarrow> nat \<Rightarrow> bytes \<Rightarrow> (nat \<times> bytes) option" where
  "EncodePhone_loop [] base i k out = Some (k, out)"
| "EncodePhone_loop (c # cs) base i k out =
     (if i mod 2 = 0 then do {
        out \<leftarrow> wr out (base + k) (0xF0 OR (c - 0x30));
        EncodePhone_loop cs base (i + 1) (k + 1) out
      }
      else do {
        x \<leftarrow> rd out (base + k - 1);
        out \<leftarrow> wr out (base + k - 1) ((x AND 0x0F) OR push_bit 4 (c - 0x30));
        EncodePhone_loop cs base (i + 1) k out
      })"

definition EncodePhoneNumber :: "bytes \<Rightarrow> bytes \<Rightarrow> nat \<Rightarrow> int \<Rightarrow> (int \<times> bytes) option" where
  "EncodePhoneNumber phone_number out base buffer_size = do {
     n \<leftarrow> strlen phone_number;
     if int ((n + 1) div 2) > buffer_size then Some (-1, out)
     else do {
       (k, out) \<leftarrow> EncodePhone_loop (cstr phone_number) base 0 0 out;
       Some (int k, out)
     }
   }"

fun DecodePhone_loop :: "bytes \<Rightarrow> nat \<Rightarrow> nat \<Rightarrow> nat \<Rightarrow> bytes \<Rightarrow> bytes option" where
  "DecodePhone_loop buf base i 0 out = Some out"
| "DecodePhone_loop buf base i (Suc n) out = do {
     b \<leftarrow> rd buf (base + i div 2);
     out \<leftarrow> wr out i ((if i mod 2 = 0 then b AND 0x0F else drop_bit 4 (b AND 0xF0)) + 0x30);
     DecodePhone_loop buf base (i + 1) n out
   }"

definition DecodePhoneNumber :: "bytes \<Rightarrow> nat \<Rightarrow> nat \<Rightarrow> bytes \<Rightarrow> (int \<times> bytes) option" where
  "DecodePhoneNumber buf base phone_number_length out = do {
     out \<leftarrow> DecodePhone_loop buf base 0 phone_number_length out;
     out \<leftarrow> wr out phone_number_length 0;
     Some (int phone_number_length, out)
   }"

section \<open>Messages\<close>

text \<open>
  Bytes stored one after the other.  The common part of the two encoders, up to the coding
  scheme: \<open>Inl\<close> is an early return, \<open>Inr\<close> the length written so far.
\<close>

fun wr_list :: "bytes \<Rightarrow> nat \<Rightarrow> bytes \<Rightarrow> bytes option" where
  "wr_list out i [] = Some out"
| "wr_list out i (x # xs) = do { out \<leftarrow> wr out i x; wr_list out (i + 1) xs }"

definition pdu_header ::
  "u8 \<Rightarrow> bytes option \<Rightarrow> bytes \<Rightarrow> bytes \<Rightarrow> int \<Rightarrow> ((int + nat) \<times> bytes) option" where
  "pdu_header dcs center phone_number out buffer_size =
     (if buffer_size < 2 then Some (Inl (-1), out)
      else do {
        n \<leftarrow> (case center of None \<Rightarrow> Some 0 | Some t \<Rightarrow> strlen t);
        (len, out) \<leftarrow> (case center of
            Some t \<Rightarrow>
              (if n > 0 then do {
                 out \<leftarrow> wr out 1 0x91;
                 (l, out) \<leftarrow> EncodePhoneNumber t out 2 (buffer_size - 2);
                 Some (l + 1, out)
               }
               else Some (0, out))
          | None \<Rightarrow> Some (0, out));
        out \<leftarrow> wr out 0 (word_of_int len);
        let obl = nat (len + 1);
        if int obl + 4 > buffer_size then Some (Inl (-1), out)
        else do {
          out \<leftarrow> wr_list out obl [0x11, 0x00];
          let obl = obl + 2;
          m \<leftarrow> strlen phone_number;
          out \<leftarrow> wr_list out obl [of_nat m, 0x91];
          (l, out) \<leftarrow> EncodePhoneNumber phone_number out (obl + 2) (buffer_size - int obl - 2);
          let obl = nat (int obl + l + 2);
          if int obl + 4 > buffer_size then Some (Inl (-1), out)
          else do {
            out \<leftarrow> wr_list out obl [0x00, dcs, 0xB0];
            Some (Inr (obl + 3), out)
          }
        }
      })"

definition pdu_encode ::
  "bytes option \<Rightarrow> bytes \<Rightarrow> bytes \<Rightarrow> bytes \<Rightarrow> int \<Rightarrow> (int \<times> bytes) option" where
  "pdu_encode center phone_number sms_text out buffer_size = do {
     sms_text_length \<leftarrow> strlen sms_text;
     (r, out) \<leftarrow> pdu_header 0x00 center phone_number out buffer_size;
     case r of
       Inl e \<Rightarrow> Some (e, out)
     | Inr obl \<Rightarrow>
         (if sms_text_length > 160 then Some (-1, out)
          else do {
            out \<leftarrow> wr out obl (of_nat sms_text_length);
            let obl = obl + 1;
            (l, out) \<leftarrow> EncodePDUMessage sms_text sms_text_length out obl (buffer_size - int obl);
            if l < 0 then Some (-1, out) else Some (int obl + l, out)
          })
   }"

definition pdu16_encode ::
  "bytes option \<Rightarrow> bytes \<Rightarrow> bytes \<Rightarrow> u8 \<Rightarrow> bytes \<Rightarrow> int \<Rightarrow> (int \<times> bytes) option" where
  "pdu16_encode center phone_number sms_text sms_len out buffer_size = do {
     (r, out) \<leftarrow> pdu_header 0x08 center phone_number out buffer_size;
     case r of
       Inl e \<Rightarrow> Some (e, out)
     | Inr obl \<Rightarrow>
         (if unat sms_len > 160 then Some (-1, out)
          else do {
            out \<leftarrow> wr out obl sms_len;
            let obl = obl + 1;
            if length sms_text < unat sms_len then None
            else do {
              out \<leftarrow> wr_list out obl (take (unat sms_len) sms_text);
              Some (int obl + uint sms_len, out)
            }
          })
   }"

record pdu_result =
  sms_time :: "u32 option"
  sender_number :: bytes
  sms_text_out :: bytes

text \<open>\<open>stack\<close> is what the fields of the broken-down time that are not set hold; the
  result record holds the buffers the caller passes.\<close>

definition pdu_decode ::
  "tm \<Rightarrow> bytes \<Rightarrow> int \<Rightarrow> int \<Rightarrow> int \<Rightarrow> pdu_result \<Rightarrow> (int \<times> pdu_result) option" where
  "pdu_decode stack buf buffer_length number_size text_size res = do {
     b0 \<leftarrow> rd buf 0;
     let start = 1 + unat b0;
     if buffer_length \<le> 0 \<or> int start + 1 > buffer_length then Some (-1, res)
     else do {
       t \<leftarrow> rd buf start;
       if t AND 0x04 \<noteq> 0x04 then Some (-1, res)
       else do {
         l \<leftarrow> rd buf (start + 1);
         if uint l + 1 > number_size then Some (-1, res)
         else do {
           (k, number) \<leftarrow> DecodePhoneNumber buf (start + 3) (unat l) (sender_number res);
           let res = res\<lparr>sender_number := number\<rparr>;
           let pid = start + 3 + (unat l + 1) div 2;
           ye \<leftarrow> rd buf (pid + 2);
           mo \<leftarrow> rd buf (pid + 3);
           da \<leftarrow> rd buf (pid + 4);
           ho \<leftarrow> rd buf (pid + 5);
           mi \<leftarrow> rd buf (pid + 6);
           se \<leftarrow> rd buf (pid + 7);
           gm \<leftarrow> rd buf (pid + 8);
           let broken = stack\<lparr>tm_year := 100 + uint (SwapDecimalNibble ye), tm_mon := uint (SwapDecimalNibble mo) - 1,
             tm_mday := uint (SwapDecimalNibble da), tm_hour := uint (SwapDecimalNibble ho),
             tm_min := uint (SwapDecimalNibble mi), tm_sec := uint (SwapDecimalNibble se)\<rparr>;
           (time, broken) \<leftarrow> mktime broken;
           let res = res\<lparr>sms_time := Some (time - ucast (SwapDecimalNibble gm) * 15 * 60)\<rparr>;
           let sms_start = pid + 2 + 7;
           if int sms_start + 1 > buffer_length then Some (-1, res)
           else do {
             n \<leftarrow> rd buf sms_start;
             if text_size < uint n then Some (-1, res)
             else do {
               (k, out) \<leftarrow> DecodePDUMessage buf (sms_start + 1) (buffer_length - int (sms_start + 1)) (sms_text_out res) (unat n);
               let res = res\<lparr>sms_text_out := out\<rparr>;
               if k \<noteq> uint n then Some (-1, res)
               else do {
                 out \<leftarrow> wr out (if uint n < text_size then unat n else nat (text_size - 1)) 0;
                 Some (uint n, res\<lparr>sms_text_out := out\<rparr>)
               }
             }
           }
         }
       }
     }
   }"

end
