(* ===== verification/RingBuf.thy ===== *)
theory RingBuf
  imports Prelude
begin

text \<open>
  The ring buffer of \<open>ampm_lib/lib/ringbuf.c\<close>: one writer moves \<open>head\<close>, one reader
  moves \<open>tail\<close>, and one cell stays free so that \<open>head = tail\<close> means empty.  The
  locale \<open>byte_fifo\<close> is the contract its clients (packet queue, SMS index queue,
  GPS and GSM receive buffers) rely on; the model of the C code is its interpretation.
\<close>

section \<open>State and operations\<close>

record RINGBUF =
  rb_head :: u32
  rb_tail :: u32
  rb_size :: u32
  rb_pt :: bytes

text \<open>
  \<open>RINGBUF_Init\<close> takes the two pointers it checks as options; the structure is
  returned as it is after the call.
\<close>

definition RINGBUF_Init :: "RINGBUF option \<Rightarrow> bytes option \<Rightarrow> u32 \<Rightarrow> int \<times> RINGBUF option" where
  "RINGBUF_Init r buf sz =
     (case (r, buf) of
        (Some r', Some b) \<Rightarrow>
          if sz < 2 then (-1, r)
          else (0, Some (r'\<lparr>rb_pt := b, rb_head := 0, rb_tail := 0, rb_size := sz\<rparr>))
      | _ \<Rightarrow> (-1, r))"

definition RINGBUF_Put :: "RINGBUF \<Rightarrow> u8 \<Rightarrow> (int \<times> RINGBUF) option" where
  "RINGBUF_Put r c =
     (let temp = rb_head r + 1;
          temp = (if temp \<ge> rb_size r then 0 else temp)
      in if temp = rb_tail r then Some (-1, r)
         else do {
           p \<leftarrow> wr (rb_pt r) (unat (rb_head r)) c;
           Some (0, r\<lparr>rb_pt := p, rb_head := temp\<rparr>)
         })"

text \<open>The out parameter \<open>*c\<close> keeps its value when the buffer is empty.\<close>

definition RINGBUF_Get :: "RINGBUF \<Rightarrow> u8 \<Rightarrow> (int \<times> u8 \<times> RINGBUF) option" where
  "RINGBUF_Get r c =
     (if rb_tail r = rb_head r then Some (-1, c, r)
      else do {
        c' \<leftarrow> rd (rb_pt r) (unat (rb_tail r));
        let t = rb_tail r + 1;
        Some (0, c', r\<lparr>rb_tail := (if t \<ge> rb_size r then 0 else t)\<rparr>)
      })"

definition RINGBUF_GetFill :: "RINGBUF \<Rightarrow> u32" where
  "RINGBUF_GetFill r =
     (if rb_head r \<ge> rb_tail r then rb_head r - rb_tail r
      else rb_size r - rb_tail r + rb_head r)"

section \<open>Invariant and abstraction\<close>

definition rb_inv :: "RINGBUF \<Rightarrow> bool" where
  "rb_inv r \<longleftrightarrow> 2 \<le> rb_size r \<and> rb_head r < rb_size r \<and> rb_tail r < rb_size r
     \<and> unat (rb_size r) \<le> length (rb_pt r)"

definition rb_fill :: "RINGBUF \<Rightarrow> nat" where
  "rb_fill r =
     (unat (rb_head r) + unat (rb_size r) - unat (rb_tail r)) mod unat (rb_size r)"

definition rb_cap :: "RINGBUF \<Rightarrow> nat" where
  "rb_cap r = unat (rb_size r) - 1"

definition rb_list :: "RINGBUF \<Rightarrow> bytes" where
  "rb_list r =
     map (\<lambda>k. rb_pt r ! ((unat (rb_tail r) + k) mod unat (rb_size r))) [0..<rb_fill r]"

lemma rb_list_length [simp]: "length (rb_list r) = rb_fill r"
  by (simp add: rb_list_def)

lemma rb_inv_nat:
  assumes "rb_inv r"
  shows "unat (rb_head r) < unat (rb_size r)" "unat (rb_tail r) < unat (rb_size r)"
    "2 \<le> unat (rb_size r)" "unat (rb_size r) \<le> length (rb_pt r)"
  using assms by (auto simp: rb_inv_def word_less_nat_alt word_le_nat_alt)

text \<open>The wrapped successor of an index, on words and on naturals.\<close>

lemma wrap_next:
  assumes "i < sz"
  shows "unat (if i + 1 \<ge> sz then 0 else i + 1 :: u32) = Suc (unat i) mod unat sz"
proof -
  have S: "unat (i + 1) = Suc (unat i)" using assms by (rule unat_Suc_no_overflow)
  have "unat i < unat sz" using assms by (simp add: word_less_nat_alt)
  then show ?thesis
    by (cases "Suc (unat i) = unat sz") (auto simp: word_le_nat_alt S)
qed

lemma rb_fill_alt:
  assumes "rb_inv r"
  shows "rb_fill r =
    (if unat (rb_tail r) \<le> unat (rb_head r) then unat (rb_head r) - unat (rb_tail r)
     else unat (rb_size r) - unat (rb_tail r) + unat (rb_head r))"
proof (cases "unat (rb_tail r) \<le> unat (rb_head r)")
  case True
  with rb_inv_nat [OF assms] have "unat (rb_head r) + unat (rb_size r) - unat (rb_tail r)
      = (unat (rb_head r) - unat (rb_tail r)) + unat (rb_size r)" by simp
  then have "rb_fill r = (unat (rb_head r) - unat (rb_tail r)) mod unat (rb_size r)"
    unfolding rb_fill_def by (simp only: mod_add_self2)
  with True rb_inv_nat [OF assms] show ?thesis by simp
next
  case False
  with rb_inv_nat [OF assms] show ?thesis by (simp add: rb_fill_def)
qed

lemma rb_fill_le_cap: "rb_inv r \<Longrightarrow> rb_fill r \<le> rb_cap r"
  using rb_inv_nat [of r] by (auto simp: rb_fill_alt rb_cap_def)

lemma rb_empty_iff: "rb_inv r \<Longrightarrow> rb_tail r = rb_head r \<longleftrightarrow> rb_fill r = 0"
  using rb_inv_nat [of r] by (auto simp: rb_fill_alt word_unat_eq_iff)

section \<open>Functional correctness\<close>

lemma rb_index_eq_head:
  assumes "rb_inv r"
  shows "(unat (rb_tail r) + rb_fill r) mod unat (rb_size r) = unat (rb_head r)"
  using rb_inv_nat [OF assms] by (auto simp: rb_fill_alt [OF assms])

lemma rb_index_inj:
  assumes "rb_inv r" "k < rb_fill r"
  shows "(unat (rb_tail r) + k) mod unat (rb_size r) \<noteq> unat (rb_head r)"
proof -
  note b = rb_inv_nat [OF assms(1)]
  have "rb_fill r < unat (rb_size r)" using b by (simp add: rb_fill_def)
  with assms(2) b show ?thesis
    by (auto simp: rb_fill_alt [OF assms(1)] mod_if split: if_splits)
qed

lemma rb_next_tail_iff_full:
  assumes "rb_inv r"
  shows "(if rb_head r + 1 \<ge> rb_size r then 0 else rb_head r + 1) = rb_tail r
    \<longleftrightarrow> rb_fill r = rb_cap r"
proof -
  note b = rb_inv_nat [OF assms]
  have h: "rb_head r < rb_size r" using assms by (simp add: rb_inv_def)
  have "(if rb_head r + 1 \<ge> rb_size r then 0 else rb_head r + 1) = rb_tail r
      \<longleftrightarrow> Suc (unat (rb_head r)) mod unat (rb_size r) = unat (rb_tail r)"
    using wrap_next [OF h] by (simp add: word_unat_eq_iff)
  also have "\<dots> \<longleftrightarrow> rb_fill r = rb_cap r"
    using b by (auto simp: rb_fill_alt [OF assms] rb_cap_def mod_if split: if_splits)
  finally show ?thesis .
qed

lemma RINGBUF_Init_inv:
  assumes "RINGBUF_Init (Some r) (Some b) sz = (0, Some r')" and "unat sz \<le> length b"
  shows "rb_inv r' \<and> rb_list r' = [] \<and> rb_cap r' = unat sz - 1"
  using assms
  by (auto simp: RINGBUF_Init_def rb_inv_def rb_list_def rb_fill_def rb_cap_def
      word_less_nat_alt word_le_nat_alt split: if_splits)

lemma RINGBUF_Put_full:
  "rb_inv r \<Longrightarrow> rb_fill r = rb_cap r \<Longrightarrow> RINGBUF_Put r c = Some (-1, r)"
  by (simp add: RINGBUF_Put_def Let_def rb_next_tail_iff_full)

lemma rb_put_list:
  assumes inv: "rb_inv r" and room: "rb_fill r < rb_cap r"
    and r': "r' = r\<lparr>rb_pt := (rb_pt r)[unat (rb_head r) := c],
      rb_head := (if rb_head r + 1 \<ge> rb_size r then 0 else rb_head r + 1)\<rparr>"
  shows "rb_inv r' \<and> rb_list r' = rb_list r @ [c]"
proof -
  note b = rb_inv_nat [OF inv]
  have h: "rb_head r < rb_size r" using inv by (simp add: rb_inv_def)
  have hd': "unat (rb_head r') = Suc (unat (rb_head r)) mod unat (rb_size r)"
    using wrap_next [OF h] by (simp add: r')
  have "unat (rb_head r') < unat (rb_size r)" using b by (simp add: hd')
  then have inv': "rb_inv r'" using inv by (simp add: rb_inv_def r' word_less_nat_alt)
  have same: "rb_tail r' = rb_tail r" "rb_size r' = rb_size r" by (simp_all add: r')
  have fill: "rb_fill r' = Suc (rb_fill r)"
    using b room hd' same
    by (auto simp: rb_fill_alt [OF inv] rb_fill_alt [OF inv'] rb_cap_def mod_if split: if_splits)
  have "rb_list r' = map (\<lambda>k. rb_pt r' ! ((unat (rb_tail r) + k) mod unat (rb_size r)))
      ([0..<rb_fill r] @ [rb_fill r])"
    by (simp add: rb_list_def fill same)
  also have "\<dots> = rb_list r @ [c]"
    using b rb_index_inj [OF inv, symmetric]
    by (auto simp: rb_list_def r' rb_index_eq_head [OF inv])
  finally show ?thesis using inv' by simp
qed

lemma RINGBUF_Put_ok:
  assumes "rb_inv r" "rb_fill r < rb_cap r"
  shows "\<exists>r'. RINGBUF_Put r c = Some (0, r') \<and> rb_inv r' \<and> rb_list r' = rb_list r @ [c]
    \<and> rb_cap r' = rb_cap r"
proof -
  let ?t = "if rb_head r + 1 \<ge> rb_size r then 0 else rb_head r + 1"
  let ?r = "r\<lparr>rb_pt := (rb_pt r)[unat (rb_head r) := c], rb_head := ?t\<rparr>"
  from assms have "?t \<noteq> rb_tail r" using rb_next_tail_iff_full [OF assms(1)] by simp
  then have "RINGBUF_Put r c = Some (0, ?r)"
    using rb_inv_nat [OF assms(1)] by (simp add: RINGBUF_Put_def Let_def)
  with rb_put_list [OF assms refl] show ?thesis by (auto simp: rb_cap_def)
qed

lemma RINGBUF_Get_empty: "rb_inv r \<Longrightarrow> rb_list r = [] \<Longrightarrow> RINGBUF_Get r c = Some (-1, c, r)"
  using rb_empty_iff [of r] rb_list_length [of r] by (simp add: RINGBUF_Get_def)

lemma RINGBUF_Get_cons:
  assumes inv: "rb_inv r" and ne: "rb_list r = x # xs"
  shows "\<exists>r'. RINGBUF_Get r c = Some (0, x, r') \<and> rb_inv r' \<and> rb_list r' = xs
    \<and> rb_cap r' = rb_cap r"
proof -
  note b = rb_inv_nat [OF inv]
  let ?t = "if rb_tail r + 1 \<ge> rb_size r then 0 else rb_tail r + 1"
  let ?r = "r\<lparr>rb_tail := ?t\<rparr>"
  have t: "rb_tail r < rb_size r" using inv by (simp add: rb_inv_def)
  have tl': "unat ?t = Suc (unat (rb_tail r)) mod unat (rb_size r)" by (rule wrap_next [OF t])
  have fill: "rb_fill r = Suc (length xs)" using rb_list_length [of r] by (simp add: ne)
  then have "rb_tail r \<noteq> rb_head r" using rb_empty_iff [OF inv] by simp
  moreover have x: "rb_pt r ! unat (rb_tail r) = x"
    using ne b by (simp add: rb_list_def fill upt_conv_Cons del: upt_Suc)
  ultimately have "RINGBUF_Get r c = Some (0, x, ?r)"
    using b by (simp add: RINGBUF_Get_def Let_def)
  moreover have inv': "rb_inv ?r"
    using inv tl' b by (simp add: rb_inv_def word_less_nat_alt)
  moreover have fill': "rb_fill ?r = length xs"
    using b fill tl' by (auto simp: rb_fill_alt [OF inv] rb_fill_alt [OF inv'] mod_if split: if_splits)
  moreover have "rb_list ?r = xs"
  proof (rule nth_equalityI)
    fix k assume "k < length (rb_list ?r)"
    then have k: "k < length xs" by (simp add: fill')
    have "rb_list ?r ! k = rb_pt r ! ((Suc (unat (rb_tail r)) mod unat (rb_size r) + k)
        mod unat (rb_size r))"
      using k tl' by (simp add: rb_list_def fill')
    also have "\<dots> = rb_list r ! Suc k"
      using k fill by (simp add: rb_list_def mod_add_left_eq del: upt_Suc)
    finally show "rb_list ?r ! k = xs ! k" by (simp add: ne)
  qed (simp add: fill')
  ultimately show ?thesis by (auto simp: rb_cap_def)
qed

lemma RINGBUF_GetFill_correct:
  "rb_inv r \<Longrightarrow> unat (RINGBUF_GetFill r) = length (rb_list r)"
  using rb_inv_nat [of r] u32_bound [of "rb_size r"]
  by (auto simp: RINGBUF_GetFill_def rb_fill_alt word_le_nat_alt unat_sub_if' unat_plus_if')

section \<open>The contract of a bounded byte queue\<close>

text \<open>A client's calls in order, run on a queue and on the list it stands for.\<close>

datatype fifo_op = OpPut u8 | OpGet

fun fifo_run :: "('q \<Rightarrow> u8 \<Rightarrow> (int \<times> 'q) option) \<Rightarrow> ('q \<Rightarrow> u8 \<Rightarrow> (int \<times> u8 \<times> 'q) option)
    \<Rightarrow> fifo_op list \<Rightarrow> 'q \<Rightarrow> (bytes \<times> 'q) option" where
  "fifo_run put get [] q = Some ([], q)"
| "fifo_run put get (OpPut c # ops) q = do {
     (rc, q) \<leftarrow> put q c;
     fifo_run put get ops q
   }"
| "fifo_run put get (OpGet # ops) q = do {
     (rc, x, q) \<leftarrow> get q 0;
     (out, q) \<leftarrow> fifo_run put get ops q;
     Some (if rc = 0 then x # out else out, q)
   }"

fun fifo_spec :: "nat \<Rightarrow> fifo_op list \<Rightarrow> bytes \<Rightarrow> bytes \<times> bytes" where
  "fifo_spec cap [] xs = ([], xs)"
| "fifo_spec cap (OpPut c # ops) xs = fifo_spec cap ops (if length xs < cap then xs @ [c] else xs)"
| "fifo_spec cap (OpGet # ops) xs =
     (case xs of [] \<Rightarrow> fifo_spec cap ops []
      | x # xs \<Rightarrow> (let (out, ys) = fifo_spec cap ops xs in (x # out, ys)))"

locale byte_fifo =
  fixes put :: "'q \<Rightarrow> u8 \<Rightarrow> (int \<times> 'q) option"
    and get :: "'q \<Rightarrow> u8 \<Rightarrow> (int \<times> u8 \<times> 'q) option"
    and inv :: "'q \<Rightarrow> bool"
    and contents :: "'q \<Rightarrow> bytes"
    and capacity :: "'q \<Rightarrow> nat"
  assumes bounded: "inv q \<Longrightarrow> length (contents q) \<le> capacity q"
    and put_room: "inv q \<Longrightarrow> length (contents q) < capacity q \<Longrightarrow>
      \<exists>q'. put q c = Some (0, q') \<and> inv q' \<and> contents q' = contents q @ [c] \<and> capacity q' = capacity q"
    and put_full: "inv q \<Longrightarrow> length (contents q) = capacity q \<Longrightarrow> put q c = Some (-1, q)"
    and get_empty: "inv q \<Longrightarrow> contents q = [] \<Longrightarrow> get q c = Some (-1, c, q)"
    and get_cons: "inv q \<Longrightarrow> contents q = x # xs \<Longrightarrow>
      \<exists>q'. get q c = Some (0, x, q') \<and> inv q' \<and> contents q' = xs \<and> capacity q' = capacity q"
begin

text \<open>A queue never faults, whatever it holds.\<close>

lemma put_total:
  assumes "inv q"
  shows "\<exists>rc q'. put q c = Some (rc, q') \<and> inv q' \<and> capacity q' = capacity q \<and>
    (if length (contents q) < capacity q then rc = 0 \<and> contents q' = contents q @ [c]
     else rc = -1 \<and> q' = q)"
proof (cases "length (contents q) < capacity q")
  case True
  with put_room [OF assms True, of c] show ?thesis by auto
next
  case False
  with bounded [OF assms] have "length (contents q) = capacity q" by simp
  with put_full [OF assms this, of c] assms False show ?thesis by auto
qed

lemma get_total:
  assumes "inv q"
  shows "\<exists>rc x q'. get q c = Some (rc, x, q') \<and> inv q' \<and> capacity q' = capacity q \<and>
    (case contents q of [] \<Rightarrow> rc = -1 \<and> x = c \<and> q' = q
     | y # ys \<Rightarrow> rc = 0 \<and> x = y \<and> contents q' = ys)"
proof (cases "contents q")
  case Nil
  with get_empty [OF assms, of c] assms show ?thesis by auto
next
  case (Cons y ys)
  with get_cons [OF assms Cons, of c] show ?thesis by auto
qed

text \<open>First in, first out, through an interleaving of one put and one get.\<close>

lemma put_then_get:
  assumes "inv q" "length (contents q) < capacity q"
  shows "\<exists>q1 x q2. put q c = Some (0, q1) \<and> get q1 d = Some (0, x, q2) \<and> inv q2
    \<and> x = hd (contents q @ [c]) \<and> contents q2 = tl (contents q @ [c])"
proof -
  from put_room [OF assms] obtain q1 where q1: "put q c = Some (0, q1)" "inv q1"
    "contents q1 = contents q @ [c]" by blast
  from q1(3) have "contents q1 = hd (contents q @ [c]) # tl (contents q @ [c])" by simp
  from get_cons [OF q1(2) this, of d] q1 show ?thesis by auto
qed

lemma run_refines:
  "inv q \<Longrightarrow> \<exists>q'. fifo_run put get ops q = Some (fst (fifo_spec (capacity q) ops (contents q)), q')
     \<and> inv q' \<and> contents q' = snd (fifo_spec (capacity q) ops (contents q))"
proof (induction ops arbitrary: q)
  case (Cons op ops)
  show ?case
  proof (cases op)
    case (OpPut c)
    from put_total [OF Cons.prems, of c] obtain rc q1 where q1: "put q c = Some (rc, q1)" "inv q1"
      "capacity q1 = capacity q"
      "contents q1 = (if length (contents q) < capacity q then contents q @ [c] else contents q)"
      by (auto split: if_splits)
    from Cons.IH [OF q1(2)] q1 OpPut show ?thesis by auto
  next
    case OpGet
    from get_total [OF Cons.prems, of 0] obtain rc x q1 where q1: "get q 0 = Some (rc, x, q1)"
      "inv q1" "capacity q1 = capacity q" "case contents q of [] \<Rightarrow> rc = -1 \<and> x = 0 \<and> q1 = q
        | y # ys \<Rightarrow> rc = 0 \<and> x = y \<and> contents q1 = ys" by blast
    from Cons.IH [OF q1(2)] q1 OpGet show ?thesis
      by (auto split: list.splits prod.splits)
  qed
qed simp

end

interpretation rb: byte_fifo RINGBUF_Put RINGBUF_Get rb_inv rb_list rb_cap
proof
  fix r c assume "rb_inv r" "length (rb_list r) < rb_cap r"
  then show "\<exists>r'. RINGBUF_Put r c = Some (0, r') \<and> rb_inv r' \<and> rb_list r' = rb_list r @ [c]
      \<and> rb_cap r' = rb_cap r"
    by (intro RINGBUF_Put_ok) auto
qed (auto simp: rb_fill_le_cap RINGBUF_Put_full RINGBUF_Get_empty intro: RINGBUF_Get_cons)

section \<open>Properties of the ring buffer\<close>

text \<open>Property C31. Every sequence of \<open>RINGBUF_Put\<close> and \<open>RINGBUF_Get\<close> calls runs without a
  fault and answers as a bounded first-in first-out list does, dropping what does not fit.\<close>

theorem RINGBUF_refines_queue:
  assumes "rb_inv r"
  shows "\<exists>r'. fifo_run RINGBUF_Put RINGBUF_Get ops r =
      Some (fst (fifo_spec (rb_cap r) ops (rb_list r)), r')
    \<and> rb_inv r' \<and> rb_list r' = snd (fifo_spec (rb_cap r) ops (rb_list r))"
  using assms by (rule rb.run_refines)

lemma RINGBUF_refines_queue_witness:
  "\<exists>r'. fifo_run RINGBUF_Put RINGBUF_Get [OpPut 7, OpPut 8, OpGet, OpPut 9, OpPut 10, OpGet]
      \<lparr>rb_head = 0, rb_tail = 0, rb_size = 3, rb_pt = [0, 0, 0]\<rparr> = Some ([7, 8], r')
    \<and> rb_inv r' \<and> rb_list r' = [9]"
proof -
  let ?r = "\<lparr>rb_head = 0, rb_tail = 0, rb_size = 3, rb_pt = [0, 0, 0]\<rparr>"
  have "rb_inv ?r" by (simp add: rb_inv_def)
  moreover have "rb_cap ?r = 2" "rb_list ?r = []"
    by (simp_all add: rb_cap_def rb_list_def rb_fill_def)
  ultimately show ?thesis
    using RINGBUF_refines_queue [of ?r
        "[OpPut 7, OpPut 8, OpGet, OpPut 9, OpPut 10, OpGet]"] by simp
qed

end
