(* ===== verification/GsmSms.thy ===== *)
theory GsmSms
  imports GsmCall Pdu RingBuf
begin

text \<open>
  Short messages: \<open>ampm_lib/ampm_gsm/ampm_gsm_sms.c\<close>.  A message object is allocated by
  \<open>Ampm_Sms_SendMsg\<close> together with its text and freed when it leaves the list; \<open>msgs\<close>
  holds the live objects with their text by address, \<open>sms_next\<close> their list links.  An
  address that \<open>malloc\<close> may return is an argument, \<open>None\<close> for a failure.  Following
  a pointer to a freed object has no value.  \<open>lock\<close> says whether the mutex was obtained
  within its second; the mutex is recursive, so the calls made while it is held obtain it too.
  The status bytes and the two kinds of callback belong to the application.
\<close>

section \<open>State\<close>

datatype SMS_MODE_TYPE = SMS_PDU8_MODE | SMS_PDU16_MODE | SMS_TEXT_MODE

definition SMS_MSG_SENT :: u8 where "SMS_MSG_SENT = 0"

definition SMS_MSG_FAIL :: u8 where "SMS_MSG_FAIL = 1"

definition SMS_NEW_MSG :: u8 where "SMS_NEW_MSG = 2"

definition SMS_OK :: u8 where "SMS_OK = 0"

definition SMS_ERROR :: u8 where "SMS_ERROR = 1"

lemmas sms_flag_defs = SMS_MSG_SENT_def SMS_MSG_FAIL_def SMS_NEW_MSG_def

record SMS_LIST_TYPE =
  sms_phone :: "bytes option"
  sms_msg :: "bytes option"
  sms_len :: u8
  sms_timeout :: u8
  sms_timeoutReload :: u8
  sms_tryNum :: u8
  sms_flag :: u8
  sms_status :: "nat option"
  sms_callback :: "nat option"
  sms_mode :: SMS_MODE_TYPE

record gsm_sms = gsm_call +
  msgs :: "nat \<Rightarrow> SMS_LIST_TYPE option"
  sms_next :: "nat heap"
  smsList :: "nat option"
  status_cells :: "nat \<Rightarrow> u8 option"
  tSmsTaskTimeOut :: Timeout_Type
  smsMsg :: "nat option"
  smsUnreadRingBuff :: RINGBUF
  smsSender :: bytes
  smsDataBuf :: bytes
  pdu_len_except_smsc :: u8
  pdu_len :: int
  flagSmsReadFinish :: bool
  serviceCenterNumber :: bytes
  getServiceCenterNumber :: bool
  csca_len :: u8
  smsTaskFailCnt :: u8
  readTryCnt :: u8
  smsIndex :: u16
  checkCnt :: u8
  read_comma :: u8
  read_data :: bool
  read_term :: nat
  read_sender :: nat
  read_pos :: nat
  urc_length :: u32
  cmti_length :: u32

definition terminateStr :: bytes where "terminateStr = cr_text ''|~OK|~''"

text \<open>The object \<open>smsMsg\<close> points to.\<close>

definition sms :: "'z gsm_sms_scheme \<Rightarrow> SMS_LIST_TYPE option" where
  "sms s = (case smsMsg s of None \<Rightarrow> None | Some p \<Rightarrow> msgs s p)"

definition sms_put :: "nat \<Rightarrow> (SMS_LIST_TYPE \<Rightarrow> SMS_LIST_TYPE) \<Rightarrow> 'z gsm_sms_scheme \<Rightarrow> 'z gsm_sms_scheme option" where
  "sms_put p f s = (case msgs s p of None \<Rightarrow> None | Some m \<Rightarrow> Some (s\<lparr>msgs := (msgs s)(p \<mapsto> f m)\<rparr>))"

definition sms_cur_put :: "(SMS_LIST_TYPE \<Rightarrow> SMS_LIST_TYPE) \<Rightarrow> 'z gsm_sms_scheme \<Rightarrow> 'z gsm_sms_scheme option" where
  "sms_cur_put f s = (case smsMsg s of None \<Rightarrow> None | Some p \<Rightarrow> sms_put p f s)"

section \<open>Command constants\<close>

definition smsRecvCmd_AT_CMGR :: AT_PACKET where "smsRecvCmd_AT_CMGR = at_format Fn_GsmSmsRecvCallback_CMGR"

definition smsRecvCmd_AT_CMGD :: AT_PACKET where "smsRecvCmd_AT_CMGD = at_format Fn_GsmSmsRecvCallback_CMGD"

definition smsRecvCmdProcess_end :: gsm_cmd where
  "smsRecvCmdProcess_end = cmd_process None ampmAtCmd_AT None 1 1000 100"

definition smsRecvCmdProcess_5 :: gsm_cmd where
  "smsRecvCmdProcess_5 = cmd_process None smsRecvCmd_AT_CMGD (Some Fn_GsmSmsRecv1) 1 1000 100"

definition smsRecvCmdProcess_4 :: gsm_cmd where
  "smsRecvCmdProcess_4 = cmd_process (Some Cmd_smsRecvCmdProcess_5) smsRecvCmd_AT_CMGR (Some Fn_GsmSmsRecv2) 1 1000 100"

definition smsRecvCmdProcess_3 :: gsm_cmd where
  "smsRecvCmdProcess_3 = cmd_process (Some Cmd_smsRecvCmdProcess_4) ampmAtCmd_AT_CMGL (Some Fn_GsmSmsRecv1) 1 1000 1000"

definition smsRecvCmdProcess_2 :: gsm_cmd where
  "smsRecvCmdProcess_2 = cmd_process (Some Cmd_smsRecvCmdProcess_3) ampmAtCmd_AT_CMGF_1 (Some Fn_GsmSmsRecv0) 1 1000 100"

definition smsRecvCmdProcess_1 :: gsm_cmd where
  "smsRecvCmdProcess_1 = cmd_process (Some Cmd_smsRecvCmdProcess_2) ampmAtCmd_AT_CLIP None 1 1000 100"

definition smsRecvCmdProcess_0 :: gsm_cmd where
  "smsRecvCmdProcess_0 = cmd_process (Some Cmd_smsRecvCmdProcess_1) ampmAtCmd_AT_CSQ None 1 1000 100"

definition smsSendCmd_AT_CSCA :: AT_PACKET where
  "smsSendCmd_AT_CSCA = at_query ''AT+CSCA?|'' (''+CSCA: '' @ [CHR 0x22]) Fn_GetServiceCenterNumber"

definition smsSendCmd_AT_CMGS :: AT_PACKET where
  "smsSendCmd_AT_CMGS = (at_format Fn_GsmSmsSendCallback_CMGS)\<lparr>resOk := cr_text ''||~>''\<rparr>"

definition smsSendMessage :: AT_PACKET where "smsSendMessage = at_format Fn_GsmSmsSendMessageCallback"

definition smsSendCmdProcess_end :: gsm_cmd where
  "smsSendCmdProcess_end = cmd_process None ampmAtCmd_AT None 1 1000 100"

definition smsSendCmdProcess_6 :: gsm_cmd where
  "smsSendCmdProcess_6 = cmd_process None ampmAtCmd_AT_CREG (Some Fn_GsmCREG) 1 3000 100"

definition smsSendCmdProcess_5 :: gsm_cmd where
  "smsSendCmdProcess_5 = cmd_process (Some Cmd_smsSendCmdProcess_end) smsSendMessage (Some Fn_GsmSmsSent) 1 10000 100"

definition smsSendCmdProcess_4 :: gsm_cmd where
  "smsSendCmdProcess_4 = cmd_process (Some Cmd_smsSendCmdProcess_5) smsSendCmd_AT_CMGS None 1 5000 500"

definition smsSendCmdProcess_3 :: gsm_cmd where
  "smsSendCmdProcess_3 = cmd_process (Some Cmd_smsSendCmdProcess_4) smsSendCmd_AT_CSCA None 1 5000 500"

definition smsSendCmdProcess_2 :: gsm_cmd where
  "smsSendCmdProcess_2 = cmd_process (Some Cmd_smsSendCmdProcess_3) ampmAtCmd_AT_CMGF_0 (Some Fn_GsmSmsSendCallback_CSCA) 1 1000 100"

definition smsSendCmdProcess_1 :: gsm_cmd where
  "smsSendCmdProcess_1 = cmd_process (Some Cmd_smsSendCmdProcess_4) ampmAtCmd_AT_CMGF_1 (Some Fn_GsmSmsSendCallback_CSCA) 1 1000 100"

definition smsSendCmdProcess_0 :: gsm_cmd where
  "smsSendCmdProcess_0 = cmd_process (Some Cmd_smsSendCmdProcess_1) ampmAtCmd_AT (Some Fn_GsmSmsSendCallback_CMGF) 1 1000 100"

section \<open>Sending: ends of commands\<close>

definition Ampm_GsmSmsSendCallback_CMGF :: "AMPM_CMD_PHASE \<Rightarrow> 'z gsm_sms_scheme \<Rightarrow> 'z gsm_sms_scheme end_result" where
  "Ampm_GsmSmsSendCallback_CMGF ph s = do {
     m \<leftarrow> sms s;
     Some (1, Ampm_SendAtCmdNow (if sms_mode m = SMS_TEXT_MODE then smsSendCmdProcess_1 else smsSendCmdProcess_2) s)
   }"

definition Ampm_GsmSmsSendCallback_CSCA :: "AMPM_CMD_PHASE \<Rightarrow> 'z gsm_sms_scheme \<Rightarrow> 'z gsm_sms_scheme end_result" where
  "Ampm_GsmSmsSendCallback_CSCA ph s = do {
     m \<leftarrow> sms s;
     Some (1,
       if sms_msg m \<noteq> None \<and> sms_phone m \<noteq> None then
         (if sms_mode m \<noteq> SMS_TEXT_MODE
          then Ampm_SendAtCmdNow smsSendCmdProcess_3 (s\<lparr>getServiceCenterNumber := False\<rparr>) else s)
       else Ampm_SendAtCmdNow smsSendCmdProcess_end s)
   }"

text \<open>The value \<open>0xff\<close> frees the status byte.\<close>

definition Ampm_UpdateStatus :: "bool \<Rightarrow> nat option \<Rightarrow> u8 \<Rightarrow> 'z gsm_sms_scheme \<Rightarrow> 'z gsm_sms_scheme option" where
  "Ampm_UpdateStatus lock status v s =
     (if lock then
        (case status of
           None \<Rightarrow> Some s
         | Some a \<Rightarrow>
             (if status_cells s a = None then None
              else if v = 0xff then Some (s\<lparr>status_cells := (status_cells s)(a := None)\<rparr>)
              else Some (s\<lparr>status_cells := (status_cells s)(a \<mapsto> v)\<rparr>)))
      else Some s)"

definition Ampm_GsmSmsSent :: "AMPM_CMD_PHASE \<Rightarrow> 'z gsm_sms_scheme \<Rightarrow> 'z gsm_sms_scheme end_result" where
  "Ampm_GsmSmsSent ph s =
     (if ph = AMPM_CMD_OK then do {
        s \<leftarrow> sms_cur_put (\<lambda>m. m\<lparr>sms_phone := None, sms_len := 0, sms_flag := SMS_MSG_SENT\<rparr>) s;
        Some (1, (Ampm_SendAtCmdNow smsSendCmdProcess_end s)\<lparr>smsTaskFailCnt := 0\<rparr>)
      }
      else
        (let s = COMM_Putc 0x1B s;
             s = s\<lparr>smsTaskFailCnt := smsTaskFailCnt s + 1\<rparr>
         in Some (1, Ampm_SendAtCmdNow smsSendCmdProcess_6 s)))"

definition Ampm_GsmCREG :: "AMPM_CMD_PHASE \<Rightarrow> 'z gsm_sms_scheme \<Rightarrow> 'z gsm_sms_scheme end_result" where
  "Ampm_GsmCREG ph s =
     Some (1, if ph = AMPM_CMD_ERROR then s\<lparr>smsTaskFailCnt := smsTaskFailCnt s + 1\<rparr> else s)"

section \<open>Sending: texts of commands\<close>

text \<open>\<open>ampm_sprintf\<close> to \<open>&buf[n]\<close>.\<close>

definition sprintf_at :: "bytes \<Rightarrow> nat \<Rightarrow> bytes \<Rightarrow> va_arg list \<Rightarrow> bytes option" where
  "sprintf_at buf n fmt args = do { (r, b) \<leftarrow> ampm_sprintf (drop n buf) fmt args; Some (take n buf @ b) }"

fun pdu_hex :: "bytes \<Rightarrow> nat \<Rightarrow> nat \<Rightarrow> bytes \<Rightarrow> bytes option" where
  "pdu_hex data i 0 buf = Some buf"
| "pdu_hex data i (Suc n) buf = do {
     x \<leftarrow> rd data i;
     buf \<leftarrow> sprintf_at buf (i * 2) (lit ''%02X'') [IntArg (ucast x)];
     pdu_hex data (i + 1) n buf
   }"

definition Ampm_GsmSmsSendMessageCallback ::
  "bytes \<Rightarrow> 'z gsm_sms_scheme \<Rightarrow> (u8 \<times> bytes \<times> 'z gsm_sms_scheme) option" where
  "Ampm_GsmSmsSendMessageCallback buf s = do {
     m \<leftarrow> sms s;
     if sms_mode m = SMS_TEXT_MODE then do {
       t \<leftarrow> sms_msg m;
       (n, buf) \<leftarrow> ampm_sprintf buf (lit ''%s%c'') [StrArg t, IntArg 0x1A];
       Some (1, buf, s)
     }
     else do {
       let n = nat (pdu_len s);
       buf \<leftarrow> pdu_hex (smsDataBuf s) 0 n buf;
       buf \<leftarrow> wr buf (n * 2) 0x1A;
       buf \<leftarrow> wr buf (n * 2 + 1) 0;
       Some (1, buf, s)
     }
   }"

text \<open>The octets of the current message, encoded.\<close>

definition sms_pdu :: "SMS_LIST_TYPE \<Rightarrow> 'z gsm_sms_scheme \<Rightarrow> (int \<times> bytes) option" where
  "sms_pdu m s = do {
     ph \<leftarrow> sms_phone m;
     t \<leftarrow> sms_msg m;
     (if sms_mode m = SMS_PDU16_MODE then pdu16_encode (Some (serviceCenterNumber s)) ph t (sms_len m) (smsDataBuf s) 256
      else pdu_encode (Some (serviceCenterNumber s)) ph t (smsDataBuf s) 256)
   }"

definition Ampm_GsmSmsSendCallback_CMGS ::
  "bytes \<Rightarrow> 'z gsm_sms_scheme \<Rightarrow> (u8 \<times> bytes \<times> 'z gsm_sms_scheme) option" where
  "Ampm_GsmSmsSendCallback_CMGS buf s = do {
     m \<leftarrow> sms s;
     t \<leftarrow> sms_msg m;
     t0 \<leftarrow> rd t 0;
     ph \<leftarrow> (if t0 \<noteq> 0 \<or> sms_mode m \<noteq> SMS_TEXT_MODE then do {
               ph \<leftarrow> sms_phone m; p0 \<leftarrow> rd ph 0; Some (if p0 \<noteq> 0 then Some ph else None)
             }
             else Some None);
     case ph of
       Some ph \<Rightarrow>
         (if sms_mode m = SMS_TEXT_MODE then do {
            (n, buf) \<leftarrow> ampm_sprintf buf (cr_text (''AT+CMGS='' @ [CHR 0x22] @ ''%s'' @ [CHR 0x22] @ ''|'')) [StrArg ph];
            Some (word_of_int n, buf, s)
          }
          else do {
            c0 \<leftarrow> rd (serviceCenterNumber s) 0;
            if getServiceCenterNumber s \<and> c0 \<noteq> 0 then do {
              (n, d) \<leftarrow> sms_pdu m s;
              let s = s\<lparr>smsDataBuf := d, pdu_len := n\<rparr>;
              if n < 0 then do {
                s \<leftarrow> sms_cur_put (\<lambda>m. m\<lparr>sms_phone := None, sms_len := 0, sms_flag := SMS_MSG_FAIL\<rparr>) s;
                let s = s\<lparr>smsTaskFailCnt := smsTaskFailCnt s + 1\<rparr>;
                Some (0, buf, Ampm_SendAtCmdNow smsSendCmdProcess_end s)
              }
              else do {
                d0 \<leftarrow> rd (smsDataBuf s) 0;
                let s = s\<lparr>pdu_len_except_smsc := word_of_int (n - 1 - uint d0)\<rparr>;
                (r, buf) \<leftarrow> ampm_sprintf buf (cr_text ''AT+CMGS=%d|'') [IntArg (ucast (pdu_len_except_smsc s))];
                Some (word_of_int r, buf, s)
              }
            }
            else Some (0, buf, Ampm_SendAtCmdNow smsSendCmdProcess_0 s)
          })
     | None \<Rightarrow> do {
         s \<leftarrow> sms_cur_put (\<lambda>m. m\<lparr>sms_phone := None, sms_len := 0, sms_flag := SMS_MSG_SENT\<rparr>) s;
         let s = Ampm_SendAtCmdNow smsSendCmdProcess_end s;
         Some (0, buf, s\<lparr>smsTaskFailCnt := smsTaskFailCnt s + 1\<rparr>)
       }
   }"

section \<open>Reading: ends and texts of commands\<close>

definition Ampm_GsmSmsRecvCallback_CMGR ::
  "bytes \<Rightarrow> 'z gsm_sms_scheme \<Rightarrow> (u8 \<times> bytes \<times> 'z gsm_sms_scheme) option" where
  "Ampm_GsmSmsRecvCallback_CMGR buf s = do {
     let s = s\<lparr>tSmsTaskTimeOut := InitTimeout (tick s) (tSmsTaskTimeOut s) 3000\<rparr>;
     (n, buf) \<leftarrow> ampm_sprintf buf (cr_text ''AT+CMGR=%d|'') [IntArg (ucast (smsIndex s))];
     Some (word_of_int n, buf, s)
   }"

definition Ampm_GsmSmsRecvCallback_CMGD ::
  "bytes \<Rightarrow> 'z gsm_sms_scheme \<Rightarrow> (u8 \<times> bytes \<times> 'z gsm_sms_scheme) option" where
  "Ampm_GsmSmsRecvCallback_CMGD buf s = do {
     (n, buf) \<leftarrow> ampm_sprintf buf (cr_text ''AT+CMGD=%d|'') [IntArg (ucast (smsIndex s))];
     Some (word_of_int n, buf, s)
   }"

text \<open>The next index of the queue of unread messages, low byte first, and the command for it.\<close>

definition next_unread :: "gsm_cmd \<Rightarrow> 'z gsm_sms_scheme \<Rightarrow> 'z gsm_sms_scheme end_result" where
  "next_unread none s =
     (if RINGBUF_GetFill (smsUnreadRingBuff s) \<ge> 2 then do {
        (r, c, q) \<leftarrow> RINGBUF_Get (smsUnreadRingBuff s) 0;
        let s = s\<lparr>smsUnreadRingBuff := q, smsIndex := ucast c\<rparr>;
        (r, c, q) \<leftarrow> RINGBUF_Get (smsUnreadRingBuff s) c;
        let s = s\<lparr>smsUnreadRingBuff := q, smsIndex := smsIndex s OR (push_bit 8 (ucast c) AND 0xff00)\<rparr>;
        if smsIndex s \<ge> 1000 then Some (1, Ampm_SendAtCmdNow smsRecvCmdProcess_5 s)
        else Some (1, Ampm_SendAtCmdNow smsRecvCmdProcess_4 (s\<lparr>readTryCnt := 3\<rparr>))
      }
      else Some (1, Ampm_SendAtCmdNow none s))"

definition Ampm_GsmSmsRecv0 :: "AMPM_CMD_PHASE \<Rightarrow> 'z gsm_sms_scheme \<Rightarrow> 'z gsm_sms_scheme end_result" where
  "Ampm_GsmSmsRecv0 ph s = next_unread smsRecvCmdProcess_3 s"

definition Ampm_GsmSmsRecv1 :: "AMPM_CMD_PHASE \<Rightarrow> 'z gsm_sms_scheme \<Rightarrow> 'z gsm_sms_scheme end_result" where
  "Ampm_GsmSmsRecv1 ph s = next_unread smsRecvCmdProcess_end s"

definition Ampm_GsmSmsRecv2 :: "AMPM_CMD_PHASE \<Rightarrow> 'z gsm_sms_scheme \<Rightarrow> 'z gsm_sms_scheme end_result" where
  "Ampm_GsmSmsRecv2 ph s =
     (if flagSmsReadFinish s \<or> fst (CheckTimeout (tick s) (tSmsTaskTimeOut s)) = 0 then
        Some (1,
          if flagSmsReadFinish s then
            Ampm_SendAtCmdNow smsRecvCmdProcess_5 (emits [SmsReceived (smsDataBuf s)] s)
          else if readTryCnt s \<noteq> 0 then
            (let s = COMM_Putc 0x1B (s\<lparr>readTryCnt := readTryCnt s - 1\<rparr>);
                 s = s\<lparr>tSmsTaskTimeOut := InitTimeout (tick s) (tSmsTaskTimeOut s) 3000\<rparr>
             in Ampm_SendAtCmdNow smsRecvCmdProcess_4 s)
          else Ampm_SendAtCmdNow smsRecvCmdProcess_5 s)
      else Some (0, s))"

definition Ampm_StartRecvSms :: "'z gsm_sms_scheme \<Rightarrow> bool \<times> 'z gsm_sms_scheme" where
  "Ampm_StartRecvSms s = Ampm_SendAtCmd smsRecvCmdProcess_0 s"

definition Ampm_RecvSms_IsFinished :: "'z gsm_sms_scheme \<Rightarrow> bool" where
  "Ampm_RecvSms_IsFinished s = (Ampm_SendAtCheck_IsEmpty s \<and> Ampm_CmdTask_IsIdle (CmdPhase s))"

section \<open>The list of messages\<close>

definition Ampm_SmsTask_Init :: "'z gsm_sms_scheme \<Rightarrow> 'z gsm_sms_scheme" where
  "Ampm_SmsTask_Init s =
     (let s = s\<lparr>smsList := list_init, getServiceCenterNumber := False\<rparr>
      in case RINGBUF_Init (Some (smsUnreadRingBuff s)) (Some (rb_pt (smsUnreadRingBuff s))) 32 of
           (r, Some q) \<Rightarrow> s\<lparr>smsUnreadRingBuff := q\<rparr>
         | _ \<Rightarrow> s)"

text \<open>The end of a message: the callback, the status, and the memory.  The result is the next
  message, read before the message is unlinked.\<close>

definition sms_finish :: "nat \<Rightarrow> 'z gsm_sms_scheme \<Rightarrow> (nat option \<times> 'z gsm_sms_scheme) option" where
  "sms_finish p s = do {
     m \<leftarrow> msgs s p;
     let s = (case sms_callback m of Some f \<Rightarrow> emits [SmsCallback p] s | None \<Rightarrow> s);
     s \<leftarrow> (if sms_flag m = SMS_MSG_SENT then Ampm_UpdateStatus True (sms_status m) SMS_OK s else Some s);
     n \<leftarrow> list_item_next (sms_next s) (Some p);
     (h, l) \<leftarrow> list_remove (sms_next s) (smsList s) p;
     Some (n, s\<lparr>sms_next := h(p := None), smsList := l, msgs := (msgs s)(p := None)\<rparr>)
   }"

definition sms_wanted :: "SMS_LIST_TYPE \<Rightarrow> bool" where
  "sms_wanted m \<longleftrightarrow> sms_flag m = SMS_NEW_MSG \<and> sms_msg m \<noteq> None \<and> sms_phone m \<noteq> None \<and> sms_len m \<noteq> 0 \<and> sms_tryNum m \<noteq> 0"

partial_function (option) SmsPeriodic_loop ::
  "nat option \<Rightarrow> u8 \<Rightarrow> 'z gsm_sms_scheme \<Rightarrow> (u8 \<times> 'z gsm_sms_scheme) option" where
  "SmsPeriodic_loop msg res s =
     (case msg of None \<Rightarrow> Some (res, s)
      | Some p \<Rightarrow> do {
          m \<leftarrow> msgs s p;
          if sms_wanted m then do {
            (res, s) \<leftarrow> (if sms_timeout m \<noteq> 0 then do {
                            s \<leftarrow> sms_put p (\<lambda>m. m\<lparr>sms_timeout := sms_timeout m - 1\<rparr>) s; Some (res, s)
                          }
                          else Some (1, s));
            n \<leftarrow> list_item_next (sms_next s) (Some p);
            SmsPeriodic_loop n res s
          }
          else do {
            (n, s) \<leftarrow> sms_finish p s;
            SmsPeriodic_loop n res s
          }
        })"

definition Ampm_SmsTaskPeriodic_1Sec :: "bool \<Rightarrow> 'z gsm_sms_scheme \<Rightarrow> (u8 \<times> 'z gsm_sms_scheme) option" where
  "Ampm_SmsTaskPeriodic_1Sec lock s =
     (if lock then do {
        n \<leftarrow> list_length (sms_next s) (smsList s);
        if n = 0 then Some (0, s)
        else do {
          t \<leftarrow> list_tail (sms_next s) (smsList s);
          SmsPeriodic_loop t 0 s
        }
      }
      else Some (0, s))"

partial_function (option) SmsTask_loop :: "nat option \<Rightarrow> 'z gsm_sms_scheme \<Rightarrow> 'z gsm_sms_scheme option" where
  "SmsTask_loop msg s =
     (case msg of None \<Rightarrow> Some s
      | Some p \<Rightarrow> do {
          let s = s\<lparr>checkCnt := 0\<rparr>;
          m \<leftarrow> msgs s p;
          s \<leftarrow> (if sms_mode m = SMS_TEXT_MODE then do {
                  t \<leftarrow> sms_msg m;
                  c \<leftarrow> rd t 0;
                  if c = 0 then sms_put p (\<lambda>m. m\<lparr>sms_len := 0\<rparr>) s else Some s
                }
                else Some s);
          m \<leftarrow> msgs s p;
          if sms_wanted m then
            (if sms_timeout m = 0 then do {
               s \<leftarrow> sms_put p (\<lambda>m. m\<lparr>sms_timeout := sms_timeoutReload m,
                      sms_tryNum := (if sms_tryNum m \<noteq> 0 then sms_tryNum m - 1 else sms_tryNum m)\<rparr>) s;
               SmsTask_loop (Some p) (Ampm_SendAtCmdNow smsSendCmdProcess_0 (s\<lparr>smsMsg := Some p\<rparr>))
             }
             else do {
               n \<leftarrow> list_item_next (sms_next s) (Some p);
               SmsTask_loop n s
             })
          else do {
            (n, s) \<leftarrow> sms_finish p s;
            SmsTask_loop n s
          }
        })"

definition Ampm_SmsTask :: "bool \<Rightarrow> 'z gsm_sms_scheme \<Rightarrow> (u8 \<times> 'z gsm_sms_scheme) option" where
  "Ampm_SmsTask lock s =
     (if Ampm_SendAtCheck_IsEmpty s \<and> Ampm_CmdTask_IsIdle (CmdPhase s) \<and> lock then
        (let s = s\<lparr>checkCnt := checkCnt s + 1\<rparr>
         in if checkCnt s \<ge> 10 then Some (1, s\<lparr>checkCnt := 0\<rparr>)
            else do {
              n \<leftarrow> list_length (sms_next s) (smsList s);
              if n \<noteq> 0 then do {
                t \<leftarrow> list_tail (sms_next s) (smsList s);
                s \<leftarrow> SmsTask_loop t s;
                Some (0, s)
              }
              else Some (1, s)
            })
      else Some (0, s))"

definition Ampm_SmsCheckMessage_IsEmpty :: "bool \<Rightarrow> 'z gsm_sms_scheme \<Rightarrow> u8 option" where
  "Ampm_SmsCheckMessage_IsEmpty lock s =
     (if lock then do { n \<leftarrow> list_length (sms_next s) (smsList s); Some (if n \<noteq> 0 then 0 else 1) }
      else Some 1)"

definition Ampm_SmsAddMsg :: "bool \<Rightarrow> nat \<Rightarrow> 'z gsm_sms_scheme \<Rightarrow> (u8 \<times> 'z gsm_sms_scheme) option" where
  "Ampm_SmsAddMsg lock msg s =
     (if lock then do {
        (h, l) \<leftarrow> list_add (sms_next s) (smsList s) msg;
        Some (SMS_OK, s\<lparr>sms_next := h, smsList := l\<rparr>)
      }
      else Some (SMS_ERROR, s))"

text \<open>\<open>alloc\<close> is what \<open>malloc\<close> returns for the object; an object in use is not
  returned again.  The text is \<open>len\<close> bytes of the caller's \<open>text\<close>.\<close>

definition Ampm_Sms_SendMsg ::
  "nat option \<Rightarrow> bool \<Rightarrow> nat option \<Rightarrow> nat option \<Rightarrow> bytes option \<Rightarrow> bytes \<Rightarrow> u8 \<Rightarrow> SMS_MODE_TYPE \<Rightarrow> u16 \<Rightarrow> u8
   \<Rightarrow> 'z gsm_sms_scheme \<Rightarrow> (u8 \<times> 'z gsm_sms_scheme) option" where
  "Ampm_Sms_SendMsg alloc lock status callback ph text len mode timeout tries s = do {
     p \<leftarrow> alloc;
     if msgs s p \<noteq> None \<or> length text < unat len then None
     else do {
       s \<leftarrow> (case status of
               None \<Rightarrow> Some s
             | Some a \<Rightarrow> (if status_cells s a = None then None
                          else Some (s\<lparr>status_cells := (status_cells s)(a \<mapsto> SMS_ERROR)\<rparr>)));
       if mode \<noteq> SMS_TEXT_MODE \<and> len = 0 then Some (SMS_ERROR, s)
       else do {
         t \<leftarrow> ph;
         c \<leftarrow> rd t 0;
         if c = 0 then Some (SMS_ERROR, s)
         else
           (let m = \<lparr>sms_phone = ph, sms_msg = Some (take (unat len) text), sms_len = len, sms_timeout = 0,
                     sms_timeoutReload = ucast timeout, sms_tryNum = tries, sms_flag = SMS_NEW_MSG,
                     sms_status = status, sms_callback = callback, sms_mode = mode\<rparr>
            in Ampm_SmsAddMsg lock p (s\<lparr>msgs := (msgs s)(p \<mapsto> m), sms_next := (sms_next s)(p \<mapsto> None)\<rparr>))
       }
     }
   }"

section \<open>Response callbacks\<close>

text \<open>The three pointers of \<open>Ampm_SMS_ReadMsg\<close> are offsets: \<open>read_sender\<close> into
  \<open>smsSender\<close>, \<open>read_pos\<close> into \<open>smsDataBuf\<close>, \<open>read_term\<close> into
  \<open>terminateStr\<close>.\<close>

definition read_end :: "'z gsm_sms_scheme \<Rightarrow> (u32 \<times> 'z gsm_sms_scheme) option" where
  "read_end s = do {
     let n = (if read_pos s > 7 then read_pos s - 7 else read_pos s);
     b \<leftarrow> wr (smsDataBuf s) n 0;
     Some (0, s\<lparr>read_pos := n, smsDataBuf := b, flagSmsReadFinish := True\<rparr>)
   }"

definition read_data_byte :: "u8 \<Rightarrow> 'z gsm_sms_scheme \<Rightarrow> (u32 \<times> 'z gsm_sms_scheme) option" where
  "read_data_byte c s = do {
     t \<leftarrow> rd terminateStr (read_term s);
     let s = (if c = t then s\<lparr>read_term := read_term s + 1\<rparr>
              else s\<lparr>read_term := (if c = terminateStr ! 0 then 1 else 0)\<rparr>);
     t' \<leftarrow> rd terminateStr (read_term s);
     if c = t \<and> t' = 0 then read_end s
     else if read_pos s \<ge> 256 then read_end s
     else do {
       b \<leftarrow> wr (smsDataBuf s) (read_pos s) c;
       Some (0xff, s\<lparr>smsDataBuf := b, read_pos := read_pos s + 1\<rparr>)
     }
   }"

definition read_header_byte :: "u8 \<Rightarrow> 'z gsm_sms_scheme \<Rightarrow> (u32 \<times> 'z gsm_sms_scheme) option" where
  "read_header_byte c s =
     (if read_comma s = 1 then
        (if read_sender s \<ge> 16 then do {
           b \<leftarrow> wr (smsSender s) 0 0;
           Some (0, s\<lparr>smsSender := b\<rparr>)
         }
         else if (0x30 \<le> c \<and> c \<le> 0x39) \<or> c = 0x2B then do {
           b \<leftarrow> wr (smsSender s) (read_sender s) c;
           b \<leftarrow> wr b (read_sender s + 1) 0;
           Some (0xff, s\<lparr>smsSender := b, read_sender := read_sender s + 1\<rparr>)
         }
         else Some (0xff, s))
      else Some (0xff, s))"

definition Ampm_SMS_ReadMsg :: "u16 \<Rightarrow> u8 \<Rightarrow> 'z gsm_sms_scheme \<Rightarrow> (u32 \<times> 'z gsm_sms_scheme) option" where
  "Ampm_SMS_ReadMsg cnt c s =
     (if cnt = 0 then
        Some (0xff, s\<lparr>read_comma := 0, read_data := False, read_sender := 0, read_pos := 0, read_term := 0\<rparr>)
      else do {
        let s = (if c = 0x2C then s\<lparr>read_comma := read_comma s + 1\<rparr> else s);
        (r, s) \<leftarrow> (if read_data s then read_data_byte c s else read_header_byte c s);
        if r = 0 then Some (0, s)
        else Some (0xff, if c = 0x0A then s\<lparr>read_data := True\<rparr> else s)
      })"

definition Ampm_GetServiceCenterNumber :: "u16 \<Rightarrow> u8 \<Rightarrow> 'z gsm_sms_scheme \<Rightarrow> (u32 \<times> 'z gsm_sms_scheme) option" where
  "Ampm_GetServiceCenterNumber cnt c s =
     (let s = (if cnt = 0 then s\<lparr>csca_len := 0\<rparr> else s)
      in if (0x30 \<le> c \<and> c \<le> 0x39) \<or> c = 0x2B then
           (if c \<noteq> 0x2B then do {
              b \<leftarrow> wr (serviceCenterNumber s) (unat (csca_len s)) c;
              let s = s\<lparr>csca_len := csca_len s + 1\<rparr>;
              b \<leftarrow> wr b (unat (csca_len s)) 0;
              Some (0xff, s\<lparr>serviceCenterNumber := b\<rparr>)
            }
            else Some (0xff, s))
         else Some (0, if c = 0x22 \<and> csca_len s \<ge> 2 then s\<lparr>getServiceCenterNumber := True\<rparr> else s))"

text \<open>One character of a message index: read on with the new value, stop, or queue the index.\<close>

datatype index_step = ReadOn u32 | Stop | Queue

definition index_char :: "u16 \<Rightarrow> u8 \<Rightarrow> u32 \<Rightarrow> index_step" where
  "index_char cnt c n =
     (if cnt = 0 then (if 0x30 \<le> c \<and> c \<le> 0x39 then ReadOn (ucast c - 0x30) else Stop)
      else if cnt \<le> 3 then
        (if 0x30 \<le> c \<and> c \<le> 0x39 then ReadOn (n * 10 + (ucast c - 0x30)) else Queue)
      else Stop)"

definition queue_index :: "u32 \<Rightarrow> RINGBUF \<Rightarrow> RINGBUF option" where
  "queue_index n q = do {
     (r, q) \<leftarrow> RINGBUF_Put q (ucast (n AND 0x00ff));
     (r, q) \<leftarrow> RINGBUF_Put q (ucast (drop_bit 8 n AND 0x00ff));
     Some q
   }"

definition Ampm_SMS_URC_Incomming :: "u16 \<Rightarrow> u8 \<Rightarrow> 'z gsm_sms_scheme \<Rightarrow> (u32 \<times> 'z gsm_sms_scheme) option" where
  "Ampm_SMS_URC_Incomming cnt c s = (case index_char cnt c (urc_length s) of
     ReadOn n \<Rightarrow> Some (0xff, s\<lparr>urc_length := n\<rparr>)
   | Stop \<Rightarrow> Some (0, s)
   | Queue \<Rightarrow> do { q \<leftarrow> queue_index (urc_length s) (smsUnreadRingBuff s); Some (0, s\<lparr>smsUnreadRingBuff := q\<rparr>) })"

definition Ampm_SMS_Process :: "u16 \<Rightarrow> u8 \<Rightarrow> 'z gsm_sms_scheme \<Rightarrow> (u32 \<times> 'z gsm_sms_scheme) option" where
  "Ampm_SMS_Process cnt c s =
     (let s = (if cnt = 0 then Ampm_SetAtCmti s else s)
      in case index_char cnt c (cmti_length s) of
           ReadOn n \<Rightarrow> Some (0xff, s\<lparr>cmti_length := n\<rparr>)
         | Stop \<Rightarrow> Some (0, s)
         | Queue \<Rightarrow> do { q \<leftarrow> queue_index (cmti_length s) (smsUnreadRingBuff s); Some (0, s\<lparr>smsUnreadRingBuff := q\<rparr>) })"

section \<open>Sending without the engine\<close>

text \<open>At most 160 characters of the text, up to its end.\<close>

fun poll_text :: "nat \<Rightarrow> bytes \<Rightarrow> bytes option" where
  "poll_text 0 t = Some []"
| "poll_text (Suc n) [] = None"
| "poll_text (Suc n) (c # cs) = (if c = 0 then Some [] else do { r \<leftarrow> poll_text n cs; Some (c # r) })"

definition Ampm_SendSmsPolling ::
  "COMPARE_TYPE \<Rightarrow> bytes \<Rightarrow> bytes \<Rightarrow> u8 option list \<Rightarrow> 'z gsm_sms_scheme \<Rightarrow> (u8 \<times> u8 option list \<times> 'z gsm_sms_scheme) option" where
  "Ampm_SendSmsPolling search recipient data polls s = do {
     n \<leftarrow> strlen recipient;
     let s = COMM_drain (emits [DelayMs 100] s);
     let cmd = ascii (''AT+CMGS='' @ [CHR 0x22]) @ cstr recipient @ [0x22, 0x0D];
     if length cmd \<ge> 32 then None
     else do {
       s \<leftarrow> COMM_Puts (cmd @ [0]) s;
       (r, polls) \<leftarrow> Ampm_AtCmdCheckResponse search (lit ''> '') 10000 polls;
       if r \<noteq> 0 then Some (0xff, polls, s)
       else do {
         t \<leftarrow> poll_text 160 data;
         let s = COMM_Putc 0x1A (emits (map Tx t) s);
         (r, polls) \<leftarrow> Ampm_AtCmdCheckResponse search (lit ''OK'') 10000 polls;
         Some (if r \<noteq> 0 then 0xff else 0, polls, s)
       }
     }
   }"

end
