(* ===== verification/AtParser.thy ===== *)
theory AtParser
  imports GsmSms StrParser
begin

text \<open>
  The parser of unsolicited result codes, \<open>ampm_lib/ampm_gsm/at_command_parser.c\<close>: every
  byte the modem sends is matched against eight texts (caller identification, ring, listed and
  new messages, an empty call list) and the bytes after a text go to its callback.  It runs
  beside the command engine, which reads the same bytes later from the receive buffer.
\<close>

record gsm_at = gsm_sms +
  AT_CmdParser :: STR_PARSER
  cmdCnt :: "u8 list"
  RingBuffInit :: bool
  incomingCallPhoneNo :: bytes
  ampm_AtCommandParserEnable :: bool

definition AT_ProcessCmd :: "resp_fn STR_INFO list" where
  "AT_ProcessCmd =
     [\<lparr>str_command = lit (''+CLIP: '' @ [CHR 0x22]), str_callback = Fn_URC_CLIP_Process\<rparr>,
      \<lparr>str_command = lit ''RING'', str_callback = Fn_URC_RING_Process\<rparr>,
      \<lparr>str_command = lit ''+CMGL: '', str_callback = Fn_SMS_URC_Incomming\<rparr>,
      \<lparr>str_command = lit ''+CMGR: '', str_callback = Fn_SMS_ReadMsg\<rparr>,
      \<lparr>str_command = lit (''+CMTI: '' @ [CHR 0x22] @ ''SM'' @ [CHR 0x22] @ '',''), str_callback = Fn_SMS_Process\<rparr>,
      \<lparr>str_command = lit (''+CMTI: '' @ [CHR 0x22] @ ''ME'' @ [CHR 0x22] @ '',''), str_callback = Fn_SMS_Process\<rparr>,
      \<lparr>str_command = lit (''+CMTI: '' @ [CHR 0x22] @ ''MT'' @ [CHR 0x22] @ '',''), str_callback = Fn_SMS_Process\<rparr>,
      \<lparr>str_command = cr_text ''AT+CLCC||~OK'', str_callback = Fn_CallListSetEmpty\<rparr>]"

text \<open>The number of the caller is collected in a static array of 16 bytes.\<close>

definition Ampm_URC_CLIP_Process :: "u16 \<Rightarrow> u8 \<Rightarrow> 'z gsm_at_scheme \<Rightarrow> (u32 \<times> 'z gsm_at_scheme) option" where
  "Ampm_URC_CLIP_Process cnt c s =
     (if 0x30 \<le> c \<and> c \<le> 0x39 then do {
        b \<leftarrow> wr (incomingCallPhoneNo s) (unat cnt) c;
        b \<leftarrow> wr b (unat cnt + 1) 0;
        let s = s\<lparr>incomingCallPhoneNo := b\<rparr>;
        if cnt > 14 then Some (0, Ampm_SetAtClip s) else Some (0xff, s)
      }
      else do {
        s \<leftarrow> (if c = 0x22 \<and> cnt \<ge> 2 then do {
                b \<leftarrow> memcpy (ampm_IncomingCallPhoneNo s) (incomingCallPhoneNo s);
                Some (s\<lparr>ampm_IncomingCallPhoneNo := b, ampm_GotIncomingNumberFlag := True\<rparr>)
              }
              else Some s);
        Some (0, Ampm_SetAtClip s)
      })"

definition Ampm_URC_RING_Process :: "u16 \<Rightarrow> u8 \<Rightarrow> 'z gsm_at_scheme \<Rightarrow> (u32 \<times> 'z gsm_at_scheme) option" where
  "Ampm_URC_RING_Process cnt c s = Some (0, Ampm_SetAtRing s)"

definition AT_CmdProcessInit :: "'z gsm_at_scheme \<Rightarrow> 'z gsm_at_scheme option" where
  "AT_CmdProcessInit s = do {
     (p, ns) \<leftarrow> StrParserInit (AT_CmdParser s) (cmdCnt s) (of_nat (length AT_ProcessCmd)) 1024;
     Some (s\<lparr>AT_CmdParser := p, cmdCnt := ns\<rparr>)
   }"

definition AT_ComnandParser ::
  "'z gsm_at_scheme resp_dispatch \<Rightarrow> u8 \<Rightarrow> 'z gsm_at_scheme \<Rightarrow> 'z gsm_at_scheme option" where
  "AT_ComnandParser rsp c s = do {
     s \<leftarrow> (if \<not> RingBuffInit s then AT_CmdProcessInit (s\<lparr>RingBuffInit := True\<rparr>) else Some s);
     if ampm_AtCommandParserEnable s then do {
       (p, ns, l, s) \<leftarrow> StrComnandParser rsp (tick s) AT_ProcessCmd (AT_CmdParser s) (cmdCnt s) (parserLastChar s) c s;
       Some (s\<lparr>AT_CmdParser := p, cmdCnt := ns, parserLastChar := l\<rparr>)
     }
     else Some s
   }"

end
