(* ===== verification/GsmMain.thy ===== *)
theory GsmMain
  imports AtParser
begin

text \<open>
  The main task of \<open>ampm_lib/ampm_gsm/ampm_gsm_main_task.c\<close>: one round of its loop is
  one application of \<open>AMPM_GSM_MainTask\<close>.  Here every function of the library is known,
  so the addresses stored in commands and packets are resolved.

  What a round learns from outside is its \<open>round\<close> argument: what the PPP stack and the
  application's callback return and whether the mutex of the message list was obtained.  The
  variants without PPP and with uIP are not compiled.  \<open>Ampm_Gsm_Error\<close> never returns, so
  its value is \<open>None\<close>.
\<close>

section \<open>State\<close>

datatype PPPStatus = PPP_CONNECTING | PPP_CONNECTED | PPP_DISCONNECTED

datatype AMPM_GSM_MODE = AMPM_GSM_NONE | AMPM_GSM_GPRS_ENABLE | AMPM_GSM_SLEEP_MODE

datatype AMPM_GSM_MAIN_PHASE =
  AMPM_GSM_MAIN_INIT_PHASE | AMPM_GSM_MAIN_STARTUP_PHASE | AMPM_GSM_MAIN_SMS_RECV_PHASE
| AMPM_GSM_MAIN_SMS_SEND_PHASE | AMPM_GSM_MAIN_VOICECALL_PHASE | AMPM_GSM_MAIN_DATACALL_PHASE
| AMPM_GSM_MAIN_DIAL_UP_PHASE | AMPM_GSM_MAIN_GOTO_CMD_MODE_PHASE | AMPM_GSM_MAIN_GOTO_CMD_MODE_CHECK_PHASE
| AMPM_GSM_MAIN_WAIT_GOTO_CMD_MODE_PHASE | AMPM_GSM_MAIN_GOTO_DATA_MODE_PHASE
| AMPM_GSM_MAIN_WAIT_GOTO_DATA_MODE_PHASE | AMPM_GSM_MAIN_IDLE_PHASE | AMPM_GSM_MAIN_GO_TO_SLEEP_PHASE
| AMPM_GSM_MAIN_SLEEP_PHASE | AMPM_GSM_MAIN_WAKEUP_PHASE

text \<open>The two TCP/IP callbacks: the library's own, which do nothing, or the application's.\<close>

datatype tcpip_fn = Fn_vTcpIpTask | Fn_Application

record gsm_main = gsm_at +
  TaskPhase :: AMPM_GSM_MAIN_PHASE
  ampm_GSM_mode :: AMPM_GSM_MODE
  dataSendingTimeout :: u8
  smsCheckTime :: u32
  gsmMainTaskTryCnt :: u8
  tRingTask :: Timeout_Type
  ppp_status :: PPPStatus
  thisPPP :: int
  Ampm_TcpIpCallback :: "tcpip_fn option"
  Ampm_TcpIpInit :: "tcpip_fn option"

record round =
  ppp_input :: int
  ppp_open :: int
  app_busy :: bool
  lock_task :: bool
  lock_check :: bool
  lock_check_end :: bool
  lock_second :: bool

definition AMPM_CHECK_SMS_INTERVAL :: u32 where "AMPM_CHECK_SMS_INTERVAL = 60000"

definition SMS_MAX_RETRY :: u8 where "SMS_MAX_RETRY = 10"

section \<open>Commands of the main task\<close>

definition ampmAtCmd_AT_CFUN_1 :: AT_PACKET where "ampmAtCmd_AT_CFUN_1 = at_plain ''AT+CFUN=1|''"

definition ampmAtCmd_AT_CFUN_9 :: AT_PACKET where "ampmAtCmd_AT_CFUN_9 = at_plain ''AT+CFUN=9|''"

definition ampmMainCmdProcess_CHLD :: gsm_cmd where
  "ampmMainCmdProcess_CHLD = cmd_process (Some Cmd_ampmCmdProcess_AT) ampmAtCmd_AT_CHLD (Some Fn_GsmMainCallPhaseFinished) 1 2000 500"

definition ampmMainCmdProcess_End :: gsm_cmd where
  "ampmMainCmdProcess_End = cmd_process None ampmAtCmd_AT None 1 2000 100"

definition ampmMainCmdProcess_AT_CFUN_1 :: gsm_cmd where
  "ampmMainCmdProcess_AT_CFUN_1 = cmd_process (Some Cmd_ampmMainCmdProcess_End) ampmAtCmd_AT_CFUN_1 None 1 3000 100"

definition ampmMainCmdProcess_AT_CFUN_9 :: gsm_cmd where
  "ampmMainCmdProcess_AT_CFUN_9 = cmd_process None ampmAtCmd_AT_CFUN_9 None 1 3000 100"

definition ampmMainCmdProcess_ATH :: gsm_cmd where
  "ampmMainCmdProcess_ATH = cmd_process (Some Cmd_ampmMainCmdProcess_AT_CFUN_9) ampmAtCmd_ATH None 1 3000 100"

definition ampmMainCmdProcess_AT :: gsm_cmd where
  "ampmMainCmdProcess_AT = cmd_process (Some Cmd_ampmMainCmdProcess_ATH) ampmAtCmd_AT (Some Fn_GsmMainATPhaseFinished) 1 3000 500"

section \<open>PPP status\<close>

text \<open>The error codes of the PPP stack.\<close>

datatype ppp_error =
  PPPERR_NONE | PPPERR_PARAM | PPPERR_OPEN | PPPERR_DEVICE | PPPERR_ALLOC | PPPERR_USER | PPPERR_CONNECT
| PPPERR_AUTHFAIL | PPPERR_PROTOCOL | PPPERR_other int

definition pppCallback :: "ppp_error \<Rightarrow> 'z gsm_main_scheme \<Rightarrow> 'z gsm_main_scheme" where
  "pppCallback e s = (case e of PPPERR_NONE \<Rightarrow> s\<lparr>ppp_status := PPP_CONNECTED\<rparr> | _ \<Rightarrow> s\<lparr>ppp_status := PPP_DISCONNECTED\<rparr>)"

definition status_cb :: "ppp_error \<Rightarrow> 'z gsm_main_scheme \<Rightarrow> 'z gsm_main_scheme" where
  "status_cb e s = (case e of
     PPPERR_NONE \<Rightarrow> s\<lparr>ppp_status := PPP_CONNECTED\<rparr>
   | PPPERR_PARAM \<Rightarrow> s
   | PPPERR_OPEN \<Rightarrow> s
   | PPPERR_DEVICE \<Rightarrow> s
   | PPPERR_ALLOC \<Rightarrow> s\<lparr>ppp_status := PPP_DISCONNECTED\<rparr>
   | PPPERR_USER \<Rightarrow> s
   | PPPERR_CONNECT \<Rightarrow> s\<lparr>ppp_status := PPP_DISCONNECTED\<rparr>
   | PPPERR_AUTHFAIL \<Rightarrow> s\<lparr>ppp_status := PPP_DISCONNECTED\<rparr>
   | PPPERR_PROTOCOL \<Rightarrow> s\<lparr>ppp_status := PPP_DISCONNECTED\<rparr>
   | PPPERR_other n \<Rightarrow> s)"

section \<open>Small functions\<close>

definition Ampm_Gsm_Error :: "'z gsm_main_scheme \<Rightarrow> 'z gsm_main_scheme option" where
  "Ampm_Gsm_Error s = None"

definition Ampm_GsmSetMode :: "AMPM_GSM_MODE \<Rightarrow> 'z gsm_main_scheme \<Rightarrow> 'z gsm_main_scheme" where
  "Ampm_GsmSetMode mode s = s\<lparr>ampm_GSM_mode := mode\<rparr>"

definition Ampm_GsmMainATPhaseFinished :: "AMPM_CMD_PHASE \<Rightarrow> 'z gsm_main_scheme \<Rightarrow> 'z gsm_main_scheme end_result" where
  "Ampm_GsmMainATPhaseFinished ph s =
     Some (1, if TaskPhase s = AMPM_GSM_MAIN_GO_TO_SLEEP_PHASE then Ampm_SendAtCmdNow ampmMainCmdProcess_ATH s
              else Ampm_SendAtCmdNow ampmMainCmdProcess_AT_CFUN_1 s)"

definition Ampm_GsmMainCallPhaseFinished :: "AMPM_CMD_PHASE \<Rightarrow> 'z gsm_main_scheme \<Rightarrow> 'z gsm_main_scheme end_result" where
  "Ampm_GsmMainCallPhaseFinished ph s = Some (1, s\<lparr>TaskPhase := AMPM_GSM_MAIN_IDLE_PHASE\<rparr>)"

definition Ampm_GsmIsWorking :: "'z gsm_main_scheme \<Rightarrow> bool" where
  "Ampm_GsmIsWorking s = (TaskPhase s = AMPM_GSM_MAIN_DATACALL_PHASE)"

definition Ampm_Gsm_IsIdle :: "bool \<Rightarrow> 'z gsm_main_scheme \<Rightarrow> bool option" where
  "Ampm_Gsm_IsIdle lock s =
     (if TaskPhase s = AMPM_GSM_MAIN_IDLE_PHASE \<and> Ampm_Ringing_GetPhase s \<noteq> AMPM_GSM_RING_IDLE_PHASE then do {
        e \<leftarrow> Ampm_SmsCheckMessage_IsEmpty lock s;
        if e \<noteq> 0 then do {
          v \<leftarrow> Ampm_VoiceCallCheckList_IsEmpty s;
          Some (v \<and> \<not> ampm_NewSmsFlag s)
        }
        else Some False
      }
      else Some False)"

text \<open>The comparison \<open>> AMPM_GSM_MAIN_STARTUP_PHASE\<close>: past the first two phases.\<close>

definition Ampm_GsmIsGood :: "'z gsm_main_scheme \<Rightarrow> bool" where
  "Ampm_GsmIsGood s = (TaskPhase s \<notin> {AMPM_GSM_MAIN_INIT_PHASE, AMPM_GSM_MAIN_STARTUP_PHASE})"

definition Ampm_GsmGetPhase :: "'z gsm_main_scheme \<Rightarrow> AMPM_GSM_MAIN_PHASE" where
  "Ampm_GsmGetPhase s = TaskPhase s"

definition vTcpIpTask :: u8 where "vTcpIpTask = 0"

definition vTcpIpTaskInit :: u8 where "vTcpIpTaskInit = 0"

text \<open>The calls through the two pointers.\<close>

definition call_TcpIpInit :: "'z gsm_main_scheme \<Rightarrow> 'z gsm_main_scheme option" where
  "call_TcpIpInit s = (case Ampm_TcpIpInit s of
     None \<Rightarrow> None | Some Fn_vTcpIpTask \<Rightarrow> Some s | Some Fn_Application \<Rightarrow> Some (emits [TcpIpInit] s))"

definition call_TcpIpCallback :: "round \<Rightarrow> 'z gsm_main_scheme \<Rightarrow> bool" where
  "call_TcpIpCallback r s = (case Ampm_TcpIpCallback s of Some Fn_Application \<Rightarrow> app_busy r | _ \<Rightarrow> vTcpIpTask \<noteq> 0)"

definition Ampm_MainSwithToIdle :: "u16 \<Rightarrow> u8 \<Rightarrow> 'z gsm_main_scheme \<Rightarrow> (u32 \<times> 'z gsm_main_scheme) option" where
  "Ampm_MainSwithToIdle cnt c s = do {
     s \<leftarrow> call_TcpIpInit (emits [PppInit] (Ampm_GSM_DialUp_Reset s));
     Some (0, s\<lparr>TaskPhase := AMPM_GSM_MAIN_IDLE_PHASE\<rparr>)
   }"

definition AMPM_GSM_Init :: "bytes \<Rightarrow> bool \<Rightarrow> bool \<Rightarrow> 'z gsm_main_scheme \<Rightarrow> 'z gsm_main_scheme" where
  "AMPM_GSM_Init apn callback init s =
     (let s = emits [TcpIpSetup, PppInit, PppSetAuth] (Ampm_GsmSetApn apn s);
          s = s\<lparr>Ampm_TcpIpCallback := Some (if callback then Fn_Application else Fn_vTcpIpTask),
                Ampm_TcpIpInit := Some (if init then Fn_Application else Fn_vTcpIpTask),
                TaskPhase := AMPM_GSM_MAIN_INIT_PHASE\<rparr>
      in Ampm_SmsTask_Init s)"

section \<open>What the addresses stand for\<close>

definition cmd_of :: "cmd_key \<Rightarrow> gsm_cmd" where
  "cmd_of k = (case k of
     Cmd_ampmCmdProcess_AT \<Rightarrow> ampmCmdProcess_AT
   | Cmd_dialupCmdProcess_1 \<Rightarrow> dialupCmdProcess_1
   | Cmd_dialupCmdProcess_2 \<Rightarrow> dialupCmdProcess_2
   | Cmd_dialupCmdProcess_3 \<Rightarrow> dialupCmdProcess_3
   | Cmd_dialupCmdProcess_4 \<Rightarrow> dialupCmdProcess_4
   | Cmd_voiceCallSendCmdProcess_end \<Rightarrow> voiceCallSendCmdProcess_end
   | Cmd_voiceCallSendCmdProcess_AT_CLCC \<Rightarrow> voiceCallSendCmdProcess_AT_CLCC
   | Cmd_voiceCallSendCmdProcess_ATD \<Rightarrow> voiceCallSendCmdProcess_ATD
   | Cmd_voiceCallSendCmdProcess_ATM \<Rightarrow> voiceCallSendCmdProcess_ATM
   | Cmd_voiceCallSendCmdProcess_CLVL \<Rightarrow> voiceCallSendCmdProcess_CLVL
   | Cmd_voiceCallSendCmdProcess_ATL \<Rightarrow> voiceCallSendCmdProcess_ATL
   | Cmd_smsRecvCmdProcess_1 \<Rightarrow> smsRecvCmdProcess_1
   | Cmd_smsRecvCmdProcess_2 \<Rightarrow> smsRecvCmdProcess_2
   | Cmd_smsRecvCmdProcess_3 \<Rightarrow> smsRecvCmdProcess_3
   | Cmd_smsRecvCmdProcess_4 \<Rightarrow> smsRecvCmdProcess_4
   | Cmd_smsRecvCmdProcess_5 \<Rightarrow> smsRecvCmdProcess_5
   | Cmd_smsSendCmdProcess_end \<Rightarrow> smsSendCmdProcess_end
   | Cmd_smsSendCmdProcess_1 \<Rightarrow> smsSendCmdProcess_1
   | Cmd_smsSendCmdProcess_3 \<Rightarrow> smsSendCmdProcess_3
   | Cmd_smsSendCmdProcess_4 \<Rightarrow> smsSendCmdProcess_4
   | Cmd_smsSendCmdProcess_5 \<Rightarrow> smsSendCmdProcess_5
   | Cmd_ampmMainCmdProcess_End \<Rightarrow> ampmMainCmdProcess_End
   | Cmd_ampmMainCmdProcess_AT_CFUN_9 \<Rightarrow> ampmMainCmdProcess_AT_CFUN_9
   | Cmd_ampmMainCmdProcess_ATH \<Rightarrow> ampmMainCmdProcess_ATH)"

definition end_of :: "end_fn \<Rightarrow> AMPM_CMD_PHASE \<Rightarrow> 'z gsm_main_scheme \<Rightarrow> 'z gsm_main_scheme end_result" where
  "end_of f = (case f of
     Fn_SetCmdOK \<Rightarrow> (\<lambda>ph s. Some (Ampm_SetCmdOK ph s))
   | Fn_GsmCallEndCallback \<Rightarrow> Ampm_GsmCallEndCallback
   | Fn_GsmVoiceCallCheckCeerEndCallback \<Rightarrow> Ampm_GsmVoiceCallCheckCeerEndCallback
   | Fn_GsmVoiceCallCheckStateEndCallback \<Rightarrow> Ampm_GsmVoiceCallCheckStateEndCallback
   | Fn_GsmCallDialEndCallback \<Rightarrow> Ampm_GsmCallDialEndCallback
   | Fn_GsmATM1EndCallback \<Rightarrow> Ampm_GsmATM1EndCallback
   | Fn_GsmSmsRecv0 \<Rightarrow> Ampm_GsmSmsRecv0
   | Fn_GsmSmsRecv1 \<Rightarrow> Ampm_GsmSmsRecv1
   | Fn_GsmSmsRecv2 \<Rightarrow> Ampm_GsmSmsRecv2
   | Fn_GsmSmsSent \<Rightarrow> Ampm_GsmSmsSent
   | Fn_GsmCREG \<Rightarrow> Ampm_GsmCREG
   | Fn_GsmSmsSendCallback_CMGF \<Rightarrow> Ampm_GsmSmsSendCallback_CMGF
   | Fn_GsmSmsSendCallback_CSCA \<Rightarrow> Ampm_GsmSmsSendCallback_CSCA
   | Fn_GsmMainCallPhaseFinished \<Rightarrow> Ampm_GsmMainCallPhaseFinished
   | Fn_GsmMainATPhaseFinished \<Rightarrow> Ampm_GsmMainATPhaseFinished)"

definition sprintf_of :: "'z gsm_main_scheme sprintf_dispatch" where
  "sprintf_of f = (case f of
     Fn_DialupAtCallback0 \<Rightarrow> DialupAtCallback0
   | Fn_GsmCallDialStartCallback \<Rightarrow> Ampm_GsmCallDialStartCallback
   | Fn_GsmCHLD_1X_Callback \<Rightarrow> Ampm_GsmCHLD_1X_Callback
   | Fn_GsmSmsRecvCallback_CMGR \<Rightarrow> Ampm_GsmSmsRecvCallback_CMGR
   | Fn_GsmSmsRecvCallback_CMGD \<Rightarrow> Ampm_GsmSmsRecvCallback_CMGD
   | Fn_GsmSmsSendCallback_CMGS \<Rightarrow> Ampm_GsmSmsSendCallback_CMGS
   | Fn_GsmSmsSendMessageCallback \<Rightarrow> Ampm_GsmSmsSendMessageCallback)"

definition resp_of :: "'z gsm_main_scheme resp_dispatch" where
  "resp_of f = (case f of
     Fn_GsmGetCSQ \<Rightarrow> Ampm_GsmGetCSQ
   | Fn_GSM_GetIMEI \<Rightarrow> Ampm_GSM_GetIMEI
   | Fn_GSM_GetSimCID \<Rightarrow> Ampm_GSM_GetSimCID
   | Fn_GSM_GetATI \<Rightarrow> Ampm_GSM_GetATI
   | Fn_GetListOfCurrentCall \<Rightarrow> Ampm_GetListOfCurrentCall
   | Fn_GetCeer \<Rightarrow> Ampm_GetCeer
   | Fn_GetServiceCenterNumber \<Rightarrow> Ampm_GetServiceCenterNumber
   | Fn_MainSwithToIdle \<Rightarrow> Ampm_MainSwithToIdle
   | Fn_URC_CLIP_Process \<Rightarrow> Ampm_URC_CLIP_Process
   | Fn_URC_RING_Process \<Rightarrow> Ampm_URC_RING_Process
   | Fn_SMS_URC_Incomming \<Rightarrow> Ampm_SMS_URC_Incomming
   | Fn_SMS_ReadMsg \<Rightarrow> Ampm_SMS_ReadMsg
   | Fn_SMS_Process \<Rightarrow> Ampm_SMS_Process
   | Fn_CallListSetEmpty \<Rightarrow> Ampm_CallListSetEmpty)"

text \<open>A byte from the modem: parsed in the interrupt, then queued for the engine.\<close>

definition modem_byte :: "u8 \<Rightarrow> 'z gsm_main_scheme \<Rightarrow> 'z gsm_main_scheme option" where
  "modem_byte c s = do { s \<leftarrow> AT_ComnandParser resp_of c s; Some (s\<lparr>rx := rx s @ [c]\<rparr>) }"

definition run_engine :: "'z gsm_main_scheme \<Rightarrow> 'z gsm_main_scheme option" where
  "run_engine s =
     Ampm_Cmd_Task cmd_of (\<lambda>f. Ampm_GsmSendCallback sprintf_of) (\<lambda>f. Ampm_GsmRecvCallback resp_of) end_of s"

section \<open>The phases\<close>

definition goto_phase :: "AMPM_GSM_MAIN_PHASE \<Rightarrow> 'z gsm_main_scheme \<Rightarrow> 'z gsm_main_scheme" where
  "goto_phase p s = s\<lparr>TaskPhase := p\<rparr>"

definition ppp_hangup :: "'z gsm_main_scheme \<Rightarrow> 'z gsm_main_scheme" where
  "ppp_hangup s = emits [PppClose (thisPPP s), PppSigHUP (thisPPP s)] s"

definition main_init :: "'z gsm_main_scheme \<Rightarrow> 'z gsm_main_scheme option" where
  "main_init s = do {
     let s = s\<lparr>gotoDataModeFlag := False, gotoCmdModeFlag := False\<rparr>;
     let s = Ampm_RingingReset s;
     let s = snd (AMPM_GSM_Startup_Init s);
     let s = Ampm_GSM_DialUp_Reset s;
     let s = (if thisPPP s \<ge> 0 then (ppp_hangup s)\<lparr>thisPPP := -1\<rparr> else s);
     let s = (emits [PppInit] s)\<lparr>ppp_status := PPP_DISCONNECTED\<rparr>;
     s \<leftarrow> call_TcpIpInit s;
     let s = Ampm_CallTask_Init s;
     let s = s\<lparr>CmdList := Ampm_CmdResetList (CmdList s), CmdPhase := AMPM_CMD_OK\<rparr>;
     Some (goto_phase AMPM_GSM_MAIN_STARTUP_PHASE s)
   }"

definition main_startup :: "'z gsm_main_scheme \<Rightarrow> 'z gsm_main_scheme option" where
  "main_startup s = do {
     (r, s) \<leftarrow> AMPM_GSM_Startup ampm_AtGsmCmdStart s;
     Some (if r then
             (let (b, s) = Ampm_StartRecvSms s
              in goto_phase (if b then AMPM_GSM_MAIN_SMS_RECV_PHASE else AMPM_GSM_MAIN_IDLE_PHASE) s)
           else s)
   }"

definition main_sms_recv :: "'z gsm_main_scheme \<Rightarrow> 'z gsm_main_scheme" where
  "main_sms_recv s = (if Ampm_RecvSms_IsFinished s then goto_phase AMPM_GSM_MAIN_IDLE_PHASE s else s)"

definition main_sms_send :: "bool \<Rightarrow> 'z gsm_main_scheme \<Rightarrow> 'z gsm_main_scheme option" where
  "main_sms_send lock s = do {
     (r, s) \<leftarrow> Ampm_SmsTask lock s;
     Some (if r \<noteq> 0 then goto_phase AMPM_GSM_MAIN_IDLE_PHASE s else s)
   }"

definition main_voicecall :: "'z gsm_main_scheme \<Rightarrow> 'z gsm_main_scheme option" where
  "main_voicecall s = do {
     (r, s) \<leftarrow> Ampm_CallTask s;
     Some (if r \<noteq> 0 then goto_phase AMPM_GSM_MAIN_IDLE_PHASE s else s)
   }"

definition main_datacall :: "round \<Rightarrow> 'z gsm_main_scheme \<Rightarrow> 'z gsm_main_scheme option" where
  "main_datacall r s = do {
     let s = s\<lparr>gotoDataModeFlag := False\<rparr>;
     let s = (if gotoCmdModeFlag s \<or> ampm_GSM_mode s \<noteq> AMPM_GSM_GPRS_ENABLE
              then goto_phase AMPM_GSM_MAIN_GOTO_CMD_MODE_PHASE (s\<lparr>gsmMainTaskTryCnt := 0\<rparr>) else s);
     let s = (if ppp_input r \<noteq> 0 then s\<lparr>dataSendingTimeout := 3\<rparr> else s);
     if ppp_input r < 0 \<or> ppp_status s = PPP_DISCONNECTED then
       Some (goto_phase AMPM_GSM_MAIN_GOTO_CMD_MODE_PHASE (Ampm_GSM_DialUp_Reset s))
     else if ppp_status s = PPP_CONNECTED \<and> Ampm_TcpIpCallback s \<noteq> None \<and> Ampm_TcpIpInit s \<noteq> None then do {
       let s = Ampm_RingingEnable s;
       if call_TcpIpCallback r s then do {
         let s = (if thisPPP s \<ge> 0 then (ppp_hangup s)\<lparr>ppp_status := PPP_DISCONNECTED\<rparr> else s);
         s \<leftarrow> call_TcpIpInit s;
         Some (goto_phase AMPM_GSM_MAIN_GOTO_CMD_MODE_PHASE (Ampm_GSM_DialUp_Reset s))
       }
       else Some s
     }
     else Some s
   }"

definition main_dial_up :: "round \<Rightarrow> 'z gsm_main_scheme \<Rightarrow> 'z gsm_main_scheme option" where
  "main_dial_up r s = do {
     let s = snd (Ampm_GSM_DialUp s);
     if Ampm_GSM_DialUp_IsDone s then
       (if Ampm_GSM_DialUp_IsOk s then do {
          let s = (Ampm_RingingDisable s)\<lparr>gotoCmdModeFlag := False\<rparr>;
          let s = (if thisPPP s \<ge> 0 then ppp_hangup s else s);
          let s = (emits [PppSetAuth, PppOpen] s)\<lparr>thisPPP := ppp_open r, ppp_status := PPP_CONNECTING\<rparr>;
          s \<leftarrow> (if Ampm_TcpIpInit s \<noteq> None then call_TcpIpInit s else Some s);
          Some (goto_phase AMPM_GSM_MAIN_DATACALL_PHASE s)
        }
        else Some (goto_phase AMPM_GSM_MAIN_IDLE_PHASE s))
     else Some s
   }"

definition main_goto_data :: "'z gsm_main_scheme \<Rightarrow> 'z gsm_main_scheme option" where
  "main_goto_data s =
     (if Ampm_GSM_DialUp_IsOk s \<and> ppp_status s = PPP_CONNECTED then do {
        (r, s) \<leftarrow> Ampm_CmdTask_SendCmd (Some Fn_MainSwithToIdle) (Some (lit ''NO CARRIER'')) 1000 (lit ''CONNECT'')
                    (lit ''ERROR'') 3000 3 (Some (cr_text ''ATO|'')) s;
        Some (if r = 0 then goto_phase AMPM_GSM_MAIN_WAIT_GOTO_DATA_MODE_PHASE s else s)
      }
      else
        call_TcpIpInit ((goto_phase AMPM_GSM_MAIN_DIAL_UP_PHASE (Ampm_GSM_DialUp_Reset s))\<lparr>gotoCmdModeFlag := False\<rparr>))"

definition main_wait_data :: "'z gsm_main_scheme \<Rightarrow> 'z gsm_main_scheme" where
  "main_wait_data s =
     (if Ampm_CmdTask_IsIdle (CmdPhase s) then
        (if CmdPhase s = AMPM_CMD_OK then
           goto_phase AMPM_GSM_MAIN_DATACALL_PHASE (s\<lparr>gsmMainTaskTryCnt := 0, gotoCmdModeFlag := False\<rparr>)
         else goto_phase AMPM_GSM_MAIN_GOTO_CMD_MODE_PHASE (Ampm_GSM_DialUp_Reset s))
      else s)"

definition main_goto_cmd :: "'z gsm_main_scheme \<Rightarrow> 'z gsm_main_scheme" where
  "main_goto_cmd s =
     goto_phase AMPM_GSM_MAIN_GOTO_CMD_MODE_CHECK_PHASE (Ampm_RingingEnable (s\<lparr>gsmMainTaskTryCnt := 0\<rparr>))"

definition main_wait_cmd :: "'z gsm_main_scheme \<Rightarrow> 'z gsm_main_scheme option" where
  "main_wait_cmd s =
     (if Ampm_CmdTask_IsIdle (CmdPhase s) then
        (if CmdPhase s = AMPM_CMD_OK then Some (goto_phase AMPM_GSM_MAIN_IDLE_PHASE (s\<lparr>gotoCmdModeFlag := False\<rparr>))
         else do {
           (r, s) \<leftarrow> Ampm_CmdTask_SendCmd None None 500 (lit ''OK'') (lit ''ERROR'') 1000 1 (Some (cr_text ''AT|'')) s;
           let n = gsmMainTaskTryCnt s;
           let s = s\<lparr>gsmMainTaskTryCnt := n + 1\<rparr>;
           Some (goto_phase (if n < 3 then AMPM_GSM_MAIN_GOTO_CMD_MODE_CHECK_PHASE else AMPM_GSM_MAIN_INIT_PHASE) s)
         })
      else Some s)"

text \<open>The case of \<open>GOTO_CMD_MODE_CHECK\<close> has no \<open>break\<close> and runs into the next
  one.\<close>

definition check_cmd :: "'z gsm_main_scheme \<Rightarrow> 'z gsm_main_scheme option" where
  "check_cmd s =
     (if gsmMainTaskTryCnt s \<noteq> 0 \<and> CmdPhase s = AMPM_CMD_OK then
        Some (goto_phase AMPM_GSM_MAIN_IDLE_PHASE (s\<lparr>gsmMainTaskTryCnt := 0, gotoCmdModeFlag := False\<rparr>))
      else do {
        (r, s) \<leftarrow> Ampm_CmdTask_SendCmd None None 500 (lit ''OK'') (lit ''NO CARRIER'') 2000 0 (Some (lit ''+++'')) s;
        Some (if r = 0 then goto_phase AMPM_GSM_MAIN_WAIT_GOTO_CMD_MODE_PHASE s else s)
      })"

definition main_check_cmd :: "'z gsm_main_scheme \<Rightarrow> 'z gsm_main_scheme option" where
  "main_check_cmd s = do { s \<leftarrow> check_cmd s; main_wait_cmd s }"

definition to_data_mode :: "'z gsm_main_scheme \<Rightarrow> 'z gsm_main_scheme" where
  "to_data_mode s = (if gotoDataModeFlag s then goto_phase AMPM_GSM_MAIN_GOTO_DATA_MODE_PHASE s else s)"

text \<open>\<open>SysTick_Get() - smsCheckTime > AMPM_CHECK_SMS_INTERVAL\<close> wraps.\<close>

definition sms_check_due :: "'z gsm_main_scheme \<Rightarrow> bool" where
  "sms_check_due s = (tick s - smsCheckTime s > AMPM_CHECK_SMS_INTERVAL)"

definition main_idle :: "bool \<Rightarrow> 'z gsm_main_scheme \<Rightarrow> 'z gsm_main_scheme option" where
  "main_idle lock s =
     (if Ampm_Ringing_GetPhase s = AMPM_GSM_RING_IS_A_CALL then do {
        s \<leftarrow> Ampm_VoiceCallStartRecvCall s;
        Some (to_data_mode (goto_phase AMPM_GSM_MAIN_VOICECALL_PHASE (Ampm_RingingReset s)))
      }
      else do {
        e \<leftarrow> Ampm_VoiceCallCheckList_IsEmpty s;
        if \<not> e then Some (to_data_mode (goto_phase AMPM_GSM_MAIN_VOICECALL_PHASE s))
        else if ampm_NewSmsFlag s \<or> sms_check_due s then
          (let (b, s) = Ampm_StartRecvSms (s\<lparr>smsCheckTime := tick s\<rparr>)
           in Some (to_data_mode (if b then goto_phase AMPM_GSM_MAIN_SMS_RECV_PHASE (s\<lparr>ampm_NewSmsFlag := False\<rparr>) else s)))
        else do {
          m \<leftarrow> Ampm_SmsCheckMessage_IsEmpty lock s;
          Some (if m = 0 then to_data_mode (goto_phase AMPM_GSM_MAIN_SMS_SEND_PHASE s)
                else if Ampm_Ringing_GetPhase s \<noteq> AMPM_GSM_RING_IDLE_PHASE then s
                else if ampm_GSM_mode s = AMPM_GSM_GPRS_ENABLE then to_data_mode (s\<lparr>gotoDataModeFlag := True\<rparr>)
                else if ampm_GSM_mode s = AMPM_GSM_SLEEP_MODE then
                  (let (b, s) = Ampm_SendAtCmd ampmMainCmdProcess_AT s
                   in if b then goto_phase AMPM_GSM_MAIN_GO_TO_SLEEP_PHASE s else to_data_mode s)
                else to_data_mode s)
        }
      })"

definition main_go_to_sleep :: "'z gsm_main_scheme \<Rightarrow> 'z gsm_main_scheme option" where
  "main_go_to_sleep s =
     (if Ampm_SendAtCheck_IsEmpty s \<and> Ampm_CmdTask_IsIdle (CmdPhase s) then
        (if CmdPhase s = AMPM_CMD_OK then do {
           s \<leftarrow> call_TcpIpInit s;
           Some (goto_phase AMPM_GSM_MAIN_SLEEP_PHASE (Ampm_GSM_DialUp_Reset s))
         }
         else Some (goto_phase AMPM_GSM_MAIN_INIT_PHASE s))
      else Some s)"

definition main_sleep :: "'z gsm_main_scheme \<Rightarrow> 'z gsm_main_scheme" where
  "main_sleep s =
     (if ampm_GSM_mode s \<noteq> AMPM_GSM_SLEEP_MODE then
        goto_phase AMPM_GSM_MAIN_WAKEUP_PHASE
          (Ampm_SendAtCmdNow ampmMainCmdProcess_AT (emits [Wakeup] (goto_phase AMPM_GSM_MAIN_IDLE_PHASE s)))
      else s)"

definition main_wakeup :: "'z gsm_main_scheme \<Rightarrow> 'z gsm_main_scheme" where
  "main_wakeup s =
     (if Ampm_SendAtCheck_IsEmpty s \<and> Ampm_CmdTask_IsIdle (CmdPhase s) then
        goto_phase (if CmdPhase s = AMPM_CMD_OK then AMPM_GSM_MAIN_IDLE_PHASE else AMPM_GSM_MAIN_INIT_PHASE) s
      else s)"

definition main_switch :: "round \<Rightarrow> 'z gsm_main_scheme \<Rightarrow> 'z gsm_main_scheme option" where
  "main_switch r s = (case TaskPhase s of
     AMPM_GSM_MAIN_INIT_PHASE \<Rightarrow> main_init s
   | AMPM_GSM_MAIN_STARTUP_PHASE \<Rightarrow> main_startup s
   | AMPM_GSM_MAIN_SMS_RECV_PHASE \<Rightarrow> Some (main_sms_recv s)
   | AMPM_GSM_MAIN_SMS_SEND_PHASE \<Rightarrow> main_sms_send (lock_task r) s
   | AMPM_GSM_MAIN_VOICECALL_PHASE \<Rightarrow> main_voicecall s
   | AMPM_GSM_MAIN_DATACALL_PHASE \<Rightarrow> main_datacall r s
   | AMPM_GSM_MAIN_DIAL_UP_PHASE \<Rightarrow> main_dial_up r s
   | AMPM_GSM_MAIN_GOTO_DATA_MODE_PHASE \<Rightarrow> main_goto_data s
   | AMPM_GSM_MAIN_WAIT_GOTO_DATA_MODE_PHASE \<Rightarrow> Some (main_wait_data s)
   | AMPM_GSM_MAIN_GOTO_CMD_MODE_PHASE \<Rightarrow> Some (main_goto_cmd s)
   | AMPM_GSM_MAIN_GOTO_CMD_MODE_CHECK_PHASE \<Rightarrow> main_check_cmd s
   | AMPM_GSM_MAIN_WAIT_GOTO_CMD_MODE_PHASE \<Rightarrow> main_wait_cmd s
   | AMPM_GSM_MAIN_IDLE_PHASE \<Rightarrow> main_idle (lock_check r) s
   | AMPM_GSM_MAIN_GO_TO_SLEEP_PHASE \<Rightarrow> main_go_to_sleep s
   | AMPM_GSM_MAIN_SLEEP_PHASE \<Rightarrow> Some (main_sleep s)
   | AMPM_GSM_MAIN_WAKEUP_PHASE \<Rightarrow> Some (main_wakeup s))"

section \<open>One round of the task\<close>

definition main_begin :: "'z gsm_main_scheme \<Rightarrow> 'z gsm_main_scheme option" where
  "main_begin s = do {
     let s = (if ampm_ModemResetFlag s then goto_phase AMPM_GSM_MAIN_INIT_PHASE (s\<lparr>ampm_ModemResetFlag := False\<rparr>) else s);
     if smsTaskFailCnt s \<ge> SMS_MAX_RETRY then do { s \<leftarrow> Ampm_Gsm_Error s; Some (s\<lparr>smsTaskFailCnt := 0\<rparr>) }
     else Some s
   }"

text \<open>Work that needs the command mode interrupts a data call unless data was just moved.\<close>

definition main_interrupt :: "bool \<Rightarrow> 'z gsm_main_scheme \<Rightarrow> 'z gsm_main_scheme option" where
  "main_interrupt lock s = do {
     m \<leftarrow> Ampm_SmsCheckMessage_IsEmpty lock s;
     v \<leftarrow> (if m = 0 then Some True else Ampm_VoiceCallCheckList_IsEmpty s);
     Some (if (m = 0 \<or> \<not> v \<or> Ampm_Ringing_GetPhase s \<noteq> AMPM_GSM_RING_IDLE_PHASE \<or> ampm_NewSmsFlag s \<or> sms_check_due s)
              \<and> dataSendingTimeout s = 0
           then Ampm_GsmGotoCmdMode s else s)
   }"

definition main_engine :: "'z gsm_main_scheme \<Rightarrow> 'z gsm_main_scheme option" where
  "main_engine s =
     (if TaskPhase s \<noteq> AMPM_GSM_MAIN_DATACALL_PHASE then run_engine (s\<lparr>ampm_AtCommandParserEnable := True\<rparr>) else Some s)"

definition main_second :: "bool \<Rightarrow> 'z gsm_main_scheme \<Rightarrow> 'z gsm_main_scheme option" where
  "main_second lock s =
     (let (r, t) = CheckTimeout (tick s) (tRingTask s); s = s\<lparr>tRingTask := t\<rparr>
      in if r = 0 then do {
           let s = (if dataSendingTimeout s \<noteq> 0 then s\<lparr>dataSendingTimeout := dataSendingTimeout s - 1\<rparr> else s);
           let s = s\<lparr>tRingTask := InitTimeout (tick s) (tRingTask s) 1000\<rparr>;
           let s = Ampm_RingingTimer s;
           (r, s) \<leftarrow> Ampm_SmsTaskPeriodic_1Sec lock s;
           (r, s) \<leftarrow> Ampm_CallTaskPeriodic_1Sec s;
           Some s
         }
         else Some s)"

definition AMPM_GSM_MainTask :: "round \<Rightarrow> 'z gsm_main_scheme \<Rightarrow> 'z gsm_main_scheme option" where
  "AMPM_GSM_MainTask r s = do {
     s \<leftarrow> main_begin s;
     s \<leftarrow> main_switch r s;
     s \<leftarrow> main_interrupt (lock_check_end r) s;
     s \<leftarrow> main_engine s;
     let s = (if Ampm_GsmIsGood s then Ampm_RingingProcess s else s);
     main_second (lock_second r) s
   }"

end
