(* ===== verification/GsmCallProofs.thy ===== *)
theory GsmCallProofs
  imports GsmCall GsmBoot
begin

text \<open>
  Properties of the voice call module: its memory stays well formed under every operation,
  the task makes progress on every run, telephone numbers are compared by their common end,
  and an incoming call's report overruns the buffer for its number.
\<close>

section \<open>Comparing telephone numbers\<close>

text \<open>The length of the longest common end.\<close>

fun common_prefix :: "'a list \<Rightarrow> 'a list \<Rightarrow> nat" where
  "common_prefix (x # xs) (y # ys) = (if x = y then Suc (common_prefix xs ys) else 0)"
| "common_prefix xs ys = 0"

definition common_end :: "bytes \<Rightarrow> bytes \<Rightarrow> nat" where
  "common_end a b = common_prefix (rev a) (rev b)"

lemma common_prefix_le: "common_prefix xs ys \<le> length xs"
  by (induction xs ys rule: common_prefix.induct) auto

lemma common_prefix_0 [simp]: "common_prefix xs [] = 0"
  by (cases xs) auto

lemma common_end_snoc: "common_end (a @ [x]) (b @ [y]) = (if x = y then Suc (common_end a b) else 0)"
  by (simp add: common_end_def)

lemma common_end_Nil [simp]: "common_end [] b = 0" "common_end a [] = 0"
  by (simp_all add: common_end_def)

lemma compare_back_common:
  "i \<le> length p \<Longrightarrow> j \<le> length q \<Longrightarrow>
   compare_back p q i j n = Some (n + of_nat (common_end (take i p) (take j q)))"
proof (induction i arbitrary: j n)
  case (Suc i)
  show ?case
  proof (cases j)
    case (Suc j')
    then show ?thesis using Suc.prems Suc.IH [of j' "n + 1"]
      by (simp add: take_Suc_conv_app_nth common_end_snoc add.assoc)
  qed (simp add: common_end_def)
qed (simp add: common_end_def)

text \<open>How many trailing digits two numbers must share: all that follow the country code or the
  leading zero of the shorter one.\<close>

definition local_digits :: "bytes \<Rightarrow> nat" where
  "local_digits t =
     (if t \<noteq> [] \<and> hd t = 0x2B \<and> length t > 4 then length t - 4
      else if t \<noteq> [] \<and> hd t = 0x30 \<and> length t > 1 then length t - 1
      else length t)"

definition same_number :: "nat \<Rightarrow> bytes \<Rightarrow> bytes \<Rightarrow> bool" where
  "same_number m a b \<longleftrightarrow> m \<le> common_end a b \<and> min (local_digits a) (local_digits b) \<le> common_end a b"

lemma significant_local:
  assumes "0 \<notin> set t" "length t < 256"
  shows "unat (significant ((t @ 0 # r) ! 0) (of_nat (length t))) = local_digits t"
proof -
  have u: "unat (of_nat (length t) :: u8) = length t" using assms(2) by (simp add: unat_of_nat)
  have c: "(4 :: u8) < of_nat (length t) \<longleftrightarrow> 4 < length t" "(1 :: u8) < of_nat (length t) \<longleftrightarrow> 1 < length t"
    using u by (simp_all add: word_less_nat_alt)
  have d: "4 < length t \<Longrightarrow> unat (of_nat (length t) - 4 :: u8) = length t - 4"
      "1 < length t \<Longrightarrow> unat (of_nat (length t) - 1 :: u8) = length t - 1"
    using u by (simp_all add: unat_sub word_le_nat_alt)
  show ?thesis
    using c d u by (cases t) (simp_all add: significant_def local_digits_def)
qed

lemma common_end_u8:
  "length a < 256 \<Longrightarrow> unat (of_nat (common_end a b) :: u8) = common_end a b"
  using common_prefix_le [of "rev a" "rev b"] by (simp add: common_end_def unat_of_nat)

lemma ComparePhoneNumber_1_same:
  assumes "0 \<notin> set a" "0 \<notin> set b" "length a < 256" "length b < 256"
  shows "Ampm_ComparePhoneNumber_1 (a @ 0 # r) (b @ 0 # r') m = Some (if same_number (unat m) a b then 1 else 0)"
proof -
  let ?n = "of_nat (common_end a b) :: u8"
  let ?i = "of_nat (length a) :: u8" and ?j = "of_nat (length b) :: u8"
  have u: "unat ?i = length a" "unat ?j = length b" using assms(3,4) by (simp_all add: unat_of_nat)
  have n: "compare_back (a @ 0 # r) (b @ 0 # r') (length a) (length b) 0 = Some ?n"
    by (simp add: compare_back_common)
  let ?l1 = "significant ((a @ 0 # r) ! 0) ?i" and ?l2 = "significant ((b @ 0 # r') ! 0) ?j"
  have l: "unat (if ?l2 < ?l1 then ?l2 else ?l1) = min (local_digits a) (local_digits b)"
    using significant_local [OF assms(1,3)] significant_local [OF assms(2,4)]
    by (auto simp: word_less_nat_alt min_def)
  have "(m \<le> ?n \<and> (if ?l2 < ?l1 then ?l2 else ?l1) \<le> ?n) = same_number (unat m) a b"
    unfolding word_le_nat_alt l common_end_u8 [OF assms(3)] same_number_def ..
  then show ?thesis
    unfolding Ampm_ComparePhoneNumber_1_def by (simp add: assms(1,2) n u Let_def del: of_nat_add)
qed



section \<open>The call list\<close>

text \<open>The list holds the calls \<open>xs\<close>, every object is allocated with its link, and
  \<open>voiceCall\<close> points to one if to anything.\<close>

definition call_ok :: "'z gsm_call_scheme \<Rightarrow> call_addr list \<Rightarrow> bool" where
  "call_ok s xs \<longleftrightarrow> is_list (call_next s) (callList s) xs
     \<and> dom (calls s) = dom (call_next s) \<and> IncomingCall \<in> dom (calls s) \<and> set_option (voiceCall s) \<subseteq> dom (calls s)"

lemma call_put_ok:
  assumes "call_ok s xs" "calls s p = Some c"
  shows "call_put p f s = Some (s\<lparr>calls := (calls s)(p \<mapsto> f c)\<rparr>)" "call_ok (s\<lparr>calls := (calls s)(p \<mapsto> f c)\<rparr>) xs"
proof -
  have "dom ((calls s)(p \<mapsto> f c)) = dom (calls s)" using assms(2) by (simp add: insert_absorb domI)
  then show "call_ok (s\<lparr>calls := (calls s)(p \<mapsto> f c)\<rparr>) xs" using assms(1)
    unfolding call_ok_def by (elim conjE) (simp del: dom_fun_upd)
  show "call_put p f s = Some (s\<lparr>calls := (calls s)(p \<mapsto> f c)\<rparr>)" using assms(2) by (simp add: call_put_def)
qed

lemma call_ok_item: "call_ok s xs \<Longrightarrow> p \<in> set xs \<Longrightarrow> \<exists>c n. calls s p = Some c \<and> call_next s p = Some n"
  using path_alloc [of "call_next s" "callList s" xs None p] by (auto simp: call_ok_def is_list_def)

lemma call_ok_relink:
  assumes "call_ok s xs" "is_list h l ys" "\<forall>q. h q = None \<longleftrightarrow> call_next s q = None"
  shows "call_ok (s\<lparr>call_next := h, callList := l\<rparr>) ys"
proof -
  have "dom h = dom (call_next s)" using assms(3) by (auto simp: dom_def)
  then show ?thesis using assms(1,2) unfolding call_ok_def by (elim conjE) simp
qed

lemma call_unlink_ok:
  assumes "call_ok s xs"
  shows "\<exists>s'. call_unlink p s = Some s' \<and> call_ok s' (seq_remove p xs) \<and> calls s' = calls s"
proof -
  have l: "is_list (call_next s) (callList s) xs" using assms by (simp add: call_ok_def)
  from list_remove_seq [OF l, of p] obtain h l' where
    "list_remove (call_next s) (callList s) p = Some (h, l')" "is_list h l' (seq_remove p xs)"
    "\<forall>q. h q = None \<longleftrightarrow> call_next s q = None" by blast
  then show ?thesis using call_ok_relink [OF assms] by (simp add: call_unlink_def)
qed

lemma VoiceCallAdd_ok:
  assumes "call_ok s xs" "calls s p \<noteq> None"
  shows "\<exists>s'. Ampm_VoiceCallAdd p s = Some s' \<and> call_ok s' (seq_add p xs) \<and> calls s' = calls s"
proof -
  have "p \<in> dom (call_next s)" using assms by (auto simp: call_ok_def)
  then have l: "is_list (call_next s) (callList s) xs" "call_next s p \<noteq> None" using assms(1) by (auto simp: call_ok_def)
  from list_add_seq [OF l] obtain h l' where
    "list_add (call_next s) (callList s) p = Some (h, l')" "is_list h l' (seq_add p xs)"
    "\<forall>q. h q = None \<longleftrightarrow> call_next s q = None" by blast
  then show ?thesis using call_ok_relink [OF assms(1)] by (simp add: Ampm_VoiceCallAdd_def)
qed

lemma unlink_head:
  assumes "callList s = Some p" "call_next s p = Some n"
  shows "call_unlink p s = Some (s\<lparr>call_next := (call_next s)(p \<mapsto> None), callList := n\<rparr>)"
  using assms by (simp add: call_unlink_def list_remove_def list_remove_loop.simps set_next_def)

lemma call_ok_tail:
  assumes "call_ok s (p # ps)" "call_next s p = Some n"
  shows "call_ok (s\<lparr>call_next := (call_next s)(p \<mapsto> None), callList := n\<rparr>) ps"
proof (rule call_ok_relink [OF assms(1)])
  have "p \<notin> set ps" using assms(1) is_list_distinct by (fastforce simp: call_ok_def)
  then show "is_list ((call_next s)(p \<mapsto> None)) n ps" using assms by (simp add: call_ok_def is_list_def)
qed (use assms(2) in simp)

lemma call_ok_voice:
  assumes "call_ok s xs" "calls s p = Some c"
  shows "call_ok (s\<lparr>voiceCall := Some p\<rparr>) xs"
  using assms(1) domI [of "calls s" p c, OF assms(2)] unfolding call_ok_def by (elim conjE) simp

lemma call_ok_cong:
  assumes "calls s' = calls s" "call_next s' = call_next s" "callList s' = callList s" "voiceCall s' = voiceCall s"
  shows "call_ok s' xs \<longleftrightarrow> call_ok s xs"
  by (simp add: assms call_ok_def)

section \<open>Progress of the call task\<close>

text \<open>What is left to do: a try for each one a waiting call has, and its removal.\<close>

definition call_work :: "'z gsm_call_scheme \<Rightarrow> call_addr list \<Rightarrow> nat" where
  "call_work s xs = sum_list (map (\<lambda>p. case calls s p of None \<Rightarrow> 0 | Some c \<Rightarrow> Suc (unat (tryNum c))) xs)"

lemma call_work_upd: "p \<notin> set xs \<Longrightarrow> call_work (s\<lparr>calls := (calls s)(p \<mapsto> c)\<rparr>) xs = call_work s xs"
  unfolding call_work_def by (intro arg_cong [where f = sum_list] map_cong) auto

lemma call_work_cong: "calls s' = calls s \<Longrightarrow> call_work s' xs = call_work s xs"
  by (simp add: call_work_def)

text \<open>The head of the list after a run that starts it, and after one that drops it.\<close>

definition attempted :: "CALL_LIST_TYPE \<Rightarrow> CALL_LIST_TYPE" where
  "attempted c = c\<lparr>call_timeout := timeoutReload c,
     tryNum := (if tryNum c \<noteq> 0 then tryNum c - 1 else tryNum c), call_state := CALL_START\<rparr>"

definition dropped :: "CALL_LIST_TYPE \<Rightarrow> CALL_LIST_TYPE" where
  "dropped c = c\<lparr>call_state := CALL_ENDED\<rparr>"

lemma SendAtCmdNow_call_fields [simp]:
  "calls (Ampm_SendAtCmdNow cmd s) = calls s" "call_next (Ampm_SendAtCmdNow cmd s) = call_next s"
  "callList (Ampm_SendAtCmdNow cmd s) = callList s" "voiceCall (Ampm_SendAtCmdNow cmd s) = voiceCall s"
  "CmdSend (Ampm_SendAtCmdNow cmd s) = cmd" "CmdPhase (Ampm_SendAtCmdNow cmd s) = AMPM_CMD_SEND"
  by (simp_all add: Ampm_SendAtCmdNow_def Ampm_SendCmdNow_def start_timeout_def Let_def)

lemma CallTask_loop_starts:
  assumes "call_ok s (p # ps)" "calls s p = Some c" "call_wanted c"
  shows "\<exists>s'. CallTask_loop (Some p) s = Some s' \<and> call_ok s' (p # ps) \<and> calls s' = (calls s)(p \<mapsto> attempted c)
    \<and> voiceCall s' = Some p \<and> CmdSend s' = voiceCallSendCmdProcess_Start \<and> CmdPhase s' = AMPM_CMD_SEND"
proof -
  note put = call_put_ok [OF assms(1,2), of attempted]
  from put(1) have 1: "call_put p (\<lambda>c. c\<lparr>call_timeout := timeoutReload c,
      tryNum := (if tryNum c \<noteq> 0 then tryNum c - 1 else tryNum c), call_state := CALL_START\<rparr>) s
      = Some (s\<lparr>calls := (calls s)(p \<mapsto> attempted c)\<rparr>)"
    by (simp add: attempted_def [abs_def])
  let ?s1 = "s\<lparr>calls := (calls s)(p \<mapsto> attempted c), voiceCall := Some p\<rparr>"
  let ?s2 = "?s1\<lparr>callDelayTime := CALL_DELAY_TIME,
      tCallDelayTimeout := InitTimeout (tick s) (tCallDelayTimeout s) (seconds_ms CALL_DELAY_TIME)\<rparr>"
  let ?s3 = "Ampm_SendAtCmdNow voiceCallSendCmdProcess_Start ?s2"
  have "call_ok ?s1 (p # ps)" using call_ok_voice [OF put(2), of p] by simp
  then have "call_ok ?s3 (p # ps)" by (rule iffD2 [OF call_ok_cong, rotated 4]) simp_all
  moreover have "CallTask_loop (Some p) s = Some ?s3"
    using assms(2,3) by (subst CallTask_loop.simps) (simp add: call_at_def 1 Let_def)
  ultimately show ?thesis by simp
qed

lemma CallTask_loop_drops:
  assumes "call_ok s (p # ps)" "calls s p = Some c" "\<not> call_wanted c"
  shows "\<exists>s'. CallTask_loop (Some p) s = Some s' \<and> call_ok s' ps \<and> calls s' = (calls s)(p \<mapsto> dropped c)
    \<and> voiceCall s' = voiceCall s \<and> CmdSend s' = CmdSend s \<and> CmdPhase s' = CmdPhase s"
proof -
  note put = call_put_ok [OF assms(1,2), of dropped]
  from put(1) have 1: "call_put p (\<lambda>c. c\<lparr>call_state := CALL_ENDED\<rparr>) s = Some (s\<lparr>calls := (calls s)(p \<mapsto> dropped c)\<rparr>)"
    by (simp add: dropped_def [abs_def])
  obtain n where n: "call_next s p = Some n" using call_ok_item [OF assms(1), of p] by auto
  have l: "callList s = Some p" using assms(1) by (simp add: call_ok_def is_list_def)
  let ?s = "s\<lparr>calls := (calls s)(p \<mapsto> dropped c)\<rparr>"
  have 2: "call_unlink p ?s = Some (?s\<lparr>call_next := (call_next s)(p \<mapsto> None), callList := n\<rparr>)"
    using unlink_head [of ?s p n] n l by simp
  have 3: "call_ok (?s\<lparr>call_next := (call_next s)(p \<mapsto> None), callList := n\<rparr>) ps"
    using call_ok_tail [OF put(2), of n] n by simp
  show ?thesis
    using assms(2,3) 3
    by (subst CallTask_loop.simps) (simp add: call_at_def 1 2 list_item_next_def CallTask_loop.simps [of None])
qed

lemma call_work_head:
  "distinct (p # ps) \<Longrightarrow> call_work (s\<lparr>calls := (calls s)(p \<mapsto> c)\<rparr>) (p # ps) = Suc (unat (tryNum c)) + call_work s ps"
  using call_work_upd [of p ps s c] by (simp add: call_work_def)

lemma attempted_tries: "tryNum c \<noteq> 0 \<Longrightarrow> unat (tryNum (attempted c)) < unat (tryNum c)"
  using word_less_1 by (simp add: attempted_def unat_minus_one unat_gt_0)

text \<open>Property C4. The call task makes progress.  When the engine is idle, the pause after the last call is
  over and no incoming call waits, one run on a nonempty list takes its first call: a call
  that still has a number, a try and no success and is not cancelled is dialled, with one try
  less, a fresh timeout and as the current call; any other is marked ended and removed.  What
  is left to do decreases on every run, so the list is empty in the end; an empty list is
  reported by the result 1.\<close>

theorem Ampm_CallTask_progress:
  assumes "call_ok s xs" "Ampm_SendAtCheck_IsEmpty s" "Ampm_CmdTask_IsIdle (CmdPhase s)"
    and "fst (CheckTimeout (tick s) (tCallDelayTimeout s)) = 0"
    and "calls s IncomingCall = Some i" "call_state i \<noteq> CALL_START"
  shows "case xs of [] \<Rightarrow> \<exists>s'. Ampm_CallTask s = Some (1, s') \<and> call_ok s' [] \<and> calls s' = calls s
    | p # ps \<Rightarrow> \<exists>s' c. calls s p = Some c \<and> Ampm_CallTask s = Some (0, s') \<and>
        (if call_wanted c
         then call_ok s' xs \<and> call_work s' xs < call_work s xs \<and> calls s' = (calls s)(p \<mapsto> attempted c)
           \<and> voiceCall s' = Some p \<and> CmdSend s' = voiceCallSendCmdProcess_Start \<and> CmdPhase s' = AMPM_CMD_SEND
         else call_ok s' ps \<and> call_work s' ps < call_work s xs \<and> calls s' = (calls s)(p \<mapsto> dropped c)
           \<and> CmdPhase s' = CmdPhase s)"
proof -
  let ?s = "s\<lparr>callTaskIsRunningCnt := 1\<rparr>"
  have ok: "call_ok ?s xs" using assms(1) by (rule iffD2 [OF call_ok_cong, rotated 4]) simp_all
  then have len: "list_length (call_next s) (callList s) = Some (int (length xs))"
    by (intro list_length_seq) (simp add: call_ok_def)
  have task: "Ampm_CallTask s = (if xs \<noteq> [] then do { s \<leftarrow> CallTask_loop (callList s) ?s; Some (0, s) } else Some (1, ?s))"
    using assms(2-6) len by (simp add: Ampm_CallTask_def Ampm_SendAtCheck_IsEmpty_def call_at_def list_head_def)
  show ?thesis
  proof (cases xs)
    case Nil
    then show ?thesis using ok task by simp
  next
    case (Cons p ps)
    have ok: "call_ok ?s (p # ps)" using ok Cons by simp
    have l: "callList s = Some p" using ok by (simp add: call_ok_def is_list_def)
    have d: "distinct (p # ps)" using ok is_list_distinct [of "call_next ?s" "callList ?s"] unfolding call_ok_def by blast
    obtain c where c: "calls s p = Some c" using call_ok_item [OF ok, of p] by auto
    have w: "call_work s (p # ps) = Suc (unat (tryNum c)) + call_work s ps" by (simp add: call_work_def c)
    show ?thesis
    proof (cases "call_wanted c")
      case True
      from CallTask_loop_starts [OF ok _ True] c obtain s' where
        s': "CallTask_loop (Some p) ?s = Some s'" "call_ok s' (p # ps)" "calls s' = (calls s)(p \<mapsto> attempted c)"
          "voiceCall s' = Some p" "CmdSend s' = voiceCallSendCmdProcess_Start" "CmdPhase s' = AMPM_CMD_SEND" by auto
      have "call_work s' (p # ps) = Suc (unat (tryNum (attempted c))) + call_work s ps"
        using call_work_head [OF d, of s "attempted c"] call_work_cong [of s' "s\<lparr>calls := (calls s)(p \<mapsto> attempted c)\<rparr>"] s'(3)
        by simp
      then show ?thesis using True s' c task l Cons w attempted_tries [of c] by (simp add: call_wanted_def)
    next
      case False
      from CallTask_loop_drops [OF ok _ False] c obtain s' where
        s': "CallTask_loop (Some p) ?s = Some s'" "call_ok s' ps" "calls s' = (calls s)(p \<mapsto> dropped c)"
          "CmdPhase s' = CmdPhase s" by auto
      have "call_work s' ps = call_work s ps"
        using call_work_upd [of p ps s "dropped c"] call_work_cong [of s' "s\<lparr>calls := (calls s)(p \<mapsto> dropped c)\<rparr>"] s'(3) d
        by simp
      then show ?thesis using False s' c task l Cons w by simp
    qed
  qed
qed

section \<open>Every operation keeps the memory well formed\<close>

lemma calls_tick_ok:
  "call_ok s xs \<Longrightarrow> path (call_next s) p ys None \<Longrightarrow> set ys \<subseteq> set xs \<Longrightarrow>
   \<exists>s'. calls_tick p s = Some s' \<and> call_ok s' xs"
proof (induction ys arbitrary: p s)
  case Nil
  then show ?case by (simp add: calls_tick.simps)
next
  case (Cons y ys)
  then obtain c n where c: "p = Some y" "calls s y = Some c" "call_next s y = Some n" "path (call_next s) n ys None"
    using call_ok_item [of s xs y] by auto
  let ?f = "\<lambda>c. if call_timeout c \<noteq> 0 then c\<lparr>call_timeout := call_timeout c - 1\<rparr> else c"
  note put = call_put_ok [OF Cons.prems(1) c(2), of ?f]
  have "\<exists>s'. calls_tick n (s\<lparr>calls := (calls s)(y \<mapsto> ?f c)\<rparr>) = Some s' \<and> call_ok s' xs"
    by (rule Cons.IH [OF put(2)]) (use c Cons.prems(3) in auto)
  then show ?case using put(1) c by (subst calls_tick.simps) (simp add: list_item_next_def)
qed

datatype call_op =
  Setup call_addr "bytes option" CALL_ACTION "nat option" u8 u16 u8 | Cancel call_addr | SetAction call_addr CALL_ACTION
| StartRecv | CallSecond | CallTask | CeerEnd AMPM_CMD_PHASE | CallEnd AMPM_CMD_PHASE | AtmEnd AMPM_CMD_PHASE
| DialEnd AMPM_CMD_PHASE

fun call_op_addr :: "call_op \<Rightarrow> call_addr option" where
  "call_op_addr (Setup p ph a cb at t n) = Some p"
| "call_op_addr (Cancel p) = Some p"
| "call_op_addr (SetAction p a) = Some p"
| "call_op_addr _ = None"

fun call_step :: "call_op \<Rightarrow> 'z gsm_call_scheme \<Rightarrow> 'z gsm_call_scheme option" where
  "call_step (Setup p ph a cb at t n) s = Ampm_VoiceCallSetup p ph None a cb at t n s"
| "call_step (Cancel p) s = Ampm_VoiceCallCancel p s"
| "call_step (SetAction p a) s = Ampm_VoiceCallSetAction p a s"
| "call_step StartRecv s = Ampm_VoiceCallStartRecvCall s"
| "call_step CallSecond s = map_option snd (Ampm_CallTaskPeriodic_1Sec s)"
| "call_step CallTask s = map_option snd (Ampm_CallTask s)"
| "call_step (CeerEnd ph) s = map_option snd (Ampm_GsmVoiceCallCheckCeerEndCallback ph s)"
| "call_step (CallEnd ph) s = map_option snd (Ampm_GsmCallEndCallback ph s)"
| "call_step (AtmEnd ph) s = map_option snd (Ampm_GsmATM1EndCallback ph s)"
| "call_step (DialEnd ph) s = map_option snd (Ampm_GsmCallDialEndCallback ph s)"

text \<open>The memory is well formed and, if \<open>v\<close>, there is a current call.\<close>

definition call_ready :: "bool \<Rightarrow> 'z gsm_call_scheme \<Rightarrow> bool" where
  "call_ready v s \<longleftrightarrow> (\<exists>xs. call_ok s xs) \<and> (v \<longrightarrow> voiceCall s \<noteq> None)"

definition keeps :: "bool \<Rightarrow> 'z gsm_call_scheme option \<Rightarrow> 'z gsm_call_scheme \<Rightarrow> bool" where
  "keeps v m s \<longleftrightarrow> (\<exists>s'. m = Some s' \<and> call_ready v s' \<and> dom (calls s') = dom (calls s))"

lemma keeps_Some [intro]: "call_ready v s' \<Longrightarrow> dom (calls s') = dom (calls s) \<Longrightarrow> keeps v (Some s') s"
  by (simp add: keeps_def)

lemma keeps_bind:
  assumes "keeps v m s" "\<And>s'. m = Some s' \<Longrightarrow> call_ready v s' \<Longrightarrow> dom (calls s') = dom (calls s) \<Longrightarrow> keeps v (f s') s'"
  shows "keeps v (m \<bind> f) s"
  using assms by (fastforce simp: keeps_def)

lemma call_ready_upd:
  assumes "call_ready v s" "calls s' = calls s" "call_next s' = call_next s" "callList s' = callList s"
    "voiceCall s' = voiceCall s"
  shows "call_ready v s'"
  using assms(1) call_ok_cong [OF assms(2-5)] by (simp add: call_ready_def assms(5))

lemma call_ready_voice: "call_ready True s \<Longrightarrow> \<exists>p c. voiceCall s = Some p \<and> calls s p = Some c \<and> voice s = Some c"
  by (auto simp: call_ready_def call_ok_def voice_def)

lemma call_ready_incoming: "call_ready v s \<Longrightarrow> \<exists>c. calls s IncomingCall = Some c"
  by (auto simp: call_ready_def call_ok_def)

lemma keeps_call_put:
  assumes "call_ready v s" "calls s p = Some c"
  shows "keeps v (call_put p f s) s"
proof -
  obtain xs where "call_ok s xs" using assms(1) by (auto simp: call_ready_def)
  from call_put_ok [OF this assms(2), of f] have "call_put p f s = Some (s\<lparr>calls := (calls s)(p \<mapsto> f c)\<rparr>)"
    "call_ready v (s\<lparr>calls := (calls s)(p \<mapsto> f c)\<rparr>)" using assms(1) unfolding call_ready_def by auto
  then show ?thesis using assms(2) by (simp add: keeps_def insert_absorb domI)
qed

lemma keeps_voice_put: "call_ready True s \<Longrightarrow> keeps True (voice_put f s) s"
  using call_ready_voice [of s] keeps_call_put [of True s _ _ f] by (auto simp: voice_put_def)

lemma keeps_unlink: "call_ready v s \<Longrightarrow> keeps v (call_unlink p s) s"
  using call_unlink_ok [of s _ p] unfolding call_ready_def keeps_def call_unlink_def
  by (fastforce split: Option.bind_splits)

lemma keeps_add: "call_ready v s \<Longrightarrow> calls s p \<noteq> None \<Longrightarrow> keeps v (Ampm_VoiceCallAdd p s) s"
  using VoiceCallAdd_ok [of s _ p] unfolding call_ready_def keeps_def Ampm_VoiceCallAdd_def
  by (fastforce split: Option.bind_splits)

lemma call_ready_send: "call_ready v s \<Longrightarrow> call_ready v (Ampm_SendAtCmdNow cmd s)"
  by (erule call_ready_upd) simp_all

lemma keeps_hang_up: "call_ready True s \<Longrightarrow> keeps True (hang_up r s) s"
  using keeps_voice_put [OF call_ready_send] unfolding hang_up_def keeps_def by simp

lemma keeps_tick: "call_ready v s \<Longrightarrow> keeps v (calls_tick (callList s) s) s"
proof -
  assume "call_ready v s"
  then obtain xs where xs: "call_ok s xs" "v \<longrightarrow> voiceCall s \<noteq> None" by (auto simp: call_ready_def)
  have "\<And>p s. path (call_next s) p ys None \<Longrightarrow> call_ok s xs \<Longrightarrow> v \<longrightarrow> voiceCall s \<noteq> None \<Longrightarrow> set ys \<subseteq> set xs \<Longrightarrow>
      keeps v (calls_tick p s) s" for ys
  proof (induction ys)
    case Nil
    then show ?case by (subst calls_tick.simps) (auto simp: call_ready_def keeps_def)
  next
    case (Cons y ys)
    then obtain c n where c: "p = Some y" "calls s y = Some c" "call_next s y = Some n" "path (call_next s) n ys None"
      using call_ok_item [of s xs y] by auto
    let ?f = "\<lambda>c. if call_timeout c \<noteq> 0 then c\<lparr>call_timeout := call_timeout c - 1\<rparr> else c"
    note put = call_put_ok [OF Cons.prems(2) c(2), of ?f]
    let ?s = "s\<lparr>calls := (calls s)(y \<mapsto> ?f c)\<rparr>"
    have "keeps v (calls_tick n ?s) ?s"
      by (rule Cons.IH [OF _ put(2)]) (use c Cons.prems(3,4) in auto)
    then have "keeps v (calls_tick n ?s) s" using c(2) by (simp add: keeps_def insert_absorb domI)
    then show ?case using put(1) c by (subst calls_tick.simps) (simp add: list_item_next_def)
  qed
  moreover have "path (call_next s) (callList s) xs None" using xs(1) by (simp add: call_ok_def is_list_def)
  ultimately show ?thesis using xs by blast
qed

lemma keeps_CallTask_loop: "call_ready v s \<Longrightarrow> keeps v (CallTask_loop (callList s) s) s"
proof -
  assume r: "call_ready v s"
  then obtain xs where xs: "call_ok s xs" "v \<longrightarrow> voiceCall s \<noteq> None" by (auto simp: call_ready_def)
  show ?thesis
  proof (cases xs)
    case Nil
    then have "callList s = None" using xs(1) by (simp add: call_ok_def is_list_def)
    then show ?thesis using r by (subst CallTask_loop.simps) auto
  next
    case (Cons p ps)
    with xs(1) have ok: "call_ok s (p # ps)" by simp
    then have l: "callList s = Some p" by (simp add: call_ok_def is_list_def)
    obtain c where c: "calls s p = Some c" using call_ok_item [OF ok, of p] by auto
    have "\<exists>s' ys c'. CallTask_loop (Some p) s = Some s' \<and> call_ok s' ys \<and> calls s' = (calls s)(p \<mapsto> c') \<and> (v \<longrightarrow> voiceCall s' \<noteq> None)"
    proof (cases "call_wanted c")
      case True
      from CallTask_loop_starts [OF ok c True] show ?thesis by blast
    next
      case False
      from CallTask_loop_drops [OF ok c False] xs(2) show ?thesis by metis
    qed
    then show ?thesis unfolding l keeps_def call_ready_def using c by (fastforce simp: insert_absorb domI)
  qed
qed

lemma call_ready_length:
  "call_ready v s \<Longrightarrow> \<exists>n. list_length (call_next s) (callList s) = Some n"
  by (auto simp: call_ready_def call_ok_def dest: list_length_seq)

lemma keeps_CallTask: "call_ready v s \<Longrightarrow> keeps v (map_option snd (Ampm_CallTask s)) s"
proof -
  assume r: "call_ready v s"
  let ?s = "s\<lparr>callTaskIsRunningCnt := 1\<rparr>"
  have r': "call_ready v ?s" by (rule call_ready_upd [OF r]) simp_all
  obtain c where c: "calls s IncomingCall = Some c" using call_ready_incoming [OF r] by blast
  obtain n where n: "list_length (call_next s) (callList s) = Some n" using call_ready_length [OF r] by blast
  obtain xs where xs: "call_ok ?s xs" using r' by (auto simp: call_ready_def)
  have "call_ready v (?s\<lparr>voiceCall := Some IncomingCall\<rparr>)"
    using call_ok_voice [OF xs, of IncomingCall c] c by (auto simp: call_ready_def)
  then have i: "call_ready v (Ampm_SendAtCmdNow voiceCallSendCmdProcess_Start (?s\<lparr>voiceCall := Some IncomingCall\<rparr>))"
    by (rule call_ready_send)
  obtain s' where s': "CallTask_loop (callList s) ?s = Some s'" "call_ready v s'" "dom (calls s') = dom (calls s)"
    using keeps_CallTask_loop [OF r'] by (auto simp: keeps_def)
  show ?thesis
    using r' i s' c n by (simp add: Ampm_CallTask_def keeps_def call_at_def list_head_def Let_def)
qed

lemma keeps_Periodic: "call_ready v s \<Longrightarrow> keeps v (map_option snd (Ampm_CallTaskPeriodic_1Sec s)) s"
proof -
  assume r: "call_ready v s"
  have "keeps v (if callTaskIsRunningCnt s \<noteq> 0 then Some (s\<lparr>callTaskIsRunningCnt := callTaskIsRunningCnt s - 1\<rparr>)
           else call_put IncomingCall (\<lambda>c. c\<lparr>call_state := CALL_ENDED\<rparr>) s) s" (is "keeps v ?m s")
    using keeps_call_put [OF r] call_ready_incoming [OF r] call_ready_upd [OF r, of "s\<lparr>callTaskIsRunningCnt := n\<rparr>" for n]
    by (auto simp: keeps_def)
  then obtain s1 where s1: "?m = Some s1" "call_ready v s1" "dom (calls s1) = dom (calls s)" by (auto simp: keeps_def)
  obtain c where c: "calls s1 IncomingCall = Some c" using call_ready_incoming [OF s1(2)] by blast
  from keeps_call_put [OF s1(2) c, of "\<lambda>c. if call_timeout c \<noteq> 0 then c\<lparr>call_timeout := call_timeout c - 1\<rparr> else c"]
  obtain s2 where s2: "call_put IncomingCall (\<lambda>c. if call_timeout c \<noteq> 0 then c\<lparr>call_timeout := call_timeout c - 1\<rparr> else c) s1
      = Some s2" "call_ready v s2" "dom (calls s2) = dom (calls s)" using s1(3) by (auto simp: keeps_def)
  obtain n where n: "list_length (call_next s2) (callList s2) = Some n" using call_ready_length [OF s2(2)] by blast
  from keeps_tick [OF s2(2)] obtain s3 where s3: "calls_tick (callList s2) s2 = Some s3" "call_ready v s3"
    "dom (calls s3) = dom (calls s)" using s2(3) by (auto simp: keeps_def)
  show ?thesis
    unfolding Ampm_CallTaskPeriodic_1Sec_def s1(1)
    using s2 s3 n by (simp add: keeps_def list_head_def)
qed

lemma snd_bind: "map_option snd (m \<bind> f) = m \<bind> (\<lambda>x. map_option snd (f x))"
  by (cases m) auto

lemma keeps_if: "(b \<Longrightarrow> keeps v m s) \<Longrightarrow> (\<not> b \<Longrightarrow> keeps v m' s) \<Longrightarrow> keeps v (if b then m else m') s"
  by simp

lemma keeps_CeerEnd: "call_ready True s \<Longrightarrow> keeps True (map_option snd (Ampm_GsmVoiceCallCheckCeerEndCallback ph s)) s"
proof -
  assume r: "call_ready True s"
  obtain c where c: "voice s = Some c" using call_ready_voice [OF r] by blast
  show ?thesis
    unfolding Ampm_GsmVoiceCallCheckCeerEndCallback_def c bind.bind_lunit snd_bind
    by (intro keeps_bind keeps_if keeps_voice_put r) (auto simp: r)
qed

lemma keeps_CallEnd: "call_ready True s \<Longrightarrow> keeps True (map_option snd (Ampm_GsmCallEndCallback ph s)) s"
proof -
  assume r: "call_ready True s"
  let ?s = "s\<lparr>tCallDelayTimeout := InitTimeout (tick s) (tCallDelayTimeout s) (seconds_ms (callDelayTime s))\<rparr>"
  have "call_ready True ?s" by (rule call_ready_upd [OF r]) simp_all
  from keeps_voice_put [OF this] show ?thesis
    unfolding Ampm_GsmCallEndCallback_def Let_def snd_bind by (fastforce simp: keeps_def)
qed

lemma keeps_AtmEnd: "call_ready True s \<Longrightarrow> keeps True (map_option snd (Ampm_GsmATM1EndCallback ph s)) s"
proof -
  assume r: "call_ready True s"
  then obtain xs where xs: "call_ok s xs" by (auto simp: call_ready_def)
  obtain c where c: "calls s IncomingCall = Some c" using call_ready_incoming [OF r] by blast
  have "call_ready True (s\<lparr>voiceCall := Some IncomingCall\<rparr>)"
    using call_ok_voice [OF xs c] by (auto simp: call_ready_def)
  from call_ready_send [OF this] r show ?thesis
    by (simp add: Ampm_GsmATM1EndCallback_def call_at_def c keeps_def)
qed

lemma keeps_DialEnd: "call_ready True s \<Longrightarrow> keeps True (map_option snd (Ampm_GsmCallDialEndCallback ph s)) s"
proof -
  assume r: "call_ready True s"
  obtain c where c: "voice s = Some c" using call_ready_voice [OF r] by blast
  have "call_ready True (s\<lparr>callTaskFailCnt := callTaskFailCnt s + 1, callDelayTime := 10\<rparr>)"
    by (rule call_ready_upd [OF r]) simp_all
  from keeps_hang_up [OF this] have e: "keeps True (hang_up r' (s\<lparr>callTaskFailCnt := callTaskFailCnt s + 1, callDelayTime := 10\<rparr>)) s" for r'
    by (simp add: keeps_def)
  have k: "keeps True (map_option snd (Some (1 :: u8, s'\<lparr>gotListOfCurrentCall := False, callListIsEmpty := False, callTimeout := t\<rparr>))) s'"
    if "call_ready True s'" for s' :: "'z gsm_call_scheme" and t
    using call_ready_upd [OF that, of "s'\<lparr>gotListOfCurrentCall := False, callListIsEmpty := False, callTimeout := t\<rparr>"]
    by (simp add: keeps_def)
  show ?thesis
    unfolding Ampm_GsmCallDialEndCallback_def c bind.bind_lunit snd_bind Let_def
    by (intro keeps_bind keeps_if e keeps_hang_up r) (use r k in auto)
qed

lemma keeps_Setup: "call_ready v s \<Longrightarrow> calls s p = Some c \<Longrightarrow> keeps v (Ampm_VoiceCallSetup p ph dt a cb at t n s) s"
  unfolding Ampm_VoiceCallSetup_def
  by (intro keeps_bind keeps_call_put) (auto intro!: keeps_add simp: dom_def)

lemma keeps_Cancel: "call_ready v s \<Longrightarrow> calls s p = Some c \<Longrightarrow> keeps v (Ampm_VoiceCallCancel p s) s"
  unfolding Ampm_VoiceCallCancel_def
  by (intro keeps_bind keeps_call_put) (auto intro!: keeps_unlink)

lemma keeps_StartRecv: "call_ready v s \<Longrightarrow> keeps v (Ampm_VoiceCallStartRecvCall s) s"
  unfolding Ampm_VoiceCallStartRecvCall_def using call_ready_incoming keeps_call_put by blast

definition ends_command :: "call_op \<Rightarrow> bool" where
  "ends_command op = (case op of CeerEnd _ \<Rightarrow> True | CallEnd _ \<Rightarrow> True | AtmEnd _ \<Rightarrow> True | DialEnd _ \<Rightarrow> True | _ \<Rightarrow> False)"


section \<open>The report on the current calls\<close>

text \<open>The start of the modem's report: five numbers and the telephone number in quotes.\<close>

definition clcc_report :: "bytes list \<Rightarrow> bytes \<Rightarrow> bytes \<Rightarrow> bytes" where
  "clcc_report fs number rest = concat (map (\<lambda>d. d @ [0x2C]) fs) @ 0x22 # number @ 0x22 # rest"

lemma scan_list_fields:
  "\<forall>d \<in> set fs. d \<noteq> [] \<and> (\<forall>c \<in> set d. IsDigit c) \<Longrightarrow>
   scan_list (length fs) (concat (map (\<lambda>d. d @ [0x2C]) fs) @ rest) = (map number_of_digits fs, Some rest)"
proof (induction fs)
  case (Cons d fs)
  have "scan_d ([] @ d @ (0x2C # concat (map (\<lambda>d. d @ [0x2C]) fs) @ rest)) =
      Some (number_of_digits d, 0x2C # concat (map (\<lambda>d. d @ [0x2C]) fs) @ rest)"
    by (rule scan_d_digits) (use Cons.prems in \<open>auto simp: IsDigit_def\<close>)
  then show ?case using Cons by (simp add: scan_char_def)
qed simp

lemma scan_until_stop:
  assumes "\<forall>c \<in> set w. \<not> stop c" "w \<noteq> []" "stop x"
  shows "scan_until stop (w @ x # rest) = Some (w, x # rest)"
proof -
  have "takeWhile (\<lambda>c. \<not> stop c) (w @ x # rest) = w" "dropWhile (\<lambda>c. \<not> stop c) (w @ x # rest) = x # rest"
    using assms by (simp_all add: takeWhile_append2 dropWhile_append2)
  then show ?thesis using assms(2) by (simp add: scan_until_def)
qed

lemma scan_clcc_report:
  assumes "length fs = 5" "\<forall>d \<in> set fs. d \<noteq> [] \<and> (\<forall>c \<in> set d. IsDigit c)"
    and "number \<noteq> []" "\<forall>c \<in> set number. IsDigit c \<or> c = 0x2B"
  shows "scan_clcc (clcc_report fs number rest) = (map number_of_digits fs, Some number)"
proof -
  have "scan_until (\<lambda>c. c \<in> {0x22, 0x2C, 0x20, 0x3A, 0x09, 0x0A, 0x0D}) (number @ 0x22 # rest) = Some (number, 0x22 # rest)"
    by (rule scan_until_stop) (use assms(3,4) in \<open>auto simp: IsDigit_def\<close>)
  then show ?thesis
    using scan_list_fields [OF assms(2), of "0x22 # number @ 0x22 # rest"] assms(1)
    by (simp add: scan_clcc_def clcc_report_def scan_char_def)
qed

lemma report_text:
  assumes "\<forall>d \<in> set fs. \<forall>c \<in> set d. IsDigit c" "\<forall>c \<in> set number. IsDigit c \<or> c = 0x2B" "0 \<notin> set rest"
  shows "0 \<notin> set (clcc_report fs number rest)"
proof -
  have "\<not> IsDigit 0" by (simp add: IsDigit_def)
  with assms show ?thesis by (auto simp: clcc_report_def)
qed

text \<open>Property C21. The report on the current calls.  For a call the unit has placed, with no action
  pending, the callback takes over state and index from the report as the modem writes it
  (any state but "incoming" and beyond) and changes nothing else about the calls; for an
  incoming call the same report is copied past the end of the 16 bytes for the caller's number.\<close>

theorem Ampm_CallState_report:
  assumes "listOfCurrentCall s = clcc_report fs number rest @ 0 # junk" "0 \<notin> set rest" "gotListOfCurrentCall s"
    and "length fs = 5" "\<forall>d \<in> set fs. d \<noteq> [] \<and> (\<forall>c \<in> set d. IsDigit c)"
    and "number \<noteq> []" "\<forall>c \<in> set number. IsDigit c \<or> c = 0x2B" "length number < 32"
    and "number_of_digits (fs ! 2) \<in> {0, 1, 2, 3}"
    and "length (ampm_IncomingCallPhoneNo s) = 16" "calls s p = Some c" "call_timeout c \<noteq> 0" "action c = CALL_NONE"
  shows "if p = IncomingCall
    then Ampm_GsmVoiceCallCheckStateEndCallback AMPM_CMD_OK (s\<lparr>voiceCall := Some p\<rparr>) = None
    else \<exists>s'. Ampm_GsmVoiceCallCheckStateEndCallback AMPM_CMD_OK (s\<lparr>voiceCall := Some p\<rparr>) = Some (1, s')
      \<and> calls s' = (calls s)(p \<mapsto> c\<lparr>call_state := word_of_int (number_of_digits (fs ! 2) + 1),
          call_index := word_of_int (number_of_digits (fs ! 0))\<rparr>) \<and> \<not> gotListOfCurrentCall s' \<and> \<not> callListIsEmpty s'"
proof (split if_split, intro conjI impI)
  let ?t = "clcc_report fs number rest"
  define t where "t = ?t"
  have z: "0 \<notin> set t" unfolding t_def by (rule report_text) (use assms(2,5,7) in auto)
  obtain f0 f1 f2 f3 f4 where f: "fs = [f0, f1, f2, f3, f4]" using assms(4) by (auto simp: numeral_eq_Suc length_Suc_conv)
  have sc: "scan_clcc t = (map number_of_digits fs, Some number)"
    unfolding t_def by (rule scan_clcc_report [OF assms(4,5,6,7)])
  have st: "store_text (replicate 32 0) number = Some (number @ 0 # replicate (31 - length number) 0)"
    using assms(8) by (simp add: store_text_def)
  note facts = sc [unfolded f] st assms(1) [folded t_def] assms(3) z
  {
    assume "p = IncomingCall"
    moreover have "memcpy (ampm_IncomingCallPhoneNo s) (number @ 0 # replicate (31 - length number) 0) = None"
      using assms(8,10) by (simp add: memcpy_def)
    ultimately show "Ampm_GsmVoiceCallCheckStateEndCallback AMPM_CMD_OK (s\<lparr>voiceCall := Some p\<rparr>) = None"
      using assms(11,12)
      by (simp add: Ampm_GsmVoiceCallCheckStateEndCallback_def voice_def check_state_report_def facts)
  }
  assume p: "p \<noteq> IncomingCall"
  let ?n = "number_of_digits f2"
  have n: "?n \<in> {0, 1, 2, 3}" using assms(9) f by simp
  define c' where "c' = c\<lparr>call_state := word_of_int (?n + 1), call_index := word_of_int (number_of_digits f0)\<rparr>"
  have u: "ucast (word_of_int ?n + 1 :: u32) = (word_of_int (?n + 1) :: u8)" using n by auto
  have i: "ucast (word_of_int (number_of_digits f0) :: u32) = (word_of_int (number_of_digits f0) :: u8)"
    by (simp add: unsigned_ucast_eq ucast_eq word_of_int_eq_iff take_bit_take_bit uint_word_of_int_eq)
  let ?s = "s\<lparr>voiceCall := Some p, callListIsEmpty := False\<rparr>"
  have "\<exists>s'. check_state_report ?s = Some (False, s') \<and> calls s' = (calls s)(p \<mapsto> c') \<and> voiceCall s' = Some p
      \<and> \<not> callListIsEmpty s'"
    using n p assms(11)
    by (auto simp: check_state_report_def facts voice_put_def call_put_def voice_def Let_def u i c'_def call_state_defs)
  then obtain s1 where s1: "check_state_report ?s = Some (False, s1)" "calls s1 = (calls s)(p \<mapsto> c')"
      "voiceCall s1 = Some p" "\<not> callListIsEmpty s1" by blast
  have "check_state_action s1 = Some s1"
    using s1(2,3) assms(13) by (simp add: check_state_action_def voice_def c'_def Let_def)
  then have "Ampm_GsmVoiceCallCheckStateEndCallback AMPM_CMD_OK (s\<lparr>voiceCall := Some p\<rparr>) =
      Some (1, s1\<lparr>gotListOfCurrentCall := False\<rparr>)"
    using s1(1) assms(3,11,12) by (simp add: Ampm_GsmVoiceCallCheckStateEndCallback_def voice_def)
  then show "\<exists>s'. Ampm_GsmVoiceCallCheckStateEndCallback AMPM_CMD_OK (s\<lparr>voiceCall := Some p\<rparr>) = Some (1, s')
      \<and> calls s' = (calls s)(p \<mapsto> c\<lparr>call_state := word_of_int (number_of_digits (fs ! 2) + 1),
          call_index := word_of_int (number_of_digits (fs ! 0))\<rparr>) \<and> \<not> gotListOfCurrentCall s' \<and> \<not> callListIsEmpty s'"
    using s1 f by (simp add: c'_def)
qed

section \<open>Instances\<close>

definition zero_call :: CALL_LIST_TYPE where
  "zero_call = \<lparr>phone = None, call_index = 0, call_state = 0, call_timeout = 0, timeoutReload = 0, tryNum = 0,
     dtmf = None, call_response = CALL_RESPONSE_NONE, action = CALL_NONE, action_callback = None, action_timeout = 0\<rparr>"

text \<open>The module's memory at power-on.\<close>

definition call_boot :: gsm_call where
  "call_boot = gsm_startup.extend startup_boot
     (gsm_call.fields [IncomingCall \<mapsto> zero_call] [IncomingCall \<mapsto> None] None None 0 (replicate 128 0) 0 False False
        zero_timeout zero_timeout zero_timeout 0 False False CALL_DELAY_TIME 0 False (replicate 16 0))"

lemmas call_boot_defs = call_boot_def gsm_startup.extend_def gsm_call.fields_def startup_boot_def

lemma call_boot_fields [simp]:
  "calls call_boot = [IncomingCall \<mapsto> zero_call]" "call_next call_boot = [IncomingCall \<mapsto> None]"
  "callList call_boot = None" "voiceCall call_boot = None" "tick call_boot = 0" "CmdPhase call_boot = AMPM_CMD_SEND"
  "CmdSend call_boot = zero_cmd" "tCallDelayTimeout call_boot = zero_timeout"
  "ampm_IncomingCallPhoneNo call_boot = replicate 16 0"
  by (simp_all add: call_boot_defs)

text \<open>One call to 0978779222, two tries, at address 1.\<close>

definition demo_call :: CALL_LIST_TYPE where
  "demo_call = zero_call\<lparr>phone := Some (lit ''0978779222''), tryNum := 2, call_timeout := 60\<rparr>"

definition demo_calls :: gsm_call where
  "demo_calls = call_boot\<lparr>calls := [IncomingCall \<mapsto> dropped zero_call, CallAt 1 \<mapsto> demo_call],
     call_next := [IncomingCall \<mapsto> None, CallAt 1 \<mapsto> None], callList := Some (CallAt 1), CmdPhase := AMPM_CMD_OK\<rparr>"

lemma demo_calls_ok: "call_ok demo_calls [CallAt 1]"
  by (auto simp: demo_calls_def call_ok_def is_list_def)

lemma Ampm_CallTask_progress_witness:
  "\<exists>s' c. calls demo_calls (CallAt 1) = Some c \<and> Ampm_CallTask demo_calls = Some (0, s') \<and>
     (if call_wanted c
      then call_ok s' [CallAt 1] \<and> call_work s' [CallAt 1] < call_work demo_calls [CallAt 1]
        \<and> calls s' = (calls demo_calls)(CallAt 1 \<mapsto> attempted c)
        \<and> voiceCall s' = Some (CallAt 1) \<and> CmdSend s' = voiceCallSendCmdProcess_Start \<and> CmdPhase s' = AMPM_CMD_SEND
      else call_ok s' [] \<and> call_work s' [] < call_work demo_calls [CallAt 1]
        \<and> calls s' = (calls demo_calls)(CallAt 1 \<mapsto> dropped c) \<and> CmdPhase s' = CmdPhase demo_calls)"
proof -
  have i: "calls demo_calls IncomingCall = Some (dropped zero_call)" by (simp add: demo_calls_def)
  have d: "call_state (dropped zero_call) \<noteq> CALL_START" by (simp add: dropped_def call_state_defs)
  have e: "Ampm_SendAtCheck_IsEmpty demo_calls" "Ampm_CmdTask_IsIdle (CmdPhase demo_calls)"
    "fst (CheckTimeout (tick demo_calls) (tCallDelayTimeout demo_calls)) = 0"
    by (simp_all add: demo_calls_def Ampm_SendAtCheck_IsEmpty_def Ampm_CmdCheck_IsEmpty_def zero_cmd_def
        Ampm_CmdTask_IsIdle_def zero_timeout_def CheckTimeout_def elapsed_def)
  from Ampm_CallTask_progress [OF demo_calls_ok e i d] show ?thesis by (simp only: list.case)
qed


text \<open>The report \<open>1,0,3,0,0,"0978"\<close>.\<close>

definition demo_report :: gsm_call where
  "demo_report = demo_calls\<lparr>listOfCurrentCall := clcc_report [[0x31], [0x30], [0x33], [0x30], [0x30]] (ascii ''0978'') [0x0D] @ 0 # [],
     gotListOfCurrentCall := True\<rparr>"

lemma Ampm_CallState_report_witness:
  "if CallAt 1 = IncomingCall
    then Ampm_GsmVoiceCallCheckStateEndCallback AMPM_CMD_OK (demo_report\<lparr>voiceCall := Some (CallAt 1)\<rparr>) = None
    else \<exists>s'. Ampm_GsmVoiceCallCheckStateEndCallback AMPM_CMD_OK (demo_report\<lparr>voiceCall := Some (CallAt 1)\<rparr>) = Some (1, s')
      \<and> calls s' = (calls demo_report)(CallAt 1 \<mapsto> demo_call\<lparr>call_state :=
            word_of_int (number_of_digits ([[0x31], [0x30], [0x33], [0x30], [0x30]] ! 2) + 1),
          call_index := word_of_int (number_of_digits ([[0x31], [0x30], [0x33], [0x30], [0x30]] ! 0))\<rparr>)
      \<and> \<not> gotListOfCurrentCall s' \<and> \<not> callListIsEmpty s'"
  by (rule Ampm_CallState_report [of _ _ "ascii ''0978''" "[0x0D]" "[]"])
    (simp_all add: demo_report_def demo_calls_def demo_call_def zero_call_def IsDigit_def ascii_def of_char_def number_of_digits_def)

end
