(* ===== verification/GsmSmsProofs.thy ===== *)
theory GsmSmsProofs
  imports GsmSms GsmCallProofs
begin

text \<open>
  Properties of the short message module: message indices pass through the queue of unread
  messages, a message that is read comes out as it was sent, and a message with no time
  between its tries is freed while it is being sent.
\<close>

section \<open>Handing a response to its callback\<close>

text \<open>The bytes of a response until the callback returns 0: whether it did, the bytes left and
  the state.\<close>

fun hand_over :: "(u16 \<Rightarrow> u8 \<Rightarrow> 's \<Rightarrow> (u32 \<times> 's) option) \<Rightarrow> nat \<Rightarrow> bytes \<Rightarrow> 's \<Rightarrow> (bool \<times> bytes \<times> 's) option" where
  "hand_over f n [] s = Some (False, [], s)"
| "hand_over f n (c # cs) s = do {
     (r, s) \<leftarrow> f (of_nat n) c s;
     if r = 0 then Some (True, cs, s) else hand_over f (Suc n) cs s
   }"

lemma hand_over_append:
  "hand_over f n xs s = Some (False, [], s') \<Longrightarrow> hand_over f n (xs @ ys) s = hand_over f (n + length xs) ys s'"
proof (induction xs arbitrary: n s)
  case (Cons c xs)
  then obtain r s1 where f: "f (of_nat n) c s = Some (r, s1)" by (auto split: Option.bind_splits)
  with Cons.prems have "r \<noteq> 0" "hand_over f (Suc n) xs s1 = Some (False, [], s')" by (auto split: if_splits)
  from this(1) Cons.IH [OF this(2)] f show ?case by simp
qed simp

section \<open>The queue of unread messages\<close>

definition index_bytes :: "nat \<Rightarrow> bytes" where
  "index_bytes i = [of_nat (i mod 256), of_nat (i div 256)]"

definition unread :: "'z gsm_sms_scheme \<Rightarrow> nat list \<Rightarrow> bool" where
  "unread s is \<longleftrightarrow> rb_inv (smsUnreadRingBuff s) \<and> rb_cap (smsUnreadRingBuff s) = 31
     \<and> rb_list (smsUnreadRingBuff s) = concat (map index_bytes is) \<and> (\<forall>i \<in> set is. i < 65536)"

lemma length_index_bytes: "length (concat (map index_bytes is)) = 2 * length is"
  by (induction "is") (auto simp: index_bytes_def)

lemma index_bytes_low: "n < 65536 \<Longrightarrow> ucast (of_nat n AND 0x00ff :: u32) = (of_nat (n mod 256) :: u8)"
proof -
  assume a: "n < 65536"
  then have n: "unat (of_nat n :: u32) = n" by (simp add: unat_of_nat take_bit_nat_eq_self)
  have m: "(of_nat n AND 0x00ff :: u32) = of_nat n mod 256"
    using take_bit_eq_mask [of 8 "of_nat n :: u32"] by (simp add: take_bit_eq_mod mask_eq_exp_minus_1)
  show ?thesis
    using a unfolding m word_unat_eq_iff by (simp add: unsigned_ucast_eq take_bit_eq_mod unat_mod n unat_of_nat)
qed

lemma index_bytes_high: "n < 65536 \<Longrightarrow> ucast (drop_bit 8 (of_nat n) AND 0x00ff :: u32) = (of_nat (n div 256) :: u8)"
proof -
  assume a: "n < 65536"
  then have n: "unat (of_nat n :: u32) = n" by (simp add: unat_of_nat take_bit_nat_eq_self)
  have m: "(drop_bit 8 (of_nat n) AND 0x00ff :: u32) = drop_bit 8 (of_nat n) mod 256"
    using take_bit_eq_mask [of 8 "drop_bit 8 (of_nat n) :: u32"] by (simp add: take_bit_eq_mod mask_eq_exp_minus_1)
  show ?thesis
    using a unfolding m word_unat_eq_iff
    by (simp add: unsigned_ucast_eq take_bit_eq_mod unat_mod unat_div n unat_of_nat unsigned_drop_bit_eq drop_bit_eq_div)
qed

lemma index_bytes_join:
  assumes "n < 65536"
  shows "(ucast (of_nat (n mod 256) :: u8) :: u16) OR (push_bit 8 (ucast (of_nat (n div 256) :: u8)) AND 0xff00) = of_nat n"
proof -
  let ?a = "of_nat (n mod 256) :: u8" and ?b = "of_nat (n div 256) :: u8"
  have m: "(0xff00 :: u16) = push_bit 8 (mask 8)" by (simp add: mask_eq_exp_minus_1 push_bit_eq_mult)
  have 1: "push_bit 8 (ucast ?b) AND (0xff00 :: u16) = push_bit 8 (ucast ?b)"
    unfolding m by (rule bit_word_eqI) (auto simp: bit_simps)
  have 2: "(ucast ?a :: u16) OR push_bit 8 (ucast ?b) = ucast ?a + push_bit 8 (ucast ?b)"
    by (rule disjunctive_add [symmetric]) (auto simp: bit_simps)
  have b: "n div 256 < 256" using assms by simp
  have u: "unat (ucast ?a :: u16) = n mod 256" "unat (ucast ?b :: u16) = n div 256"
    using b by (simp_all add: unsigned_ucast_eq unat_of_nat take_bit_eq_mod)
  have p: "unat (push_bit 8 (ucast ?b) :: u16) = n div 256 * 256"
    using b u(2) by (simp add: push_bit_eq_mult unat_word_ariths mult.commute)
  have s: "n mod 256 + n div 256 * 256 = n" by simp
  have "unat (ucast ?a + push_bit 8 (ucast ?b) :: u16) = n"
    using assms by (simp add: unat_word_ariths u p s)
  then show ?thesis
    unfolding 1 2 using assms by (intro word_unat_eq_iff [THEN iffD2]) (simp add: unat_of_nat take_bit_nat_eq_self)
qed

lemma queue_index_room:
  assumes "rb_inv q" "length (rb_list q) + 2 \<le> rb_cap q" "n < 65536"
  shows "\<exists>q'. queue_index (of_nat n) q = Some q' \<and> rb_inv q' \<and> rb_cap q' = rb_cap q \<and> rb_list q' = rb_list q @ index_bytes n"
proof -
  from rb.put_total [OF assms(1), of "of_nat (n mod 256)"] assms(2) obtain q1 where
    q1: "RINGBUF_Put q (of_nat (n mod 256)) = Some (0, q1)" "rb_inv q1" "rb_cap q1 = rb_cap q"
      "rb_list q1 = rb_list q @ [of_nat (n mod 256)]" by (auto split: if_splits)
  from rb.put_total [OF q1(2), of "of_nat (n div 256)"] assms(2) q1(3,4) obtain q2 where
    "RINGBUF_Put q1 (of_nat (n div 256)) = Some (0, q2)" "rb_inv q2" "rb_cap q2 = rb_cap q"
      "rb_list q2 = rb_list q1 @ [of_nat (n div 256)]" by (auto split: if_splits)
  then show ?thesis using q1 index_bytes_low [OF assms(3)] index_bytes_high [OF assms(3)]
    by (simp add: queue_index_def index_bytes_def)
qed

lemma queue_index_odd:
  assumes "rb_inv q" "length (rb_list q) + 1 = rb_cap q" "n < 65536"
  shows "\<exists>q'. queue_index (of_nat n) q = Some q' \<and> rb_list q' = rb_list q @ [of_nat (n mod 256)]"
proof -
  from rb.put_total [OF assms(1), of "of_nat (n mod 256)"] assms(2) obtain q1 where
    q1: "RINGBUF_Put q (of_nat (n mod 256)) = Some (0, q1)" "rb_inv q1" "rb_cap q1 = rb_cap q"
      "rb_list q1 = rb_list q @ [of_nat (n mod 256)]" by (auto split: if_splits)
  from rb.put_total [OF q1(2), of "of_nat (n div 256)"] assms(2) q1(3,4) have
    "RINGBUF_Put q1 (of_nat (n div 256)) = Some (-1, q1)" by (auto split: if_splits)
  then show ?thesis using q1 index_bytes_low [OF assms(3)] index_bytes_high [OF assms(3)]
    by (simp add: queue_index_def)
qed

lemma next_unread_index:
  assumes "unread s (i # is)"
  shows "\<exists>s'. next_unread none s = Some (1, s') \<and> smsIndex s' = of_nat i \<and> unread s' is
    \<and> CmdSend s' = (if i \<ge> 1000 then smsRecvCmdProcess_5 else smsRecvCmdProcess_4)"
proof -
  let ?q = "smsUnreadRingBuff s"
  have q: "rb_inv ?q" "rb_cap ?q = 31" "rb_list ?q = of_nat (i mod 256) # of_nat (i div 256) # concat (map index_bytes is)"
    and i: "i < 65536" using assms by (auto simp: unread_def index_bytes_def)
  have "unat (RINGBUF_GetFill ?q) \<ge> 2" using RINGBUF_GetFill_correct [OF q(1)] q(3) by simp
  then have f: "RINGBUF_GetFill ?q \<ge> 2" by (simp add: word_le_nat_alt)
  from RINGBUF_Get_cons [OF q(1,3), of 0] obtain q1 where
    q1: "RINGBUF_Get ?q 0 = Some (0, of_nat (i mod 256), q1)" "rb_inv q1" "rb_cap q1 = 31"
      "rb_list q1 = of_nat (i div 256) # concat (map index_bytes is)" using q(2) by auto
  from RINGBUF_Get_cons [OF q1(2,4), of "of_nat (i mod 256)"] obtain q2 where
    q2: "RINGBUF_Get q1 (of_nat (i mod 256)) = Some (0, of_nat (i div 256), q2)" "rb_inv q2" "rb_cap q2 = 31"
      "rb_list q2 = concat (map index_bytes is)" using q1(3) by auto
  have le: "(1000 :: u16) \<le> of_nat i \<longleftrightarrow> 1000 \<le> i"
    using i by (simp add: word_le_nat_alt unat_of_nat take_bit_nat_eq_self)
  show ?thesis
    using f q1(1) q2 assms i le
    by (auto simp: next_unread_def index_bytes_join [OF i] unread_def Ampm_SendAtCmdNow_def Ampm_SendCmdNow_def start_timeout_def Let_def)
qed

section \<open>The notification of a new message\<close>

lemma digit_word: "(word_of_int (v * 10 + (uint c - 0x30)) :: u32) = word_of_int v * 10 + (ucast (c :: u8) - 0x30)"
proof -
  have "(word_of_int (uint c) :: u32) = ucast c" by (rule ucast_eq [symmetric])
  then show ?thesis by (simp only: of_int_add of_int_diff of_int_mult of_int_numeral)
qed

lemma digit_word_first: "(word_of_int (uint c - 0x30) :: u32) = ucast (c :: u8) - 0x30"
  using digit_word [of 0 c] by simp

lemma digit_bounds: "IsDigit c \<Longrightarrow> 0 \<le> uint c - 0x30 \<and> uint c - 0x30 < 10"
proof -
  assume "IsDigit c"
  then have "uint (0x30 :: u8) \<le> uint c" "uint c \<le> uint (0x39 :: u8)"
    unfolding IsDigit_def word_le_def by simp_all
  then show ?thesis by simp
qed

lemma cmti_digits:
  "\<forall>c \<in> set ds. IsDigit c \<Longrightarrow> 0 < k \<Longrightarrow> k + length ds \<le> 4 \<Longrightarrow> cmti_length s = word_of_int v \<Longrightarrow>
   hand_over Ampm_SMS_Process k ds s =
     Some (False, [], s\<lparr>cmti_length := word_of_int (foldl (\<lambda>n c. n * 10 + (uint c - 0x30)) v ds)\<rparr>)"
proof (induction ds arbitrary: k s v)
  case (Cons c ds)
  have k: "(of_nat k :: u16) \<noteq> 0" "(of_nat k :: u16) \<le> 3"
    using Cons.prems(2,3) by (simp_all add: word_le_nat_alt unat_of_nat take_bit_nat_eq_self word_unat_eq_iff)
  have d: "0x30 \<le> c" "c \<le> 0x39" using Cons.prems(1) by (simp_all add: IsDigit_def)
  let ?v = "v * 10 + (uint c - 0x30)"
  have "Ampm_SMS_Process (of_nat k) c s = Some (0xff, s\<lparr>cmti_length := word_of_int ?v\<rparr>)"
    using k d Cons.prems(4) unfolding digit_word by (simp add: Ampm_SMS_Process_def index_char_def)
  then show ?case
    using Cons.prems Cons.IH [of "Suc k" "s\<lparr>cmti_length := word_of_int ?v\<rparr>" ?v] by simp
qed simp

lemma foldl_digits_nonneg:
  "\<forall>c \<in> set ds. IsDigit c \<Longrightarrow> 0 \<le> v \<Longrightarrow> v < 10 ^ k \<Longrightarrow>
   0 \<le> foldl (\<lambda>n c. n * 10 + (uint c - 0x30)) v ds \<and> foldl (\<lambda>n c. n * 10 + (uint c - 0x30)) v ds < 10 ^ (length ds + k)"
proof (induction ds arbitrary: v k)
  case (Cons c ds)
  have d: "0 \<le> uint c - 0x30" "uint c - 0x30 < 10" using digit_bounds [of c] Cons.prems(1) by simp_all
  have "v + 1 \<le> 10 ^ k" using Cons.prems(3) by linarith
  with d Cons.prems(2) have v: "0 \<le> v * 10 + (uint c - 0x30)" "v * 10 + (uint c - 0x30) < 10 ^ Suc k"
    unfolding power_Suc by linarith+
  have "\<forall>c \<in> set ds. IsDigit c" using Cons.prems(1) by simp
  from Cons.IH [OF this v] show ?case by (simp only: foldl_Cons list.size(4) add_Suc_right add_Suc add_0_right One_nat_def)
qed simp

lemma SetAtCmti_fields [simp]:
  "smsUnreadRingBuff (Ampm_SetAtCmti s) = smsUnreadRingBuff s"
  by (simp add: Ampm_SetAtCmti_def)

lemma cmti_line:
  assumes "\<forall>c \<in> set ds. IsDigit c" "0 < length ds" "length ds \<le> 3" "\<not> IsDigit c"
    and "queue_index (of_nat (nat (number_of_digits ds))) (smsUnreadRingBuff s) = Some q"
  shows "\<exists>s'. hand_over Ampm_SMS_Process 0 (ds @ [c]) s = Some (True, [], s') \<and> smsUnreadRingBuff s' = q"
proof -
  obtain d ds' where ds: "ds = d # ds'" using assms(2) by (cases ds) auto
  have d: "0x30 \<le> d" "d \<le> 0x39" "\<forall>c \<in> set ds'. IsDigit c" using assms(1) ds by (simp_all add: IsDigit_def)
  let ?s = "(Ampm_SetAtCmti s)\<lparr>cmti_length := word_of_int (uint d - 0x30)\<rparr>"
  let ?n = "number_of_digits ds"
  have n: "foldl (\<lambda>n c. n * 10 + (uint c - 0x30)) (uint d - 0x30) ds' = ?n"
    by (simp add: number_of_digits_def ds)
  have pos: "0 \<le> ?n" using foldl_digits_nonneg [OF assms(1), of 0 0] by (simp add: number_of_digits_def)
  have 1: "Ampm_SMS_Process (of_nat 0) d s = Some (0xff, ?s)"
    using d unfolding digit_word_first by (simp add: Ampm_SMS_Process_def index_char_def)
  have 2: "hand_over Ampm_SMS_Process 1 ds' ?s = Some (False, [], ?s\<lparr>cmti_length := word_of_int ?n\<rparr>)"
    using cmti_digits [OF d(3), of 1 ?s "uint d - 0x30"] assms(3) ds n by simp
  have k: "(of_nat (length ds) :: u16) \<noteq> 0" "(of_nat (length ds) :: u16) \<le> 3"
    using assms(2,3) by (simp_all add: word_le_nat_alt unat_of_nat take_bit_nat_eq_self word_unat_eq_iff)
  have w: "(word_of_int ?n :: u32) = of_nat (nat ?n)" using pos by simp
  have nd: "\<not> (0x30 \<le> c \<and> c \<le> 0x39)" using assms(4) by (simp add: IsDigit_def)
  have 3: "Ampm_SMS_Process (of_nat (length ds)) c (?s\<lparr>cmti_length := word_of_int ?n\<rparr>) =
      Some (0, ?s\<lparr>cmti_length := word_of_int ?n, smsUnreadRingBuff := q\<rparr>)"
    using k assms(5) nd by (simp add: Ampm_SMS_Process_def index_char_def w Let_def)
  have "hand_over Ampm_SMS_Process 0 ds s = Some (False, [], ?s\<lparr>cmti_length := word_of_int ?n\<rparr>)"
    unfolding ds using 1 2 by (simp add: ds)
  from hand_over_append [OF this, of "[c]"] 3 show ?thesis by simp
qed

text \<open>Property C9. Notified messages are read in the order of their notification.  The report of a new
  message at index n (up to three digits) appends n to the queue of unread messages as long as
  it holds fewer than 15, and reading takes the oldest index, orders the message to be read,
  or deleted when the index is 1000 or more, and leaves the rest; into a queue of 15 only the
  low byte of the next index is stored, so the queue no longer holds a whole number of indices.\<close>

theorem Ampm_SMS_index_queue:
  assumes "unread s is" "\<forall>c \<in> set ds. IsDigit c" "0 < length ds" "length ds \<le> 3" "\<not> IsDigit c"
  defines "n \<equiv> nat (number_of_digits ds)"
  shows "if length is < 15
    then \<exists>s' s''. hand_over Ampm_SMS_Process 0 (ds @ [c]) s = Some (True, [], s') \<and> unread s' (is @ [n])
      \<and> Ampm_GsmSmsRecv1 ph s' = Some (1, s'') \<and> smsIndex s'' = of_nat (hd (is @ [n])) \<and> unread s'' (tl (is @ [n]))
      \<and> CmdSend s'' = (if hd (is @ [n]) \<ge> 1000 then smsRecvCmdProcess_5 else smsRecvCmdProcess_4)
    else \<exists>s'. hand_over Ampm_SMS_Process 0 (ds @ [c]) s = Some (True, [], s')
      \<and> rb_list (smsUnreadRingBuff s') = concat (map index_bytes is) @ [of_nat (n mod 256)]"
proof -
  let ?q = "smsUnreadRingBuff s"
  have n: "n < 65536"
  proof -
    have "number_of_digits ds < 10 ^ length ds" "10 ^ length ds \<le> (10 :: int) ^ 3"
      using foldl_digits_nonneg [OF assms(2), of 0 0] power_increasing [OF assms(4), of "10 :: int"]
      by (simp_all add: number_of_digits_def)
    then have "number_of_digits ds < 1000" by simp
    then show ?thesis unfolding n_def by linarith
  qed
  have q: "rb_inv ?q" "rb_cap ?q = 31" "rb_list ?q = concat (map index_bytes is)" "\<forall>i \<in> set is. i < 65536"
    using assms(1) by (simp_all add: unread_def)
  have l: "length (rb_list ?q) = 2 * length is" using q(3) length_index_bytes by metis
  show ?thesis
  proof (cases "length is < 15")
    case True
    from queue_index_room [OF q(1) _ n] obtain q' where q': "queue_index (of_nat n) ?q = Some q'" "rb_inv q'"
        "rb_cap q' = 31" "rb_list q' = rb_list ?q @ index_bytes n" using True l q(2) by auto
    from cmti_line [OF assms(2-5), of s q'] q'(1) obtain s' where
      s': "hand_over Ampm_SMS_Process 0 (ds @ [c]) s = Some (True, [], s')" "smsUnreadRingBuff s' = q'"
      by (auto simp: n_def)
    have u: "unread s' (is @ [n])" using q q' s'(2) n by (simp add: unread_def)
    obtain i js where ij: "is @ [n] = i # js" by (cases "is @ [n]") auto
    from next_unread_index [OF u[unfolded ij], of smsRecvCmdProcess_end] ij u s'(1) True show ?thesis
      by (fastforce simp: Ampm_GsmSmsRecv1_def)
  next
    case False
    have "length is \<le> 15" using rb_fill_le_cap [OF q(1)] rb_list_length [of ?q] l q(2) by simp
    with False have "length (rb_list ?q) + 1 = rb_cap ?q" using l q(2) by simp
    from queue_index_odd [OF q(1) this n] cmti_line [OF assms(2-5), of s] q(3) False show ?thesis
      by (fastforce simp: n_def)
  qed
qed

end
