(* ===== verification/GsmSmsRead.thy ===== *)
theory GsmSmsRead
  imports GsmSmsProofs
begin

text \<open>
  What \<open>Ampm_SMS_ReadMsg\<close> of \<open>ampm_gsm_sms.c\<close> extracts from a message the modem
  lists, and what \<open>Ampm_SmsTask\<close> does with the newest message of its list.
\<close>

section \<open>Reading a message\<close>

text \<open>The characters of a sender that are kept.\<close>

definition sender_char :: "u8 \<Rightarrow> bool" where
  "sender_char c \<longleftrightarrow> IsDigit c \<or> c = 0x2B"

definition in_header :: "'z gsm_sms_scheme \<Rightarrow> nat \<Rightarrow> bytes \<Rightarrow> bool" where
  "in_header s k num \<longleftrightarrow> read_comma s = of_nat k \<and> \<not> read_data s \<and> read_pos s = 0 \<and> read_term s = 0
     \<and> read_sender s = length num \<and> length (smsSender s) = 16 \<and> length (smsDataBuf s) = 256
     \<and> take (length num) (smsSender s) = num \<and> (num \<noteq> [] \<longrightarrow> smsSender s ! length num = 0)"

definition in_text :: "'z gsm_sms_scheme \<Rightarrow> bytes \<Rightarrow> nat \<Rightarrow> bool" where
  "in_text s d t \<longleftrightarrow> read_data s \<and> read_pos s = length d \<and> read_term s = t \<and> length (smsDataBuf s) = 256
     \<and> take (length d) (smsDataBuf s) = d"

text \<open>The matched part of the terminator after one more byte.\<close>

definition term_step :: "nat \<Rightarrow> u8 \<Rightarrow> nat" where
  "term_step t c = (if c = terminateStr ! t then t + 1 else if c = 0x0D then 1 else 0)"

lemma terminateStr_value: "terminateStr = [0x0D, 0x0A, 0x4F, 0x4B, 0x0D, 0x0A, 0]"
  by (simp add: terminateStr_def cr_text_def lit_def of_char_def ascii_def cr_char_def)

lemma terminateStr_nonzero: "k < 6 \<Longrightarrow> terminateStr ! k \<noteq> 0"
proof -
  assume "k < 6"
  then have "k \<in> {0, 1, 2, 3, 4, 5}" by auto
  then show ?thesis by (auto simp: terminateStr_value)
qed

lemma take_update_snoc: "n < length b \<Longrightarrow> take n b = d \<Longrightarrow> length d = n \<Longrightarrow> take (Suc n) (b[n := c]) = d @ [c]"
  by (simp add: take_Suc_conv_app_nth)

lemma text_byte:
  assumes "in_text s d t" "length d < 256" "(cnt :: u16) \<noteq> 0" "t < 6" "term_step t c < 6"
  shows "\<exists>s'. Ampm_SMS_ReadMsg cnt c s = Some (0xff, s') \<and> in_text s' (d @ [c]) (term_step t c) \<and> smsSender s' = smsSender s"
proof -
  have len: "length terminateStr = 7" and z0: "terminateStr ! 0 = 0x0D" by (simp_all add: terminateStr_value)
  have u: "take (Suc (length d)) ((smsDataBuf s)[length d := c]) = d @ [c]"
    by (rule take_update_snoc) (use assms(1,2) in \<open>simp_all add: in_text_def\<close>)
  have "terminateStr ! term_step t c \<noteq> 0" using assms(5) by (rule terminateStr_nonzero)
  then show ?thesis
    using assms u len z0
    by (auto simp: Ampm_SMS_ReadMsg_def read_data_byte_def in_text_def term_step_def Let_def split: if_splits)
qed

lemma text_end:
  assumes "in_text s d t" "length d \<le> 256" "(cnt :: u16) \<noteq> 0" "t < 6" "length d = 256 \<or> t = 5 \<and> c = 0x0A"
    and "n = (if length d > 7 then length d - 7 else length d)"
  shows "\<exists>s'. Ampm_SMS_ReadMsg cnt c s = Some (0, s') \<and> smsDataBuf s' = (smsDataBuf s)[n := 0]
    \<and> flagSmsReadFinish s' \<and> smsSender s' = smsSender s"
proof -
  have len: "length terminateStr = 7" and z: "terminateStr ! 0 = 0x0D" "terminateStr ! 5 = 0x0A" "terminateStr ! 6 = 0"
    by (simp_all add: terminateStr_value)
  have n: "n < 256" using assms(2,6) by auto
  let ?r = "(if c = 0x2C then s\<lparr>read_comma := read_comma s + 1\<rparr> else s)\<lparr>read_term := term_step t c\<rparr>"
  have e: "read_end ?r = Some (0, ?r\<lparr>read_pos := n, smsDataBuf := (smsDataBuf s)[n := 0], flagSmsReadFinish := True\<rparr>)"
    using n assms(1) unfolding assms(6) by (auto simp: read_end_def in_text_def Let_def)
  have "term_step t c < 7" using assms(4) by (auto simp: term_step_def)
  then have "read_data_byte c (if c = 0x2C then s\<lparr>read_comma := read_comma s + 1\<rparr> else s) = read_end ?r"
    using assms(1,4,5) z len
    by (auto simp: read_data_byte_def in_text_def term_step_def Let_def split: if_splits)
  then show ?thesis
    using e assms(1,3) by (auto simp: Ampm_SMS_ReadMsg_def in_text_def Let_def)
qed

fun term_run :: "nat \<Rightarrow> bytes \<Rightarrow> nat option" where
  "term_run t [] = Some t"
| "term_run t (c # cs) = (if term_step t c < 6 then term_run (term_step t c) cs else None)"

lemma term_run_append: "term_run t (xs @ ys) = do { u \<leftarrow> term_run t xs; term_run u ys }"
  by (induction xs arbitrary: t) auto

lemma term_run_text: "0x0D \<notin> set xs \<Longrightarrow> term_run 0 xs = Some 0"
  by (induction xs) (auto simp: term_step_def terminateStr_value)

lemma term_run_end: "term_run 0 [0x0D, 0x0A, 0x0D, 0x0A, 0x4F, 0x4B, 0x0D] = Some 5"
  by (simp add: term_step_def terminateStr_value)

lemma term_run_take: "term_run t xs = Some u \<Longrightarrow> \<exists>v. term_run t (take k xs) = Some v"
  by (induction xs arbitrary: t k) (auto split: if_splits simp: take_Cons')

lemma term_run_bound: "term_run t xs = Some u \<Longrightarrow> t < 6 \<Longrightarrow> u < 6"
  by (induction xs arbitrary: t) (auto split: if_splits)

lemma cnt_nonzero: "0 < n \<Longrightarrow> n < 65536 \<Longrightarrow> (of_nat n :: u16) \<noteq> 0"
  by (simp add: word_unat_eq_iff unat_of_nat take_bit_nat_eq_self)

lemma text_run:
  "in_text s d t \<Longrightarrow> length d + length xs \<le> 256 \<Longrightarrow> 0 < n \<Longrightarrow> n + length xs \<le> 65536 \<Longrightarrow> t < 6 \<Longrightarrow> term_run t xs = Some u \<Longrightarrow>
   \<exists>s'. hand_over Ampm_SMS_ReadMsg n xs s = Some (False, [], s') \<and> in_text s' (d @ xs) u \<and> smsSender s' = smsSender s"
proof (induction xs arbitrary: s d t n)
  case (Cons c xs)
  have c: "(of_nat n :: u16) \<noteq> 0" by (rule cnt_nonzero) (use Cons.prems(3,4) in simp_all)
  have t: "term_step t c < 6" "term_run (term_step t c) xs = Some u" using Cons.prems(6) by (simp_all split: if_splits)
  from text_byte [OF Cons.prems(1) _ c Cons.prems(5) t(1)] Cons.prems(2) obtain s1 where
    s1: "Ampm_SMS_ReadMsg (of_nat n) c s = Some (0xff, s1)" "in_text s1 (d @ [c]) (term_step t c)" "smsSender s1 = smsSender s" by auto
  from Cons.IH [OF s1(2) _ _ _ t(1,2), of "Suc n"] Cons.prems(2-4) s1 show ?case by auto
qed simp

text \<open>A text up to the end of the response, after the header.\<close>

definition text_end_bytes :: bytes where
  "text_end_bytes = [0x0D, 0x0A, 0x0D, 0x0A, 0x4F, 0x4B, 0x0D, 0x0A]"

definition received_text :: "bytes \<Rightarrow> bytes" where
  "received_text t = (if t = [] then [0x0D, 0x0A, 0x0D, 0x0A, 0x4F, 0x4B, 0x0D] else take 249 t)"

lemma cstr_prefix_end: "n < length b \<Longrightarrow> take n b = t \<Longrightarrow> 0 \<notin> set t \<Longrightarrow> cstr (b[n := 0]) = t"
proof -
  assume a: "n < length b" "take n b = t" "0 \<notin> set t"
  then have "b[n := 0] = t @ 0 # drop (Suc n) b" by (simp add: upd_conv_take_nth_drop)
  with a(3) show ?thesis by simp
qed

lemma text_read:
  assumes "in_text s [] 0" "0 < n" "n + length txt + 8 \<le> 65536" "0x0D \<notin> set txt" "0 \<notin> set txt"
  shows "\<exists>left s'. hand_over Ampm_SMS_ReadMsg n (txt @ text_end_bytes) s = Some (True, left, s')
    \<and> cstr (smsDataBuf s') = received_text txt \<and> flagSmsReadFinish s' \<and> smsSender s' = smsSender s"
proof -
  let ?e = "[0x0D, 0x0A, 0x0D, 0x0A, 0x4F, 0x4B, 0x0D] :: bytes"
  let ?all = "txt @ ?e"
  have all: "txt @ text_end_bytes = ?all @ [0x0A]" by (simp add: text_end_bytes_def)
  have run: "term_run 0 ?all = Some 5" by (simp only: term_run_append term_run_text [OF assms(4)] term_run_end bind.bind_lunit)
  define d where "d = take 256 ?all"
  obtain u where u: "term_run 0 d = Some u" using term_run_take [OF run, of 256] unfolding d_def by blast
  then have u6: "u < 6" by (rule term_run_bound) simp
  have "\<exists>c ys. txt @ text_end_bytes = d @ c # ys \<and> (length d = 256 \<or> u = 5 \<and> c = 0x0A)"
  proof (cases "length ?all < 256")
    case True
    then have "d = ?all" by (simp add: d_def)
    then show ?thesis using u run all by auto
  next
    case False
    have "txt @ text_end_bytes = d @ (drop 256 ?all @ [0x0A])" unfolding d_def all by (simp only: append_assoc [symmetric] append_take_drop_id)
    moreover have "length d = 256" using False by (simp add: d_def)
    ultimately show ?thesis by (cases "drop 256 ?all @ [0x0A]") auto
  qed
  then obtain c ys where c: "txt @ text_end_bytes = d @ c # ys" and k: "length d = 256 \<or> u = 5 \<and> c = 0x0A" by blast
  have d: "length d \<le> 256" "length d \<le> length txt + 7" by (simp_all add: d_def)
  obtain s1 where s1: "hand_over Ampm_SMS_ReadMsg n d s = Some (False, [], s1)" "in_text s1 d u" "smsSender s1 = smsSender s"
    using text_run [OF assms(1) _ assms(2) _ _ u] d assms(3) by auto
  define m where "m = (if length d > 7 then length d - 7 else length d)"
  have cnt: "(of_nat (n + length d) :: u16) \<noteq> 0" by (rule cnt_nonzero) (use assms(2,3) d in linarith)+
  obtain s2 where s2: "Ampm_SMS_ReadMsg (of_nat (n + length d)) c s1 = Some (0, s2)" "smsDataBuf s2 = (smsDataBuf s1)[m := 0]"
      "flagSmsReadFinish s2" "smsSender s2 = smsSender s1"
    using text_end [OF s1(2) d(1) cnt u6 k m_def] by blast
  have h: "hand_over Ampm_SMS_ReadMsg n (txt @ text_end_bytes) s = Some (True, ys, s2)"
    unfolding c hand_over_append [OF s1(1)] using s2(1) by simp
  have m: "take m d = received_text txt" "m < 256"
    using d by (auto simp: m_def d_def received_text_def min_def)
  have B: "take (length d) (smsDataBuf s1) = d" "length (smsDataBuf s1) = 256" using s1(2) by (simp_all add: in_text_def)
  have "take m (smsDataBuf s1) = take m (take (length d) (smsDataBuf s1))" by (simp add: m_def min_def)
  then have b: "take m (smsDataBuf s1) = received_text txt" by (simp only: B(1) m(1))
  have "0 \<notin> set (received_text txt)" using assms(5) by (auto simp: received_text_def dest: in_set_takeD)
  then have "cstr (smsDataBuf s2) = received_text txt" unfolding s2(2) using m(2) b B(2) by (intro cstr_prefix_end) simp_all
  with h s2(3,4) s1(3) show ?thesis by auto
qed

lemma header_byte:
  assumes "in_header s k num" "(cnt :: u16) \<noteq> 0" "c \<noteq> 0x0A"
    and "k' = (if c = 0x2C then Suc k else k)" "k' < 256"
    and "num' = (if k' = 1 \<and> sender_char c then num @ [c] else num)" "length num' < 16"
  shows "\<exists>s'. Ampm_SMS_ReadMsg cnt c s = Some (0xff, s') \<and> in_header s' k' num'"
proof -
  let ?r = "if c = 0x2C then s\<lparr>read_comma := read_comma s + 1\<rparr> else s"
  have r: "in_header ?r k' num" using assms(1,4) by (auto simp: in_header_def)
  have k: "read_comma ?r = 1 \<longleftrightarrow> k' = 1"
    using r assms(5) by (simp add: in_header_def word_unat_eq_iff unat_of_nat take_bit_nat_eq_self)
  have l: "length num < 16" using assms(6,7) by (auto split: if_splits)
  have u: "length num < 15 \<Longrightarrow> take (Suc (length num)) (((smsSender ?r)[length num := c])[Suc (length num) := 0]) = num @ [c]"
    using r take_update_snoc [of "length num" "smsSender ?r" num c] by (simp add: in_header_def)
  have "\<exists>s'. read_header_byte c ?r = Some (0xff, s') \<and> in_header s' k' num'"
  proof (cases "k' = 1 \<and> sender_char c")
    case True
    then have n: "length num < 15" "num' = num @ [c]" using assms(6,7) by simp_all
    have c: "(0x30 \<le> c \<and> c \<le> 0x39) \<or> c = 0x2B" using True by (auto simp: sender_char_def IsDigit_def)
    let ?b = "((smsSender ?r)[length num := c])[Suc (length num) := 0]"
    have "read_header_byte c ?r = Some (0xff, ?r\<lparr>smsSender := ?b, read_sender := Suc (length num)\<rparr>)"
      using r k c l n True unfolding read_header_byte_def by (simp add: in_header_def)
    moreover have "in_header (?r\<lparr>smsSender := ?b, read_sender := Suc (length num)\<rparr>) k' num'"
      using r u [OF n(1)] n by (simp add: in_header_def)
    ultimately show ?thesis by blast
  next
    case False
    have "read_header_byte c ?r = Some (0xff, ?r)"
      using False r k l unfolding read_header_byte_def by (auto simp: in_header_def sender_char_def IsDigit_def)
    then show ?thesis using r False assms(6) by auto
  qed
  then show ?thesis
    using assms(2,3) r by (auto simp: Ampm_SMS_ReadMsg_def in_header_def Let_def)
qed

lemma header_comma:
  assumes "in_header s k num" "(cnt :: u16) \<noteq> 0" "Suc k < 256" "length num < 16"
  shows "\<exists>s'. Ampm_SMS_ReadMsg cnt 0x2C s = Some (0xff, s') \<and> in_header s' (Suc k) num"
  by (rule header_byte [OF assms(1,2) _ _ assms(3) _ assms(4)]) (simp_all add: sender_char_def IsDigit_def)

lemma header_plain:
  "in_header s k num \<Longrightarrow> length num < 16 \<Longrightarrow> 0x0A \<notin> set xs \<Longrightarrow> k + count_list xs 0x2C < 256 \<Longrightarrow> 0 < n \<Longrightarrow> n + length xs \<le> 65536 \<Longrightarrow>
   2 \<le> k \<or> k = 0 \<and> 0x2C \<notin> set xs \<Longrightarrow>
   \<exists>s'. hand_over Ampm_SMS_ReadMsg n xs s = Some (False, [], s') \<and> in_header s' (k + count_list xs 0x2C) num"
proof (induction xs arbitrary: s k n)
  case (Cons c xs)
  have cnt: "(of_nat n :: u16) \<noteq> 0" by (rule cnt_nonzero) (use Cons.prems in simp_all)
  let ?k = "if c = 0x2C then Suc k else k"
  have "c \<noteq> 0x0A" "?k < 256" "num = (if ?k = 1 \<and> sender_char c then num @ [c] else num)"
    using Cons.prems(3,4,7) by (auto split: if_splits)
  from header_byte [OF Cons.prems(1) cnt this(1) refl this(2,3) Cons.prems(2)] obtain s1 where
    s1: "Ampm_SMS_ReadMsg (of_nat n) c s = Some (0xff, s1)" "in_header s1 ?k num" by blast
  from Cons.IH [OF s1(2) Cons.prems(2), of "Suc n"] Cons.prems(3-) s1(1) show ?case by (auto split: if_splits)
qed simp

lemma header_sender:
  "in_header s 1 num \<Longrightarrow> 0x0A \<notin> set xs \<Longrightarrow> 0x2C \<notin> set xs \<Longrightarrow> length (num @ filter sender_char xs) < 16 \<Longrightarrow> 0 < n \<Longrightarrow>
   n + length xs \<le> 65536 \<Longrightarrow>
   \<exists>s'. hand_over Ampm_SMS_ReadMsg n xs s = Some (False, [], s') \<and> in_header s' 1 (num @ filter sender_char xs)"
proof (induction xs arbitrary: s num n)
  case (Cons c xs)
  have cnt: "(of_nat n :: u16) \<noteq> 0" by (rule cnt_nonzero) (use Cons.prems in simp_all)
  let ?n = "if (1 :: nat) = 1 \<and> sender_char c then num @ [c] else num"
  have "c \<noteq> 0x0A" "1 = (if c = 0x2C then Suc 1 else 1)" "length ?n < 16" using Cons.prems(2-4) by auto
  from header_byte [OF Cons.prems(1) cnt this(1,2) _ refl this(3)] obtain s1 where
    s1: "Ampm_SMS_ReadMsg (of_nat n) c s = Some (0xff, s1)" "in_header s1 1 ?n" by auto
  from Cons.IH [OF s1(2), of "Suc n"] Cons.prems(2-) s1(1) show ?case by (auto split: if_splits)
qed simp


section \<open>The newest message of the list\<close>

definition sms_ok :: "'z gsm_sms_scheme \<Rightarrow> nat list \<Rightarrow> bool" where
  "sms_ok s xs \<longleftrightarrow> is_list (sms_next s) (smsList s) xs \<and> (\<forall>p \<in> set xs. msgs s p \<noteq> None)"

text \<open>A message to be sent, with a text a text message has.\<close>

definition sendable :: "SMS_LIST_TYPE \<Rightarrow> bool" where
  "sendable m \<longleftrightarrow> sms_wanted m \<and> (sms_mode m = SMS_TEXT_MODE \<longrightarrow> (\<exists>c cs. sms_msg m = Some (c # cs) \<and> c \<noteq> 0))"

definition tried :: "SMS_LIST_TYPE \<Rightarrow> SMS_LIST_TYPE" where
  "tried m = m\<lparr>sms_timeout := sms_timeoutReload m, sms_tryNum := sms_tryNum m - 1\<rparr>"

text \<open>The parts of the state the list of messages does not determine.\<close>

definition ordered :: "nat \<Rightarrow> 'z gsm_sms_scheme \<Rightarrow> bool" where
  "ordered p s \<longleftrightarrow> smsMsg s = Some p \<and> CmdSend s = smsSendCmdProcess_0 \<and> CmdPhase s = AMPM_CMD_SEND"

lemma path_snoc_last: "is_list h l (xs @ [p]) \<Longrightarrow> h p = Some None"
  by (auto simp: is_list_def)

lemma sms_finish_last:
  assumes "sms_ok s (xs @ [p])" "msgs s p = Some m" "sms_flag m = SMS_NEW_MSG"
  shows "\<exists>s'. sms_finish p s = Some (None, s') \<and> msgs s' = (msgs s)(p := None) \<and> sms_ok s' xs
    \<and> smsMsg s' = smsMsg s \<and> CmdSend s' = CmdSend s \<and> CmdPhase s' = CmdPhase s"
proof -
  have l: "is_list (sms_next s) (smsList s) (xs @ [p])" using assms(1) by (simp add: sms_ok_def)
  have d: "p \<notin> set xs" using is_list_distinct [OF l] by simp
  from list_remove_seq [OF l, of p] obtain h l' where
    r: "list_remove (sms_next s) (smsList s) p = Some (h, l')" "is_list h l' xs"
    using d by (auto simp: seq_remove_def remove1_append)
  have "path (h(p := None)) l' xs None = path h l' xs None" by (rule path_cong) (use d in auto)
  then have "is_list (h(p := None)) l' xs" using r(2) by (simp add: is_list_def)
  then show ?thesis
    using assms d r(1) path_snoc_last [OF l]
    by (cases "sms_callback m") (auto simp: sms_finish_def list_item_next_def sms_ok_def sms_flag_defs emits_def)
qed

lemma sendableE:
  assumes "sendable m"
  obtains "sms_wanted m" "sms_mode m \<noteq> SMS_TEXT_MODE" | c cs where "sms_wanted m" "sms_msg m = Some (c # cs)" "c \<noteq> 0"
  using assms by (auto simp: sendable_def)

lemma SmsTask_loop_None: "SmsTask_loop None s = Some s"
  by (simp add: SmsTask_loop.simps)

lemma SmsTask_loop_skip:
  assumes "sms_ok s (xs @ [p])" "msgs s p = Some m" "sendable m" "sms_timeout m \<noteq> 0"
  shows "SmsTask_loop (Some p) s = Some (s\<lparr>checkCnt := 0\<rparr>)"
proof -
  have n: "sms_next s p = Some None" using assms(1) path_snoc_last [of "sms_next s" "smsList s" xs p] by (simp add: sms_ok_def)
  show ?thesis
    using assms(3)
  proof (cases rule: sendableE)
    case 1
    then show ?thesis
      using assms(2,4) n by (subst SmsTask_loop.simps) (simp add: list_item_next_def SmsTask_loop_None Let_def)
  next
    case (2 c cs)
    then show ?thesis
      using assms(2,4) n by (subst SmsTask_loop.simps) (simp add: list_item_next_def SmsTask_loop_None Let_def)
  qed
qed

lemma SmsTask_loop_try:
  assumes "msgs s p = Some m" "sendable m" "sms_timeout m = 0"
  shows "\<exists>s'. SmsTask_loop (Some p) s = SmsTask_loop (Some p) s' \<and> msgs s' = (msgs s)(p \<mapsto> tried m)
    \<and> sms_next s' = sms_next s \<and> smsList s' = smsList s \<and> ordered p s'"
proof -
  have t: "sms_tryNum m \<noteq> 0" "sms_wanted m" using assms(2) by (simp_all add: sendable_def sms_wanted_def)
  let ?s = "Ampm_SendAtCmdNow smsSendCmdProcess_0 (s\<lparr>checkCnt := 0, msgs := (msgs s)(p \<mapsto> tried m), smsMsg := Some p\<rparr>)"
  have "SmsTask_loop (Some p) s = SmsTask_loop (Some p) ?s"
    using assms(2)
  proof (cases rule: sendableE)
    case 1
    then show ?thesis using assms(1,3) t by (subst SmsTask_loop.simps) (simp add: sms_put_def tried_def Let_def)
  next
    case (2 c cs)
    then show ?thesis using assms(1,3) t by (subst SmsTask_loop.simps) (simp add: sms_put_def tried_def Let_def)
  qed
  moreover have "ordered p ?s" "msgs ?s = (msgs s)(p \<mapsto> tried m)" "sms_next ?s = sms_next s" "smsList ?s = smsList s"
    by (simp_all add: ordered_def Ampm_SendAtCmdNow_def Ampm_SendCmdNow_def start_timeout_def Let_def)
  ultimately show ?thesis by blast
qed

lemma SmsTask_loop_free:
  assumes "sms_ok s (xs @ [p])" "msgs s p = Some m" "sms_flag m = SMS_NEW_MSG" "sms_tryNum m = 0" "ordered p s"
    "sms_mode m = SMS_TEXT_MODE \<longrightarrow> (\<exists>c cs. sms_msg m = Some (c # cs) \<and> c \<noteq> 0)"
  shows "\<exists>s'. SmsTask_loop (Some p) s = Some s' \<and> msgs s' = (msgs s)(p := None) \<and> sms_ok s' xs \<and> ordered p s'"
proof -
  have w: "\<not> sms_wanted m" using assms(4) by (simp add: sms_wanted_def)
  let ?s = "s\<lparr>checkCnt := 0\<rparr>"
  have "sms_ok ?s (xs @ [p])" "msgs ?s p = Some m" using assms(1,2) by (simp_all add: sms_ok_def)
  from sms_finish_last [OF this assms(3)] obtain s' where
    s': "sms_finish p ?s = Some (None, s')" "msgs s' = (msgs s)(p := None)" "sms_ok s' xs" "ordered p s'"
    using assms(5) by (auto simp: ordered_def)
  have "SmsTask_loop (Some p) s = Some s'"
  proof (cases "sms_mode m = SMS_TEXT_MODE")
    case True
    then obtain c cs where "sms_msg m = Some (c # cs)" "c \<noteq> 0" using assms(6) by blast
    then show ?thesis using assms(2) w s'(1) by (subst SmsTask_loop.simps) (simp add: SmsTask_loop_None Let_def)
  next
    case False
    then show ?thesis using assms(2) w s'(1) by (subst SmsTask_loop.simps) (simp add: SmsTask_loop_None Let_def)
  qed
  then show ?thesis using s'(2-4) by blast
qed

lemma SmsTask_loop_exhausts:
  "sms_ok s (xs @ [p]) \<Longrightarrow> msgs s p = Some m \<Longrightarrow> sendable m \<Longrightarrow> sms_timeout m = 0 \<Longrightarrow>
   sms_tryNum m = 1 \<or> sms_timeoutReload m = 0 \<Longrightarrow>
   \<exists>s'. SmsTask_loop (Some p) s = Some s' \<and> msgs s' = (msgs s)(p := None) \<and> sms_ok s' xs \<and> ordered p s'"
proof (induction "unat (sms_tryNum m)" arbitrary: s m rule: less_induct)
  case less
  have t: "sms_tryNum m \<noteq> 0" "sms_flag m = SMS_NEW_MSG" using less.prems(3) by (simp_all add: sendable_def sms_wanted_def)
  from SmsTask_loop_try [OF less.prems(2-4)] obtain s1 where
    s1: "SmsTask_loop (Some p) s = SmsTask_loop (Some p) s1" "msgs s1 = (msgs s)(p \<mapsto> tried m)"
      "sms_next s1 = sms_next s" "smsList s1 = smsList s" "ordered p s1" by blast
  have ok: "sms_ok s1 (xs @ [p])" "msgs s1 p = Some (tried m)" using less.prems(1) s1 by (simp_all add: sms_ok_def)
  have tx: "sms_mode (tried m) = SMS_TEXT_MODE \<longrightarrow> (\<exists>c cs. sms_msg (tried m) = Some (c # cs) \<and> c \<noteq> 0)"
    using less.prems(3) by (simp add: sendable_def tried_def)
  show ?case
  proof (cases "sms_tryNum m = 1")
    case True
    from SmsTask_loop_free [OF ok _ _ s1(5) tx] t True s1(1,2) show ?thesis by (simp add: tried_def)
  next
    case False
    have "unat (sms_tryNum m) \<noteq> 0" "unat (sms_tryNum m) \<noteq> 1" using t(1) False by (simp_all add: word_unat_eq_iff)
    then have "sms_tryNum m - 1 \<noteq> 0" "unat (sms_tryNum m - 1) < unat (sms_tryNum m)"
      using t(1) False by (auto simp: unat_minus_one)
    then have "unat (sms_tryNum (tried m)) < unat (sms_tryNum m)" "sendable (tried m)" "sms_timeout (tried m) = 0"
        "sms_tryNum (tried m) = 1 \<or> sms_timeoutReload (tried m) = 0"
      using less.prems(3,5) False by (auto simp: tried_def sendable_def sms_wanted_def)
    from less.hyps [OF this(1) ok this(2-4)] s1(1,2) show ?thesis by simp
  qed
qed

text \<open>Property C3. Sending a message.  When the channel is idle the task orders the newest message,
  takes one of its tries and arms its timeout; the first callback of the command then chooses the
  message's mode.  If that was the last try, or the timeout is a multiple of 256 seconds, so that
  its 8-bit copy is zero, the task goes on with the same message, uses up its tries and frees it
  while it is the one being sent: the first callback of the command then reads freed memory.\<close>

theorem Ampm_SmsTask_newest:
  assumes "sms_ok s (xs @ [p])" "msgs s p = Some m" "sendable m" "sms_timeout m = 0"
    and "Ampm_SendAtCheck_IsEmpty s" "Ampm_CmdTask_IsIdle (CmdPhase s)" "checkCnt s < 9"
  shows "\<exists>s'. Ampm_SmsTask True s = Some (0, s') \<and> ordered p s' \<and>
    (if sms_tryNum m = 1 \<or> sms_timeoutReload m = 0
     then msgs s' = (msgs s)(p := None) \<and> sms_ok s' xs \<and> Ampm_GsmSmsSendCallback_CMGF ph s' = None
     else msgs s' = (msgs s)(p \<mapsto> tried m) \<and> sms_ok s' (xs @ [p])
       \<and> Ampm_GsmSmsSendCallback_CMGF ph s'
         = Some (1, Ampm_SendAtCmdNow (if sms_mode m = SMS_TEXT_MODE then smsSendCmdProcess_1 else smsSendCmdProcess_2) s'))"
proof -
  let ?s = "s\<lparr>checkCnt := checkCnt s + 1\<rparr>"
  have ok: "sms_ok ?s (xs @ [p])" "msgs ?s p = Some m" using assms(1,2) by (simp_all add: sms_ok_def)
  have l: "is_list (sms_next s) (smsList s) (xs @ [p])" using assms(1) by (simp add: sms_ok_def)
  have c: "\<not> checkCnt s + 1 \<ge> 10"
    using assms(7) by (simp add: word_less_nat_alt word_le_nat_alt unat_word_ariths)
  have run: "Ampm_SmsTask True s = do { s \<leftarrow> SmsTask_loop (Some p) ?s; Some (0, s) }"
    using assms(5,6) c list_length_seq [OF l] list_tail_seq [OF l] by (simp add: Ampm_SmsTask_def seq_tail_def Let_def)
  show ?thesis
  proof (cases "sms_tryNum m = 1 \<or> sms_timeoutReload m = 0")
    case True
    from SmsTask_loop_exhausts [OF ok assms(3,4) True] True run show ?thesis
      by (auto simp: ordered_def Ampm_GsmSmsSendCallback_CMGF_def sms_def)
  next
    case False
    from SmsTask_loop_try [OF ok(2) assms(3,4)] obtain s1 where
      s1: "SmsTask_loop (Some p) ?s = SmsTask_loop (Some p) s1" "msgs s1 = (msgs s)(p \<mapsto> tried m)"
        "sms_next s1 = sms_next s" "smsList s1 = smsList s" "ordered p s1" by auto
    have ok1: "sms_ok s1 (xs @ [p])" "msgs s1 p = Some (tried m)" using assms(1) s1 by (simp_all add: sms_ok_def)
    have "sms_tryNum m - 1 \<noteq> 0" using False by auto
    then have "sendable (tried m)" "sms_timeout (tried m) \<noteq> 0"
      using assms(3) False by (auto simp: tried_def sendable_def sms_wanted_def)
    from SmsTask_loop_skip [OF ok1 this] have "SmsTask_loop (Some p) ?s = Some (s1\<lparr>checkCnt := 0\<rparr>)" using s1(1) by simp
    then show ?thesis using False run s1(2,5) ok1
      by (auto simp: ordered_def Ampm_GsmSmsSendCallback_CMGF_def sms_def sms_ok_def tried_def)
  qed
qed

section \<open>Instances at power-on\<close>

definition sms_boot :: gsm_sms where
  "sms_boot = gsm_call.extend call_boot
     (gsm_sms.fields Map.empty Map.empty None Map.empty zero_timeout None
        \<lparr>rb_head = 0, rb_tail = 0, rb_size = 32, rb_pt = replicate 32 0\<rparr> (replicate 16 0) (replicate 256 0)
        0 0 False (replicate 16 0) False 0 0 0 0 0 0 False 0 0 0 0 0)"

lemmas sms_boot_defs = sms_boot_def gsm_call.extend_def gsm_sms.fields_def call_boot_defs

lemma sms_boot_fields [simp]:
  "msgs sms_boot = Map.empty" "sms_next sms_boot = Map.empty" "smsList sms_boot = None" "checkCnt sms_boot = 0"
  "smsUnreadRingBuff sms_boot = \<lparr>rb_head = 0, rb_tail = 0, rb_size = 32, rb_pt = replicate 32 0\<rparr>"
  "smsSender sms_boot = replicate 16 0" "smsDataBuf sms_boot = replicate 256 0"
  "CmdPhase sms_boot = AMPM_CMD_SEND" "CmdSend sms_boot = zero_cmd" "CmdList sms_boot = []"
  by (simp_all add: sms_boot_defs)

lemma sms_boot_unread: "unread sms_boot []"
  by (simp add: unread_def rb_inv_def rb_cap_def rb_list_def rb_fill_def)

lemma Ampm_SMS_index_queue_witness:
  "if length ([] :: nat list) < 15
   then \<exists>s' s''. hand_over Ampm_SMS_Process 0 ([0x31, 0x32] @ [0x0D]) sms_boot = Some (True, [], s')
      \<and> unread s' ([] @ [nat (number_of_digits [0x31, 0x32])])
      \<and> Ampm_GsmSmsRecv1 AMPM_CMD_OK s' = Some (1, s'')
      \<and> smsIndex s'' = of_nat (hd ([] @ [nat (number_of_digits [0x31, 0x32])]))
      \<and> unread s'' (tl ([] @ [nat (number_of_digits [0x31, 0x32])]))
      \<and> CmdSend s'' = (if hd ([] @ [nat (number_of_digits [0x31, 0x32])]) \<ge> 1000 then smsRecvCmdProcess_5 else smsRecvCmdProcess_4)
   else \<exists>s'. hand_over Ampm_SMS_Process 0 ([0x31, 0x32] @ [0x0D]) sms_boot = Some (True, [], s')
      \<and> rb_list (smsUnreadRingBuff s') = concat (map index_bytes []) @ [of_nat (nat (number_of_digits [0x31, 0x32]) mod 256)]"
  by (rule Ampm_SMS_index_queue [OF sms_boot_unread]) (simp_all add: IsDigit_def)


text \<open>One text message with one try at address 7.\<close>

definition demo_sms :: SMS_LIST_TYPE where
  "demo_sms = \<lparr>sms_phone = Some (lit ''0978779222''), sms_msg = Some [0x48, 0x69], sms_len = 2, sms_timeout = 0,
     sms_timeoutReload = 60, sms_tryNum = 1, sms_flag = SMS_NEW_MSG, sms_status = None, sms_callback = None,
     sms_mode = SMS_TEXT_MODE\<rparr>"

definition demo_sms_state :: gsm_sms where
  "demo_sms_state = sms_boot\<lparr>msgs := [7 \<mapsto> demo_sms], sms_next := [7 \<mapsto> None], smsList := Some 7, CmdPhase := AMPM_CMD_OK\<rparr>"

lemma Ampm_SmsTask_newest_witness:
  "\<exists>s'. Ampm_SmsTask True demo_sms_state = Some (0, s') \<and> ordered 7 s' \<and>
    (if sms_tryNum demo_sms = 1 \<or> sms_timeoutReload demo_sms = 0
     then msgs s' = (msgs demo_sms_state)(7 := None) \<and> sms_ok s' [] \<and> Ampm_GsmSmsSendCallback_CMGF AMPM_CMD_OK s' = None
     else msgs s' = (msgs demo_sms_state)(7 \<mapsto> tried demo_sms) \<and> sms_ok s' ([] @ [7])
       \<and> Ampm_GsmSmsSendCallback_CMGF AMPM_CMD_OK s'
         = Some (1, Ampm_SendAtCmdNow (if sms_mode demo_sms = SMS_TEXT_MODE then smsSendCmdProcess_1 else smsSendCmdProcess_2) s'))"
  by (rule Ampm_SmsTask_newest)
    (simp_all add: demo_sms_state_def sms_ok_def is_list_def demo_sms_def sendable_def sms_wanted_def sms_flag_defs
      Ampm_SendAtCheck_IsEmpty_def Ampm_CmdTask_IsIdle_def Ampm_CmdCheck_IsEmpty_def zero_cmd_def)

end
