(* ===== verification/GsmMainProofs.thy ===== *)
theory GsmMainProofs
  imports GsmMain GsmSmsRead
begin

text \<open>
  Properties of the main task: the moves between its phases, what the other modules leave
  alone, and how a data call and the work in command mode alternate.
\<close>

section \<open>What the other modules leave alone\<close>

named_theorems frame

definition main_vars where
  "main_vars s = (TaskPhase s, ampm_GSM_mode s, dataSendingTimeout s, smsCheckTime s, gsmMainTaskTryCnt s, tRingTask s,
     ppp_status s, thisPPP s, Ampm_TcpIpCallback s, Ampm_TcpIpInit s)"

lemma main_vars_emits [simp]: "main_vars (emits os s) = main_vars s"
  by (simp add: main_vars_def emits_def)

lemma main_vars_update [simp]:
  "main_vars (s\<lparr>CmdPhase := x0\<rparr>) = main_vars s" "main_vars (s\<lparr>CmdSend := x1\<rparr>) = main_vars s"
  "main_vars (s\<lparr>CmdList := x2\<rparr>) = main_vars s" "main_vars (s\<lparr>TaskTimeout := x3\<rparr>) = main_vars s"
  "main_vars (s\<lparr>tick := x4\<rparr>) = main_vars s" "main_vars (s\<lparr>rx := x5\<rparr>) = main_vars s"
  "main_vars (s\<lparr>outs := x6\<rparr>) = main_vars s" "main_vars (s\<lparr>AtCmd := x7\<rparr>) = main_vars s"
  "main_vars (s\<lparr>GprsApn := x8\<rparr>) = main_vars s" "main_vars (s\<lparr>CommonAppStruct := x9\<rparr>) = main_vars s"
  "main_vars (s\<lparr>AtCmdBuf := x10\<rparr>) = main_vars s" "main_vars (s\<lparr>CmdOk := x11\<rparr>) = main_vars s"
  "main_vars (s\<lparr>CmdFails := x12\<rparr>) = main_vars s" "main_vars (s\<lparr>AtCallBackParser := x13\<rparr>) = main_vars s"
  "main_vars (s\<lparr>CmdParsedChar := x14\<rparr>) = main_vars s" "main_vars (s\<lparr>AtProcessCmd := x15\<rparr>) = main_vars s"
  "main_vars (s\<lparr>parserLastChar := x16\<rparr>) = main_vars s" "main_vars (s\<lparr>gotoCmdModeFlag := x17\<rparr>) = main_vars s"
  "main_vars (s\<lparr>gotoDataModeFlag := x18\<rparr>) = main_vars s" "main_vars (s\<lparr>csqBuff := x19\<rparr>) = main_vars s"
  "main_vars (s\<lparr>csqValue := x20\<rparr>) = main_vars s" "main_vars (s\<lparr>gsmSignal := x21\<rparr>) = main_vars s"
  "main_vars (s\<lparr>ampm_ModemResetFlag := x22\<rparr>) = main_vars s" "main_vars (s\<lparr>ampm_MissCall := x23\<rparr>) = main_vars s"
  "main_vars (s\<lparr>ampm_NewSmsFlag := x24\<rparr>) = main_vars s" "main_vars (s\<lparr>ampm_RingingFlagTimes := x25\<rparr>) = main_vars s"
  "main_vars (s\<lparr>ampm_RingingFlag := x26\<rparr>) = main_vars s" "main_vars (s\<lparr>ampm_RingingTime := x27\<rparr>) = main_vars s"
  "main_vars (s\<lparr>ampm_RingingPauseTime := x28\<rparr>) = main_vars s" "main_vars (s\<lparr>ampm_RingingPhase := x29\<rparr>) = main_vars s"
  "main_vars (s\<lparr>dialupTryCnt := x30\<rparr>) = main_vars s" "main_vars (s\<lparr>ampmGsmDialupPhase := x31\<rparr>) = main_vars s"
  "main_vars (s\<lparr>gsmSimCIDBuf := x32\<rparr>) = main_vars s" "main_vars (s\<lparr>flagGotSimCID := x33\<rparr>) = main_vars s"
  "main_vars (s\<lparr>modemCIDPass := x34\<rparr>) = main_vars s" "main_vars (s\<lparr>gsmIMEIBuf := x35\<rparr>) = main_vars s"
  "main_vars (s\<lparr>flagGotIMEI := x36\<rparr>) = main_vars s" "main_vars (s\<lparr>modemIMEIPass := x37\<rparr>) = main_vars s"
  "main_vars (s\<lparr>tAmpm_GsmStartupTaskDelay := x38\<rparr>) = main_vars s" "main_vars (s\<lparr>ampm_AtGsmCmdStart_pt := x39\<rparr>) = main_vars s"
  "main_vars (s\<lparr>ampm_GSM_StartupPhase := x40\<rparr>) = main_vars s" "main_vars (s\<lparr>at_cmd := x41\<rparr>) = main_vars s"
  "main_vars (s\<lparr>ampm_gsm_baudrate_index := x42\<rparr>) = main_vars s" "main_vars (s\<lparr>gsmBaudrateSaved := x43\<rparr>) = main_vars s"
  "main_vars (s\<lparr>startup_tryCnt := x44\<rparr>) = main_vars s" "main_vars (s\<lparr>ampmGsmModuleType := x45\<rparr>) = main_vars s"
  "main_vars (s\<lparr>ati := x46\<rparr>) = main_vars s" "main_vars (s\<lparr>calls := x47\<rparr>) = main_vars s"
  "main_vars (s\<lparr>call_next := x48\<rparr>) = main_vars s" "main_vars (s\<lparr>callList := x49\<rparr>) = main_vars s"
  "main_vars (s\<lparr>voiceCall := x50\<rparr>) = main_vars s" "main_vars (s\<lparr>callTaskFailCnt := x51\<rparr>) = main_vars s"
  "main_vars (s\<lparr>listOfCurrentCall := x52\<rparr>) = main_vars s" "main_vars (s\<lparr>clccLen := x53\<rparr>) = main_vars s"
  "main_vars (s\<lparr>gotListOfCurrentCall := x54\<rparr>) = main_vars s" "main_vars (s\<lparr>callListIsEmpty := x55\<rparr>) = main_vars s"
  "main_vars (s\<lparr>callTimeout := x56\<rparr>) = main_vars s" "main_vars (s\<lparr>callAlertingTimeout := x57\<rparr>) = main_vars s"
  "main_vars (s\<lparr>tCallDelayTimeout := x58\<rparr>) = main_vars s" "main_vars (s\<lparr>ceerId := x59\<rparr>) = main_vars s"
  "main_vars (s\<lparr>getCeerFlag := x60\<rparr>) = main_vars s" "main_vars (s\<lparr>gotCeerId := x61\<rparr>) = main_vars s"
  "main_vars (s\<lparr>callDelayTime := x62\<rparr>) = main_vars s" "main_vars (s\<lparr>callTaskIsRunningCnt := x63\<rparr>) = main_vars s"
  "main_vars (s\<lparr>ampm_GotIncomingNumberFlag := x64\<rparr>) = main_vars s" "main_vars (s\<lparr>ampm_IncomingCallPhoneNo := x65\<rparr>) = main_vars s"
  "main_vars (s\<lparr>msgs := x66\<rparr>) = main_vars s" "main_vars (s\<lparr>sms_next := x67\<rparr>) = main_vars s"
  "main_vars (s\<lparr>smsList := x68\<rparr>) = main_vars s" "main_vars (s\<lparr>status_cells := x69\<rparr>) = main_vars s"
  "main_vars (s\<lparr>tSmsTaskTimeOut := x70\<rparr>) = main_vars s" "main_vars (s\<lparr>smsMsg := x71\<rparr>) = main_vars s"
  "main_vars (s\<lparr>smsUnreadRingBuff := x72\<rparr>) = main_vars s" "main_vars (s\<lparr>smsSender := x73\<rparr>) = main_vars s"
  "main_vars (s\<lparr>smsDataBuf := x74\<rparr>) = main_vars s" "main_vars (s\<lparr>pdu_len_except_smsc := x75\<rparr>) = main_vars s"
  "main_vars (s\<lparr>pdu_len := x76\<rparr>) = main_vars s" "main_vars (s\<lparr>flagSmsReadFinish := x77\<rparr>) = main_vars s"
  "main_vars (s\<lparr>serviceCenterNumber := x78\<rparr>) = main_vars s" "main_vars (s\<lparr>getServiceCenterNumber := x79\<rparr>) = main_vars s"
  "main_vars (s\<lparr>csca_len := x80\<rparr>) = main_vars s" "main_vars (s\<lparr>smsTaskFailCnt := x81\<rparr>) = main_vars s"
  "main_vars (s\<lparr>readTryCnt := x82\<rparr>) = main_vars s" "main_vars (s\<lparr>smsIndex := x83\<rparr>) = main_vars s"
  "main_vars (s\<lparr>checkCnt := x84\<rparr>) = main_vars s" "main_vars (s\<lparr>read_comma := x85\<rparr>) = main_vars s"
  "main_vars (s\<lparr>read_data := x86\<rparr>) = main_vars s" "main_vars (s\<lparr>read_term := x87\<rparr>) = main_vars s"
  "main_vars (s\<lparr>read_sender := x88\<rparr>) = main_vars s" "main_vars (s\<lparr>read_pos := x89\<rparr>) = main_vars s"
  "main_vars (s\<lparr>urc_length := x90\<rparr>) = main_vars s" "main_vars (s\<lparr>cmti_length := x91\<rparr>) = main_vars s"
  "main_vars (s\<lparr>AT_CmdParser := x92\<rparr>) = main_vars s" "main_vars (s\<lparr>cmdCnt := x93\<rparr>) = main_vars s"
  "main_vars (s\<lparr>RingBuffInit := x94\<rparr>) = main_vars s" "main_vars (s\<lparr>incomingCallPhoneNo := x95\<rparr>) = main_vars s"
  "main_vars (s\<lparr>ampm_AtCommandParserEnable := x96\<rparr>) = main_vars s"
  by (simp_all add: main_vars_def)

lemma main_vars_send [simp]:
  "main_vars (start_timeout ms s) = main_vars s" "main_vars (Ampm_SendCmdNow cmd s) = main_vars s"
  "main_vars (Ampm_SendAtCmdNow cmd s) = main_vars s" "main_vars (snd (Ampm_SendAtCmd cmd s)) = main_vars s"
  "main_vars (snd (Ampm_StartRecvSms s)) = main_vars s" "main_vars (COMM_Putc c s) = main_vars s"
  by (simp_all add: start_timeout_def Ampm_SendCmdNow_def Ampm_SendAtCmdNow_def Ampm_SendAtCmd_def Ampm_SendCmd_def
      Ampm_StartRecvSms_def COMM_Putc_def Let_def)

lemma main_vars_ring [simp]:
  "main_vars (Ampm_SetAtClip s) = main_vars s" "main_vars (Ampm_SetAtRing s) = main_vars s"
  "main_vars (Ampm_SetAtCmti s) = main_vars s" "main_vars (Ampm_RingingReset s) = main_vars s"
  "main_vars (Ampm_RingingEnable s) = main_vars s" "main_vars (Ampm_RingingDisable s) = main_vars s"
  "main_vars (Ampm_RingingTimer s) = main_vars s" "main_vars (Ampm_RingingProcess s) = main_vars s"
  "main_vars (Ampm_GSM_DialUp_Reset s) = main_vars s" "main_vars (snd (AMPM_GSM_Startup_Init s)) = main_vars s"
  "main_vars (Ampm_CallTask_Init s) = main_vars s" "main_vars (Ampm_GsmGotoCmdMode s) = main_vars s"
  by (simp_all add: Ampm_SetAtClip_def Ampm_SetAtRing_def Ampm_SetAtCmti_def Ampm_RingingReset_def Ampm_RingingEnable_def
      Ampm_RingingDisable_def Ampm_RingingTimer_def Ampm_RingingProcess_def Ampm_GSM_DialUp_Reset_def
      AMPM_GSM_Startup_Init_def startup_wait_def Ampm_CallTask_Init_def Ampm_GsmGotoCmdMode_def
      main_vars_def Let_def split: AMPM_GSM_RING_PHASE.split)

lemma fold_Putc [simp]: "main_vars (fold COMM_Putc cs s) = main_vars s"
  by (induction cs arbitrary: s) simp_all

lemma frame_DialUp [simp]: "main_vars (snd (Ampm_GSM_DialUp s)) = main_vars s"
  by (cases "ampmGsmDialupPhase s")
    (auto simp: Ampm_GSM_DialUp_def Ampm_SendAtCmd_def Ampm_SendCmd_def main_vars_def Ampm_SendCmdNow_def start_timeout_def
      COMM_Putc_def Let_def intro!: fold_Putc[unfolded main_vars_def, simplified])

section \<open>Frames of the operations that may fail\<close>

text \<open>\<open>stays v m\<close>: if \<open>m\<close> has a value, the state in it has the variables
  \<open>v\<close>.  The rules of \<open>frame\<close> follow the code.\<close>

abbreviation stays where "stays v \<equiv> pred_option (\<lambda>s. main_vars s = v)"

abbreviation stays1 where "stays1 v \<equiv> pred_option (\<lambda>(r, s). main_vars s = v)"

abbreviation stays2 where "stays2 v \<equiv> pred_option (\<lambda>(r, b, s). main_vars s = v)"

lemma obs_bind:
  "pred_option (\<lambda>s. obs s = v) m \<Longrightarrow> (\<And>s. obs s = v \<Longrightarrow> pred_option P (f s)) \<Longrightarrow> pred_option P (Option.bind m f)"
  by (cases m) simp_all

lemma obs_bind1:
  "pred_option (\<lambda>(r, s). obs s = v) m \<Longrightarrow> (\<And>r s. obs s = v \<Longrightarrow> pred_option P (f r s)) \<Longrightarrow>
   pred_option P (Option.bind m (\<lambda>(r, s). f r s))"
  by (cases m) auto

lemma obs_bind2:
  "pred_option (\<lambda>(r, b, s). obs s = v) m \<Longrightarrow> (\<And>r b s. obs s = v \<Longrightarrow> pred_option P (f r b s)) \<Longrightarrow>
   pred_option P (Option.bind m (\<lambda>(r, b, s). f r b s))"
  by (cases m) auto

lemmas frame_bind = obs_bind [of main_vars]

lemmas frame_bind1 = obs_bind1 [of main_vars]

lemmas frame_bind2 = obs_bind2 [of main_vars]

lemma frame_bind_value: "(\<And>x. pred_option P (f x)) \<Longrightarrow> pred_option P (Option.bind m f)"
  by (cases m) simp_all

lemma frame_if: "(b \<Longrightarrow> pred_option P x) \<Longrightarrow> (\<not> b \<Longrightarrow> pred_option P y) \<Longrightarrow> pred_option P (if b then x else y)"
  by simp

lemma frame_case: "pred_option P x \<Longrightarrow> (\<And>y. pred_option P (f y)) \<Longrightarrow> pred_option P (case m of None \<Rightarrow> x | Some y \<Rightarrow> f y)"
  by (cases m) simp_all

lemma frame_prod: "(\<And>x y. pred_option P (f x y)) \<Longrightarrow> pred_option P (case m of (x, y) \<Rightarrow> f x y)"
  by (cases m) simp

lemma frame_Let: "pred_option P (f t) \<Longrightarrow> pred_option P (Let t f)"
  by (simp add: Let_def)

lemma frame_Some: "P x \<Longrightarrow> pred_option P (Some x)"
  by simp

lemma frame_None: "pred_option P None"
  by simp

lemmas frame_rules = frame_bind2 frame_bind1 frame_bind frame_bind_value frame_if frame_case frame_prod frame_Let frame_Some
  frame_None

lemma main_vars_if [simp]: "main_vars (if b then s else s') = (if b then main_vars s else main_vars s')"
  by simp

lemma frame_startup_wait [simp]: "main_vars (startup_wait ms s) = main_vars s"
  by (simp add: startup_wait_def)

lemma frame_SendCmd [frame]: "main_vars s = v \<Longrightarrow> stays1 v (Ampm_CmdTask_SendCmd f r d ok er tm n fmt s)"
  unfolding Ampm_CmdTask_SendCmd_def by (intro frame_rules; simp)

lemma frame_startup_command [frame]: "main_vars s = v \<Longrightarrow> stays v (startup_command t s)"
  unfolding startup_command_def by (intro frame frame_rules; simp)

lemma frame_startup_default [frame]: "main_vars s = v \<Longrightarrow> stays v (startup_default b n t s)"
  unfolding startup_default_def by (intro frame frame_rules; simp)

lemma frame_startup_entry [frame]: "main_vars s = v \<Longrightarrow> stays v (startup_entry c t s)"
  unfolding startup_entry_def by (intro frame frame_rules; simp)

lemma frame_startup_next [frame]: "main_vars s = v \<Longrightarrow> stays v (startup_next s)"
  unfolding startup_next_def by (intro frame frame_rules; simp)

lemma frame_Startup [frame]: "main_vars s = v \<Longrightarrow> stays1 v (AMPM_GSM_Startup cmds s)"
  unfolding AMPM_GSM_Startup_def by (cases "ampm_GSM_StartupPhase s"; simp only: AMPM_GSM_STARTUP_PHASE_TYPE.case; intro frame frame_rules; simp)

lemma frame_call_put [frame]: "main_vars s = v \<Longrightarrow> stays v (call_put p f s)"
  unfolding call_put_def by (intro frame_rules; simp)

lemma frame_voice_put [frame]: "main_vars s = v \<Longrightarrow> stays v (voice_put f s)"
  unfolding voice_put_def by (intro frame frame_rules; simp)

lemma frame_call_unlink [frame]: "main_vars s = v \<Longrightarrow> stays v (call_unlink p s)"
  unfolding call_unlink_def by (intro frame_rules; simp)

lemma frame_StartRecvCall [frame]: "main_vars s = v \<Longrightarrow> stays v (Ampm_VoiceCallStartRecvCall s)"
  unfolding Ampm_VoiceCallStartRecvCall_def by (intro frame; simp)

lemma frame_hang_up [frame]: "main_vars s = v \<Longrightarrow> stays v (hang_up r s)"
  unfolding hang_up_def by (intro frame; simp)

lemma frame_check_state_report [frame]: "main_vars s = v \<Longrightarrow> stays1 v (check_state_report s)"
  unfolding check_state_report_def by (intro frame frame_rules; simp)

lemma frame_check_state_action [frame]: "main_vars s = v \<Longrightarrow> stays v (check_state_action s)"
  unfolding check_state_action_def
  by (rule frame_bind_value; simp only: Let_def split: CALL_ACTION.split; intro conjI impI frame frame_rules; simp split: option.split)

text \<open>Loops.\<close>

lemma pred_optionI: "(\<And>x. m = Some x \<Longrightarrow> P x) \<Longrightarrow> pred_option P m"
  by (cases m) simp_all

lemma pred_optionD: "pred_option P m \<Longrightarrow> m = Some x \<Longrightarrow> P x"
  by simp

lemma frame_calls_tick [frame]: "main_vars s = v \<Longrightarrow> stays v (calls_tick p s)"
proof (rule pred_optionI)
  fix x assume v: "main_vars s = v" and x: "calls_tick p s = Some x"
  have "main_vars s = v \<longrightarrow> main_vars x = v"
  proof (rule calls_tick.raw_induct [of "\<lambda>p s x. main_vars s = v \<longrightarrow> main_vars x = v", OF _ x], goal_cases)
    case (1 f p s x)
    have IH: "main_vars s = v \<Longrightarrow> stays v (f p s)" for p s
      by (rule pred_optionI) (use 1(1) in \<open>auto split: prod.split\<close>)
    show ?case
    proof
      assume "main_vars s = v"
      then have "stays v (Some x)" unfolding 1(2) [symmetric] by (intro IH frame frame_rules; simp)
      then show "main_vars x = v" by (simp split: prod.splits)
    qed
  qed
  then show "main_vars x = v" using v by (simp split: prod.split)
qed

lemma frame_CallPeriodic [frame]: "main_vars s = v \<Longrightarrow> stays1 v (Ampm_CallTaskPeriodic_1Sec s)"
  unfolding Ampm_CallTaskPeriodic_1Sec_def by (intro frame frame_rules; simp)

lemma frame_CallTask_loop [frame]: "main_vars s = v \<Longrightarrow> stays v (CallTask_loop p s)"
proof (rule pred_optionI)
  fix x assume v: "main_vars s = v" and x: "CallTask_loop p s = Some x"
  have "main_vars s = v \<longrightarrow> main_vars x = v"
  proof (rule CallTask_loop.raw_induct [of "\<lambda>p s x. main_vars s = v \<longrightarrow> main_vars x = v", OF _ x], goal_cases)
    case (1 f p s x)
    have IH: "main_vars s = v \<Longrightarrow> stays v (f p s)" for p s
      by (rule pred_optionI) (use 1(1) in \<open>auto split: prod.split\<close>)
    show ?case
    proof
      assume "main_vars s = v"
      then have "stays v (Some x)" unfolding 1(2) [symmetric] by (intro IH frame frame_rules; simp)
      then show "main_vars x = v" by (simp split: prod.splits)
    qed
  qed
  then show "main_vars x = v" using v by (simp split: prod.split)
qed

lemma frame_CallTask [frame]: "main_vars s = v \<Longrightarrow> stays1 v (Ampm_CallTask s)"
  unfolding Ampm_CallTask_def by (intro frame frame_rules; simp)

lemma frame_sms_put [frame]: "main_vars s = v \<Longrightarrow> stays v (sms_put p f s)"
  unfolding sms_put_def by (intro frame_rules; simp)

lemma frame_sms_cur_put [frame]: "main_vars s = v \<Longrightarrow> stays v (sms_cur_put f s)"
  unfolding sms_cur_put_def by (intro frame frame_rules; simp)

lemma frame_UpdateStatus [frame]: "main_vars s = v \<Longrightarrow> stays v (Ampm_UpdateStatus lock st c s)"
  unfolding Ampm_UpdateStatus_def by (intro frame frame_rules; simp)

lemma frame_sms_finish [frame]: "main_vars s = v \<Longrightarrow> stays1 v (sms_finish p s)"
  unfolding sms_finish_def by (intro frame frame_rules; simp split: option.split)

lemma frame_SmsPeriodic_loop [frame]: "main_vars s = v \<Longrightarrow> stays1 v (SmsPeriodic_loop p r s)"
proof (rule pred_optionI)
  fix x assume v: "main_vars s = v" and x: "SmsPeriodic_loop p r s = Some x"
  have "main_vars s = v \<longrightarrow> main_vars (snd x) = v"
  proof (rule SmsPeriodic_loop.raw_induct [of "\<lambda>p r s x. main_vars s = v \<longrightarrow> main_vars (snd x) = v", OF _ x], goal_cases)
    case (1 f p r s x)
    have IH: "main_vars s = v \<Longrightarrow> stays1 v (f p r s)" for p r s
      by (rule pred_optionI) (use 1(1) in \<open>auto split: prod.split\<close>)
    show ?case
    proof
      assume "main_vars s = v"
      then have "stays1 v (Some x)" unfolding 1(2) [symmetric] by (intro IH frame frame_rules; simp)
      then show "main_vars (snd x) = v" by (simp split: prod.splits)
    qed
  qed
  then show "case x of (r, s) \<Rightarrow> main_vars s = v" using v by (cases x) simp
qed

lemma frame_SmsPeriodic [frame]: "main_vars s = v \<Longrightarrow> stays1 v (Ampm_SmsTaskPeriodic_1Sec lock s)"
  unfolding Ampm_SmsTaskPeriodic_1Sec_def by (intro frame frame_rules; simp)

lemma frame_SmsTask_loop [frame]: "main_vars s = v \<Longrightarrow> stays v (SmsTask_loop p s)"
proof (rule pred_optionI)
  fix x assume v: "main_vars s = v" and x: "SmsTask_loop p s = Some x"
  have "main_vars s = v \<longrightarrow> main_vars x = v"
  proof (rule SmsTask_loop.raw_induct [of "\<lambda>p s x. main_vars s = v \<longrightarrow> main_vars x = v", OF _ x], goal_cases)
    case (1 f p s x)
    have IH: "main_vars s = v \<Longrightarrow> stays v (f p s)" for p s
      by (rule pred_optionI) (use 1(1) in \<open>auto split: prod.split\<close>)
    show ?case
    proof
      assume "main_vars s = v"
      then have "stays v (Some x)" unfolding 1(2) [symmetric] by (intro IH frame frame_rules; simp)
      then show "main_vars x = v" by (simp split: prod.splits)
    qed
  qed
  then show "main_vars x = v" using v by (simp split: prod.split)
qed

lemma frame_SmsTask [frame]: "main_vars s = v \<Longrightarrow> stays1 v (Ampm_SmsTask lock s)"
  unfolding Ampm_SmsTask_def by (intro frame frame_rules; simp)


text \<open>Ends of commands.\<close>

lemma frame_Ampm_GsmVoiceCallCheckCeerEndCallback [frame]: "main_vars s = v \<Longrightarrow> stays1 v (Ampm_GsmVoiceCallCheckCeerEndCallback ph s)"
  unfolding Ampm_GsmVoiceCallCheckCeerEndCallback_def by (intro frame frame_rules; simp)

lemma frame_Ampm_GsmVoiceCallCheckStateEndCallback [frame]: "main_vars s = v \<Longrightarrow> stays1 v (Ampm_GsmVoiceCallCheckStateEndCallback ph s)"
  unfolding Ampm_GsmVoiceCallCheckStateEndCallback_def by (intro frame frame_rules; simp)

lemma frame_Ampm_GsmCallEndCallback [frame]: "main_vars s = v \<Longrightarrow> stays1 v (Ampm_GsmCallEndCallback ph s)"
  unfolding Ampm_GsmCallEndCallback_def by (intro frame frame_rules; simp)

lemma frame_Ampm_GsmATM1EndCallback [frame]: "main_vars s = v \<Longrightarrow> stays1 v (Ampm_GsmATM1EndCallback ph s)"
  unfolding Ampm_GsmATM1EndCallback_def by (intro frame frame_rules; simp)

lemma frame_Ampm_GsmCallDialEndCallback [frame]: "main_vars s = v \<Longrightarrow> stays1 v (Ampm_GsmCallDialEndCallback ph s)"
  unfolding Ampm_GsmCallDialEndCallback_def by (intro frame frame_rules; simp)

lemma frame_Ampm_GsmSmsSent [frame]: "main_vars s = v \<Longrightarrow> stays1 v (Ampm_GsmSmsSent ph s)"
  unfolding Ampm_GsmSmsSent_def by (intro frame frame_rules; simp)

lemma frame_Ampm_GsmCREG [frame]: "main_vars s = v \<Longrightarrow> stays1 v (Ampm_GsmCREG ph s)"
  unfolding Ampm_GsmCREG_def by (intro frame frame_rules; simp)

lemma frame_Ampm_GsmSmsSendCallback_CMGF [frame]: "main_vars s = v \<Longrightarrow> stays1 v (Ampm_GsmSmsSendCallback_CMGF ph s)"
  unfolding Ampm_GsmSmsSendCallback_CMGF_def by (intro frame frame_rules; simp)

lemma frame_Ampm_GsmSmsSendCallback_CSCA [frame]: "main_vars s = v \<Longrightarrow> stays1 v (Ampm_GsmSmsSendCallback_CSCA ph s)"
  unfolding Ampm_GsmSmsSendCallback_CSCA_def by (intro frame frame_rules; simp)

lemma frame_next_unread [frame]: "main_vars s = v \<Longrightarrow> stays1 v (next_unread none s)"
  unfolding next_unread_def by (intro frame frame_rules; simp)

lemma frame_Ampm_GsmSmsRecv0 [frame]: "main_vars s = v \<Longrightarrow> stays1 v (Ampm_GsmSmsRecv0 ph s)"
  unfolding Ampm_GsmSmsRecv0_def by (intro frame frame_rules; simp)

lemma frame_Ampm_GsmSmsRecv1 [frame]: "main_vars s = v \<Longrightarrow> stays1 v (Ampm_GsmSmsRecv1 ph s)"
  unfolding Ampm_GsmSmsRecv1_def by (intro frame frame_rules; simp)

lemma frame_Ampm_GsmSmsRecv2 [frame]: "main_vars s = v \<Longrightarrow> stays1 v (Ampm_GsmSmsRecv2 ph s)"
  unfolding Ampm_GsmSmsRecv2_def by (intro frame frame_rules; simp add: Let_def)

text \<open>Texts of commands.\<close>

lemma frame_DialupAtCallback0 [frame]: "main_vars s = v \<Longrightarrow> stays2 v (DialupAtCallback0 buf s)"
  unfolding DialupAtCallback0_def by (intro frame frame_rules; simp)

lemma frame_Ampm_GsmCallDialStartCallback [frame]: "main_vars s = v \<Longrightarrow> stays2 v (Ampm_GsmCallDialStartCallback buf s)"
  unfolding Ampm_GsmCallDialStartCallback_def by (intro frame frame_rules; simp)

lemma frame_Ampm_GsmCHLD_1X_Callback [frame]: "main_vars s = v \<Longrightarrow> stays2 v (Ampm_GsmCHLD_1X_Callback buf s)"
  unfolding Ampm_GsmCHLD_1X_Callback_def by (intro frame frame_rules; simp)

lemma frame_Ampm_GsmSmsRecvCallback_CMGR [frame]: "main_vars s = v \<Longrightarrow> stays2 v (Ampm_GsmSmsRecvCallback_CMGR buf s)"
  unfolding Ampm_GsmSmsRecvCallback_CMGR_def by (intro frame frame_rules; simp)

lemma frame_Ampm_GsmSmsRecvCallback_CMGD [frame]: "main_vars s = v \<Longrightarrow> stays2 v (Ampm_GsmSmsRecvCallback_CMGD buf s)"
  unfolding Ampm_GsmSmsRecvCallback_CMGD_def by (intro frame frame_rules; simp)

lemma frame_Ampm_GsmSmsSendCallback_CMGS [frame]: "main_vars s = v \<Longrightarrow> stays2 v (Ampm_GsmSmsSendCallback_CMGS buf s)"
  unfolding Ampm_GsmSmsSendCallback_CMGS_def by (intro frame frame_rules; simp)

lemma frame_Ampm_GsmSmsSendMessageCallback [frame]: "main_vars s = v \<Longrightarrow> stays2 v (Ampm_GsmSmsSendMessageCallback buf s)"
  unfolding Ampm_GsmSmsSendMessageCallback_def by (intro frame frame_rules; simp)

text \<open>Response callbacks.\<close>

lemma frame_Ampm_GsmGetCSQ [frame]: "main_vars s = v \<Longrightarrow> stays1 v (Ampm_GsmGetCSQ n c s)"
  unfolding Ampm_GsmGetCSQ_def by (intro frame frame_rules; simp)

lemma frame_Ampm_GSM_GetIMEI [frame]: "main_vars s = v \<Longrightarrow> stays1 v (Ampm_GSM_GetIMEI n c s)"
  unfolding Ampm_GSM_GetIMEI_def by (intro frame frame_rules; simp)

lemma frame_Ampm_GSM_GetSimCID [frame]: "main_vars s = v \<Longrightarrow> stays1 v (Ampm_GSM_GetSimCID n c s)"
  unfolding Ampm_GSM_GetSimCID_def by (intro frame frame_rules; simp)

lemma frame_Ampm_GetListOfCurrentCall [frame]: "main_vars s = v \<Longrightarrow> stays1 v (Ampm_GetListOfCurrentCall n c s)"
  unfolding Ampm_GetListOfCurrentCall_def by (intro frame frame_rules; simp)

lemma frame_Ampm_GetCeer [frame]: "main_vars s = v \<Longrightarrow> stays1 v (Ampm_GetCeer n c s)"
  unfolding Ampm_GetCeer_def by (intro frame frame_rules; simp)

lemma frame_Ampm_GetServiceCenterNumber [frame]: "main_vars s = v \<Longrightarrow> stays1 v (Ampm_GetServiceCenterNumber n c s)"
  unfolding Ampm_GetServiceCenterNumber_def by (intro frame frame_rules; simp)

lemma frame_Ampm_URC_CLIP_Process [frame]: "main_vars s = v \<Longrightarrow> stays1 v (Ampm_URC_CLIP_Process n c s)"
  unfolding Ampm_URC_CLIP_Process_def by (intro frame frame_rules; simp)

lemma frame_Ampm_URC_RING_Process [frame]: "main_vars s = v \<Longrightarrow> stays1 v (Ampm_URC_RING_Process n c s)"
  unfolding Ampm_URC_RING_Process_def by (intro frame frame_rules; simp)

lemma frame_Ampm_CallListSetEmpty [frame]: "main_vars s = v \<Longrightarrow> stays1 v (Ampm_CallListSetEmpty n c s)"
  unfolding Ampm_CallListSetEmpty_def by (intro frame frame_rules; simp)

lemma frame_Ampm_GSM_GetATI [frame]: "main_vars s = v \<Longrightarrow> stays1 v (Ampm_GSM_GetATI n c s)"
  unfolding Ampm_GSM_GetATI_def
  by (rule frame_bind_value, rule frame_bind_value, rule frame_prod) (simp add: Let_def split: ati_result.split)

lemma frame_Ampm_SMS_URC_Incomming [frame]: "main_vars s = v \<Longrightarrow> stays1 v (Ampm_SMS_URC_Incomming n c s)"
  unfolding Ampm_SMS_URC_Incomming_def
  by (simp only: Let_def split: index_step.split; intro conjI allI impI frame_rules; simp)

lemma frame_Ampm_SMS_Process [frame]: "main_vars s = v \<Longrightarrow> stays1 v (Ampm_SMS_Process n c s)"
  unfolding Ampm_SMS_Process_def
  by (simp only: Let_def split: index_step.split; intro conjI allI impI frame_rules; simp)

lemma frame_read_end [frame]: "main_vars s = v \<Longrightarrow> stays1 v (read_end s)"
  unfolding read_end_def by (intro frame frame_rules; simp)

lemma frame_read_data_byte [frame]: "main_vars s = v \<Longrightarrow> stays1 v (read_data_byte c s)"
  unfolding read_data_byte_def by (intro frame frame_rules; simp)

lemma frame_read_header_byte [frame]: "main_vars s = v \<Longrightarrow> stays1 v (read_header_byte c s)"
  unfolding read_header_byte_def by (intro frame frame_rules; simp)

lemma frame_Ampm_SMS_ReadMsg [frame]: "main_vars s = v \<Longrightarrow> stays1 v (Ampm_SMS_ReadMsg n c s)"
  unfolding Ampm_SMS_ReadMsg_def by (intro frame frame_rules; simp)


section \<open>The engine and the parser may only end a mode\<close>

text \<open>Two callbacks put the task into its idle phase; nothing else the engine or the parser
  calls touches the variables of the main task.\<close>

definition idled where "idled v = (AMPM_GSM_MAIN_IDLE_PHASE, snd v)"

definition near where "near v s \<longleftrightarrow> main_vars s = v \<or> main_vars s = idled v"

abbreviation nears where "nears v \<equiv> pred_option (near v)"

abbreviation nears1 where "nears1 v \<equiv> pred_option (\<lambda>(r, s). near v s)"

lemma near_cong: "main_vars s' = main_vars s \<Longrightarrow> near v s' = near v s"
  by (simp add: near_def)

lemma near_cong_set [simp]:
  "near v (s\<lparr>CmdPhase := a0\<rparr>) = near v s" "near v (s\<lparr>CmdSend := a1\<rparr>) = near v s" "near v (s\<lparr>TaskTimeout := a2\<rparr>) = near v s"
  "near v (s\<lparr>rx := a3\<rparr>) = near v s" "near v (s\<lparr>CmdOk := a4\<rparr>) = near v s" "near v (s\<lparr>CmdFails := a5\<rparr>) = near v s"
  "near v (s\<lparr>AtCallBackParser := a6\<rparr>) = near v s" "near v (s\<lparr>CmdParsedChar := a7\<rparr>) = near v s"
  "near v (s\<lparr>parserLastChar := a8\<rparr>) = near v s" "near v (start_timeout ms s) = near v s"
  "near v (s\<lparr>CmdList := a9\<rparr>) = near v s" "near v (Ampm_SendCmdNow cmd s) = near v s"
  by (rule near_cong; simp)+

lemma near_bind: "nears v m \<Longrightarrow> (\<And>s. near v s \<Longrightarrow> pred_option P (f s)) \<Longrightarrow> pred_option P (Option.bind m f)"
  by (cases m) simp_all

lemma near_bind1:
  "nears1 v m \<Longrightarrow> (\<And>r s. near v s \<Longrightarrow> pred_option P (f r s)) \<Longrightarrow> pred_option P (Option.bind m (\<lambda>(r, s). f r s))"
  by (cases m) auto

lemma near_bind3:
  "pred_option (\<lambda>(a, b, c, s). near v s) m \<Longrightarrow> (\<And>a b c s. near v s \<Longrightarrow> pred_option P (f a b c s)) \<Longrightarrow>
   pred_option P (Option.bind m (\<lambda>(a, b, c, s). f a b c s))"
  by (cases m) auto

lemma stays1_near: "stays1 v m \<Longrightarrow> nears1 v m"
  by (cases m) (auto simp: near_def)

lemma near_trans: "(\<And>w. main_vars s = w \<Longrightarrow> nears1 w m) \<Longrightarrow> near v s \<Longrightarrow> nears1 v m"
  by (cases m) (auto simp: near_def idled_def)

lemma TcpIpInit_frame [frame]: "main_vars s = v \<Longrightarrow> stays v (call_TcpIpInit s)"
  by (cases "Ampm_TcpIpInit s") (auto simp: call_TcpIpInit_def split: tcpip_fn.split)

lemma goto_idle: "main_vars s = v \<Longrightarrow> main_vars (s\<lparr>TaskPhase := AMPM_GSM_MAIN_IDLE_PHASE\<rparr>) = idled v"
  by (auto simp: main_vars_def idled_def)

lemma resp_of_near: "near v s \<Longrightarrow> nears1 v (resp_of f n c s)"
proof (erule near_trans [rotated])
  fix w assume w: "main_vars s = w"
  show "nears1 w (resp_of f n c s)"
  proof (cases "f = Fn_MainSwithToIdle")
    case True
    have "nears1 w (Ampm_MainSwithToIdle n c s)"
      unfolding Ampm_MainSwithToIdle_def
      by (rule frame_bind [of w], rule TcpIpInit_frame) (use w goto_idle in \<open>auto simp: near_def\<close>)
    then show ?thesis using True by (simp add: resp_of_def)
  next
    case False
    then have "stays1 w (resp_of f n c s)" using w by (cases f) (simp_all add: resp_of_def frame)
    then show ?thesis by (rule stays1_near)
  qed
qed

lemma end_of_near: "near v s \<Longrightarrow> nears1 v (end_of f ph s)"
proof (erule near_trans [rotated])
  fix w assume w: "main_vars s = w"
  show "nears1 w (end_of f ph s)"
  proof (cases "f = Fn_GsmMainCallPhaseFinished")
    case True
    then show ?thesis using goto_idle [OF w] by (simp add: end_of_def Ampm_GsmMainCallPhaseFinished_def near_def)
  next
    case False
    then have "stays1 w (end_of f ph s)"
      using w by (cases f) (simp_all add: end_of_def frame Ampm_SetCmdOK_def Ampm_GsmMainATPhaseFinished_def)
    then show ?thesis by (rule stays1_near)
  qed
qed

lemma sprintf_of_frame [frame]: "main_vars s = v \<Longrightarrow> stays2 v (sprintf_of f buf s)"
  by (cases f) (simp_all add: sprintf_of_def frame)

lemma COMM_Puts_frame [frame]: "main_vars s = v \<Longrightarrow> stays v (COMM_Puts t s)"
  by (simp add: COMM_Puts_def)

lemma send_frame: "main_vars s = v \<Longrightarrow> stays v (Ampm_GsmSendCallback sprintf_of s)"
  unfolding Ampm_GsmSendCallback_def COMM_drain_def by (intro frame frame_rules; simp)

lemma near_bind2:
  "pred_option (\<lambda>(a, b, s). near v s) m \<Longrightarrow> (\<And>a b s. near v s \<Longrightarrow> pred_option P (f a b s)) \<Longrightarrow>
   pred_option P (Option.bind m (\<lambda>(a, b, s). f a b s))"
  by (cases m) auto

lemmas near_rules = near_bind3 near_bind2 near_bind1 near_bind frame_bind_value frame_if frame_case frame_prod frame_Let
  frame_Some frame_None

lemma deliver_near: "near v s \<Longrightarrow> pred_option (\<lambda>(p, ns, s). near v s) (deliver resp_of info c p ns s)"
  unfolding deliver_def by (intro resp_of_near near_rules; simp)

lemma parser_near:
  "near v s \<Longrightarrow> pred_option (\<lambda>(p, ns, l, s). near v s) (StrComnandParser resp_of t info p ns l c s)"
  unfolding StrComnandParser_def
  by (rule frame_bind_value, rule frame_prod, simp only: split: STR_STATE.split)
    (intro conjI impI deliver_near near_rules; simp)

lemma recv_byte_near: "near v s \<Longrightarrow> nears1 v (recv_byte resp_of c s)"
  unfolding recv_byte_def by (intro parser_near near_rules; simp)

lemma recv_near: "near v s \<Longrightarrow> nears1 v (Ampm_GsmRecvCallback resp_of s)"
proof (rule pred_optionI)
  fix x assume v: "near v s" and x: "Ampm_GsmRecvCallback resp_of s = Some x"
  have "near v s \<longrightarrow> near v (snd x)"
  proof (rule Ampm_GsmRecvCallback.raw_induct [of "\<lambda>rsp s x. rsp = resp_of \<longrightarrow> near v s \<longrightarrow> near v (snd x)", OF _ x, THEN mp, OF _ refl], goal_cases)
    case (1 f rsp s x)
    have IH: "near v s \<Longrightarrow> nears1 v (f resp_of s)" for s
      by (rule pred_optionI) (use 1(1) in \<open>auto split: prod.split\<close>)
    show ?case
    proof (intro impI)
      assume r: "rsp = resp_of" and n: "near v s"
      have "nears1 v (Some x)"
        unfolding 1(2) [symmetric] r COMM_Getc_def
        using n by (cases "rx s"; simp only: list.case prod.case option.case; intro IH recv_byte_near near_rules; simp)
      then show "near v (snd x)" by (simp split: prod.splits)
    qed
  qed
  then show "case x of (r, s) \<Rightarrow> near v s" using v by (cases x) simp
qed

lemma cmd_finish_near: "near v s \<Longrightarrow> nears v (cmd_finish end_of ph res s)"
  unfolding cmd_finish_def
  by (rule frame_case, simp, rule near_bind1, rule end_of_near, assumption, rule frame_Some, auto)

lemma idle_near: "near v s \<Longrightarrow> near v (cmd_phase_idle rom s)"
  by (simp add: cmd_phase_idle_def split: option.split list.split)

lemma check_timeout_near: "near v s \<Longrightarrow> near v (snd (check_timeout s))"
  by (simp add: check_timeout_def Let_def split_def)

lemma send_near: "near v s \<Longrightarrow> nears v (Ampm_GsmSendCallback sprintf_of s)"
  using send_frame [of s v] send_frame [of s "idled v"] unfolding near_def
  by (cases "Ampm_GsmSendCallback sprintf_of s") auto

lemma engine_near: "near v s \<Longrightarrow> nears v (run_engine s)"
proof -
  assume n: "near v s"
  obtain r s1 where c: "check_timeout s = (r, s1)" by fastforce
  have n1: "near v s1" using check_timeout_near [OF n] c by simp
  have "nears v (cmd_phase_send (\<lambda>f. Ampm_GsmSendCallback sprintf_of) s)"
    unfolding cmd_phase_send_def c Let_def prod.case using n1 by (intro send_near near_rules; simp)
  moreover have "nears v (cmd_phase_wait (\<lambda>f. Ampm_GsmRecvCallback resp_of) s)"
    unfolding cmd_phase_wait_def c Let_def prod.case using n n1 by (intro recv_near near_rules; simp)
  moreover have "near v (cmd_phase_resend s)" using n by (simp add: cmd_phase_resend_def Let_def)
  ultimately show ?thesis
    unfolding run_engine_def Ampm_Cmd_Task_def
    by (cases "CmdPhase s") (simp_all add: c cmd_finish_near n n1 idle_near)
qed

section \<open>The moves of the main task\<close>

inductive main_edge :: "AMPM_GSM_MAIN_PHASE \<Rightarrow> AMPM_GSM_MAIN_PHASE \<Rightarrow> bool" where
  "main_edge AMPM_GSM_MAIN_INIT_PHASE AMPM_GSM_MAIN_STARTUP_PHASE"
| "main_edge AMPM_GSM_MAIN_STARTUP_PHASE AMPM_GSM_MAIN_SMS_RECV_PHASE"
| "main_edge AMPM_GSM_MAIN_STARTUP_PHASE AMPM_GSM_MAIN_IDLE_PHASE"
| "main_edge AMPM_GSM_MAIN_SMS_RECV_PHASE AMPM_GSM_MAIN_IDLE_PHASE"
| "main_edge AMPM_GSM_MAIN_SMS_SEND_PHASE AMPM_GSM_MAIN_IDLE_PHASE"
| "main_edge AMPM_GSM_MAIN_VOICECALL_PHASE AMPM_GSM_MAIN_IDLE_PHASE"
| "main_edge AMPM_GSM_MAIN_DATACALL_PHASE AMPM_GSM_MAIN_GOTO_CMD_MODE_PHASE"
| "main_edge AMPM_GSM_MAIN_DIAL_UP_PHASE AMPM_GSM_MAIN_DATACALL_PHASE"
| "main_edge AMPM_GSM_MAIN_DIAL_UP_PHASE AMPM_GSM_MAIN_IDLE_PHASE"
| "main_edge AMPM_GSM_MAIN_GOTO_CMD_MODE_PHASE AMPM_GSM_MAIN_GOTO_CMD_MODE_CHECK_PHASE"
| "main_edge AMPM_GSM_MAIN_GOTO_CMD_MODE_CHECK_PHASE AMPM_GSM_MAIN_WAIT_GOTO_CMD_MODE_PHASE"
| "main_edge AMPM_GSM_MAIN_GOTO_CMD_MODE_CHECK_PHASE AMPM_GSM_MAIN_IDLE_PHASE"
| "main_edge AMPM_GSM_MAIN_WAIT_GOTO_CMD_MODE_PHASE AMPM_GSM_MAIN_IDLE_PHASE"
| "main_edge AMPM_GSM_MAIN_WAIT_GOTO_CMD_MODE_PHASE AMPM_GSM_MAIN_GOTO_CMD_MODE_CHECK_PHASE"
| "main_edge AMPM_GSM_MAIN_WAIT_GOTO_CMD_MODE_PHASE AMPM_GSM_MAIN_INIT_PHASE"
| "main_edge AMPM_GSM_MAIN_GOTO_DATA_MODE_PHASE AMPM_GSM_MAIN_WAIT_GOTO_DATA_MODE_PHASE"
| "main_edge AMPM_GSM_MAIN_GOTO_DATA_MODE_PHASE AMPM_GSM_MAIN_DIAL_UP_PHASE"
| "main_edge AMPM_GSM_MAIN_WAIT_GOTO_DATA_MODE_PHASE AMPM_GSM_MAIN_DATACALL_PHASE"
| "main_edge AMPM_GSM_MAIN_WAIT_GOTO_DATA_MODE_PHASE AMPM_GSM_MAIN_GOTO_CMD_MODE_PHASE"
| "main_edge AMPM_GSM_MAIN_IDLE_PHASE AMPM_GSM_MAIN_VOICECALL_PHASE"
| "main_edge AMPM_GSM_MAIN_IDLE_PHASE AMPM_GSM_MAIN_SMS_RECV_PHASE"
| "main_edge AMPM_GSM_MAIN_IDLE_PHASE AMPM_GSM_MAIN_SMS_SEND_PHASE"
| "main_edge AMPM_GSM_MAIN_IDLE_PHASE AMPM_GSM_MAIN_GOTO_DATA_MODE_PHASE"
| "main_edge AMPM_GSM_MAIN_IDLE_PHASE AMPM_GSM_MAIN_GO_TO_SLEEP_PHASE"
| "main_edge AMPM_GSM_MAIN_GO_TO_SLEEP_PHASE AMPM_GSM_MAIN_SLEEP_PHASE"
| "main_edge AMPM_GSM_MAIN_GO_TO_SLEEP_PHASE AMPM_GSM_MAIN_INIT_PHASE"
| "main_edge AMPM_GSM_MAIN_SLEEP_PHASE AMPM_GSM_MAIN_WAKEUP_PHASE"
| "main_edge AMPM_GSM_MAIN_WAKEUP_PHASE AMPM_GSM_MAIN_IDLE_PHASE"
| "main_edge AMPM_GSM_MAIN_WAKEUP_PHASE AMPM_GSM_MAIN_INIT_PHASE"

abbreviation moves where "moves p \<equiv> pred_option (\<lambda>s. TaskPhase s = p \<or> main_edge p (TaskPhase s))"

lemma main_vars_phase: "main_vars s = v \<Longrightarrow> TaskPhase s = fst v"
  by (auto simp: main_vars_def)

lemma same_phase: "main_vars s' = main_vars s \<Longrightarrow> TaskPhase s' = TaskPhase s"
  by (simp add: main_vars_def)

lemma goto_phase_TaskPhase [simp]: "TaskPhase (goto_phase p s) = p"
  by (simp add: goto_phase_def)

lemma to_data_TaskPhase [simp]:
  "TaskPhase (to_data_mode s) = (if gotoDataModeFlag s then AMPM_GSM_MAIN_GOTO_DATA_MODE_PHASE else TaskPhase s)"
  by (simp add: to_data_mode_def)

text \<open>The missing \<open>break\<close> does no harm: when the next case would act, this one has just made
  the engine busy or has already gone to the idle phase.\<close>

lemma main_check_cmd_no_fall_through: "main_check_cmd s = check_cmd s"
proof (cases "gsmMainTaskTryCnt s \<noteq> 0 \<and> CmdPhase s = AMPM_CMD_OK")
  case True
  then show ?thesis by (simp add: main_check_cmd_def check_cmd_def main_wait_cmd_def Ampm_CmdTask_IsIdle_def goto_phase_def)
next
  case False
  have "main_wait_cmd s1 = Some s1" if "check_cmd s = Some s1" for s1
  proof (cases "Ampm_CmdTask_IsIdle (CmdPhase s)")
    case True
    then have "CmdPhase s1 = AMPM_CMD_SEND"
      using that False by (auto simp: check_cmd_def Ampm_CmdTask_SendCmd_def Option.bind_eq_Some_conv Let_def goto_phase_def start_timeout_def)
    then show ?thesis by (simp add: main_wait_cmd_def Ampm_CmdTask_IsIdle_def)
  next
    case False
    then have "s1 = s" using that \<open>\<not> (gsmMainTaskTryCnt s \<noteq> 0 \<and> CmdPhase s = AMPM_CMD_OK)\<close>
      by (simp add: check_cmd_def Ampm_CmdTask_SendCmd_def)
    then show ?thesis using False by (simp add: main_wait_cmd_def)
  qed
  then show ?thesis by (cases "check_cmd s") (simp_all add: main_check_cmd_def)
qed

lemmas edge_simps = main_edge.intros

lemma moves_phase: "TaskPhase s = p \<Longrightarrow> main_vars s = v \<Longrightarrow> p = fst v"
  by (simp add: main_vars_phase)

lemma init_moves: "pred_option (\<lambda>s. TaskPhase s = AMPM_GSM_MAIN_STARTUP_PHASE) (main_init s)"
  unfolding main_init_def by (intro frame frame_rules; simp)

lemma startup_moves:
  assumes "TaskPhase s = AMPM_GSM_MAIN_STARTUP_PHASE"
  shows "moves AMPM_GSM_MAIN_STARTUP_PHASE (main_startup s)"
  unfolding main_startup_def
  by (rule frame_bind1 [of "main_vars s"], rule frame_Startup)
    (use assms in \<open>auto simp: edge_simps split_def Let_def dest: same_phase\<close>)

lemma sms_send_moves:
  assumes "TaskPhase s = AMPM_GSM_MAIN_SMS_SEND_PHASE"
  shows "moves AMPM_GSM_MAIN_SMS_SEND_PHASE (main_sms_send lock s)"
  unfolding main_sms_send_def
  by (rule frame_bind1 [of "main_vars s"], rule frame_SmsTask)
    (use assms in \<open>auto simp: edge_simps dest: same_phase\<close>)

lemma voicecall_moves:
  assumes "TaskPhase s = AMPM_GSM_MAIN_VOICECALL_PHASE"
  shows "moves AMPM_GSM_MAIN_VOICECALL_PHASE (main_voicecall s)"
  unfolding main_voicecall_def
  by (rule frame_bind1 [of "main_vars s"], rule frame_CallTask)
    (use assms in \<open>auto simp: edge_simps dest: same_phase\<close>)

lemma datacall_moves:
  assumes "TaskPhase s = AMPM_GSM_MAIN_DATACALL_PHASE"
  shows "moves AMPM_GSM_MAIN_DATACALL_PHASE (main_datacall r s)"
proof -
  have "TaskPhase (Ampm_RingingEnable x) = TaskPhase x" for x :: "'a gsm_main_scheme" by (rule same_phase) simp
  then show ?thesis
    unfolding main_datacall_def by (intro frame_rules; simp add: edge_simps assms Let_def)
qed

lemma dial_up_moves:
  assumes "TaskPhase s = AMPM_GSM_MAIN_DIAL_UP_PHASE"
  shows "moves AMPM_GSM_MAIN_DIAL_UP_PHASE (main_dial_up r s)"
proof -
  have "TaskPhase (snd (Ampm_GSM_DialUp s)) = TaskPhase s" by (rule same_phase) simp
  then show ?thesis
    unfolding main_dial_up_def by (intro frame_rules; simp add: edge_simps assms)
qed

lemma goto_data_moves:
  assumes "TaskPhase s = AMPM_GSM_MAIN_GOTO_DATA_MODE_PHASE"
  shows "moves AMPM_GSM_MAIN_GOTO_DATA_MODE_PHASE (main_goto_data s)"
proof -
  have 1: "moves AMPM_GSM_MAIN_GOTO_DATA_MODE_PHASE (do { (r, s) \<leftarrow> Ampm_CmdTask_SendCmd f a b c d e g h s;
      Some (if r = 0 then goto_phase AMPM_GSM_MAIN_WAIT_GOTO_DATA_MODE_PHASE s else s) })" for f a b c d e g h
    by (rule frame_bind1 [of "main_vars s"], rule frame_SendCmd) (use assms in \<open>auto simp: edge_simps dest: same_phase\<close>)
  let ?s = "(goto_phase AMPM_GSM_MAIN_DIAL_UP_PHASE (Ampm_GSM_DialUp_Reset s))\<lparr>gotoCmdModeFlag := False\<rparr>"
  have "stays (main_vars ?s) (call_TcpIpInit ?s)" by (rule TcpIpInit_frame) simp
  then have "moves AMPM_GSM_MAIN_GOTO_DATA_MODE_PHASE (call_TcpIpInit ?s)"
    by (cases "call_TcpIpInit ?s") (auto simp: edge_simps dest!: same_phase)
  with 1 show ?thesis by (simp add: main_goto_data_def)
qed

lemma check_cmd_moves:
  assumes "TaskPhase s = AMPM_GSM_MAIN_GOTO_CMD_MODE_CHECK_PHASE"
  shows "moves AMPM_GSM_MAIN_GOTO_CMD_MODE_CHECK_PHASE (check_cmd s)"
  unfolding check_cmd_def
  by (rule frame_if, simp add: edge_simps, rule frame_bind1 [of "main_vars s"], rule frame_SendCmd)
    (use assms in \<open>auto simp: edge_simps dest: same_phase\<close>)

lemma wait_cmd_moves:
  assumes "TaskPhase s = AMPM_GSM_MAIN_WAIT_GOTO_CMD_MODE_PHASE"
  shows "moves AMPM_GSM_MAIN_WAIT_GOTO_CMD_MODE_PHASE (main_wait_cmd s)"
  unfolding main_wait_cmd_def
  by (rule frame_if, rule frame_if, simp add: edge_simps, rule frame_bind1 [of "main_vars s"], rule frame_SendCmd)
    (use assms in \<open>auto simp: edge_simps Let_def dest: same_phase\<close>)

lemma StartRecvSms_phase [simp]: "TaskPhase (snd (Ampm_StartRecvSms s)) = TaskPhase s"
  by (rule same_phase) simp

lemma idle_moves:
  assumes "TaskPhase s = AMPM_GSM_MAIN_IDLE_PHASE"
  shows "moves AMPM_GSM_MAIN_IDLE_PHASE (main_idle lock s)"
proof -
  have r: "TaskPhase (Ampm_RingingReset x) = TaskPhase x" for x :: "'a gsm_main_scheme" by (rule same_phase) simp
  have a: "TaskPhase (snd (Ampm_SendAtCmd c x)) = TaskPhase x" for c and x :: "'a gsm_main_scheme" by (rule same_phase) simp
  show ?thesis
    unfolding main_idle_def split_def
    by (intro frame_rules; simp add: edge_simps assms r a Let_def)
qed

lemma go_to_sleep_moves:
  assumes "TaskPhase s = AMPM_GSM_MAIN_GO_TO_SLEEP_PHASE"
  shows "moves AMPM_GSM_MAIN_GO_TO_SLEEP_PHASE (main_go_to_sleep s)"
  unfolding main_go_to_sleep_def by (intro frame_rules; simp add: edge_simps assms)

lemma switch_moves: "moves (TaskPhase s) (main_switch r s)"
proof (cases "TaskPhase s")
  case AMPM_GSM_MAIN_INIT_PHASE
  then show ?thesis using init_moves [of s] by (cases "main_init s") (auto simp: main_switch_def edge_simps)
qed (simp_all add: main_switch_def startup_moves sms_send_moves voicecall_moves datacall_moves dial_up_moves goto_data_moves
    main_check_cmd_no_fall_through check_cmd_moves wait_cmd_moves idle_moves go_to_sleep_moves main_sms_recv_def main_wait_data_def
    main_goto_cmd_def main_sleep_def main_wakeup_def main_edge.intros)

section \<open>One round\<close>

lemma begin_phase:
  "main_begin s = Some s1 \<Longrightarrow>
   TaskPhase s1 = (if ampm_ModemResetFlag s then AMPM_GSM_MAIN_INIT_PHASE else TaskPhase s)"
  by (auto simp: main_begin_def Ampm_Gsm_Error_def goto_phase_def Let_def split: if_splits)

lemma frame_interrupt: "main_vars s = v \<Longrightarrow> stays v (main_interrupt lock s)"
  unfolding main_interrupt_def by (intro frame_bind_value frame_Some) simp

lemma second_phase: "pred_option (\<lambda>s'. TaskPhase s' = TaskPhase s) (main_second lock s)"
proof -
  obtain r t where c: "CheckTimeout (tick s) (tRingTask s) = (r, t)" by fastforce
  have p: "TaskPhase (Ampm_RingingTimer x) = TaskPhase x" for x :: "'a gsm_main_scheme" by (rule same_phase) simp
  let ?s = "s\<lparr>tRingTask := t\<rparr>"
  let ?s1 = "if dataSendingTimeout ?s \<noteq> 0 then ?s\<lparr>dataSendingTimeout := dataSendingTimeout ?s - 1\<rparr> else ?s"
  let ?s2 = "Ampm_RingingTimer (?s1\<lparr>tRingTask := InitTimeout (tick ?s1) (tRingTask ?s1) 1000\<rparr>)"
  have 2: "TaskPhase ?s2 = TaskPhase s" by (simp add: p)
  have "stays (main_vars ?s2) (do { (r, s) \<leftarrow> Ampm_SmsTaskPeriodic_1Sec lock ?s2; (r, s) \<leftarrow> Ampm_CallTaskPeriodic_1Sec s; Some s })"
    by (rule frame_bind1, rule frame_SmsPeriodic, rule refl, rule frame_bind1, rule frame_CallPeriodic, assumption, simp)
  then have "pred_option (\<lambda>s'. TaskPhase s' = TaskPhase s)
      (do { (r, s) \<leftarrow> Ampm_SmsTaskPeriodic_1Sec lock ?s2; (r, s) \<leftarrow> Ampm_CallTaskPeriodic_1Sec s; Some s })"
    by (rule option.pred_mono_strong) (drule same_phase, simp only: 2)
  then show ?thesis by (simp add: main_second_def c Let_def)
qed


section \<open>A data call is not disturbed\<close>

text \<open>What the modem sees: the bytes sent; and the engine's variables.\<close>

definition sent :: "'z gsm_main_scheme \<Rightarrow> u8 list" where "sent s = [c. Tx c \<leftarrow> outs s]"

definition engine_vars :: "'z gsm_main_scheme \<Rightarrow> _" where
  "engine_vars s = (CmdPhase s, CmdSend s, CmdList s, TaskTimeout s, rx s, sent s)"

lemma engine_vars_update [simp]:
  "engine_vars (s\<lparr>calls := a\<rparr>) = engine_vars s" "engine_vars (s\<lparr>callTaskIsRunningCnt := b\<rparr>) = engine_vars s"
  "engine_vars (s\<lparr>msgs := c\<rparr>) = engine_vars s" "engine_vars (s\<lparr>sms_next := d\<rparr>) = engine_vars s"
  "engine_vars (s\<lparr>smsList := e\<rparr>) = engine_vars s" "engine_vars (s\<lparr>status_cells := f\<rparr>) = engine_vars s"
  "engine_vars (s\<lparr>tRingTask := g\<rparr>) = engine_vars s" "engine_vars (s\<lparr>dataSendingTimeout := h\<rparr>) = engine_vars s"
  "engine_vars (s\<lparr>gotoDataModeFlag := i\<rparr>) = engine_vars s" "engine_vars (s\<lparr>gsmMainTaskTryCnt := j\<rparr>) = engine_vars s"
  "engine_vars (s\<lparr>ppp_status := k\<rparr>) = engine_vars s" "engine_vars (s\<lparr>smsTaskFailCnt := l\<rparr>) = engine_vars s"
  "engine_vars (goto_phase p s) = engine_vars s" "engine_vars (emits [SmsCallback n] s) = engine_vars s"
  "engine_vars (emits [TcpIpInit] s) = engine_vars s" "engine_vars (ppp_hangup s) = engine_vars s"
  "engine_vars (Ampm_GSM_DialUp_Reset s) = engine_vars s" "engine_vars (Ampm_RingingEnable s) = engine_vars s"
  "engine_vars (Ampm_RingingTimer s) = engine_vars s" "engine_vars (Ampm_RingingProcess s) = engine_vars s"
  "engine_vars (Ampm_GsmGotoCmdMode s) = engine_vars s"
  by (simp_all add: engine_vars_def sent_def goto_phase_def ppp_hangup_def emits_def Ampm_GSM_DialUp_Reset_def
      Ampm_RingingEnable_def Ampm_RingingTimer_def Ampm_RingingProcess_def Ampm_GsmGotoCmdMode_def Let_def
      split: AMPM_GSM_RING_PHASE.split)

lemma engine_vars_if [simp]: "engine_vars (if b then s else s') = (if b then engine_vars s else engine_vars s')"
  by simp

abbreviation quiet where "quiet v \<equiv> pred_option (\<lambda>s. engine_vars s = v)"

abbreviation quiet1 where "quiet1 v \<equiv> pred_option (\<lambda>(r, s). engine_vars s = v)"

lemmas quiet_rules = obs_bind1 [of engine_vars] obs_bind [of engine_vars] frame_bind_value frame_if frame_case frame_prod
  frame_Let frame_Some frame_None

lemma quiet_call_put: "engine_vars s = v \<Longrightarrow> quiet v (call_put p f s)"
  unfolding call_put_def by (intro quiet_rules; simp)

lemma quiet_calls_tick: "engine_vars s = v \<Longrightarrow> quiet v (calls_tick p s)"
proof (rule pred_optionI)
  fix x assume v: "engine_vars s = v" and x: "calls_tick p s = Some x"
  have "engine_vars s = v \<longrightarrow> engine_vars x = v"
  proof (rule calls_tick.raw_induct [of "\<lambda>p s x. engine_vars s = v \<longrightarrow> engine_vars x = v", OF _ x], goal_cases)
    case (1 f p s x)
    have IH: "engine_vars s = v \<Longrightarrow> quiet v (f p s)" for p s by (rule pred_optionI) (use 1(1) in auto)
    show ?case
    proof
      assume "engine_vars s = v"
      then have "quiet v (Some x)" unfolding 1(2) [symmetric] by (intro IH quiet_call_put quiet_rules; simp)
      then show "engine_vars x = v" by simp
    qed
  qed
  then show "engine_vars x = v" using v by simp
qed

lemma quiet_CallPeriodic: "engine_vars s = v \<Longrightarrow> quiet1 v (Ampm_CallTaskPeriodic_1Sec s)"
  unfolding Ampm_CallTaskPeriodic_1Sec_def by (intro quiet_call_put quiet_calls_tick quiet_rules; simp)

lemma quiet_sms_put: "engine_vars s = v \<Longrightarrow> quiet v (sms_put p f s)"
  unfolding sms_put_def by (intro quiet_rules; simp)

lemma quiet_UpdateStatus: "engine_vars s = v \<Longrightarrow> quiet v (Ampm_UpdateStatus lock st c s)"
  unfolding Ampm_UpdateStatus_def by (intro quiet_rules; simp)

lemma quiet_sms_finish: "engine_vars s = v \<Longrightarrow> quiet1 v (sms_finish p s)"
  unfolding sms_finish_def by (intro quiet_UpdateStatus quiet_rules; simp split: option.split)

lemma quiet_SmsPeriodic_loop: "engine_vars s = v \<Longrightarrow> quiet1 v (SmsPeriodic_loop p r s)"
proof (rule pred_optionI)
  fix x assume v: "engine_vars s = v" and x: "SmsPeriodic_loop p r s = Some x"
  have "engine_vars s = v \<longrightarrow> engine_vars (snd x) = v"
  proof (rule SmsPeriodic_loop.raw_induct [of "\<lambda>p r s x. engine_vars s = v \<longrightarrow> engine_vars (snd x) = v", OF _ x], goal_cases)
    case (1 f p r s x)
    have IH: "engine_vars s = v \<Longrightarrow> quiet1 v (f p r s)" for p r s
      by (rule pred_optionI) (use 1(1) in \<open>auto split: prod.split\<close>)
    show ?case
    proof
      assume "engine_vars s = v"
      then have "quiet1 v (Some x)" unfolding 1(2) [symmetric]
        by (intro IH quiet_sms_put quiet_sms_finish quiet_rules; simp)
      then show "engine_vars (snd x) = v" by (simp split: prod.splits)
    qed
  qed
  then show "case x of (r, s) \<Rightarrow> engine_vars s = v" using v by (cases x) simp
qed

lemma quiet_SmsPeriodic: "engine_vars s = v \<Longrightarrow> quiet1 v (Ampm_SmsTaskPeriodic_1Sec lock s)"
  unfolding Ampm_SmsTaskPeriodic_1Sec_def by (intro quiet_SmsPeriodic_loop quiet_rules; simp)

lemma quiet_TcpIpInit: "engine_vars s = v \<Longrightarrow> quiet v (call_TcpIpInit s)"
  by (cases "Ampm_TcpIpInit s") (auto simp: call_TcpIpInit_def split: tcpip_fn.split)

lemma quiet_datacall: "engine_vars s = v \<Longrightarrow> quiet v (main_datacall r s)"
  unfolding main_datacall_def by (intro quiet_TcpIpInit quiet_rules; simp)

lemma quiet_second: "engine_vars s = v \<Longrightarrow> quiet v (main_second lock s)"
  unfolding main_second_def by (intro quiet_CallPeriodic quiet_SmsPeriodic quiet_rules; simp)


text \<open>Property C2. An incoming call in the idle phase is handed to the call task unless a request
  for data mode is pending: then the request wins, the ring is forgotten, and the call object is
  prepared for a call nobody takes.\<close>

theorem main_idle_incoming_call:
  assumes "Ampm_Ringing_GetPhase s = AMPM_GSM_RING_IS_A_CALL" "calls s IncomingCall \<noteq> None"
  shows "\<exists>s' c. main_idle lock s = Some s' \<and> calls s' IncomingCall = Some c \<and> call_state c = CALL_START
    \<and> Ampm_Ringing_GetPhase s' = AMPM_GSM_RING_IDLE_PHASE
    \<and> TaskPhase s' = (if gotoDataModeFlag s then AMPM_GSM_MAIN_GOTO_DATA_MODE_PHASE else AMPM_GSM_MAIN_VOICECALL_PHASE)"
  using assms
  by (auto simp: main_idle_def Ampm_VoiceCallStartRecvCall_def call_put_def Ampm_Ringing_GetPhase_def to_data_mode_def
      goto_phase_def Ampm_RingingReset_def)

section \<open>Instances at power-on\<close>

definition at_boot :: gsm_at where
  "at_boot = gsm_sms.extend sms_boot (gsm_at.fields zero_parser (replicate 8 0) False (replicate 16 0) False)"

definition main_boot :: gsm_main where
  "main_boot = gsm_at.extend at_boot
     (gsm_main.fields AMPM_GSM_MAIN_INIT_PHASE AMPM_GSM_NONE 0 0 0 zero_timeout PPP_DISCONNECTED (-1)
        (Some Fn_vTcpIpTask) (Some Fn_vTcpIpTask))"

definition calm :: round where
  "calm = \<lparr>ppp_input = 0, ppp_open = 0, app_busy = False, lock_task = True, lock_check = True, lock_check_end = True, lock_second = True\<rparr>"

declare list_length_loop.simps [code] list_tail_loop.simps [code] list_remove_loop.simps [code] SmsPeriodic_loop.simps [code]
  calls_tick.simps [code] SmsTask_loop.simps [code] CallTask_loop.simps [code] Ampm_GsmRecvCallback.simps [code]

definition data_call :: gsm_main where
  "data_call = main_boot\<lparr>TaskPhase := AMPM_GSM_MAIN_DATACALL_PHASE, ppp_status := PPP_CONNECTED, ampm_GSM_mode := AMPM_GSM_GPRS_ENABLE,
     rx := [0x7E, 0xFF]\<rparr>"

lemma main_boot_round: "AMPM_GSM_MainTask calm main_boot \<noteq> None"
  by code_simp

lemma data_call_round:
  "case AMPM_GSM_MainTask calm data_call of None \<Rightarrow> False | Some s' \<Rightarrow> TaskPhase s' = AMPM_GSM_MAIN_DATACALL_PHASE"
  by code_simp



lemma main_idle_incoming_call_witness:
  "\<exists>s' c. main_idle True (main_boot\<lparr>ampm_RingingPhase := AMPM_GSM_RING_IS_A_CALL\<rparr>) = Some s' \<and> calls s' IncomingCall = Some c
    \<and> call_state c = CALL_START \<and> Ampm_Ringing_GetPhase s' = AMPM_GSM_RING_IDLE_PHASE
    \<and> TaskPhase s' = (if gotoDataModeFlag (main_boot\<lparr>ampm_RingingPhase := AMPM_GSM_RING_IS_A_CALL\<rparr>)
        then AMPM_GSM_MAIN_GOTO_DATA_MODE_PHASE else AMPM_GSM_MAIN_VOICECALL_PHASE)"
  by (rule main_idle_incoming_call)
    (simp_all add: Ampm_Ringing_GetPhase_def main_boot_def gsm_at.extend_def gsm_main.fields_def at_boot_def gsm_sms.extend_def
      gsm_at.fields_def sms_boot_defs)

end
