(* ===== verification/AtProofs.thy ===== *)
theory AtProofs
  imports AtParser GsmSmsRead
begin

text \<open>
  What the caller identification of \<open>at_command_parser.c\<close> stores, and that its texts fit
  the parser.
\<close>

lemma clip_digits:
  "\<forall>c \<in> set ds. IsDigit c \<Longrightarrow> k + length ds \<le> 15 \<Longrightarrow> length (incomingCallPhoneNo s) = 16 \<Longrightarrow> 0 < length ds \<Longrightarrow>
   \<exists>b. hand_over Ampm_URC_CLIP_Process k ds s = Some (False, [], s\<lparr>incomingCallPhoneNo := b\<rparr>) \<and> length b = 16
     \<and> take (k + length ds) b = take k (incomingCallPhoneNo s) @ ds \<and> b ! (k + length ds) = 0"
proof (induction ds arbitrary: k s)
  case Nil
  from Nil.prems(4) show ?case by simp
next
  case (Cons c ds)
  have k: "k < 15" using Cons.prems(2) by simp
  have u: "unat (of_nat k :: u16) = k" "\<not> (of_nat k :: u16) > 14"
    using k by (simp_all add: unat_of_nat take_bit_nat_eq_self word_less_nat_alt)
  have d: "0x30 \<le> c \<and> c \<le> 0x39" using Cons.prems(1) by (simp add: IsDigit_def)
  let ?b = "(incomingCallPhoneNo s)[k := c, Suc k := 0]"
  let ?s = "s\<lparr>incomingCallPhoneNo := ?b\<rparr>"
  have 1: "Ampm_URC_CLIP_Process (of_nat k) c s = Some (0xff, ?s)"
    using d u k Cons.prems(3) by (simp add: Ampm_URC_CLIP_Process_def)
  have t: "take (Suc k) ?b = take k (incomingCallPhoneNo s) @ [c]"
    using k Cons.prems(3) by (simp add: take_Suc_conv_app_nth)
  show ?case
  proof (cases "ds = []")
    case True
    have "hand_over Ampm_URC_CLIP_Process k (c # ds) s = Some (False, [], ?s)" using 1 True by simp
    moreover have "length ?b = 16" using Cons.prems(3) by simp
    moreover have "take (k + length (c # ds)) ?b = take k (incomingCallPhoneNo s) @ c # ds"
      unfolding True using t by (simp only: list.size add_Suc_right add_0_right)
    moreover have "?b ! (k + length (c # ds)) = 0"
      unfolding True using k Cons.prems(3) by (simp only: list.size add_Suc_right add_0_right nth_list_update_eq length_list_update)
    ultimately show ?thesis by (intro exI [of _ ?b] conjI)
  next
    case False
    have "\<forall>c \<in> set ds. IsDigit c" "Suc k + length ds \<le> 15" "length (incomingCallPhoneNo ?s) = 16" "0 < length ds"
      using Cons.prems(1-3) False by simp_all
    from Cons.IH [OF this] obtain b where
      b: "hand_over Ampm_URC_CLIP_Process (Suc k) ds ?s = Some (False, [], ?s\<lparr>incomingCallPhoneNo := b\<rparr>)" "length b = 16"
        "take (Suc k + length ds) b = take (Suc k) ?b @ ds" "b ! (Suc k + length ds) = 0" by auto
    have "hand_over Ampm_URC_CLIP_Process k (c # ds) s = Some (False, [], s\<lparr>incomingCallPhoneNo := b\<rparr>)"
      using 1 b(1) by simp
    moreover have "take (k + length (c # ds)) b = take k (incomingCallPhoneNo s) @ c # ds"
      using b(3) t by simp
    moreover have "b ! (k + length (c # ds)) = 0" using b(4) by simp
    ultimately show ?thesis using b(2) by (intro exI [of _ b] conjI)
  qed
qed

text \<open>Property C23. The number of a caller.  The digits between the quotation marks of a caller
  identification, from 2 to 15 of them, become the incoming number, and the ring detector learns
  of the identification; the 16th digit of a longer number is written past the buffer.\<close>

theorem Ampm_URC_CLIP_number:
  assumes "\<forall>c \<in> set ds. IsDigit c" "2 \<le> length ds" "length (incomingCallPhoneNo s) = 16" "length (ampm_IncomingCallPhoneNo s) = 16"
  shows "if length ds \<le> 15
    then \<exists>s'. hand_over Ampm_URC_CLIP_Process 0 (ds @ [0x22]) s = Some (True, [], s') \<and> cstr (ampm_IncomingCallPhoneNo s') = ds
      \<and> ampm_GotIncomingNumberFlag s' \<and> ampm_RingingFlag s' AND AMPM_RING_GOT_AT_CLIP = AMPM_RING_GOT_AT_CLIP
    else hand_over Ampm_URC_CLIP_Process 0 (ds @ [0x22]) s = None"
proof (cases "length ds \<le> 15")
  case True
  have ne: "0 < length ds" using assms(2) by (cases ds) auto
  from clip_digits [of ds 0 s, OF assms(1) _ assms(3) ne] True obtain b where
    b: "hand_over Ampm_URC_CLIP_Process 0 ds s = Some (False, [], s\<lparr>incomingCallPhoneNo := b\<rparr>)" "length b = 16"
      "take (length ds) b = ds" "b ! length ds = 0" by auto
  have cnt: "(of_nat (length ds) :: u16) \<ge> 2"
    using assms(2) True by (simp add: word_le_nat_alt unat_of_nat take_bit_nat_eq_self)
  have "b = ds @ 0 # drop (Suc (length ds)) b" using id_take_nth_drop [of "length ds" b] b(2-4) True by simp
  moreover have "0 \<notin> set ds" using assms(1) by (auto simp: IsDigit_def)
  ultimately have c: "cstr b = ds" by (metis cstr_append_zero)
  let ?s = "s\<lparr>incomingCallPhoneNo := b, ampm_IncomingCallPhoneNo := b, ampm_GotIncomingNumberFlag := True\<rparr>"
  have "Ampm_URC_CLIP_Process (of_nat (length ds)) 0x22 (s\<lparr>incomingCallPhoneNo := b\<rparr>) = Some (0, Ampm_SetAtClip ?s)"
    using cnt b(2) assms(4) by (simp add: Ampm_URC_CLIP_Process_def memcpy_def)
  then have "hand_over Ampm_URC_CLIP_Process 0 (ds @ [0x22]) s = Some (True, [], Ampm_SetAtClip ?s)"
    using hand_over_append [OF b(1), of "[0x22]"] by simp
  moreover have "(x OR 2) AND 2 = (2 :: u8)" for x
    by (rule bit_word_eqI) (auto simp: bit_simps)
  ultimately show ?thesis using True c by (simp add: Ampm_SetAtClip_def AMPM_RING_GOT_AT_CLIP_def)
next
  case False
  define xs where "xs = take 15 ds"
  obtain c ys where ds: "ds = xs @ c # ys" "length xs = 15"
    using False id_take_nth_drop [of 15 ds] by (auto simp: xs_def)
  from clip_digits [of xs 0 s] assms ds obtain b where
    b: "hand_over Ampm_URC_CLIP_Process 0 xs s = Some (False, [], s\<lparr>incomingCallPhoneNo := b\<rparr>)" "length b = 16" by auto
  have "0x30 \<le> c \<and> c \<le> 0x39" using assms(1) ds(1) by (simp add: IsDigit_def)
  then have "Ampm_URC_CLIP_Process 15 c (s\<lparr>incomingCallPhoneNo := b\<rparr>) = None"
    using b(2) by (simp add: Ampm_URC_CLIP_Process_def)
  then show ?thesis using hand_over_append [OF b(1), of "c # ys @ [0x22]"] False ds by simp
qed

text \<open>The texts of the table are complete and short enough for the parser's counters.\<close>

lemma AT_ProcessCmd_ok: "table_ok AT_ProcessCmd"
  by code_simp

lemma Ampm_URC_CLIP_number_witness:
  "if length [0x30, 0x39, 0x37, 0x38 :: u8] \<le> 15
   then \<exists>s'. hand_over Ampm_URC_CLIP_Process 0 ([0x30, 0x39, 0x37, 0x38] @ [0x22])
          (gsm_sms.extend sms_boot (gsm_at.fields zero_parser (replicate 8 0) False (replicate 16 0) False)) = Some (True, [], s')
      \<and> cstr (ampm_IncomingCallPhoneNo s') = [0x30, 0x39, 0x37, 0x38]
      \<and> ampm_GotIncomingNumberFlag s' \<and> ampm_RingingFlag s' AND AMPM_RING_GOT_AT_CLIP = AMPM_RING_GOT_AT_CLIP
   else hand_over Ampm_URC_CLIP_Process 0 ([0x30, 0x39, 0x37, 0x38] @ [0x22])
          (gsm_sms.extend sms_boot (gsm_at.fields zero_parser (replicate 8 0) False (replicate 16 0) False)) = None"
  by (rule Ampm_URC_CLIP_number)
    (simp_all add: IsDigit_def gsm_sms.extend_def gsm_at.fields_def sms_boot_defs)

end
