(* ===== verification/PduProofs.thy ===== *)
theory PduProofs
  imports Pdu Sprintf
begin

text \<open>
  What \<open>EncodePDUMessage\<close> packs, \<open>DecodePDUMessage\<close> unpacks, and the same for
  telephone numbers; where the encoder writes an octet more than its own check allows for.
\<close>

section \<open>Bits\<close>

lemma mask7: "(0x7F :: u8) = mask 7"
  by (simp add: mask_eq_exp_minus_1)

text \<open>A septet is put together again from the ends of two octets.\<close>

lemma septet_split:
  assumes "1 \<le> r" "r \<le> 7" "r < 7 \<Longrightarrow> a = drop_bit r (x AND 0x7F) OR push_bit (7 - r) (y AND 0x7F)"
  shows "0x7F AND (push_bit r (a :: u8) OR drop_bit (8 - r) (drop_bit (r - 1) (w AND 0x7F) OR push_bit (8 - r) (x AND 0x7F)))
    = x AND 0x7F"
proof (rule bit_word_eqI)
  fix n assume "n < LENGTH(8)"
  then have n: "n < 8" by simp
  let ?l = "0x7F AND (push_bit r a OR drop_bit (8 - r) (drop_bit (r - 1) (w AND 0x7F) OR push_bit (8 - r) (x AND 0x7F)))"
  show "bit ?l n = bit (x AND 0x7F) n"
  proof (cases "r \<le> n")
    case False
    then show ?thesis using assms(1,2) n unfolding mask7 by (auto simp: bit_simps)
  next
    case True
    then have e: "r + (n - r) = n" by simp
    show ?thesis
    proof (cases "r < 7")
      case r: True
      show ?thesis using assms(1) n True e unfolding assms(3) [OF r] mask7 by (auto simp: bit_simps)
    next
      case False
      then show ?thesis using assms(2) True n unfolding mask7 by (auto simp: bit_simps)
    qed
  qed
qed

lemma octet_low: "(drop_bit 0 (x AND 0x7F) OR push_bit 7 (y AND 0x7F)) AND 0x7F = (x AND 0x7F :: u8)"
  unfolding mask7 by (rule bit_word_eqI) (auto simp: bit_simps)

section \<open>Packed septets\<close>

text \<open>Octet \<open>k\<close> of a text: the rest of one septet and the beginning of the next.\<close>

definition octet :: "(nat \<Rightarrow> u8) \<Rightarrow> nat \<Rightarrow> u8" where
  "octet t k = drop_bit (k mod 7) (t (k + k div 7) AND 0x7F) OR push_bit (7 - k mod 7) (t (k + k div 7 + 1) AND 0x7F)"

text \<open>The text as a function, zero from its terminator on.\<close>

definition septets :: "bytes \<Rightarrow> nat \<Rightarrow> nat \<Rightarrow> u8" where
  "septets sms n j = (if j < n then sms ! j else 0)"

lemma div7_step: "(if k mod 7 + 2 = 8 then Suc k + Suc k div 7 = k + k div 7 + 2 \<and> Suc k mod 7 = 0
    else Suc k + Suc k div 7 = k + k div 7 + 1 \<and> Suc k mod 7 = k mod 7 + 1)"
  by (simp add: mod_Suc div_Suc)

lemma EncodePDU_loop_octets:
  "i = k + k div 7 \<Longrightarrow> carry = k mod 7 + 1 \<Longrightarrow> n < length sms \<Longrightarrow>
   \<forall>j. j + j div 7 + 1 < n \<longrightarrow> base + j < length out \<Longrightarrow> i \<le> n \<Longrightarrow>
   \<exists>k' out'. EncodePDU_loop sms n base i k carry out = Some (k' + k' div 7, k', k' mod 7 + 1, out')
     \<and> k \<le> k' \<and> n \<le> k' + k' div 7 + 1 \<and> k' + k' div 7 \<le> n \<and> (k < k' \<longrightarrow> k' - 1 + (k' - 1) div 7 + 1 < n)
     \<and> length out' = length out \<and> (\<forall>j. k \<le> j \<and> j < k' \<longrightarrow> out' ! (base + j) = octet (septets sms n) j)
     \<and> (\<forall>j. j < base + k \<or> base + k' \<le> j \<longrightarrow> out' ! j = out ! j)"
proof (induction "n - i" arbitrary: i k carry out rule: less_induct)
  case less
  show ?case
  proof (cases "i + 1 < n")
    case False
    then show ?thesis using less.prems
      by (intro exI [of _ k] exI [of _ out]) (subst EncodePDU_loop.simps, auto)
  next
    case True
    let ?o = "octet (septets sms n) k"
    let ?out = "out[base + k := ?o]"
    let ?i = "Suc k + Suc k div 7"
    have ki: "base + k < length out" using True less.prems(1,4) by simp
    have o: "?o = drop_bit (carry - 1) (sms ! i AND 0x7F) OR push_bit (8 - carry) (sms ! (i + 1) AND 0x7F)"
      using True less.prems(1,2) by (simp add: octet_def septets_def)
    have step: "EncodePDU_loop sms n base i k carry out = EncodePDU_loop sms n base ?i (Suc k) (Suc k mod 7 + 1) ?out"
    proof -
      have w: "rd sms i = Some (sms ! i)" "rd sms (i + 1) = Some (sms ! (i + 1))" "wr out (base + k) v = Some (out[base + k := v])" for v
        using True less.prems(3) ki by simp_all
      show ?thesis
      proof (cases "k mod 7 + 2 = 8")
        case c: True
        then have "?i = i + 2" "Suc k mod 7 + 1 = 1" "carry + 1 = 8" using div7_step [of k] less.prems(1,2) by auto
        then show ?thesis by (subst EncodePDU_loop.simps) (simp only: True w if_True bind.bind_lunit o Suc_eq_plus1 simp_thms)
      next
        case c: False
        then have "?i = i + 1" "Suc k mod 7 + 1 = carry + 1" "carry + 1 \<noteq> 8" using div7_step [of k] less.prems(1,2) by auto
        then show ?thesis by (subst EncodePDU_loop.simps) (simp only: True w if_True if_False bind.bind_lunit o Suc_eq_plus1)
      qed
    qed
    have i: "?i \<le> n" "n - ?i < n - i" using True less.prems(1) div7_step [of k] by (auto split: if_splits)
    from less.hyps [OF i(2) refl refl less.prems(3) _ i(1), of ?out] obtain k' out' where
      k': "EncodePDU_loop sms n base ?i (Suc k) (Suc k mod 7 + 1) ?out = Some (k' + k' div 7, k', k' mod 7 + 1, out')"
        "Suc k \<le> k'" "n \<le> k' + k' div 7 + 1" "k' + k' div 7 \<le> n" "Suc k < k' \<longrightarrow> k' - 1 + (k' - 1) div 7 + 1 < n"
        "length out' = length out" "\<forall>j. Suc k \<le> j \<and> j < k' \<longrightarrow> out' ! (base + j) = octet (septets sms n) j"
        "\<forall>j. j < base + Suc k \<or> base + k' \<le> j \<longrightarrow> out' ! j = ?out ! j"
      using less.prems(4) by auto
    have here: "out' ! (base + k) = ?o" using k'(8) ki by simp
    have all: "\<forall>j. k \<le> j \<and> j < k' \<longrightarrow> out' ! (base + j) = octet (septets sms n) j"
      using here k'(7) by (metis Suc_leI le_neq_implies_less)
    have last: "k' - 1 + (k' - 1) div 7 + 1 < n"
      using k'(2,5) True less.prems(1) by (cases "Suc k < k'") auto
    have rest: "\<forall>j. j < base + k \<or> base + k' \<le> j \<longrightarrow> out' ! j = out ! j"
      using k'(2,8) by auto
    show ?thesis
      unfolding step using k' all last rest
      by (intro exI [of _ k'] exI [of _ out'] conjI impI) simp_all
  qed
qed

lemma EncodePDUMessage_octets:
  assumes "n < length sms" "sms ! n = 0" "base + n < length out" "int ((n * 7 + 7) div 8) \<le> avail"
  shows "\<exists>k out'. EncodePDUMessage sms n out base avail = Some (int k + 1, out') \<and> length out' = length out
    \<and> n \<le> k + k div 7 + 1 \<and> k \<le> n \<and> (0 < k \<longrightarrow> k - 1 + (k - 1) div 7 + 1 < n)
    \<and> (\<forall>j \<le> k. out' ! (base + j) = octet (septets sms n) j)
    \<and> (\<forall>j. j < base \<or> base + k < j \<longrightarrow> out' ! j = out ! j)"
proof -
  from EncodePDU_loop_octets [of 0 0 1 n sms base out] obtain k out' where
    k: "EncodePDU_loop sms n base 0 0 1 out = Some (k + k div 7, k, k mod 7 + 1, out')"
      "n \<le> k + k div 7 + 1" "k + k div 7 \<le> n" "0 < k \<longrightarrow> k - 1 + (k - 1) div 7 + 1 < n"
      "length out' = length out" "\<forall>j. 0 \<le> j \<and> j < k \<longrightarrow> out' ! (base + j) = octet (septets sms n) j"
      "\<forall>j. j < base + 0 \<or> base + k \<le> j \<longrightarrow> out' ! j = out ! j"
    using assms(1,3) by auto
  let ?i = "k + k div 7"
  have o: "octet (septets sms n) k = drop_bit (k mod 7) (sms ! ?i AND 0x7F)"
    using assms(2) k(2,3) by (cases "?i = n") (auto simp: octet_def septets_def)
  let ?out = "out'[base + k := octet (septets sms n) k]"
  have "EncodePDUMessage sms n out base avail = Some (int k + 1, ?out)"
    using assms k(1,3,5) by (simp add: EncodePDUMessage_def o)
  moreover have "\<forall>j \<le> k. ?out ! (base + j) = octet (septets sms n) j"
    using k(6) assms(3) k(3,5) by (auto simp: nth_list_update)
  moreover have "\<forall>j. j < base \<or> base + k < j \<longrightarrow> ?out ! j = out ! j"
    using k(7) by auto
  ultimately show ?thesis using k(2-5) by (intro exI [of _ k] exI [of _ ?out]) simp
qed

lemma div7_pred:
  assumes "1 \<le> (i :: nat)"
  defines "r \<equiv> (i - 1) mod 7 + 1" and "k \<equiv> i + (i - 1) div 7"
  shows "r < 7 \<Longrightarrow> i mod 7 = r \<and> i + i div 7 = k \<and> (i + 1 - 1) mod 7 + 1 = r + 1 \<and> i + 1 + (i + 1 - 1) div 7 = k + 1"
    and "r = 7 \<Longrightarrow> i mod 7 = 0 \<and> i + i div 7 = k + 1 \<and> (i + 1 - 1) mod 7 + 1 = 1 \<and> i + 1 + (i + 1 - 1) div 7 = k + 2"
    and "(i - 1) mod 7 = r - 1" "i - 1 + (i - 1) div 7 + 1 = k" "1 \<le> r" "r \<le> 7"
proof -
  obtain m where m: "i = Suc m" using assms(1) by (cases i) auto
  show "r < 7 \<Longrightarrow> i mod 7 = r \<and> i + i div 7 = k \<and> (i + 1 - 1) mod 7 + 1 = r + 1 \<and> i + 1 + (i + 1 - 1) div 7 = k + 1"
    "r = 7 \<Longrightarrow> i mod 7 = 0 \<and> i + i div 7 = k + 1 \<and> (i + 1 - 1) mod 7 + 1 = 1 \<and> i + 1 + (i + 1 - 1) div 7 = k + 2"
    unfolding r_def k_def m by (simp_all add: mod_Suc div_Suc)
  show "(i - 1) mod 7 = r - 1" "i - 1 + (i - 1) div 7 + 1 = k" "1 \<le> r" unfolding r_def k_def m by simp_all
  have "m mod 7 < 7" by simp
  then show "r \<le> 7" unfolding r_def m by linarith
qed

lemma decode_octet:
  assumes "1 \<le> i"
  defines "r \<equiv> (i - 1) mod 7 + 1" and "k \<equiv> i + (i - 1) div 7"
  shows "0x7F AND (push_bit r (octet t i) OR drop_bit (8 - r) (octet t (i - 1))) = t k AND 0x7F"
    and "r = 7 \<Longrightarrow> octet t i AND 0x7F = t (k + 1) AND 0x7F"
proof -
  note d = div7_pred [OF assms(1), folded r_def k_def]
  have "octet t (i - 1) = drop_bit (r - 1) (t (i - 1 + (i - 1) div 7) AND 0x7F) OR push_bit (8 - r) (t k AND 0x7F)"
    using d(3-6) by (simp add: octet_def)
  moreover have "r < 7 \<Longrightarrow> octet t i = drop_bit r (t k AND 0x7F) OR push_bit (7 - r) (t (k + 1) AND 0x7F)"
    using d(1) by (simp add: octet_def)
  ultimately show "0x7F AND (push_bit r (octet t i) OR drop_bit (8 - r) (octet t (i - 1))) = t k AND 0x7F"
    using septet_split [OF d(5,6), of "octet t i" "t k" "t (k + 1)" "t (i - 1 + (i - 1) div 7)"] by simp
  show "r = 7 \<Longrightarrow> octet t i AND 0x7F = t (k + 1) AND 0x7F"
    using d(2) octet_low [of "t (k + 1)" "t (k + 2)"] by (simp add: octet_def)
qed

text \<open>The decoder's loop over the octets of \<open>t\<close>, of which there are enough for
  \<open>m\<close> septets.\<close>

lemma DecodePDU_loop_septets:
  assumes "\<forall>j < n. buf ! (base + j) = octet t j" "base + n \<le> length buf" "m \<le> n + (n - 1) div 7" "m \<le> length out"
    and "1 \<le> i" "i \<le> n" "k = i + (i - 1) div 7" "carry = (i - 1) mod 7 + 1" "k < m \<or> k = m \<and> i = n"
    and "\<forall>j < k. out ! j = t j AND 0x7F"
  shows "\<exists>i' c' out'. DecodePDU_loop buf base n m i k carry out = Some (i', m, c', out') \<and> length out' = length out
    \<and> (\<forall>j < m. out' ! j = t j AND 0x7F) \<and> (\<forall>j. m \<le> j \<longrightarrow> out' ! j = out ! j)"
  using assms(4-10)
proof (induction "n - i" arbitrary: i k carry out rule: less_induct)
  case less
  show ?case
  proof (cases "i < n")
    case False
    then have "k = m" using less.prems(3,4,6) assms(3) by auto
    then show ?thesis using False less.prems(7) by (subst DecodePDU_loop.simps) auto
  next
    case True
    then have km: "k < m" using less.prems(6) by auto
    note d = div7_pred [OF less.prems(2), folded less.prems(4,5)]
    have r: "rd buf (base + i) = Some (octet t i)" "rd buf (base + i - 1) = Some (octet t (i - 1))"
    proof -
      have "base + i - 1 = base + (i - 1)" using less.prems(2) by simp
      then show "rd buf (base + i) = Some (octet t i)" "rd buf (base + i - 1) = Some (octet t (i - 1))"
        using True assms(1,2) by (simp_all del: One_nat_def)
    qed
    note o = decode_octet [OF less.prems(2), of t, folded less.prems(4,5)]
    let ?o1 = "out[k := t k AND 0x7F]"
    have w: "wr out k (t k AND 0x7F) = Some ?o1" using km less.prems(1) by simp
    have ok1: "\<forall>j < k + 1. ?o1 ! j = t j AND 0x7F" "\<forall>j. m \<le> j \<longrightarrow> ?o1 ! j = out ! j"
      using less.prems(1,7) km by (auto simp: nth_list_update less_Suc_eq)
    have body: "DecodePDU_loop buf base n m i k carry out =
      (if k + 1 = m then Some (i, k + 1, carry, ?o1)
       else if carry + 1 = 8 then do {
         out \<leftarrow> wr ?o1 (k + 1) (octet t i AND 0x7F);
         if k + 2 = m then Some (i, k + 2, 1, out) else DecodePDU_loop buf base n m (i + 1) (k + 2) 1 out
       }
       else DecodePDU_loop buf base n m (i + 1) (k + 1) (carry + 1) ?o1)"
      by (subst DecodePDU_loop.simps) (simp only: True r if_True bind.bind_lunit o(1) w)
    show ?thesis
    proof (cases "k + 1 = m")
      case True
      then show ?thesis using ok1 by (simp add: body)
    next
      case m1: False
      have i1: "n - (i + 1) < n - i" "1 \<le> i + 1" "i + 1 \<le> n" using True by auto
      show ?thesis
      proof (cases "carry = 7")
        case False
        then have c: "carry < 7" using d(6) by simp
        have "\<exists>i' c' out'. DecodePDU_loop buf base n m (i + 1) (k + 1) (carry + 1) ?o1 = Some (i', m, c', out')
            \<and> length out' = length ?o1 \<and> (\<forall>j < m. out' ! j = t j AND 0x7F) \<and> (\<forall>j. m \<le> j \<longrightarrow> out' ! j = ?o1 ! j)"
          by (rule less.hyps [OF i1(1) _ i1(2,3)]) (use d(1) [OF c] less.prems(1) m1 km ok1 in auto)
        then show ?thesis using m1 False ok1(2) by (simp add: body)
      next
        case c: True
        let ?o2 = "?o1[k + 1 := t (k + 1) AND 0x7F]"
        have w2: "wr ?o1 (k + 1) (octet t i AND 0x7F) = Some ?o2"
          using m1 km less.prems(1) by (simp add: o(2) [OF c])
        have ok2: "\<forall>j < k + 2. ?o2 ! j = t j AND 0x7F" "\<forall>j. m \<le> j \<longrightarrow> ?o2 ! j = out ! j"
          using ok1 less.prems(1) km m1 by (auto simp: nth_list_update less_Suc_eq)
        show ?thesis
        proof (cases "k + 2 = m")
          case True
          then show ?thesis unfolding body using m1 c w2 ok2 by simp
        next
          case m2: False
          have "\<exists>i' c' out'. DecodePDU_loop buf base n m (i + 1) (k + 2) 1 ?o2 = Some (i', m, c', out')
              \<and> length out' = length ?o2 \<and> (\<forall>j < m. out' ! j = t j AND 0x7F) \<and> (\<forall>j. m \<le> j \<longrightarrow> out' ! j = ?o2 ! j)"
            by (rule less.hyps [OF i1(1) _ i1(2,3)]) (use d(2) [OF c] less.prems(1) m1 m2 km ok2 in auto)
          then show ?thesis unfolding body using m1 m2 c w2 ok2(2) by simp
        qed
      qed
    qed
  qed
qed

lemma DecodePDUMessage_septets:
  assumes "\<forall>j < n. buf ! (base + j) = octet t j" "base + n \<le> length buf" "0 < m" "0 < n" "m \<le> n + (n - 1) div 7" "m \<le> length out"
    and "n = 1 \<or> 1 < m"
  shows "DecodePDUMessage buf base (int n) out m = Some (int m, map (\<lambda>j. t j AND 0x7F) [0..<m] @ drop m out)"
proof -
  let ?out = "out[0 := t 0 AND 0x7F]"
  have "octet t 0 AND 0x7F = t 0 AND 0x7F" using octet_low [of "t 0" "t 1"] by (simp add: octet_def)
  then have o: "0x7F AND octet t 0 = t 0 AND 0x7F" by (simp only: and.commute [of "0x7F"])
  have r: "rd buf base = Some (octet t 0)" using assms(1,2,4) by force
  have w: "wr out 0 (t 0 AND 0x7F) = Some ?out" by (rule wr_in) (use assms(3,6) in linarith)
  have ne: "out \<noteq> []" using assms(3,6) by auto
  have "m \<le> 1 \<longrightarrow> m = 1 \<and> n = 1" using assms(3,7) by auto
  then have m: "1 < m \<or> 1 = m \<and> 1 = n" using assms(3) by linarith
  have "\<exists>i' c' out'. DecodePDU_loop buf base n m 1 1 1 ?out = Some (i', m, c', out') \<and> length out' = length ?out
      \<and> (\<forall>j < m. out' ! j = t j AND 0x7F) \<and> (\<forall>j. m \<le> j \<longrightarrow> out' ! j = ?out ! j)"
    by (rule DecodePDU_loop_septets [OF assms(1,2,5) _ _ _ _ _ m]) (use assms(3,4,6) ne in auto)
  then obtain i' c' out' where l: "DecodePDU_loop buf base n m 1 1 1 ?out = Some (i', m, c', out')"
      "length out' = length out" "\<forall>j < m. out' ! j = t j AND 0x7F" "\<forall>j. m \<le> j \<longrightarrow> out' ! j = out ! j"
    using assms(3) by auto
  have "out' = map (\<lambda>j. t j AND 0x7F) [0..<m] @ drop m out"
    by (rule nth_equalityI) (use l assms(6) in \<open>auto simp: nth_append\<close>)
  then show ?thesis using assms(4) l(1) by (simp add: DecodePDUMessage_def r w o)
qed

text \<open>Property C14. Text messages survive packing: decoding the octets that \<open>EncodePDUMessage\<close> made
  of a text of 7-bit characters gives back the text, whatever else is in the buffers.\<close>

theorem PDU_message_roundtrip:
  assumes "txt7 \<noteq> []" "\<forall>c \<in> set txt7. c AND 0x7F = c" "base + length txt7 < length buf" "length txt7 \<le> length out"
    and "int ((length txt7 * 7 + 7) div 8) \<le> avail"
  shows "\<exists>n buf'. EncodePDUMessage (txt7 @ [0]) (length txt7) buf base avail = Some (n, buf') \<and> length buf' = length buf
    \<and> (\<forall>j < base. buf' ! j = buf ! j)
    \<and> DecodePDUMessage buf' base n out (length txt7) = Some (int (length txt7), txt7 @ drop (length txt7) out)"
proof -
  let ?n = "length txt7"
  let ?t = "septets (txt7 @ [0]) ?n"
  from EncodePDUMessage_octets [of ?n "txt7 @ [0]" base buf avail] assms(3,5) obtain k buf' where
    k: "EncodePDUMessage (txt7 @ [0]) ?n buf base avail = Some (int k + 1, buf')" "length buf' = length buf"
      "?n \<le> k + k div 7 + 1" "k \<le> ?n" "0 < k \<longrightarrow> k - 1 + (k - 1) div 7 + 1 < ?n"
      "\<forall>j \<le> k. buf' ! (base + j) = octet ?t j" "\<forall>j. j < base \<or> base + k < j \<longrightarrow> buf' ! j = buf ! j"
    by auto
  have t: "map (\<lambda>j. ?t j AND 0x7F) [0..<?n] = txt7"
    by (rule nth_equalityI) (use assms(2) in \<open>auto simp: septets_def nth_append\<close>)
  have "DecodePDUMessage buf' base (int (k + 1)) out ?n = Some (int ?n, map (\<lambda>j. ?t j AND 0x7F) [0..<?n] @ drop ?n out)"
  proof (rule DecodePDUMessage_septets)
    show "\<forall>j < k + 1. buf' ! (base + j) = octet ?t j" using k(6) by auto
    show "base + (k + 1) \<le> length buf'" using k(2,4) assms(3) by simp
    show "k + 1 = 1 \<or> 1 < ?n" using k(5) by (cases "0 < k") auto
  qed (use assms(1,4) k(3) in auto)
  then show ?thesis using k(1,2,7) t by (auto simp: add.commute)
qed

lemma PDU_message_roundtrip_witness:
  "\<exists>n buf'. EncodePDUMessage (ascii ''hellohel'' @ [0]) (length (ascii ''hellohel'')) (replicate 20 0) 5 15 = Some (n, buf')
    \<and> length buf' = length (replicate 20 (0 :: u8)) \<and> (\<forall>j < 5. buf' ! j = replicate 20 0 ! j)
    \<and> DecodePDUMessage buf' 5 n (replicate 9 1) (length (ascii ''hellohel'')) =
      Some (int (length (ascii ''hellohel'')), ascii ''hellohel'' @ drop (length (ascii ''hellohel'')) (replicate 9 1))"
  by (rule PDU_message_roundtrip) (simp_all add: ascii_def of_char_def)

text \<open>The room that \<open>EncodePDUMessage\<close> asks for is one octet short for texts of 8, 16, ...
  characters: into a buffer of exactly that room it writes past the end.\<close>

theorem EncodePDUMessage_overruns:
  assumes "length txt7 = 8 * q" "length buf = base + 7 * q"
  shows "(length txt7 * 7 + 7) div 8 = 7 * q \<and> EncodePDUMessage (txt7 @ [0]) (length txt7) buf base (int (7 * q)) = None"
proof -
  have r: "(length txt7 * 7 + 7) div 8 = 7 * q" using assms(1) by simp
  have b: "\<forall>j. j + j div 7 + 1 < length txt7 \<longrightarrow> base + j < length buf"
  proof (intro allI impI)
    fix j assume "j + j div 7 + 1 < length txt7"
    moreover have "j < 7 * (j div 7) + 7" by presburger
    ultimately have "j div 7 < q" using assms(1) by linarith
    then show "base + j < length buf" using assms(2) by (simp add: less_mult_imp_div_less div_less_iff_less_mult mult.commute)
  qed
  from EncodePDU_loop_octets [of 0 0 1 "length txt7" "txt7 @ [0]" base buf] b obtain k buf' where
    k: "EncodePDU_loop (txt7 @ [0]) (length txt7) base 0 0 1 buf = Some (k + k div 7, k, k mod 7 + 1, buf')"
      "length txt7 \<le> k + k div 7 + 1" "k + k div 7 \<le> length txt7" "length buf' = length buf" by auto
  have "7 * q \<le> k"
  proof (rule ccontr)
    assume "\<not> 7 * q \<le> k"
    then have "k div 7 < q" "k < 7 * q" by (simp_all add: div_less_iff_less_mult mult.commute)
    then show False using k(2) assms(1) by linarith
  qed
  then have "wr buf' (base + k) v = None" for v using k(4) assms(2) by simp
  moreover have "int ((length txt7 * 7 + 7) div 8) \<le> int (7 * q)" using r by simp
  ultimately show ?thesis using k(1,3) r by (auto simp: EncodePDUMessage_def split: Option.bind_splits)
qed

lemma EncodePDUMessage_overruns_witness:
  "(length (ascii ''hellohel'') * 7 + 7) div 8 = 7 * 1
    \<and> EncodePDUMessage (ascii ''hellohel'' @ [0]) (length (ascii ''hellohel'')) (replicate 10 0) 3 (int (7 * 1)) = None"
  by (rule EncodePDUMessage_overruns) (simp_all add: ascii_def)

section \<open>Telephone numbers\<close>

text \<open>The octet of a pair of digits, the second missing at the end of an odd number.\<close>

fun digit_pairs :: "bytes \<Rightarrow> bytes" where
  "digit_pairs (a # b # cs) = ((a - 0x30) OR push_bit 4 (b - 0x30)) # digit_pairs cs"
| "digit_pairs [a] = [0xF0 OR (a - 0x30)]"
| "digit_pairs [] = []"

lemma length_digit_pairs: "length (digit_pairs ds) = (length ds + 1) div 2"
  by (induction ds rule: digit_pairs.induct) auto

lemma all_digits: "IsDigit c \<Longrightarrow> (\<And>n. n < 10 \<Longrightarrow> P (word_of_nat (n + 48) :: u8)) \<Longrightarrow> P c"
proof -
  assume d: "IsDigit c" and P: "\<And>n. n < 10 \<Longrightarrow> P (word_of_nat (n + 48) :: u8)"
  have "48 \<le> unat c" "unat c \<le> 57" using d by (simp_all add: IsDigit_def word_le_nat_alt)
  then have "P (word_of_nat (unat c - 48 + 48))" by (intro P) simp
  then show "P c" using \<open>48 \<le> unat c\<close> by simp
qed

lemma less_10: "n < (10 :: nat) \<Longrightarrow> n \<in> {0, 1, 2, 3, 4, 5, 6, 7, 8, 9}"
  by auto

lemma digit_low: "IsDigit a \<Longrightarrow> (a - 0x30) AND 0x0F = a - 0x30 \<and> (0xF0 OR (a - 0x30)) AND 0x0F = a - 0x30
    \<and> (a - 0x30) AND 0xF0 = 0 \<and> drop_bit 4 (push_bit 4 (a - 0x30) AND 0xF0) = a - 0x30 \<and> push_bit 4 (a - 0x30 :: u8) AND 0x0F = 0"
  by (erule all_digits) (drule less_10, auto)

lemma pair_digits:
  "IsDigit a \<Longrightarrow> IsDigit b \<Longrightarrow> ((a - 0x30) OR push_bit 4 (b - 0x30)) AND 0x0F = a - 0x30
    \<and> drop_bit 4 (((a - 0x30) OR push_bit 4 (b - 0x30)) AND 0xF0) = b - 0x30"
  using digit_low [of a] digit_low [of b] by (simp add: bit.conj_disj_distrib2)

lemma digit_pairs_nth:
  "\<forall>c \<in> set ds. IsDigit c \<Longrightarrow> i < length ds \<Longrightarrow>
   (if i mod 2 = 0 then digit_pairs ds ! (i div 2) AND 0x0F else drop_bit 4 (digit_pairs ds ! (i div 2) AND 0xF0)) = ds ! i - 0x30"
proof (induction ds arbitrary: i rule: digit_pairs.induct)
  case (1 a b cs)
  consider "i = 0" | "i = 1" | j where "i = Suc (Suc j)" by (metis One_nat_def not0_implies_Suc)
  then show ?case
  proof cases
    case 3
    then have "i div 2 = Suc (j div 2)" "i mod 2 = j mod 2" by simp_all
    then show ?thesis using 3 "1.IH" [of j] "1.prems" by (cases "j mod 2 = 0") simp_all
  qed (use pair_digits [of a b] "1.prems"(1) in auto)
next
  case (2 a)
  then show ?case using digit_low [of a] by simp
qed simp

lemma EncodePhone_loop_pairs:
  "\<forall>c \<in> set ds. IsDigit c \<Longrightarrow> i mod 2 = 0 \<Longrightarrow> base + k + (length ds + 1) div 2 \<le> length out \<Longrightarrow>
   EncodePhone_loop ds base i k out =
     Some (k + (length ds + 1) div 2, take (base + k) out @ digit_pairs ds @ drop (base + k + (length ds + 1) div 2) out)"
proof (induction ds arbitrary: i k out rule: digit_pairs.induct)
  case (1 a b cs)
  let ?x = "0xF0 OR (a - 0x30)" and ?y = "(a - 0x30) OR push_bit 4 (b - 0x30)"
  have bk: "base + k < length out" using "1.prems"(3) by simp
  have i: "Suc i mod 2 \<noteq> 0" "(i + 2) mod 2 = 0" using "1.prems"(2) by presburger+
  have x: "(?x AND 0x0F) = a - 0x30" using digit_low [of a] "1.prems"(1) by simp
  have "EncodePhone_loop (a # b # cs) base i k out = EncodePhone_loop cs base (i + 2) (k + 1) (out[base + k := ?y])"
    using bk i "1.prems"(2) x by simp
  also have "\<dots> = Some (k + 1 + (length cs + 1) div 2, take (base + (k + 1)) (out[base + k := ?y]) @ digit_pairs cs
      @ drop (base + (k + 1) + (length cs + 1) div 2) (out[base + k := ?y]))"
    by (rule "1.IH") (use "1.prems" i(2) in auto)
  finally show ?case using bk by (simp add: take_Suc_conv_app_nth)
next
  case (2 a)
  then have "base + k < length out" by simp
  then show ?case using "2.prems"(2) by (simp add: upd_conv_take_nth_drop)
qed simp

lemma DecodePhone_loop_map:
  "\<forall>j. i \<le> j \<and> j < i + n \<longrightarrow> base + j div 2 < length buf \<Longrightarrow> i + n \<le> length out \<Longrightarrow>
   DecodePhone_loop buf base i n out = Some (take i out @
     map (\<lambda>j. (if j mod 2 = 0 then buf ! (base + j div 2) AND 0x0F else drop_bit 4 (buf ! (base + j div 2) AND 0xF0)) + 0x30) [i..<i + n]
     @ drop (i + n) out)"
proof (induction n arbitrary: i out)
  case (Suc n)
  have "base + i div 2 < length buf" "i < length out" using Suc.prems by auto
  then show ?case using Suc.prems Suc.IH [of "Suc i"]
    by (simp add: upt_conv_Cons [of i] take_Suc_conv_app_nth del: upt_Suc)
qed simp

text \<open>Property C1. Telephone numbers survive the swapped digit pairs: decoding what \<open>EncodePhoneNumber\<close>
  wrote for a number gives the number, terminated, whatever else is in the buffers.\<close>

theorem PhoneNumber_roundtrip:
  assumes "\<forall>c \<in> set ds. IsDigit c" "base + (length ds + 1) div 2 \<le> length buf" "int ((length ds + 1) div 2) \<le> avail"
    and "length ds < length out"
  shows "\<exists>buf'. EncodePhoneNumber (ds @ 0 # junk) buf base avail = Some (int ((length ds + 1) div 2), buf')
    \<and> buf' = take base buf @ digit_pairs ds @ drop (base + (length ds + 1) div 2) buf
    \<and> DecodePhoneNumber buf' base (length ds) out = Some (int (length ds), ds @ 0 # drop (Suc (length ds)) out)"
proof -
  have z: "0 \<notin> set ds" using assms(1) by (auto simp: IsDigit_def)
  let ?buf = "take base buf @ digit_pairs ds @ drop (base + (length ds + 1) div 2) buf"
  have "EncodePhoneNumber (ds @ 0 # junk) buf base avail = Some (int ((length ds + 1) div 2), ?buf)"
    using EncodePhone_loop_pairs [OF assms(1), of 0 base 0 buf] assms(2,3) z by (simp add: EncodePhoneNumber_def)
  moreover have "map (\<lambda>j. (if j mod 2 = 0 then ?buf ! (base + j div 2) AND 0x0F else drop_bit 4 (?buf ! (base + j div 2) AND 0xF0)) + 0x30)
      [0..<0 + length ds] = ds"
  proof (rule nth_equalityI)
    fix j assume "j < length (map (\<lambda>j. (if j mod 2 = 0 then ?buf ! (base + j div 2) AND 0x0F else drop_bit 4 (?buf ! (base + j div 2) AND 0xF0)) + 0x30) [0..<0 + length ds])"
    then have j: "j < length ds" by simp
    then have "j div 2 < length (digit_pairs ds)" by (auto simp: length_digit_pairs)
    then have "?buf ! (base + j div 2) = digit_pairs ds ! (j div 2)" using assms(2) by (simp add: nth_append)
    then show "map (\<lambda>j. (if j mod 2 = 0 then ?buf ! (base + j div 2) AND 0x0F else drop_bit 4 (?buf ! (base + j div 2) AND 0xF0)) + 0x30)
      [0..<0 + length ds] ! j = ds ! j"
      using digit_pairs_nth [OF assms(1) j] j by (simp split: if_splits)
  qed simp
  moreover have "\<forall>j. 0 \<le> j \<and> j < 0 + length ds \<longrightarrow> base + j div 2 < length ?buf"
    using assms(2) by (auto simp: length_digit_pairs)
  ultimately show ?thesis
    using DecodePhone_loop_map [of 0 "length ds" base ?buf out] assms(4)
    by (simp add: DecodePhoneNumber_def upd_conv_take_nth_drop Cons_nth_drop_Suc list_update_append)
qed

lemma PhoneNumber_roundtrip_witness:
  "\<exists>buf'. EncodePhoneNumber (ascii ''84978779222'' @ 0 # [1]) (replicate 9 0) 2 7 = Some (int ((length (ascii ''84978779222'') + 1) div 2), buf')
    \<and> buf' = take 2 (replicate 9 0) @ digit_pairs (ascii ''84978779222'') @ drop (2 + (length (ascii ''84978779222'') + 1) div 2) (replicate 9 0)
    \<and> DecodePhoneNumber buf' 2 (length (ascii ''84978779222'')) (replicate 12 7) =
      Some (int (length (ascii ''84978779222'')), ascii ''84978779222'' @ 0 # drop (Suc (length (ascii ''84978779222''))) (replicate 12 7))"
  by (rule PhoneNumber_roundtrip) (simp_all add: ascii_def of_char_def IsDigit_def)

end
