(* ===== verification/Fcs.thy ===== *)
theory Fcs
  imports Prelude
begin

text \<open>
  The 16-bit frame check sequence of \<open>ampm_lib/lib/fcs.c\<close> (CRC-16/X-25, as in PPP), its
  table, and what a receiver relies on: the table is the bit-serial polynomial division,
  appending the sequence leaves a constant residue, and one damaged byte is always seen.
\<close>

section \<open>The table and the two routines\<close>

definition fcstab :: "u16 list" where
  "fcstab =
    [0x0000, 0x1189, 0x2312, 0x329b, 0x4624, 0x57ad, 0x6536, 0x74bf,
     0x8c48, 0x9dc1, 0xaf5a, 0xbed3, 0xca6c, 0xdbe5, 0xe97e, 0xf8f7,
     0x1081, 0x0108, 0x3393, 0x221a, 0x56a5, 0x472c, 0x75b7, 0x643e,
     0x9cc9, 0x8d40, 0xbfdb, 0xae52, 0xdaed, 0xcb64, 0xf9ff, 0xe876,
     0x2102, 0x308b, 0x0210, 0x1399, 0x6726, 0x76af, 0x4434, 0x55bd,
     0xad4a, 0xbcc3, 0x8e58, 0x9fd1, 0xeb6e, 0xfae7, 0xc87c, 0xd9f5,
     0x3183, 0x200a, 0x1291, 0x0318, 0x77a7, 0x662e, 0x54b5, 0x453c,
     0xbdcb, 0xac42, 0x9ed9, 0x8f50, 0xfbef, 0xea66, 0xd8fd, 0xc974,
     0x4204, 0x538d, 0x6116, 0x709f, 0x0420, 0x15a9, 0x2732, 0x36bb,
     0xce4c, 0xdfc5, 0xed5e, 0xfcd7, 0x8868, 0x99e1, 0xab7a, 0xbaf3,
     0x5285, 0x430c, 0x7197, 0x601e, 0x14a1, 0x0528, 0x37b3, 0x263a,
     0xdecd, 0xcf44, 0xfddf, 0xec56, 0x98e9, 0x8960, 0xbbfb, 0xaa72,
     0x6306, 0x728f, 0x4014, 0x519d, 0x2522, 0x34ab, 0x0630, 0x17b9,
     0xef4e, 0xfec7, 0xcc5c, 0xddd5, 0xa96a, 0xb8e3, 0x8a78, 0x9bf1,
     0x7387, 0x620e, 0x5095, 0x411c, 0x35a3, 0x242a, 0x16b1, 0x0738,
     0xffcf, 0xee46, 0xdcdd, 0xcd54, 0xb9eb, 0xa862, 0x9af9, 0x8b70,
     0x8408, 0x9581, 0xa71a, 0xb693, 0xc22c, 0xd3a5, 0xe13e, 0xf0b7,
     0x0840, 0x19c9, 0x2b52, 0x3adb, 0x4e64, 0x5fed, 0x6d76, 0x7cff,
     0x9489, 0x8500, 0xb79b, 0xa612, 0xd2ad, 0xc324, 0xf1bf, 0xe036,
     0x18c1, 0x0948, 0x3bd3, 0x2a5a, 0x5ee5, 0x4f6c, 0x7df7, 0x6c7e,
     0xa50a, 0xb483, 0x8618, 0x9791, 0xe32e, 0xf2a7, 0xc03c, 0xd1b5,
     0x2942, 0x38cb, 0x0a50, 0x1bd9, 0x6f66, 0x7eef, 0x4c74, 0x5dfd,
     0xb58b, 0xa402, 0x9699, 0x8710, 0xf3af, 0xe226, 0xd0bd, 0xc134,
     0x39c3, 0x284a, 0x1ad1, 0x0b58, 0x7fe7, 0x6e6e, 0x5cf5, 0x4d7c,
     0xc60c, 0xd785, 0xe51e, 0xf497, 0x8028, 0x91a1, 0xa33a, 0xb2b3,
     0x4a44, 0x5bcd, 0x6956, 0x78df, 0x0c60, 0x1de9, 0x2f72, 0x3efb,
     0xd68d, 0xc704, 0xf59f, 0xe416, 0x90a9, 0x8120, 0xb3bb, 0xa232,
     0x5ac5, 0x4b4c, 0x79d7, 0x685e, 0x1ce1, 0x0d68, 0x3ff3, 0x2e7a,
     0xe70e, 0xf687, 0xc41c, 0xd595, 0xa12a, 0xb0a3, 0x8238, 0x93b1,
     0x6b46, 0x7acf, 0x4854, 0x59dd, 0x2d62, 0x3ceb, 0x0e70, 0x1ff9,
     0xf78f, 0xe606, 0xd49d, 0xc514, 0xb1ab, 0xa022, 0x92b9, 0x8330,
     0x7bc7, 0x6a4e, 0x58d5, 0x495c, 0x3de3, 0x2c6a, 0x1ef1, 0x0f78]"

definition FCS_Calculate :: "u8 \<Rightarrow> u16 \<Rightarrow> u16" where
  "FCS_Calculate val fcs =
     drop_bit 8 fcs XOR fcstab ! unat ((fcs XOR ucast val) AND 0xff)"

text \<open>\<open>FCS_loop cp i n fcs\<close>: the \<open>while(len--)\<close> loop with \<open>n\<close> bytes to go at \<open>cp + i\<close>.\<close>

fun FCS_loop :: "bytes \<Rightarrow> nat \<Rightarrow> nat \<Rightarrow> u16 \<Rightarrow> u16 option" where
  "FCS_loop cp i 0 fcs = Some fcs"
| "FCS_loop cp i (Suc n) fcs = do {
     b \<leftarrow> rd cp i;
     FCS_loop cp (Suc i) n
       (drop_bit 8 fcs XOR fcstab ! unat ((fcs XOR ucast b) AND 0xff))
   }"

definition FCS_Get :: "bytes \<Rightarrow> u32 \<Rightarrow> u16 option" where
  "FCS_Get cp len = map_option (\<lambda>fcs. NOT fcs) (FCS_loop cp 0 (unat len) 0xFFFF)"

section \<open>The bit-serial reference\<close>

definition crc_bit :: "u16 \<Rightarrow> u16" where
  "crc_bit c = drop_bit 1 c XOR (if bit c 0 then 0x8408 else 0)"

definition crc_byte :: "u16 \<Rightarrow> u8 \<Rightarrow> u16" where
  "crc_byte c b = (crc_bit ^^ 8) (c XOR ucast b)"

text \<open>
  The table is checked entry by entry against eight bit steps; \<open>crc_table_from n xs\<close>
  says that \<open>xs\<close> are the entries from \<open>n\<close> on.
\<close>

fun crc_table_from :: "u16 \<Rightarrow> u16 list \<Rightarrow> bool" where
  "crc_table_from n [] = True"
| "crc_table_from n (x # xs) = ((crc_bit ^^ 8) n = x \<and> crc_table_from (n + 1) xs)"

lemma crc_bit_funpow8:
  "(crc_bit ^^ 8) c = crc_bit (crc_bit (crc_bit (crc_bit (crc_bit (crc_bit (crc_bit (crc_bit c)))))))"
  by (simp add: numeral_eq_Suc)

lemma fcstab_checked: "crc_table_from 0 fcstab"
  by (simp add: fcstab_def crc_bit_funpow8 crc_bit_def)

lemma crc_table_from_nth:
  "crc_table_from n xs \<Longrightarrow> k < length xs \<Longrightarrow> xs ! k = (crc_bit ^^ 8) (n + word_of_nat k)"
proof (induction n xs arbitrary: k rule: crc_table_from.induct)
  case (2 n x xs)
  then show ?case by (cases k) (auto simp: ac_simps)
qed simp

lemma fcstab_length [simp]: "length fcstab = 256"
  by (simp add: fcstab_def)

lemma fcstab_nth: "n < 256 \<Longrightarrow> fcstab ! n = (crc_bit ^^ 8) (word_of_nat n)"
  using crc_table_from_nth [OF fcstab_checked, of n] by simp

section \<open>Linearity of the bit step\<close>

lemma crc_bit_xor: "crc_bit (a XOR b) = crc_bit a XOR crc_bit b"
  by (simp add: crc_bit_def bit_xor_iff drop_bit_xor) (simp add: xor.assoc xor.commute xor.left_commute)

lemma crc_bit_0 [simp]: "crc_bit 0 = 0"
  by (simp add: crc_bit_def)

lemma crc_bits_xor: "(crc_bit ^^ n) (a XOR b) = (crc_bit ^^ n) a XOR (crc_bit ^^ n) b"
  by (induction n) (simp_all add: crc_bit_xor)

lemma crc_bit_even: "\<not> bit c 0 \<Longrightarrow> crc_bit c = drop_bit 1 c"
  by (simp add: crc_bit_def)

lemma crc_bits_push:
  assumes "\<forall>k < n. \<not> bit c k"
  shows "(crc_bit ^^ n) c = drop_bit n c"
  using assms
proof (induction n arbitrary: c)
  case (Suc n)
  from Suc.prems have "crc_bit c = drop_bit 1 c" by (simp add: crc_bit_even)
  moreover from Suc.prems have "\<forall>k < n. \<not> bit (drop_bit 1 c) k" by (simp add: bit_drop_bit_eq)
  ultimately show ?case
    using Suc.IH [of "drop_bit 1 c"] by (simp add: funpow_Suc_right del: funpow.simps)
qed simp

text \<open>One table step is eight bit steps.\<close>

lemma and_ff: "x AND 0xff = take_bit 8 (x :: u16)"
  by (simp add: take_bit_eq_mask mask_eq_exp_minus_1)

lemma low_byte_nat: "unat (x AND 0xff :: u16) < 256"
  using take_bit_nat_less_exp [of 8 "unat x"] by (simp add: and_ff unsigned_take_bit_eq)

lemma FCS_Calculate_bitwise: "FCS_Calculate val fcs = crc_byte fcs val"
proof -
  let ?x = "fcs XOR ucast val"
  let ?lo = "?x AND 0xff" and ?hi = "push_bit 8 (drop_bit 8 ?x)"
  have split: "?x = ?hi XOR ?lo"
    by (rule bit_word_eqI) (auto simp: and_ff bit_simps)
  have "fcstab ! unat ?lo = (crc_bit ^^ 8) ?lo"
    using fcstab_nth [OF low_byte_nat] by simp
  moreover have "(crc_bit ^^ 8) ?hi = drop_bit 8 ?hi"
    by (rule crc_bits_push) (auto simp: bit_simps)
  moreover have "drop_bit 8 ?hi = drop_bit 8 fcs"
    by (rule bit_word_eqI) (auto simp: bit_simps dest: bit_imp_le_length)
  ultimately show ?thesis
    unfolding FCS_Calculate_def crc_byte_def
    by (subst split) (simp only: crc_bits_xor)
qed

section \<open>The loop over a buffer\<close>

definition crc_over :: "u16 \<Rightarrow> bytes \<Rightarrow> u16" where
  "crc_over c xs = foldl crc_byte c xs"

lemma crc_over_simps [simp]:
  "crc_over c [] = c"
  "crc_over c (x # xs) = crc_over (crc_byte c x) xs"
  "crc_over c (xs @ ys) = crc_over (crc_over c xs) ys"
  by (simp_all add: crc_over_def)

lemma FCS_loop_step:
  "FCS_loop cp i (Suc n) fcs = do { b \<leftarrow> rd cp i; FCS_loop cp (Suc i) n (crc_byte fcs b) }"
  by (simp add: FCS_Calculate_bitwise [symmetric] FCS_Calculate_def)

declare FCS_loop.simps(2) [simp del]

lemma FCS_loop_crc:
  "i + n \<le> length cp \<Longrightarrow> FCS_loop cp i n fcs = Some (crc_over fcs (take n (drop i cp)))"
proof (induction n arbitrary: i fcs)
  case (Suc n)
  then show ?case by (simp add: FCS_loop_step take_Suc_drop)
qed simp

lemma FCS_loop_out: "i \<le> length cp \<Longrightarrow> length cp < i + n \<Longrightarrow> FCS_loop cp i n fcs = None"
proof (induction n arbitrary: i fcs)
  case (Suc n)
  then show ?case by (cases "i < length cp") (simp_all add: FCS_loop_step)
qed simp

definition fcs_of :: "bytes \<Rightarrow> u16" where
  "fcs_of xs = NOT (crc_over 0xFFFF xs)"

lemma FCS_Get_fcs_of:
  "unat len \<le> length cp \<Longrightarrow> FCS_Get cp len = Some (fcs_of (take (unat len) cp))"
  by (simp add: FCS_Get_def FCS_loop_crc fcs_of_def)

section \<open>Residue\<close>

lemma ucast_xor_u8: "(ucast (x XOR y :: u8) :: u16) = ucast x XOR ucast y"
  by (rule bit_word_eqI) (auto simp: bit_simps)

lemma xor_zero_iff: "a XOR b = 0 \<longleftrightarrow> a = (b :: 'a::len word)"
proof
  assume z: "a XOR b = 0"
  have "a = (a XOR b) XOR b" by (simp add: xor.assoc)
  with z show "a = b" by simp
qed simp

lemma ucast_u8_zero: "(ucast (x :: u8) :: u16) = 0 \<Longrightarrow> x = 0"
proof (rule bit_word_eqI)
  fix n assume z: "(ucast x :: u16) = 0" and n: "n < LENGTH(8)"
  have "bit (ucast x :: u16) n = bit x n" using n by (simp add: bit_simps)
  with z show "bit x n = bit (0 :: u8) n" by simp
qed

lemma crc_byte_xor: "crc_byte (a XOR b) (x XOR y) = crc_byte a x XOR crc_byte b y"
  by (simp add: crc_byte_def crc_bits_xor [symmetric] ucast_xor_u8 xor.assoc xor.left_commute)

text \<open>Sending the complement low byte first takes every state to the same residue.\<close>

definition fcs_lo :: "u16 \<Rightarrow> u8" where
  "fcs_lo f = ucast (f AND 0xFF)"

definition fcs_hi :: "u16 \<Rightarrow> u8" where
  "fcs_hi f = ucast (drop_bit 8 f AND 0xFF)"

lemma fcs_lo_hi: "ucast (fcs_lo f) XOR push_bit 8 (ucast (fcs_hi f)) = (f :: u16)"
  by (rule bit_word_eqI) (auto simp: fcs_lo_def fcs_hi_def and_ff bit_simps)

lemma crc_byte_two:
  "crc_byte (crc_byte c a) b = (crc_bit ^^ 16) (c XOR ucast a XOR push_bit 8 (ucast b))"
proof -
  have "(crc_bit ^^ 8) (push_bit 8 (ucast b :: u16)) = ucast b"
  proof -
    have "(crc_bit ^^ 8) (push_bit 8 (ucast b :: u16)) = drop_bit 8 (push_bit 8 (ucast b))"
      by (rule crc_bits_push) (auto simp: bit_simps)
    also have "\<dots> = ucast b"
      by (rule bit_word_eqI) (auto simp: bit_simps dest: bit_imp_le_length)
    finally show ?thesis .
  qed
  then have "crc_byte (crc_byte c a) b =
      (crc_bit ^^ 8) ((crc_bit ^^ 8) (c XOR ucast a) XOR (crc_bit ^^ 8) (push_bit 8 (ucast b)))"
    by (simp add: crc_byte_def)
  also have "\<dots> = (crc_bit ^^ 8) ((crc_bit ^^ 8) (c XOR ucast a XOR push_bit 8 (ucast b)))"
    by (simp only: crc_bits_xor xor.assoc)
  also have "\<dots> = (crc_bit ^^ 16) (c XOR ucast a XOR push_bit 8 (ucast b))"
    by (simp add: xor.assoc funpow_add [symmetric, THEN fun_cong, unfolded o_def])
  finally show ?thesis .
qed

lemma crc_bits16_ones: "(crc_bit ^^ 16) (0xFFFF :: u16) = 0xF0B8"
proof -
  have "(crc_bit ^^ 16) (0xFFFF :: u16) = (crc_bit ^^ 8) ((crc_bit ^^ 8) 0xFFFF)"
    by (simp add: funpow_add [symmetric, THEN fun_cong, unfolded o_def])
  also have "\<dots> = 0xF0B8" by (simp add: crc_bit_funpow8 crc_bit_def)
  finally show ?thesis .
qed

lemma crc_residue:
  "crc_over 0xFFFF (xs @ [fcs_lo (fcs_of xs), fcs_hi (fcs_of xs)]) = 0xF0B8"
proof -
  let ?c = "crc_over 0xFFFF xs"
  have "crc_byte (crc_byte ?c (fcs_lo (fcs_of xs))) (fcs_hi (fcs_of xs))
      = (crc_bit ^^ 16) (?c XOR fcs_of xs)"
    by (simp add: crc_byte_two xor.assoc fcs_lo_hi)
  also have "?c XOR fcs_of xs = 0xFFFF"
    by (simp add: fcs_of_def)
  finally show ?thesis by (simp add: crc_bits16_ones)
qed

section \<open>One damaged byte\<close>

lemma crc_bit_inj0: "crc_bit c = 0 \<Longrightarrow> c = 0"
proof (rule bit_word_eqI)
  fix n assume z: "crc_bit c = 0" and n: "n < LENGTH(16)"
  have top: "bit (crc_bit c) 15 = bit c 0"
    by (auto simp: crc_bit_def bit_simps dest: bit_imp_le_length)
  then have b0: "\<not> bit c 0" by (simp add: z)
  then have "drop_bit 1 c = 0" using z by (simp add: crc_bit_def)
  then have "bit (drop_bit 1 c) k = False" for k by simp
  then have "\<not> bit c (Suc k)" for k by (simp add: bit_drop_bit_eq)
  with b0 show "bit c n = bit (0 :: u16) n" by (cases n) auto
qed

lemma crc_bits_inj0: "(crc_bit ^^ n) c = 0 \<Longrightarrow> c = 0"
  by (induction n arbitrary: c) (auto simp: funpow_Suc_right simp del: funpow.simps dest: crc_bit_inj0)

lemma crc_byte_inj_state: "crc_byte a x = crc_byte b x \<Longrightarrow> a = b"
proof -
  assume "crc_byte a x = crc_byte b x"
  then have "crc_byte (a XOR b) (x XOR x) = 0" by (simp only: crc_byte_xor xor_zero_iff)
  then have "(crc_bit ^^ 8) (a XOR b) = 0" by (simp add: crc_byte_def)
  then have "a XOR b = 0" by (rule crc_bits_inj0)
  then show ?thesis by (simp only: xor_zero_iff)
qed

lemma crc_byte_inj_val:
  assumes "crc_byte a x = crc_byte a y" shows "x = y"
proof -
  have "crc_byte (a XOR a) (x XOR y) = 0"
    using assms by (simp only: crc_byte_xor xor_zero_iff)
  then have "(crc_bit ^^ 8) (ucast (x XOR y)) = 0" by (simp add: crc_byte_def)
  then have "(ucast (x XOR y) :: u16) = 0" by (rule crc_bits_inj0)
  then have "x XOR y = 0" by (rule ucast_u8_zero)
  then show ?thesis by (simp only: xor_zero_iff)
qed

lemma crc_over_inj_state: "crc_over a xs = crc_over b xs \<Longrightarrow> a = b"
  by (induction xs arbitrary: a b) (auto dest: crc_byte_inj_state)

lemma fcs_of_one_byte: "x \<noteq> y \<Longrightarrow> fcs_of (xs @ x # ys) \<noteq> fcs_of (xs @ y # ys)"
  by (auto simp: fcs_of_def dest!: crc_over_inj_state dest: crc_byte_inj_val)

end
