(* ===== verification/Protocol.thy ===== *)
theory Protocol
  imports Fcs
begin

text \<open>
  The framing protocol of \<open>ampm_lib/lib/protocol.c\<close>: a frame is \<open>0x7E\<close>, the payload
  and its check sequence with the three control bytes escaped, and \<open>0x7F\<close>.  The encoder
  writes into a buffer of declared size, the parser takes one byte at a time.  The locale
  \<open>unstuffer\<close> is what the two parsers (with and without check sequence) have in common.

  A callback is a code address of type \<open>'f\<close>; what the application does when the address
  is called is the argument \<open>call\<close>, which may update the parser and a world \<open>'w\<close>.
\<close>

section \<open>The parser\<close>

record 'f PROTO_PARSER =
  pr_buf :: bytes
  pr_bufSize :: u16
  pr_dataLen :: u16
  pr_isEsc :: u8
  pr_callback :: "'f option"

type_synonym ('f, 'w) callback = "'f \<Rightarrow> 'f PROTO_PARSER \<Rightarrow> 'w \<Rightarrow> ('f PROTO_PARSER \<times> 'w) option"

definition PROTO_InitParser ::
  "'f PROTO_PARSER \<Rightarrow> 'f option \<Rightarrow> bytes \<Rightarrow> u16 \<Rightarrow> u8 \<times> 'f PROTO_PARSER" where
  "PROTO_InitParser parser completeCallback buf bufSize =
     (0, parser\<lparr>pr_buf := buf, pr_bufSize := bufSize, pr_dataLen := 0,
          pr_callback := completeCallback, pr_isEsc := 0\<rparr>)"

definition pr_reset :: "'f PROTO_PARSER \<Rightarrow> 'f PROTO_PARSER" where
  "pr_reset parser = parser\<lparr>pr_dataLen := 0, pr_isEsc := 0\<rparr>"

definition pr_notify ::
  "('f, 'w) callback \<Rightarrow> 'f PROTO_PARSER \<Rightarrow> 'w \<Rightarrow> ('f PROTO_PARSER \<times> 'w) option" where
  "pr_notify call parser w =
     (case pr_callback parser of None \<Rightarrow> Some (parser, w) | Some f \<Rightarrow> call f parser w)"

text \<open>The \<open>default\<close> branch of both switches: store the byte, restart when the buffer is full.\<close>

definition pr_store :: "'f PROTO_PARSER \<Rightarrow> u8 \<Rightarrow> 'f PROTO_PARSER option" where
  "pr_store parser value = do {
     let v = (if pr_isEsc parser \<noteq> 0 then value XOR 0x20 else value);
     b \<leftarrow> wr (pr_buf parser) (unat (pr_dataLen parser)) v;
     let parser = parser\<lparr>pr_buf := b, pr_dataLen := pr_dataLen parser + 1, pr_isEsc := 0\<rparr>;
     Some (if pr_dataLen parser \<ge> pr_bufSize parser then pr_reset parser else parser)
   }"

definition PROTO_ParseByte ::
  "('f, 'w) callback \<Rightarrow> 'f PROTO_PARSER \<Rightarrow> 'w \<Rightarrow> u8 \<Rightarrow> (u8 \<times> 'f PROTO_PARSER \<times> 'w) option" where
  "PROTO_ParseByte call parser w value =
     (if value = 0x7D then Some (0, parser\<lparr>pr_isEsc := 1\<rparr>, w)
      else if value = 0x7E then Some (0, pr_reset parser, w)
      else if value = 0x7F then
        (if pr_dataLen parser \<ge> 4 then do {
           fcs \<leftarrow> FCS_Get (pr_buf parser) (ucast (pr_dataLen parser - 2));
           hi \<leftarrow> rd (pr_buf parser) (unat (pr_dataLen parser) - 1);
           lo \<leftarrow> rd (pr_buf parser) (unat (pr_dataLen parser) - 2);
           let rxFcs = push_bit 8 (ucast hi) OR ucast lo;
           let parser = parser\<lparr>pr_dataLen := pr_dataLen parser - 2\<rparr>;
           if fcs = rxFcs then do {
             (parser, w) \<leftarrow> pr_notify call parser w;
             Some (1, pr_reset parser, w)
           }
           else Some (0, pr_reset parser, w)
         }
         else Some (0, pr_reset parser, w))
      else do {
        parser \<leftarrow> pr_store parser value;
        Some (0, parser, w)
      })"

definition PROTO_ParseByteUnFcs ::
  "('f, 'w) callback \<Rightarrow> 'f PROTO_PARSER \<Rightarrow> 'w \<Rightarrow> u8 \<Rightarrow> (u8 \<times> 'f PROTO_PARSER \<times> 'w) option" where
  "PROTO_ParseByteUnFcs call parser w value =
     (if value = 0x7D then Some (0, parser\<lparr>pr_isEsc := 1\<rparr>, w)
      else if value = 0x7E then Some (0, pr_reset parser, w)
      else if value = 0x7F then
        (if pr_dataLen parser \<ge> 2 then do {
           (parser, w) \<leftarrow> pr_notify call parser w;
           Some (1, pr_reset parser, w)
         }
         else Some (0, pr_reset parser, w))
      else do {
        parser \<leftarrow> pr_store parser value;
        Some (0, parser, w)
      })"

text \<open>\<open>PROTO_Parse\<close> reads \<open>len\<close> bytes of \<open>value\<close>, whose return values it ignores.\<close>

fun PROTO_Parse_loop ::
  "('f, 'w) callback \<Rightarrow> 'f PROTO_PARSER \<Rightarrow> 'w \<Rightarrow> bytes \<Rightarrow> nat \<Rightarrow> nat \<Rightarrow> ('f PROTO_PARSER \<times> 'w) option"
where
  "PROTO_Parse_loop call parser w value i 0 = Some (parser, w)"
| "PROTO_Parse_loop call parser w value i (Suc n) = do {
     v \<leftarrow> rd value i;
     (r, parser, w) \<leftarrow> PROTO_ParseByte call parser w v;
     PROTO_Parse_loop call parser w value (Suc i) n
   }"

definition PROTO_Parse ::
  "('f, 'w) callback \<Rightarrow> 'f PROTO_PARSER \<Rightarrow> 'w \<Rightarrow> bytes \<Rightarrow> u16 \<Rightarrow> (u8 \<times> 'f PROTO_PARSER \<times> 'w) option" where
  "PROTO_Parse call parser w value len = do {
     (parser, w) \<leftarrow> PROTO_Parse_loop call parser w value 0 (unat len);
     Some (0, parser, w)
   }"

section \<open>The encoder\<close>

text \<open>
  \<open>PROTO_put\<close> is the escaping \<open>switch\<close>: \<open>o\<close> is the write position of \<open>buf\<close>.
  \<open>Inl buf\<close> is the early \<open>return 0\<close>.
\<close>

type_synonym enc_state = "bytes \<times> nat \<times> u16 \<times> u16"

definition is_ctl :: "u8 \<Rightarrow> bool" where
  "is_ctl c \<longleftrightarrow> c = 0x7D \<or> c = 0x7E \<or> c = 0x7F"

definition PROTO_put :: "enc_state \<Rightarrow> u8 \<Rightarrow> (bytes + enc_state) option" where
  "PROTO_put s c = (case s of (buf, out, bufSize, i) \<Rightarrow>
     if is_ctl c then
       (if bufSize < 2 then Some (Inl buf)
        else do {
          buf \<leftarrow> wr buf out 0x7D;
          buf \<leftarrow> wr buf (out + 1) (c XOR 0x20);
          Some (Inr (buf, out + 2, bufSize - 2, i + 2))
        })
     else
       (if bufSize < 1 then Some (Inl buf)
        else do {
          buf \<leftarrow> wr buf out c;
          Some (Inr (buf, out + 1, bufSize - 1, i + 1))
        }))"

text \<open>In the body of \<open>while(len--)\<close> the counter already has its decremented value \<open>n\<close>.\<close>

fun PROTO_Add_loop :: "bytes \<Rightarrow> u16 \<Rightarrow> nat \<Rightarrow> nat \<Rightarrow> enc_state \<Rightarrow> (bytes + enc_state) option" where
  "PROTO_Add_loop packet fcs p 0 s = Some (Inr s)"
| "PROTO_Add_loop packet fcs p (Suc n) s = do {
     (c, p) \<leftarrow> (if n = 1 then Some (ucast (fcs AND 0xFF), p)
                else if n = 0 then Some (ucast (drop_bit 8 fcs AND 0xFF), p)
                else do { c \<leftarrow> rd packet p; Some (c, Suc p) });
     r \<leftarrow> PROTO_put s c;
     case r of Inl buf \<Rightarrow> Some (Inl buf) | Inr s \<Rightarrow> PROTO_Add_loop packet fcs p n s
   }"

text \<open>The epilogue of both encoders.\<close>

definition PROTO_close :: "bytes + enc_state \<Rightarrow> (u16 \<times> bytes) option" where
  "PROTO_close r = (case r of
     Inl buf \<Rightarrow> Some (0, buf)
   | Inr (buf, out, bufSize, i) \<Rightarrow>
       if bufSize < 1 then Some (0, buf)
       else do { buf \<leftarrow> wr buf out 0x7F; Some (i, buf) })"

definition PROTO_Add :: "bytes \<Rightarrow> bytes \<Rightarrow> u16 \<Rightarrow> u16 \<Rightarrow> (u16 \<times> bytes) option" where
  "PROTO_Add buf packet bufSize len =
     (if bufSize < 1 then Some (0, buf)
      else do {
        fcs \<leftarrow> FCS_Get packet (ucast len);
        let len = len + 2;
        buf \<leftarrow> wr buf 0 0x7E;
        r \<leftarrow> PROTO_Add_loop packet fcs 0 (unat len) (buf, 1, bufSize - 1, 2);
        PROTO_close r
      })"

fun PROTO_AddUnFcs_loop :: "bytes \<Rightarrow> nat \<Rightarrow> nat \<Rightarrow> enc_state \<Rightarrow> (bytes + enc_state) option" where
  "PROTO_AddUnFcs_loop packet p 0 s = Some (Inr s)"
| "PROTO_AddUnFcs_loop packet p (Suc n) s = do {
     c \<leftarrow> rd packet p;
     r \<leftarrow> PROTO_put s c;
     case r of Inl buf \<Rightarrow> Some (Inl buf) | Inr s \<Rightarrow> PROTO_AddUnFcs_loop packet (Suc p) n s
   }"

definition PROTO_AddUnFcs :: "bytes \<Rightarrow> bytes \<Rightarrow> u16 \<Rightarrow> u16 \<Rightarrow> (u16 \<times> bytes) option" where
  "PROTO_AddUnFcs buf packet bufSize packetLen =
     (if bufSize < 1 then Some (0, buf)
      else do {
        buf \<leftarrow> wr buf 0 0x7E;
        r \<leftarrow> PROTO_AddUnFcs_loop packet 0 (unat packetLen) (buf, 1, bufSize - 1, 2);
        PROTO_close r
      })"

section \<open>Frames\<close>

definition esc :: "u8 \<Rightarrow> bytes" where
  "esc c = (if is_ctl c then [0x7D, c XOR 0x20] else [c])"

definition stuff :: "bytes \<Rightarrow> bytes" where
  "stuff xs = concat (map esc xs)"

definition frame :: "bytes \<Rightarrow> bytes" where
  "frame xs = 0x7E # stuff xs @ [0x7F]"

lemma stuff_simps [simp]:
  "stuff [] = []" "stuff (x # xs) = esc x @ stuff xs" "stuff (xs @ ys) = stuff xs @ stuff ys"
  by (simp_all add: stuff_def)

lemma length_frame [simp]: "length (frame xs) = length (stuff xs) + 2"
  by (simp add: frame_def)

lemma length_stuff_le: "length (stuff xs) \<le> 2 * length xs"
proof (induction xs)
  case (Cons x xs)
  then show ?case by (simp add: esc_def)
qed simp

lemma esc_not_delimiter: "b \<in> set (esc c) \<Longrightarrow> b \<noteq> 0x7E \<and> b \<noteq> 0x7F"
  by (auto simp: esc_def is_ctl_def split: if_splits)

lemma stuff_not_delimiter: "0x7E \<notin> set (stuff xs) \<and> 0x7F \<notin> set (stuff xs)"
  by (induction xs) (auto dest: esc_not_delimiter)

subsection \<open>The encoder writes frames\<close>

text \<open>\<open>put_bytes buf o xs\<close>: the buffer after \<open>xs\<close> is stored from position \<open>o\<close> on.\<close>

definition put_bytes :: "bytes \<Rightarrow> nat \<Rightarrow> bytes \<Rightarrow> bytes" where
  "put_bytes buf p xs = take p buf @ xs @ drop (p + length xs) buf"

lemma length_put_bytes [simp]:
  "p + length xs \<le> length buf \<Longrightarrow> length (put_bytes buf p xs) = length buf"
  by (simp add: put_bytes_def)

lemma put_bytes_Nil [simp]: "put_bytes buf p [] = buf"
  by (simp add: put_bytes_def)

lemma put_bytes_append:
  "p + length xs + length ys \<le> length buf \<Longrightarrow>
   put_bytes (put_bytes buf p xs) (p + length xs) ys = put_bytes buf p (xs @ ys)"
  by (simp add: put_bytes_def add.assoc) (simp add: ac_simps)

lemma update_put_bytes: "p < length buf \<Longrightarrow> buf[p := c] = put_bytes buf p [c]"
  by (simp add: put_bytes_def upd_conv_take_nth_drop)

lemma update2_put_bytes:
  "Suc p < length buf \<Longrightarrow> buf[p := c, Suc p := d] = put_bytes buf p [c, d]"
  using put_bytes_append [of p "[c]" "[d]" buf]
  by (simp add: update_put_bytes)

lemma PROTO_put_fits:
  assumes "out + unat bs \<le> length buf" "length (esc c) \<le> unat bs"
  shows "PROTO_put (buf, out, bs, i) c =
    Some (Inr (put_bytes buf out (esc c), out + length (esc c), bs - of_nat (length (esc c)),
               i + of_nat (length (esc c))))"
  using assms
  by (cases "is_ctl c") (auto simp: PROTO_put_def esc_def word_less_nat_alt update_put_bytes [symmetric]
      update2_put_bytes [symmetric])

lemma PROTO_put_no_room:
  "unat bs < length (esc c) \<Longrightarrow> PROTO_put (buf, out, bs, i) c = Some (Inl buf)"
  by (auto simp: PROTO_put_def esc_def word_less_nat_alt split: if_splits)

text \<open>What both loops do with the bytes \<open>xs\<close> they take.\<close>

fun PROTO_puts :: "bytes \<Rightarrow> enc_state \<Rightarrow> (bytes + enc_state) option" where
  "PROTO_puts [] s = Some (Inr s)"
| "PROTO_puts (c # cs) s = do {
     r \<leftarrow> PROTO_put s c;
     case r of Inl buf \<Rightarrow> Some (Inl buf) | Inr s \<Rightarrow> PROTO_puts cs s
   }"

lemma esc_bounds: "0 < length (esc c)" "length (esc c) \<le> 2"
  by (auto simp: esc_def)

lemma unat_minus_of_nat:
  "k \<le> unat (b :: u16) \<Longrightarrow> unat (b - of_nat k) = unat b - k"
proof -
  assume k: "k \<le> unat b"
  then have "k < 65536" using u16_less_65536 [of b] by simp
  then have "unat (of_nat k :: u16) = k" by (simp add: unat_of_nat take_bit_eq_mod)
  with k show ?thesis by (simp add: unat_sub_if')
qed

lemma PROTO_puts_fits:
  assumes "out + unat bs \<le> length buf" "length (stuff xs) \<le> unat bs"
  shows "PROTO_puts xs (buf, out, bs, i) =
    Some (Inr (put_bytes buf out (stuff xs), out + length (stuff xs),
               bs - of_nat (length (stuff xs)), i + of_nat (length (stuff xs))))"
  using assms
proof (induction xs arbitrary: buf out bs i)
  case (Cons c xs)
  have e: "length (esc c) \<le> unat bs" using Cons.prems by simp
  have u: "unat (bs - of_nat (length (esc c))) = unat bs - length (esc c)"
    by (rule unat_minus_of_nat [OF e])
  have "PROTO_puts xs (put_bytes buf out (esc c), out + length (esc c),
      bs - of_nat (length (esc c)), i + of_nat (length (esc c))) =
    Some (Inr (put_bytes (put_bytes buf out (esc c)) (out + length (esc c)) (stuff xs),
      out + length (esc c) + length (stuff xs), bs - of_nat (length (esc c)) - of_nat (length (stuff xs)),
      i + of_nat (length (esc c)) + of_nat (length (stuff xs))))"
    using Cons.prems by (intro Cons.IH) (auto simp: u)
  then show ?case using Cons.prems e
    by (simp add: PROTO_put_fits put_bytes_append algebra_simps)
qed simp

lemma PROTO_puts_no_room:
  assumes "out + unat bs \<le> length buf" "unat bs < length (stuff xs)"
  shows "\<exists>buf'. PROTO_puts xs (buf, out, bs, i) = Some (Inl buf') \<and> length buf' = length buf"
  using assms
proof (induction xs arbitrary: buf out bs i)
  case (Cons c xs)
  show ?case
  proof (cases "unat bs < length (esc c)")
    case False
    have "\<exists>buf'. PROTO_puts xs (put_bytes buf out (esc c), out + length (esc c),
        bs - of_nat (length (esc c)), i + of_nat (length (esc c))) = Some (Inl buf')
        \<and> length buf' = length (put_bytes buf out (esc c))"
      using Cons.prems False by (intro Cons.IH) (auto simp: unat_minus_of_nat)
    then show ?thesis using Cons.prems False by (simp add: PROTO_put_fits)
  qed (simp add: PROTO_put_no_room)
qed simp

lemma PROTO_AddUnFcs_loop_puts:
  "p + n \<le> length packet \<Longrightarrow>
   PROTO_AddUnFcs_loop packet p n = PROTO_puts (take n (drop p packet))"
proof (induction n arbitrary: p)
  case (Suc n)
  then show ?case by (intro ext) (simp add: take_Suc_drop)
qed (simp add: fun_eq_iff)

lemma PROTO_Add_loop_puts:
  "p + n \<le> length packet \<Longrightarrow>
   PROTO_Add_loop packet fcs p (Suc (Suc n)) =
     PROTO_puts (take n (drop p packet) @ [fcs_lo fcs, fcs_hi fcs])"
proof (induction n arbitrary: p)
  case 0
  have "PROTO_Add_loop packet fcs p (Suc 0) = PROTO_puts [fcs_hi fcs]"
  proof
    fix s show "PROTO_Add_loop packet fcs p (Suc 0) s = PROTO_puts [fcs_hi fcs] s"
      by (cases "PROTO_put s (fcs_hi fcs)") (auto simp: fcs_hi_def split: sum.split)
  qed
  then show ?case by (intro ext) (simp add: fcs_lo_def PROTO_puts.simps(2) [of _ "[fcs_hi fcs]"]
      del: PROTO_puts.simps(2))
next
  case (Suc n)
  have "PROTO_Add_loop packet fcs (Suc p) (Suc (Suc n)) =
      PROTO_puts (take n (drop (Suc p) packet) @ [fcs_lo fcs, fcs_hi fcs])"
    using Suc.prems by (intro Suc.IH) simp
  with Suc.prems show ?case by (intro ext) (simp add: take_Suc_drop del: PROTO_Add_loop.simps
      add: PROTO_Add_loop.simps(2) [of _ _ _ "Suc (Suc n)"])
qed

lemma PROTO_AddUnFcs_puts:
  assumes "unat bufSize \<le> length buf" "unat packetLen \<le> length packet" "0 < bufSize"
  shows "PROTO_AddUnFcs buf packet bufSize packetLen =
    PROTO_puts (take (unat packetLen) packet) (buf[0 := 0x7E], 1, bufSize - 1, 2) \<bind> PROTO_close"
proof -
  have "buf \<noteq> []" using assms by (auto simp: word_less_nat_alt)
  then show ?thesis
    using assms by (simp add: PROTO_AddUnFcs_def PROTO_AddUnFcs_loop_puts word_less_nat_alt)
qed

lemma PROTO_Add_puts:
  assumes "unat bufSize \<le> length buf" "unat len \<le> length packet" "0 < bufSize" "unat len < 65534"
  shows "PROTO_Add buf packet bufSize len =
    PROTO_puts (take (unat len) packet @ [fcs_lo (fcs_of (take (unat len) packet)),
        fcs_hi (fcs_of (take (unat len) packet))]) (buf[0 := 0x7E], 1, bufSize - 1, 2)
      \<bind> PROTO_close"
proof -
  have "buf \<noteq> []" using assms by (auto simp: word_less_nat_alt)
  moreover have "unat (len + 2) = Suc (Suc (unat len))" using assms(4) by (simp add: unat_plus_if')
  ultimately show ?thesis using assms
    by (simp add: PROTO_Add_def FCS_Get_fcs_of PROTO_Add_loop_puts word_less_nat_alt
        unsigned_ucast_eq take_bit_nat_eq_self)
qed

lemma PROTO_close_fits:
  "0 < unat bs \<Longrightarrow> p < length buf \<Longrightarrow>
   PROTO_close (Inr (buf, p, bs, i)) = Some (i, buf[p := 0x7F])"
  by (simp add: PROTO_close_def word_less_nat_alt)

lemma PROTO_close_no_room: "unat bs = 0 \<Longrightarrow> PROTO_close (Inr (buf, p, bs, i)) = Some (0, buf)"
  by (simp add: PROTO_close_def word_less_nat_alt)

text \<open>A frame that fits is written whole; one that does not is refused with 0.\<close>

lemma PROTO_puts_close:
  assumes "unat bufSize \<le> length buf" "0 < bufSize"
  shows "\<exists>buf'. PROTO_puts xs (buf[0 := 0x7E], 1, bufSize - 1, 2) \<bind> PROTO_close = Some
     (if length (frame xs) \<le> unat bufSize then of_nat (length (frame xs)) else 0, buf')
   \<and> length buf' = length buf
   \<and> (length (frame xs) \<le> unat bufSize \<longrightarrow> buf' = put_bytes buf 0 (frame xs))"
proof -
  have pos: "0 < unat bufSize" using assms(2) by (simp add: word_less_nat_alt)
  have u: "unat (bufSize - 1) = unat bufSize - 1" using pos unat_minus_of_nat [of 1 bufSize] by simp
  have ne: "buf \<noteq> []" using pos assms(1) by auto
  let ?b = "buf[0 := 0x7E]"
  show ?thesis
  proof (cases "length (stuff xs) \<le> unat bufSize - 1")
    case False
    with assms(1) pos show ?thesis using PROTO_puts_no_room [of 1 "bufSize - 1" ?b xs 2]
      by (auto simp: u PROTO_close_def)
  next
    case True
    have b0: "put_bytes buf 0 [0x7E] = ?b" using ne by (simp add: update_put_bytes)
    have bl: "put_bytes ?b (Suc 0) (stuff xs) = put_bytes buf 0 (0x7E # stuff xs)"
      using put_bytes_append [of 0 "[0x7E]" "stuff xs" buf] assms(1) True pos
      by (simp add: b0)
    have left: "unat (bufSize - 1 - of_nat (length (stuff xs))) = unat bufSize - 1 - length (stuff xs)"
      using True by (subst unat_minus_of_nat) (simp_all add: u)
    have "PROTO_puts xs (?b, 1, bufSize - 1, 2) = Some (Inr (put_bytes buf 0 (0x7E # stuff xs),
        1 + length (stuff xs), bufSize - 1 - of_nat (length (stuff xs)), 2 + of_nat (length (stuff xs))))"
      using assms(1) True pos PROTO_puts_fits [of 1 "bufSize - 1" ?b xs 2] by (simp add: u bl)
    then have r: "PROTO_puts xs (?b, 1, bufSize - 1, 2) \<bind> PROTO_close =
        PROTO_close (Inr (put_bytes buf 0 (0x7E # stuff xs), 1 + length (stuff xs),
          bufSize - 1 - of_nat (length (stuff xs)), 2 + of_nat (length (stuff xs))))"
      by (simp only: Option.bind.simps)
    have n: "of_nat (length (frame xs)) = (2 + of_nat (length (stuff xs)) :: u16)"
      by (simp add: frame_def)
    show ?thesis
    proof (cases "length (frame xs) \<le> unat bufSize")
      case True
      have b: "(put_bytes buf 0 (0x7E # stuff xs))[1 + length (stuff xs) := 0x7F]
          = put_bytes buf 0 (frame xs)"
        using True assms(1) put_bytes_append [of 0 "0x7E # stuff xs" "[0x7F]" buf]
        by (simp add: update_put_bytes frame_def)
      have "PROTO_puts xs (?b, 1, bufSize - 1, 2) \<bind> PROTO_close =
          Some (of_nat (length (frame xs)), put_bytes buf 0 (frame xs))"
        unfolding r n b [symmetric] using True assms(1) left by (intro PROTO_close_fits) auto
      then show ?thesis using True assms(1) by auto
    next
      case no: False
      have "PROTO_puts xs (?b, 1, bufSize - 1, 2) \<bind> PROTO_close =
          Some (0, put_bytes buf 0 (0x7E # stuff xs))"
        unfolding r using no left by (intro PROTO_close_no_room) auto
      then show ?thesis using no True assms(1) pos by auto
    qed
  qed
qed

section \<open>What the two parsers share\<close>

fun feed :: "('s \<Rightarrow> u8 \<Rightarrow> 's option) \<Rightarrow> 's \<Rightarrow> bytes \<Rightarrow> 's option" where
  "feed step s [] = Some s"
| "feed step s (c # cs) = do { s \<leftarrow> step s c; feed step s cs }"

lemma feed_append: "feed step s (xs @ ys) = do { s \<leftarrow> feed step s xs; feed step s ys }"
proof (induction xs arbitrary: s)
  case (Cons x xs)
  then show ?case by (cases "step s x") auto
qed simp

locale unstuffer =
  fixes step :: "'s \<Rightarrow> u8 \<Rightarrow> 's option"
    and data :: "'s \<Rightarrow> bytes"
    and escaped :: "'s \<Rightarrow> bool"
    and limit :: "'s \<Rightarrow> nat"
    and ctx :: "'s \<Rightarrow> 'c"
    and inv :: "'s \<Rightarrow> bool"
  assumes start: "inv s \<Longrightarrow> \<exists>s'. step s 0x7E = Some s' \<and> inv s' \<and> data s' = [] \<and> \<not> escaped s'
      \<and> limit s' = limit s \<and> ctx s' = ctx s"
    and escape: "inv s \<Longrightarrow> \<exists>s'. step s 0x7D = Some s' \<and> inv s' \<and> data s' = data s \<and> escaped s'
      \<and> limit s' = limit s \<and> ctx s' = ctx s"
    and store: "inv s \<Longrightarrow> \<not> is_ctl c \<Longrightarrow> Suc (length (data s)) < limit s \<Longrightarrow>
      \<exists>s'. step s c = Some s' \<and> inv s' \<and> \<not> escaped s'
        \<and> data s' = data s @ [if escaped s then c XOR 0x20 else c]
        \<and> limit s' = limit s \<and> ctx s' = ctx s"
begin

definition reads :: "'s \<Rightarrow> bytes \<Rightarrow> bytes \<Rightarrow> 's \<Rightarrow> bool" where
  "reads s cs xs s' \<longleftrightarrow> feed step s cs = Some s' \<and> inv s' \<and> \<not> escaped s' \<and> data s' = data s @ xs
     \<and> limit s' = limit s \<and> ctx s' = ctx s"

lemma reads_append: "reads s cs xs s' \<Longrightarrow> reads s' ds ys s'' \<Longrightarrow> reads s (cs @ ds) (xs @ ys) s''"
  by (auto simp: reads_def feed_append)

lemma reads_esc:
  assumes "inv s" "\<not> escaped s" "Suc (length (data s)) < limit s"
  shows "\<exists>s'. reads s (esc c) [c] s'"
proof (cases "is_ctl c")
  case True
  then have n: "\<not> is_ctl (c XOR 0x20)" "c XOR 0x20 XOR 0x20 = c"
    by (auto simp: is_ctl_def xor.assoc)
  from escape [OF assms(1)] obtain s1 where s1: "step s 0x7D = Some s1" "inv s1" "data s1 = data s"
    "escaped s1" "limit s1 = limit s" "ctx s1 = ctx s" by blast
  from store [OF s1(2) n(1)] assms s1 obtain s2 where "step s1 (c XOR 0x20) = Some s2" "inv s2"
    "\<not> escaped s2" "data s2 = data s @ [c]" "limit s2 = limit s" "ctx s2 = ctx s"
    by (auto simp: n xor.assoc)
  with s1 True show ?thesis by (auto simp: reads_def esc_def)
next
  case False
  with store [OF assms(1) False assms(3)] assms(2) show ?thesis
    by (auto simp: reads_def esc_def)
qed

lemma reads_stuff:
  assumes "inv s" "\<not> escaped s" "length (data s) + length xs < limit s"
  shows "\<exists>s'. reads s (stuff xs) xs s'"
  using assms
proof (induction xs arbitrary: s)
  case Nil
  then show ?case by (auto simp: reads_def)
next
  case (Cons x xs)
  then obtain s1 where s1: "reads s (esc x) [x] s1" using reads_esc [of s x] by auto
  with Cons.prems have "\<exists>s2. reads s1 (stuff xs) xs s2"
    by (intro Cons.IH) (auto simp: reads_def)
  with s1 show ?case using reads_append [of s "esc x" "[x]" s1 "stuff xs" xs] by auto
qed

text \<open>Whatever was read before, a start byte and the escaped text leave exactly the text.\<close>

lemma reads_frame_body:
  assumes "inv s" "length xs < limit s"
  shows "\<exists>s'. feed step s (0x7E # stuff xs) = Some s' \<and> inv s' \<and> \<not> escaped s' \<and> data s' = xs
    \<and> limit s' = limit s \<and> ctx s' = ctx s"
proof -
  from start [OF assms(1)] obtain s1 where s1: "step s 0x7E = Some s1" "inv s1" "data s1 = []"
    "\<not> escaped s1" "limit s1 = limit s" "ctx s1 = ctx s" by blast
  with reads_stuff [OF s1(2,4), of xs] assms(2) obtain s2 where "reads s1 (stuff xs) xs s2" by auto
  with s1 show ?thesis by (auto simp: reads_def)
qed

end

section \<open>The parsers are unstuffers\<close>

definition pr_data :: "'f PROTO_PARSER \<Rightarrow> bytes" where
  "pr_data p = take (unat (pr_dataLen p)) (pr_buf p)"

definition pr_inv :: "'f PROTO_PARSER \<Rightarrow> bool" where
  "pr_inv p \<longleftrightarrow> pr_dataLen p < pr_bufSize p \<and> unat (pr_bufSize p) \<le> length (pr_buf p)"

definition byte_step :: "('f, 'w) callback \<Rightarrow> 'f PROTO_PARSER \<times> 'w \<Rightarrow> u8 \<Rightarrow> ('f PROTO_PARSER \<times> 'w) option" where
  "byte_step call s c = map_option snd (PROTO_ParseByte call (fst s) (snd s) c)"

definition unfcs_step :: "('f, 'w) callback \<Rightarrow> 'f PROTO_PARSER \<times> 'w \<Rightarrow> u8 \<Rightarrow> ('f PROTO_PARSER \<times> 'w) option" where
  "unfcs_step call s c = map_option snd (PROTO_ParseByteUnFcs call (fst s) (snd s) c)"

lemma pr_data_length: "pr_inv p \<Longrightarrow> length (pr_data p) = unat (pr_dataLen p)"
  by (auto simp: pr_data_def pr_inv_def word_less_nat_alt)

lemma pr_reset_inv [simp]: "pr_inv p \<Longrightarrow> pr_inv (pr_reset p)"
  by (auto simp: pr_inv_def pr_reset_def word_less_nat_alt)

lemma pr_reset_data [simp]: "pr_data (pr_reset p) = []"
  by (simp add: pr_data_def pr_reset_def)

lemma pr_store_ok:
  assumes "pr_inv p"
  shows "\<exists>p'. pr_store p c = Some p' \<and> pr_inv p' \<and> pr_isEsc p' = 0 \<and> pr_bufSize p' = pr_bufSize p
    \<and> pr_callback p' = pr_callback p
    \<and> (Suc (length (pr_data p)) < unat (pr_bufSize p) \<longrightarrow>
        pr_data p' = pr_data p @ [if pr_isEsc p \<noteq> 0 then c XOR 0x20 else c])"
proof -
  have S: "unat (pr_dataLen p + 1) = Suc (unat (pr_dataLen p))"
    using assms by (auto simp: pr_inv_def intro: unat_Suc_no_overflow)
  have lt: "unat (pr_dataLen p) < length (pr_buf p)" "unat (pr_dataLen p) < unat (pr_bufSize p)"
    "unat (pr_bufSize p) \<le> length (pr_buf p)"
    using assms by (auto simp: pr_inv_def word_less_nat_alt)
  then show ?thesis
    by (auto simp: pr_store_def Let_def pr_inv_def pr_reset_def pr_data_def S word_less_nat_alt
        word_le_nat_alt take_Suc_conv_app_nth)
qed

abbreviation parser_ctx :: "'f PROTO_PARSER \<times> 'w \<Rightarrow> 'f option \<times> 'w" where
  "parser_ctx s \<equiv> (pr_callback (fst s), snd s)"

lemma pr_store_step:
  assumes "pr_inv p" "Suc (length (pr_data p)) < unat (pr_bufSize p)"
  shows "\<exists>p'. pr_store p c = Some p' \<and> pr_inv p' \<and> pr_isEsc p' = 0
    \<and> pr_data p' = pr_data p @ [if pr_isEsc p \<noteq> 0 then c XOR 0x20 else c]
    \<and> pr_bufSize p' = pr_bufSize p \<and> pr_callback p' = pr_callback p"
  using pr_store_ok [OF assms(1), of c] assms(2) by blast

interpretation fcs_parser: unstuffer "byte_step call" "\<lambda>s. pr_data (fst s)"
  "\<lambda>s. pr_isEsc (fst s) \<noteq> 0" "\<lambda>s. unat (pr_bufSize (fst s))" parser_ctx "\<lambda>s. pr_inv (fst s)"
proof
  fix s :: "'a PROTO_PARSER \<times> 'b" and c
  assume "pr_inv (fst s)" "\<not> is_ctl c" "Suc (length (pr_data (fst s))) < unat (pr_bufSize (fst s))"
  with pr_store_step [of "fst s" c]
  show "\<exists>s'. byte_step call s c = Some s' \<and> pr_inv (fst s') \<and> \<not> pr_isEsc (fst s') \<noteq> 0 \<and>
      pr_data (fst s') = pr_data (fst s) @ [if pr_isEsc (fst s) \<noteq> 0 then c XOR 0x20 else c] \<and>
      unat (pr_bufSize (fst s')) = unat (pr_bufSize (fst s)) \<and> parser_ctx s' = parser_ctx s"
    by (auto simp: byte_step_def PROTO_ParseByte_def is_ctl_def)
qed (auto simp: byte_step_def PROTO_ParseByte_def pr_reset_def pr_inv_def pr_data_def word_less_nat_alt)

interpretation plain_parser: unstuffer "unfcs_step call" "\<lambda>s. pr_data (fst s)"
  "\<lambda>s. pr_isEsc (fst s) \<noteq> 0" "\<lambda>s. unat (pr_bufSize (fst s))" parser_ctx "\<lambda>s. pr_inv (fst s)"
proof
  fix s :: "'a PROTO_PARSER \<times> 'b" and c
  assume "pr_inv (fst s)" "\<not> is_ctl c" "Suc (length (pr_data (fst s))) < unat (pr_bufSize (fst s))"
  with pr_store_step [of "fst s" c]
  show "\<exists>s'. unfcs_step call s c = Some s' \<and> pr_inv (fst s') \<and> \<not> pr_isEsc (fst s') \<noteq> 0 \<and>
      pr_data (fst s') = pr_data (fst s) @ [if pr_isEsc (fst s) \<noteq> 0 then c XOR 0x20 else c] \<and>
      unat (pr_bufSize (fst s')) = unat (pr_bufSize (fst s)) \<and> parser_ctx s' = parser_ctx s"
    by (auto simp: unfcs_step_def PROTO_ParseByteUnFcs_def is_ctl_def)
qed (auto simp: unfcs_step_def PROTO_ParseByteUnFcs_def pr_reset_def pr_inv_def pr_data_def word_less_nat_alt)

section \<open>Properties of the protocol\<close>

lemma is_ctl_7F [simp]: "is_ctl 0x7F" "is_ctl 0x7E" "is_ctl 0x7D"
  by (simp_all add: is_ctl_def)

lemma fcs_lo_hi_or: "push_bit 8 (ucast (fcs_hi f)) OR ucast (fcs_lo f) = (f :: u16)"
  by (rule bit_word_eqI) (auto simp: fcs_lo_def fcs_hi_def and_ff bit_simps)

text \<open>The end byte on a buffer that holds \<open>xs\<close> and a check sequence \<open>f\<close>.\<close>

lemma PROTO_ParseByte_end:
  assumes inv: "pr_inv p" and data: "pr_data p = xs @ [lo, hi]" and len: "2 \<le> length xs"
  shows "PROTO_ParseByte call p w 0x7F =
    (if fcs_of xs = push_bit 8 (ucast hi) OR ucast lo
     then do { (p, w) \<leftarrow> pr_notify call (p\<lparr>pr_dataLen := of_nat (length xs)\<rparr>) w;
               Some (1, pr_reset p, w) }
     else Some (0, pr_reset p, w))"
proof -
  let ?n = "unat (pr_dataLen p)"
  have n: "?n = length xs + 2" using pr_data_length [OF inv] data by simp
  have le: "?n \<le> length (pr_buf p)"
    using inv by (auto simp: pr_inv_def word_less_nat_alt)
  have m2: "unat (pr_dataLen p - 2) = length xs"
    using n len unat_minus_of_nat [of 2 "pr_dataLen p"] by simp
  have w2: "pr_dataLen p - 2 = of_nat (length xs)"
    using m2 by (metis of_nat_unat ucast_id)
  have "take (length xs) (pr_data p) = xs" by (simp add: data)
  then have tk: "take (length xs) (pr_buf p) = xs" by (simp add: pr_data_def n)
  have at: "pr_buf p ! (length xs) = lo" "pr_buf p ! (Suc (length xs)) = hi"
    using arg_cong [OF data, of "\<lambda>zs. zs ! length xs"] arg_cong [OF data, of "\<lambda>zs. zs ! Suc (length xs)"]
    by (simp_all add: pr_data_def n nth_append)
  have u: "unat (ucast (pr_dataLen p - 2) :: u32) = length xs"
    using m2 u16_less_65536 [of "pr_dataLen p - 2"]
    by (simp add: unsigned_ucast_eq take_bit_nat_eq_self)
  have f: "FCS_Get (pr_buf p) (ucast (pr_dataLen p - 2)) = Some (fcs_of xs)"
    using FCS_Get_fcs_of [of "ucast (pr_dataLen p - 2)" "pr_buf p"] le n by (simp add: u tk)
  have ge: "pr_dataLen p \<ge> 4" using n len by (simp add: word_le_nat_alt)
  have ix: "?n - 1 = Suc (length xs)" "?n - 2 = length xs" using n by simp_all
  have r: "rd (pr_buf p) (?n - 1) = Some hi" "rd (pr_buf p) (?n - 2) = Some lo"
    using le n by (simp_all only: ix at) (simp_all add: at)
  show ?thesis
    by (simp only: PROTO_ParseByte_def f r ge Option.bind.simps Let_def w2 pr_reset_def
        f [unfolded w2] if_True if_False) simp
qed

text \<open>The payloads the application receives, in order, when its callback records them.\<close>

definition log_payload :: "('f, bytes list) callback" where
  "log_payload f p w = Some (p, w @ [pr_data p])"

lemma feed_byte_step:
  "feed (byte_step call) (p, w) cs = PROTO_Parse_loop call p w cs 0 (length cs)"
proof -
  have "feed (byte_step call) (p, w) (drop i cs) = PROTO_Parse_loop call p w cs i n"
    if "i + n = length cs" for i n using that
  proof (induction n arbitrary: i p w)
    case (Suc n)
    then have i: "i < length cs" by simp
    then have "drop i cs = cs ! i # drop (Suc i) cs" by (rule Cons_nth_drop_Suc [symmetric])
    moreover have "feed (byte_step call) (p', w') (drop (Suc i) cs) =
        PROTO_Parse_loop call p' w' cs (Suc i) n" for p' w'
      using Suc.prems by (intro Suc.IH) simp
    ultimately show ?case using i
      by (cases "PROTO_ParseByte call p w (cs ! i)") (auto simp: byte_step_def [of call "(p, w)"])
  qed simp
  from this [of 0 "length cs"] show ?thesis by simp
qed

lemma PROTO_Parse_loop_prefix:
  "i + n \<le> length cs \<Longrightarrow>
   PROTO_Parse_loop call p w (cs @ ds) i n = PROTO_Parse_loop call p w cs i n"
  by (induction n arbitrary: i p w) (auto simp: nth_append split: Option.bind_split)

lemma PROTO_Parse_feed:
  assumes "unat len \<le> length cs"
  shows "PROTO_Parse call p w cs len =
    do { (p, w) \<leftarrow> feed (byte_step call) (p, w) (take (unat len) cs); Some (0, p, w) }"
  using assms PROTO_Parse_loop_prefix [of 0 "unat len" "take (unat len) cs" call p w "drop (unat len) cs"]
  by (simp add: PROTO_Parse_def feed_byte_step)

text \<open>Feeding a whole frame, whatever state the parser is in.\<close>

lemma feed_frame:
  assumes inv: "pr_inv p" and room: "length xs + 2 < unat (pr_bufSize p)" and len: "2 \<le> length xs"
  shows "\<exists>p'. pr_inv p' \<and> pr_data p' = xs @ [lo, hi] \<and> pr_bufSize p' = pr_bufSize p
    \<and> pr_callback p' = pr_callback p
    \<and> feed (byte_step call) (p, w) (frame (xs @ [lo, hi])) =
      (if fcs_of xs = push_bit 8 (ucast hi) OR ucast lo
       then do { (p, w) \<leftarrow> pr_notify call (p'\<lparr>pr_dataLen := of_nat (length xs)\<rparr>) w;
                 Some (pr_reset p, w) }
       else Some (pr_reset p', w))"
proof -
  from fcs_parser.reads_frame_body [of "(p, w)" "xs @ [lo, hi]" call] inv room
  obtain p' where p': "feed (byte_step call) (p, w) (0x7E # stuff (xs @ [lo, hi])) = Some (p', w)"
    "pr_inv p'" "pr_data p' = xs @ [lo, hi]" "pr_bufSize p' = pr_bufSize p"
    "pr_callback p' = pr_callback p" by (auto simp: word_unat_eq_iff)
  have "feed (byte_step call) (p, w) (frame (xs @ [lo, hi])) = byte_step call (p', w) 0x7F"
    using p'(1) feed_append [of "byte_step call" "(p, w)" "0x7E # stuff (xs @ [lo, hi])" "[0x7F]"]
    by (simp add: frame_def)
  also have "\<dots> = (if fcs_of xs = push_bit 8 (ucast hi) OR ucast lo
       then do { (p, w) \<leftarrow> pr_notify call (p'\<lparr>pr_dataLen := of_nat (length xs)\<rparr>) w;
                 Some (pr_reset p, w) }
       else Some (pr_reset p', w))"
    by (auto simp: byte_step_def PROTO_ParseByte_end [OF p'(2,3) len] map_option_bind
        split: Option.bind_split)
  finally show ?thesis using p' by blast
qed


definition demo_parser :: "nat PROTO_PARSER" where
  "demo_parser = \<lparr>pr_buf = replicate 16 0, pr_bufSize = 16, pr_dataLen = 3, pr_isEsc = 1,
     pr_callback = Some 0\<rparr>"

lemma demo_parser_inv: "pr_inv demo_parser"
  by (simp add: demo_parser_def pr_inv_def word_less_nat_alt)


text \<open>Property C17. A damaged payload byte never reaches the application: the frame of
  \<open>xs @ y # ys\<close> under the check sequence of \<open>xs @ x # ys\<close> delivers nothing.\<close>

theorem PROTO_rejects_damage:
  assumes "pr_inv parser" "x \<noteq> y" "0 < length xs + length ys"
    and "length xs + length ys + 3 < unat (pr_bufSize parser)"
    and "fr = frame (xs @ y # ys @ [fcs_lo (fcs_of (xs @ x # ys)), fcs_hi (fcs_of (xs @ x # ys))])"
    and "length fr < 65536"
  shows "\<exists>parser'. PROTO_Parse log_payload parser w fr (of_nat (length fr)) = Some (0, parser', w)
    \<and> pr_inv parser' \<and> pr_data parser' = []"
proof -
  have un: "unat (of_nat (length fr) :: u16) = length fr"
    using assms(6) by (simp add: unat_of_nat take_bit_eq_mod)
  have len: "2 \<le> length (xs @ y # ys)" using assms(3) by (cases xs; cases ys) auto
  from feed_frame [OF assms(1) _ len, of "fcs_lo (fcs_of (xs @ x # ys))" "fcs_hi (fcs_of (xs @ x # ys))"
      log_payload w] assms(2,4)
  obtain p' where p': "pr_inv p'" "feed (byte_step log_payload) (parser, w) fr = Some (pr_reset p', w)"
    by (auto simp: fcs_lo_hi_or assms(5) dest: fcs_of_one_byte [of x y xs ys])
  then have "PROTO_Parse log_payload parser w fr (of_nat (length fr)) = Some (0, pr_reset p', w)"
    by (subst PROTO_Parse_feed) (simp_all add: un)
  with p'(1) show ?thesis by auto
qed

lemma PROTO_rejects_damage_witness:
  "\<exists>parser'. PROTO_Parse log_payload demo_parser [] (frame [1, 3, fcs_lo (fcs_of [1, 2]), fcs_hi (fcs_of [1, 2])])
      (of_nat (length (frame [1, 3, fcs_lo (fcs_of [1, 2]), fcs_hi (fcs_of [1, 2])])))
    = Some (0, parser', []) \<and> pr_inv parser' \<and> pr_data parser' = []"
  using PROTO_rejects_damage [of demo_parser 2 3 "[1]" "[]" _ "[]", OF demo_parser_inv _ _ _ refl]
    length_stuff_le [of "[1, 3, fcs_lo (fcs_of [1, 2]), fcs_hi (fcs_of [1, 2])]"]
  by (simp add: demo_parser_def)

text \<open>Any input, any callback that keeps the parser well formed: no access outside the buffer.\<close>

definition good_callback :: "('f, 'w) callback \<Rightarrow> bool" where
  "good_callback call \<longleftrightarrow> (\<forall>f p w. pr_inv p \<longrightarrow> (\<exists>p' w'. call f p w = Some (p', w') \<and> pr_inv p'))"

lemma FCS_Get_total: "unat len \<le> length cp \<Longrightarrow> \<exists>f. FCS_Get cp len = Some f"
  by (simp add: FCS_Get_fcs_of)

lemma pr_notify_total:
  "good_callback call \<Longrightarrow> pr_inv p \<Longrightarrow> \<exists>p' w'. pr_notify call p w = Some (p', w') \<and> pr_inv p'"
  by (auto simp: pr_notify_def good_callback_def split: option.split)

lemma PROTO_ParseByte_inv:
  assumes "pr_inv p" "good_callback call"
  shows "\<exists>r p' w'. PROTO_ParseByte call p w c = Some (r, p', w') \<and> pr_inv p'"
proof (cases "c = 0x7F \<and> pr_dataLen p \<ge> 4")
  case True
  then have ge: "4 \<le> unat (pr_dataLen p)" by (simp add: word_le_nat_alt)
  have le: "unat (pr_dataLen p) < length (pr_buf p)" "unat (pr_dataLen p) < unat (pr_bufSize p)"
    using assms(1) by (auto simp: pr_inv_def word_less_nat_alt)
  have m: "unat (pr_dataLen p - 2) = unat (pr_dataLen p) - 2"
    using ge unat_minus_of_nat [of 2 "pr_dataLen p"] by simp
  have "unat (ucast (pr_dataLen p - 2) :: u32) = unat (pr_dataLen p) - 2"
    using u16_less_65536 [of "pr_dataLen p - 2"] m
    by (simp add: unsigned_ucast_eq take_bit_nat_eq_self)
  moreover have "unat (pr_dataLen p) - 2 \<le> length (pr_buf p)" using le by simp
  ultimately obtain f where f: "FCS_Get (pr_buf p) (ucast (pr_dataLen p - 2)) = Some f"
    using FCS_Get_total [of "ucast (pr_dataLen p - 2)" "pr_buf p"] by auto
  have inv': "pr_inv (p\<lparr>pr_dataLen := pr_dataLen p - 2\<rparr>)"
    using assms(1) le m by (auto simp: pr_inv_def word_less_nat_alt)
  from pr_notify_total [OF assms(2) inv', of w] obtain p' w' where
    "pr_notify call (p\<lparr>pr_dataLen := pr_dataLen p - 2\<rparr>) w = Some (p', w')" "pr_inv p'" by blast
  with True f le inv' show ?thesis
    by (auto simp: PROTO_ParseByte_def Let_def)
next
  case False
  then show ?thesis using assms(1) pr_store_ok [OF assms(1), of c]
    by (auto simp: PROTO_ParseByte_def) (auto simp: pr_inv_def)
qed

lemma PROTO_ParseByteUnFcs_inv:
  assumes "pr_inv p" "good_callback call"
  shows "\<exists>r p' w'. PROTO_ParseByteUnFcs call p w c = Some (r, p', w') \<and> pr_inv p'"
  using assms(1) pr_store_ok [OF assms(1), of c] pr_notify_total [OF assms(2,1), of w]
  by (auto simp: PROTO_ParseByteUnFcs_def) (auto simp: pr_inv_def)

text \<open>Property C18. The parser never leaves its buffer, on any input of the declared length.\<close>

theorem PROTO_Parse_safe:
  assumes "pr_inv p" "good_callback call" "unat len \<le> length cs"
  shows "\<exists>p' w'. PROTO_Parse call p w cs len = Some (0, p', w') \<and> pr_inv p'"
proof -
  have "\<exists>p' w'. PROTO_Parse_loop call p w cs i n = Some (p', w') \<and> pr_inv p'"
    if "i + n \<le> length cs" "pr_inv p" for i n p and w :: 'b
    using that
  proof (induction n arbitrary: i p w)
    case (Suc n)
    from PROTO_ParseByte_inv [OF Suc.prems(2) assms(2), of w "cs ! i"] obtain r p1 w1 where
      "PROTO_ParseByte call p w (cs ! i) = Some (r, p1, w1)" "pr_inv p1" by blast
    with Suc.IH [of "Suc i" p1 w1] Suc.prems show ?case by auto
  qed simp
  from this [of 0 "unat len" p w] assms show ?thesis by (auto simp: PROTO_Parse_def)
qed

lemma PROTO_Parse_safe_witness:
  "\<exists>p' w'. PROTO_Parse log_payload demo_parser [] [0x7E, 1, 0x7D, 0x7F] 4 = Some (0, p', w') \<and> pr_inv p'"
  by (rule PROTO_Parse_safe [OF demo_parser_inv])
    (auto simp: good_callback_def log_payload_def)

text \<open>The plain encoder and parser agree in the same way.\<close>

definition unfcs_run :: "('f, 'w) callback \<Rightarrow> 'f PROTO_PARSER \<Rightarrow> 'w \<Rightarrow> bytes \<Rightarrow> ('f PROTO_PARSER \<times> 'w) option" where
  "unfcs_run call p w cs = feed (unfcs_step call) (p, w) cs"

text \<open>Without a check sequence, a frame of two or more bytes is delivered as it was
  given to \<open>PROTO_AddUnFcs\<close>.\<close>

theorem PROTO_UnFcs_roundtrip:
  assumes "unat bufSize \<le> length buf" "unat len \<le> length packet" "2 \<le> unat len"
    and fits: "length (frame (take (unat len) packet)) \<le> unat bufSize"
    and "pr_inv parser" "unat len < unat (pr_bufSize parser)" "pr_callback parser = Some f"
  shows "\<exists>n buf' parser'. PROTO_AddUnFcs buf packet bufSize len = Some (n, buf') \<and>
    unfcs_run log_payload parser w (take (unat n) buf') = Some (parser', w @ [take (unat len) packet])"
proof -
  let ?x = "take (unat len) packet"
  have lx: "length ?x = unat len" using assms(2) by simp
  have pos: "0 < bufSize" using fits by (auto simp: word_less_nat_alt)
  from PROTO_AddUnFcs_puts [OF assms(1,2) pos] PROTO_puts_close [OF assms(1) pos, of ?x] fits
  have add: "PROTO_AddUnFcs buf packet bufSize len =
      Some (of_nat (length (frame ?x)), put_bytes buf 0 (frame ?x))"
    by (auto simp del: length_frame)
  have fl: "length (frame ?x) < 65536" using fits u16_less_65536 [of bufSize] by linarith
  then have un: "unat (of_nat (length (frame ?x)) :: u16) = length (frame ?x)"
    by (simp add: unat_of_nat take_bit_eq_mod del: length_frame)
  have tk: "take (length (frame ?x)) (put_bytes buf 0 (frame ?x)) = frame ?x"
    by (simp add: put_bytes_def)
  from plain_parser.reads_frame_body [of "(parser, w)" ?x log_payload] assms(2,5,6)
  obtain p' where p': "feed (unfcs_step log_payload) (parser, w) (0x7E # stuff ?x) = Some (p', w)"
    "pr_inv p'" "pr_data p' = ?x" "pr_callback p' = pr_callback parser" by auto
  have "2 \<le> pr_dataLen p'"
    using pr_data_length [OF p'(2)] lx assms(3) by (simp add: p'(3) word_le_nat_alt)
  then have "unfcs_run log_payload parser w (frame ?x) = Some (pr_reset p', w @ [?x])"
    using p' assms(7) feed_append [of "unfcs_step log_payload" "(parser, w)" "0x7E # stuff ?x" "[0x7F]"]
    by (simp add: unfcs_run_def frame_def unfcs_step_def [of _ "(p', w)"] PROTO_ParseByteUnFcs_def
        pr_notify_def log_payload_def)
  with add show ?thesis by (simp add: un tk del: length_frame)
qed

lemma PROTO_UnFcs_roundtrip_witness:
  "\<exists>n buf' parser'. PROTO_AddUnFcs (replicate 8 0) [0x7E, 1] 8 2 = Some (n, buf') \<and>
    unfcs_run log_payload demo_parser [] (take (unat n) buf') = Some (parser', [[0x7E, 1]])"
  using PROTO_UnFcs_roundtrip [of 8 "replicate 8 0" 2 "[0x7E, 1]" demo_parser 0 "[]"] demo_parser_inv
    length_stuff_le [of "[0x7E, 1]"]
  by (simp add: demo_parser_def)

end
