(* ===== verification/PacketQueue.thy ===== *)
theory PacketQueue
  imports RingBuf Protocol
begin

text \<open>
  The packet queues of \<open>ampm_lib/lib/packet_queue.c\<close>: escaped binary frames and
  dollar-started ASCII strings, stored in a ring buffer.  They are clients of the
  \<open>byte_fifo\<close> contract.  The searching loops are partial functions: a loop that would
  not end, or that leaves the caller's buffer, has the value \<open>None\<close>.
\<close>

section \<open>Binary packets\<close>

text \<open>\<open>RINGBUF_Put\<close> with its return value ignored, as both writers call it.\<close>

definition rb_put :: "RINGBUF \<Rightarrow> u8 \<Rightarrow> RINGBUF option" where
  "rb_put r c = map_option snd (RINGBUF_Put r c)"

fun PQUEUE_Put_loop :: "RINGBUF \<Rightarrow> bytes \<Rightarrow> nat \<Rightarrow> nat \<Rightarrow> u16 \<Rightarrow> (u16 \<times> RINGBUF) option" where
  "PQUEUE_Put_loop r packet p 0 i = Some (i, r)"
| "PQUEUE_Put_loop r packet p (Suc n) i = do {
     c \<leftarrow> rd packet p;
     (c, i, r) \<leftarrow> (if is_ctl c then do { r \<leftarrow> rb_put r 0x7D; Some (c XOR 0x20, i + 1, r) }
                   else Some (c, i, r));
     r \<leftarrow> rb_put r c;
     PQUEUE_Put_loop r packet (Suc p) n (i + 1)
   }"

text \<open>The length is the little-endian half word at the start of the packet.\<close>

definition PQUEUE_Put :: "RINGBUF \<Rightarrow> bytes \<Rightarrow> (int \<times> RINGBUF) option" where
  "PQUEUE_Put r packet = do {
     lo \<leftarrow> rd packet 0;
     hi \<leftarrow> rd packet 1;
     let len = (ucast lo OR push_bit 8 (ucast hi) :: u16);
     r \<leftarrow> rb_put r 0x7E;
     (i, r) \<leftarrow> PQUEUE_Put_loop r packet 0 (unat len) 2;
     r \<leftarrow> rb_put r 0x7F;
     Some (sint i, r)
   }"

text \<open>\<open>do { if(RINGBUF_Get(r,&c)) return -1; } while(c != d)\<close>: \<open>False\<close> is the return.\<close>

partial_function (option) skip_to :: "u8 \<Rightarrow> RINGBUF \<Rightarrow> (bool \<times> RINGBUF) option" where
  "skip_to d r = do {
     (rc, c, r) \<leftarrow> RINGBUF_Get r 0;
     if rc \<noteq> 0 then Some (False, r)
     else if c = d then Some (True, r)
     else skip_to d r
   }"

partial_function (option) PQUEUE_Get_loop ::
  "RINGBUF \<Rightarrow> bytes option \<Rightarrow> nat \<Rightarrow> u16 \<Rightarrow> u16 \<Rightarrow> (int \<times> bytes option \<times> RINGBUF) option" where
  "PQUEUE_Get_loop r buf out bufSize i = do {
     (rc, c, r) \<leftarrow> RINGBUF_Get r 0;
     if rc \<noteq> 0 then Some (-1, buf, r)
     else do {
       (buf, out, bufSize) \<leftarrow>
         (case buf of
            Some b \<Rightarrow> if bufSize \<noteq> 0 then do { b \<leftarrow> wr b out c; Some (Some b, out + 1, bufSize - 1) }
                      else Some (buf, out, bufSize)
          | None \<Rightarrow> Some (buf, out, bufSize));
       if c \<noteq> 0x7F then PQUEUE_Get_loop r buf out bufSize (i + 1)
       else Some (sint (i + 1), buf, r)
     }
   }"

definition PQUEUE_Get :: "RINGBUF \<Rightarrow> bytes option \<Rightarrow> u16 \<Rightarrow> (int \<times> bytes option \<times> RINGBUF) option" where
  "PQUEUE_Get r buf bufSize = do {
     (found, r) \<leftarrow> skip_to 0x7E r;
     if \<not> found then Some (-1, buf, r)
     else do {
       (buf, out) \<leftarrow>
         (case buf of
            Some b \<Rightarrow> if 0 < sint bufSize then do { b \<leftarrow> wr b 0 0x7E; Some (Some b, 1) } else Some (buf, 0)
          | None \<Rightarrow> Some (buf, 0));
       PQUEUE_Get_loop r buf out bufSize 1
     }
   }"

section \<open>ASCII packets\<close>

fun APQUEUE_Put_loop :: "RINGBUF \<Rightarrow> bytes \<Rightarrow> nat \<Rightarrow> nat \<Rightarrow> RINGBUF option" where
  "APQUEUE_Put_loop r packet p 0 = Some r"
| "APQUEUE_Put_loop r packet p (Suc n) = do {
     c \<leftarrow> rd packet p;
     r \<leftarrow> rb_put r c;
     APQUEUE_Put_loop r packet (Suc p) n
   }"

definition APQUEUE_Put :: "RINGBUF \<Rightarrow> bytes \<Rightarrow> (int \<times> RINGBUF) option" where
  "APQUEUE_Put r packet = do {
     n \<leftarrow> strlen packet;
     let len = (of_nat n :: u16);
     r \<leftarrow> APQUEUE_Put_loop r packet 0 (unat len);
     r \<leftarrow> rb_put r 0;
     Some (sint len, r)
   }"

partial_function (option) APQUEUE_Get_loop ::
  "RINGBUF \<Rightarrow> bytes \<Rightarrow> nat \<Rightarrow> u16 \<Rightarrow> u16 \<Rightarrow> (int \<times> bytes \<times> RINGBUF) option" where
  "APQUEUE_Get_loop r buf out bufSize i = do {
     (rc, c, r) \<leftarrow> RINGBUF_Get r 0;
     if rc \<noteq> 0 then Some (-1, buf, r)
     else if c = 0 then Some (sint (i + 1), buf, r)
     else if 0 < sint bufSize then do {
       buf \<leftarrow> wr buf out c;
       APQUEUE_Get_loop r buf (out + 1) (bufSize - 1) (i + 1)
     }
     else APQUEUE_Get_loop r buf out bufSize (i + 1)
   }"

text \<open>The dollar sign is stored before any test of the buffer pointer.\<close>

definition APQUEUE_Get :: "RINGBUF \<Rightarrow> bytes option \<Rightarrow> u16 \<Rightarrow> (int \<times> bytes option \<times> RINGBUF) option" where
  "APQUEUE_Get r buf bufSize = do {
     (found, r) \<leftarrow> skip_to 0x24 r;
     if \<not> found then Some (-1, buf, r)
     else do {
       b \<leftarrow> buf;
       b \<leftarrow> wr b 0 0x24;
       (ret, b, r) \<leftarrow> APQUEUE_Get_loop r b 1 bufSize 0;
       Some (ret, Some b, r)
     }
   }"

section \<open>Writing through the queue contract\<close>

fun q_puts :: "('q \<Rightarrow> u8 \<Rightarrow> 'q option) \<Rightarrow> 'q \<Rightarrow> bytes \<Rightarrow> 'q option" where
  "q_puts put q [] = Some q"
| "q_puts put q (c # cs) = do { q \<leftarrow> put q c; q_puts put q cs }"

lemma q_puts_append: "q_puts put q (xs @ ys) = do { q \<leftarrow> q_puts put q xs; q_puts put q ys }"
proof (induction xs arbitrary: q)
  case (Cons x xs)
  then show ?case by (cases "put q x") auto
qed simp

context byte_fifo begin

lemma puts_take:
  "inv q \<Longrightarrow> \<exists>q'. q_puts (\<lambda>q c. map_option snd (put q c)) q cs = Some q' \<and> inv q'
    \<and> capacity q' = capacity q
    \<and> contents q' = contents q @ take (capacity q - length (contents q)) cs"
proof (induction cs arbitrary: q)
  case (Cons c cs)
  from put_total [OF Cons.prems, of c] obtain rc q1 where q1: "put q c = Some (rc, q1)" "inv q1"
    "capacity q1 = capacity q"
    "contents q1 = (if length (contents q) < capacity q then contents q @ [c] else contents q)"
    by (auto split: if_splits)
  from Cons.IH [OF q1(2)] q1 show ?case
    by (auto simp: take_Cons' split: if_splits)
qed simp

end

lemma rb_put_eta: "(\<lambda>q c. map_option snd (RINGBUF_Put q c)) = rb_put"
  by (simp add: fun_eq_iff rb_put_def)

lemmas rb_puts_take = rb.puts_take [unfolded rb_put_eta]

lemma PQUEUE_Put_loop_puts:
  "p + n \<le> length packet \<Longrightarrow>
   PQUEUE_Put_loop r packet p n i =
     do { r \<leftarrow> q_puts rb_put r (stuff (take n (drop p packet)));
          Some (i + of_nat (length (stuff (take n (drop p packet)))), r) }"
proof (induction n arbitrary: p r i)
  case (Suc n)
  have IH: "PQUEUE_Put_loop r packet (Suc p) n j =
     do { r \<leftarrow> q_puts rb_put r (stuff (take n (drop (Suc p) packet)));
          Some (j + of_nat (length (stuff (take n (drop (Suc p) packet)))), r) }" for r j
    using Suc.prems by (intro Suc.IH) simp
  show ?case using Suc.prems
    by (auto simp: take_Suc_drop IH esc_def q_puts_append ac_simps intro!: Option.bind_cong)
qed simp

text \<open>What a packet with its length in front asks for.\<close>

definition pq_len :: "bytes \<Rightarrow> nat" where
  "pq_len packet = unat (ucast (packet ! 0) OR push_bit 8 (ucast (packet ! 1)) :: u16)"

lemma PQUEUE_Put_puts:
  assumes "2 \<le> length packet" "pq_len packet \<le> length packet"
  shows "PQUEUE_Put r packet =
    do { r \<leftarrow> q_puts rb_put r (frame (take (pq_len packet) packet));
         Some (sint (of_nat (length (frame (take (pq_len packet) packet))) :: u16), r) }"
proof -
  have "packet \<noteq> []" "Suc 0 < length packet" using assms(1) by auto
  then show ?thesis
    using assms(2)
    by (simp add: PQUEUE_Put_def pq_len_def Let_def PQUEUE_Put_loop_puts frame_def q_puts_append
        ac_simps cong: Option.bind_cong)
qed

section \<open>Reading\<close>

lemma skip_to_found:
  "rb_inv r \<Longrightarrow> rb_list r = junk @ d # rest \<Longrightarrow> d \<notin> set junk \<Longrightarrow>
   \<exists>r'. skip_to d r = Some (True, r') \<and> rb_inv r' \<and> rb_list r' = rest \<and> rb_cap r' = rb_cap r"
proof (induction junk arbitrary: r)
  case Nil
  with RINGBUF_Get_cons [of r d rest 0] show ?case by (auto simp: skip_to.simps [of d r])
next
  case (Cons x junk)
  with RINGBUF_Get_cons [of r x "junk @ d # rest" 0] obtain r1 where r1:
    "RINGBUF_Get r 0 = Some (0, x, r1)" "rb_inv r1" "rb_list r1 = junk @ d # rest"
    "rb_cap r1 = rb_cap r" by auto
  with Cons.IH [of r1] Cons.prems show ?case by (auto simp: skip_to.simps [of d r])
qed

lemma skip_to_missing:
  "rb_inv r \<Longrightarrow> rb_list r = xs \<Longrightarrow> d \<notin> set xs \<Longrightarrow>
   \<exists>r'. skip_to d r = Some (False, r') \<and> rb_inv r' \<and> rb_list r' = []"
proof (induction xs arbitrary: r)
  case Nil
  with RINGBUF_Get_empty [of r 0] show ?case by (auto simp: skip_to.simps [of d r])
next
  case (Cons x xs)
  with RINGBUF_Get_cons [of r x xs 0] obtain r1 where r1:
    "RINGBUF_Get r 0 = Some (0, x, r1)" "rb_inv r1" "rb_list r1 = xs" by auto
  with Cons.IH [of r1] Cons.prems show ?case by (auto simp: skip_to.simps [of d r])
qed

lemma unat_dec: "0 < unat (n :: u16) \<Longrightarrow> unat (n - 1) = unat n - 1"
  using unat_minus_of_nat [of 1 n] by simp

lemma sint_pos_unat: "0 < sint (b :: u16) \<Longrightarrow> int (unat b) = sint b"
  using unsigned_less [of b, where 'a = int]
  by (auto simp: sint_uint signed_take_bit_eq_take_bit_minus take_bit_int_eq_self split: if_splits)

lemma word_pos_unat: "0 < unat n \<Longrightarrow> (n :: u16) \<noteq> 0"
  by auto

lemma PQUEUE_Get_loop_ok:
  "rb_inv r \<Longrightarrow> rb_list r = body @ 0x7F # rest \<Longrightarrow> 0x7F \<notin> set body \<Longrightarrow>
   length body < unat bufSize \<Longrightarrow> out + length body < length buf \<Longrightarrow>
   \<exists>r'. PQUEUE_Get_loop r (Some buf) out bufSize i =
     Some (sint (i + of_nat (length body + 1)), Some (put_bytes buf out (body @ [0x7F])), r')
     \<and> rb_inv r' \<and> rb_list r' = rest \<and> rb_cap r' = rb_cap r"
proof (induction body arbitrary: r buf out bufSize i)
  case Nil
  with RINGBUF_Get_cons [of r "0x7F" rest 0] word_pos_unat [of bufSize] show ?case
    by (auto simp: PQUEUE_Get_loop.simps [of r] update_put_bytes)
next
  case (Cons x body)
  with RINGBUF_Get_cons [of r x "body @ 0x7F # rest" 0] obtain r1 where r1:
    "RINGBUF_Get r 0 = Some (0, x, r1)" "rb_inv r1" "rb_list r1 = body @ 0x7F # rest"
    "rb_cap r1 = rb_cap r" by auto
  have pos: "bufSize \<noteq> 0" "0 < unat bufSize" using Cons.prems(4) by auto
  have "\<exists>r'. PQUEUE_Get_loop r1 (Some (put_bytes buf out [x])) (out + 1) (bufSize - 1) (i + 1) =
     Some (sint (i + 1 + of_nat (length body + 1)),
       Some (put_bytes (put_bytes buf out [x]) (out + 1) (body @ [0x7F])), r')
     \<and> rb_inv r' \<and> rb_list r' = rest \<and> rb_cap r' = rb_cap r1"
    using Cons.prems r1 unat_dec [OF pos(2)] by (intro Cons.IH) auto
  moreover have "put_bytes (put_bytes buf out [x]) (out + 1) (body @ [0x7F])
      = put_bytes buf out (x # body @ [0x7F])"
    using Cons.prems put_bytes_append [of out "[x]" "body @ [0x7F]" buf] by simp
  ultimately show ?case using r1 Cons.prems pos
    by (auto simp: PQUEUE_Get_loop.simps [of r] update_put_bytes [symmetric] ac_simps)
qed

lemma PQUEUE_Get_ok:
  assumes "rb_inv r" "rb_list r = junk @ 0x7E # body @ 0x7F # rest"
    and "0x7E \<notin> set junk" "0x7F \<notin> set body"
    and "0 < sint bufSize" "length body < unat bufSize" "length body + 2 \<le> length buf"
  shows "\<exists>r'. PQUEUE_Get r (Some buf) bufSize =
      Some (sint (of_nat (length body + 2) :: u16), Some (put_bytes buf 0 (0x7E # body @ [0x7F])), r')
    \<and> rb_inv r' \<and> rb_list r' = rest"
proof -
  from skip_to_found [OF assms(1,2,3)] obtain r1 where r1: "skip_to 0x7E r = Some (True, r1)"
    "rb_inv r1" "rb_list r1 = body @ 0x7F # rest" by blast
  have ne: "buf \<noteq> []" using assms(7) by auto
  from PQUEUE_Get_loop_ok [OF r1(2,3) assms(4,6), of 1 "put_bytes buf 0 [0x7E]" 1] assms(7)
  obtain r' where "PQUEUE_Get_loop r1 (Some (put_bytes buf 0 [0x7E])) 1 bufSize 1 =
     Some (sint (1 + of_nat (length body + 1) :: u16),
       Some (put_bytes (put_bytes buf 0 [0x7E]) 1 (body @ [0x7F])), r')"
    "rb_inv r'" "rb_list r' = rest" by auto
  moreover have "put_bytes (put_bytes buf 0 [0x7E]) 1 (body @ [0x7F]) = put_bytes buf 0 (0x7E # body @ [0x7F])"
    using assms(7) put_bytes_append [of 0 "[0x7E]" "body @ [0x7F]" buf] by simp
  moreover have "(1 :: u16) + of_nat (length body + 1) = of_nat (length body + 2)" by simp
  ultimately show ?thesis using r1 ne assms(5)
    by (auto simp: PQUEUE_Get_def update_put_bytes [symmetric])
qed

text \<open>The start byte is stored without being counted against \<open>bufSize\<close>.\<close>

lemma PQUEUE_Get_loop_overrun:
  "rb_inv r \<Longrightarrow> rb_list r = body @ rest \<Longrightarrow> 0x7F \<notin> set body \<Longrightarrow> out \<le> length buf \<Longrightarrow>
   length buf - out < unat bufSize \<Longrightarrow> length body = length buf - out \<Longrightarrow> rest \<noteq> [] \<Longrightarrow>
   PQUEUE_Get_loop r (Some buf) out bufSize i = None"
proof (induction body arbitrary: r buf out bufSize i)
  case Nil
  then obtain x xs where "rb_list r = x # xs" by (cases rest) auto
  with Nil RINGBUF_Get_cons [of r x xs 0] word_pos_unat [of bufSize] show ?case
    by (auto simp: PQUEUE_Get_loop.simps [of r])
next
  case (Cons x body)
  with RINGBUF_Get_cons [of r x "body @ rest" 0] obtain r1 where r1:
    "RINGBUF_Get r 0 = Some (0, x, r1)" "rb_inv r1" "rb_list r1 = body @ rest" by auto
  have pos: "bufSize \<noteq> 0" "0 < unat bufSize" using Cons.prems(5,6) by auto
  have "PQUEUE_Get_loop r1 (Some (buf[out := x])) (Suc out) (bufSize - 1) (i + 1) = None"
    using Cons.prems r1 unat_dec [OF pos(2)] by (intro Cons.IH) auto
  then show ?case using r1 Cons.prems pos by (simp add: PQUEUE_Get_loop.simps [of r])
qed

section \<open>Properties of the packet queues\<close>

text \<open>\<open>PQUEUE_Put\<close> appends the escaped frame of the packet as far as it fits and
  reports the length of the whole frame even when bytes were dropped.\<close>

theorem PQUEUE_Put_stores:
  assumes "rb_inv r" "2 \<le> length packet" "pq_len packet \<le> length packet"
  shows "\<exists>r'. PQUEUE_Put r packet =
      Some (sint (of_nat (length (frame (take (pq_len packet) packet))) :: u16), r')
    \<and> rb_inv r'
    \<and> rb_list r' = rb_list r @ take (rb_cap r - length (rb_list r)) (frame (take (pq_len packet) packet))"
  using rb_puts_take [OF assms(1), of "frame (take (pq_len packet) packet)"]
  by (auto simp: PQUEUE_Put_puts [OF assms(2,3)])

definition demo_queue :: RINGBUF where
  "demo_queue = \<lparr>rb_head = 0, rb_tail = 0, rb_size = 12, rb_pt = replicate 12 0\<rparr>"

lemma demo_queue: "rb_inv demo_queue" "rb_list demo_queue = []" "rb_cap demo_queue = 11"
  by (simp_all add: demo_queue_def rb_inv_def rb_list_def rb_cap_def rb_fill_def)

lemma PQUEUE_Put_stores_witness:
  "\<exists>r'. PQUEUE_Put demo_queue [3, 0, 0x7E] = Some (6, r')
    \<and> rb_inv r' \<and> rb_list r' = [0x7E, 3, 0, 0x7D, 0x5E, 0x7F]"
  using PQUEUE_Put_stores [OF demo_queue(1), of "[3, 0, 0x7E]"]
  by (simp add: pq_len_def demo_queue frame_def esc_def is_ctl_def)

text \<open>Property C32. On an empty queue with room, \<open>PQUEUE_Get\<close> returns the frame that
  \<open>PQUEUE_Put\<close> stored, with its length, and leaves the queue empty.\<close>

theorem PQUEUE_roundtrip:
  assumes inv: "rb_inv r" and "rb_list r = []" "2 \<le> length packet" "pq_len packet \<le> length packet"
    and fr: "fr = frame (take (pq_len packet) packet)"
    and "length fr \<le> rb_cap r" "length fr \<le> length buf" "int (length fr) \<le> sint bufSize + 1"
      "0 < sint bufSize"
  shows "\<exists>r1 r2. PQUEUE_Put r packet = Some (sint (of_nat (length fr) :: u16), r1)
    \<and> PQUEUE_Get r1 (Some buf) bufSize =
        Some (sint (of_nat (length fr) :: u16), Some (put_bytes buf 0 fr), r2)
    \<and> rb_inv r2 \<and> rb_list r2 = []"
proof -
  let ?b = "stuff (take (pq_len packet) packet)"
  from rb_puts_take [OF inv, of "frame (take (pq_len packet) packet)"] assms(2,6)
  obtain r1 where r1: "PQUEUE_Put r packet = Some (sint (of_nat (length fr) :: u16), r1)"
    "rb_inv r1" "rb_list r1 = fr"
    by (auto simp: PQUEUE_Put_puts [OF assms(3,4)] fr simp del: length_frame)
  have u: "int (unat bufSize) = sint bufSize"
    using assms(9) by (rule sint_pos_unat)
  have "length fr = length ?b + 2" by (simp add: fr)
  with assms(8) u have "length ?b < unat bufSize" by linarith
  then have "\<exists>r'. PQUEUE_Get r1 (Some buf) bufSize =
      Some (sint (of_nat (length ?b + 2) :: u16), Some (put_bytes buf 0 (0x7E # ?b @ [0x7F])), r')
    \<and> rb_inv r' \<and> rb_list r' = []"
    using r1 assms(7,9) stuff_not_delimiter
    by (intro PQUEUE_Get_ok [of _ "[]"]) (auto simp: fr frame_def)
  with r1(1) show ?thesis by (auto simp: fr frame_def)
qed

lemma demo_packet: "pq_len [3, 0, 0x7E] = 3"
  by (simp add: pq_len_def)

lemma PQUEUE_roundtrip_witness:
  "\<exists>r1 r2. PQUEUE_Put demo_queue [3, 0, 0x7E] = Some (6, r1)
    \<and> PQUEUE_Get r1 (Some [0, 0, 0, 0, 0, 0, 0, 0]) 8
        = Some (6, Some [0x7E, 3, 0, 0x7D, 0x5E, 0x7F, 0, 0], r2)
    \<and> rb_inv r2 \<and> rb_list r2 = []"
  using PQUEUE_roundtrip [OF demo_queue(1,2), of "[3, 0, 0x7E]" _ "[0, 0, 0, 0, 0, 0, 0, 0]" 8,
      OF _ _ refl]
  unfolding demo_packet(1)
  by (simp add: demo_queue put_bytes_def frame_def esc_def is_ctl_def)

text \<open>A queued frame longer than the buffer makes \<open>PQUEUE_Get\<close> write one byte past
  the end of a buffer of exactly \<open>bufSize\<close> bytes.\<close>

theorem PQUEUE_Get_overruns:
  assumes "rb_inv r" "rb_list r = 0x7E # body @ rest" "0x7F \<notin> set body" "rest \<noteq> []"
    and "length buf = unat bufSize" "0 < sint bufSize" "length body + 1 = unat bufSize"
  shows "PQUEUE_Get r (Some buf) bufSize = None"
proof -
  from skip_to_found [OF assms(1), of "[]" "0x7E"] assms(2) obtain r1 where r1:
    "skip_to 0x7E r = Some (True, r1)" "rb_inv r1" "rb_list r1 = body @ rest" by auto
  have "buf \<noteq> []" using assms(5,7) by auto
  moreover have "PQUEUE_Get_loop r1 (Some (buf[0 := 0x7E])) 1 bufSize 1 = None"
    using r1 assms by (intro PQUEUE_Get_loop_overrun [of _ body rest]) auto
  ultimately show ?thesis using r1 assms(6) by (simp add: PQUEUE_Get_def)
qed

lemma PQUEUE_Get_overruns_witness:
  "PQUEUE_Get \<lparr>rb_head = 4, rb_tail = 0, rb_size = 6, rb_pt = [0x7E, 1, 2, 0x7F, 0, 0]\<rparr>
     (Some [0, 0, 0]) 3 = None"
  by (rule PQUEUE_Get_overruns [of _ "[1, 2]" "[0x7F]"])
     (simp_all add: rb_inv_def rb_list_def rb_fill_def upt_conv_Cons)

end
