(* ===== verification/Encoding.thy ===== *)
theory Encoding
  imports Prelude
begin

text \<open>
  The UCS-2 and UTF-8 conversions of \<open>ampm_lib/lib/encoding.c\<close>.  A C \<open>int\<close> is an
  unbounded integer here: every value the routines compute lies between -1 and \<open>0x10FFFF\<close>.
  A pointer into a buffer is the buffer and an index.
\<close>

section \<open>Half word strings\<close>

function unilen_loop :: "u16 list \<Rightarrow> nat \<Rightarrow> u16 option" where
  "unilen_loop uni di = do {
     c \<leftarrow> rd uni di;
     if c = 0 then Some (of_nat di)
     else if di + 1 \<ge> 128 then Some 0
     else unilen_loop uni (di + 1)
   }"
  by auto
termination by (relation "measure (\<lambda>(uni, di). 128 - di)") auto

definition unilen :: "u16 list \<Rightarrow> u16 option" where
  "unilen uni = unilen_loop uni 0"

text \<open>Exchanging the two bytes of a half word in place.\<close>

definition swap16 :: "u16 \<Rightarrow> u16" where
  "swap16 w = push_bit 8 w OR drop_bit 8 w"

fun big2litel_endian_loop :: "u16 list \<Rightarrow> nat \<Rightarrow> nat \<Rightarrow> u16 list option" where
  "big2litel_endian_loop da i 0 = Some da"
| "big2litel_endian_loop da i (Suc n) = do {
     w \<leftarrow> rd da i;
     da \<leftarrow> wr da i (swap16 w);
     big2litel_endian_loop da (Suc i) n
   }"

definition big2litel_endian :: "u16 list \<Rightarrow> u16 \<Rightarrow> (u16 \<times> u16 list) option" where
  "big2litel_endian da len = do {
     da \<leftarrow> big2litel_endian_loop da 0 (unat len);
     Some (0, da)
   }"

text \<open>
  The search for \<open>s2\<close> in \<open>s1\<close>: \<open>i\<close> and \<open>j\<close> are the two pointers, \<open>res\<close> the
  candidate position.
\<close>

partial_function (option) uni_srtsrt_loop ::
  "u16 list \<Rightarrow> u16 list \<Rightarrow> nat \<Rightarrow> nat \<Rightarrow> nat option \<Rightarrow> nat option option" where
  "uni_srtsrt_loop s1 s2 i j res = do {
     a \<leftarrow> rd s1 i;
     b \<leftarrow> rd s2 j;
     (stop, j, res) \<leftarrow>
       (if a = b then do {
          let res = (case res of None \<Rightarrow> Some i | Some r \<Rightarrow> Some r);
          b' \<leftarrow> rd s2 (j + 1);
          Some (b' = 0, j + 1, res)
        }
        else Some (False, 0, None));
     if stop then Some res
     else do {
       a' \<leftarrow> rd s1 (i + 1);
       if a' = 0 then Some res else uni_srtsrt_loop s1 s2 (i + 1) j res
     }
   }"

definition uni_srtsrt :: "u16 list \<Rightarrow> u16 list \<Rightarrow> nat option option" where
  "uni_srtsrt s1 s2 = uni_srtsrt_loop s1 s2 0 0 None"

section \<open>UTF-8\<close>

text \<open>The value and the end pointer; the end pointer stays at the input on failure.\<close>

definition utf8_to_ucs2 :: "bytes \<Rightarrow> nat \<Rightarrow> (int \<times> nat) option" where
  "utf8_to_ucs2 input p = do {
     b0 \<leftarrow> rd input p;
     if b0 = 0 then Some (-1, p)
     else if b0 < 0x80 then Some (uint b0, p + 1)
     else if b0 AND 0xE0 = 0xE0 then do {
       b1 \<leftarrow> rd input (p + 1);
       if b1 = 0 then Some (-1, p)
       else do {
         b2 \<leftarrow> rd input (p + 2);
         if b2 = 0 then Some (-1, p)
         else Some (push_bit 12 (uint b0 AND 0x0F) OR push_bit 6 (uint b1 AND 0x3F) OR (uint b2 AND 0x3F),
                    p + 3)
       }
     }
     else if b0 AND 0xC0 = 0xC0 then do {
       b1 \<leftarrow> rd input (p + 1);
       if b1 = 0 then Some (-1, p)
       else Some (push_bit 6 (uint b0 AND 0x1F) OR (uint b1 AND 0x3F), p + 2)
     }
     else Some (-1, p)
   }"

text \<open>Each code unit is stored before it is compared with -1, in 16 bits.\<close>

partial_function (option) utf8s_to_ucs2s_loop ::
  "u16 list \<Rightarrow> nat \<Rightarrow> bytes \<Rightarrow> nat \<Rightarrow> u16 \<Rightarrow> (u16 \<times> u16 list) option" where
  "utf8s_to_ucs2s_loop out k input p len = do {
     (c, next) \<leftarrow> utf8_to_ucs2 input p;
     out \<leftarrow> wr out k (word_of_int c);
     if (word_of_int c :: u16) = -1 then do {
       out \<leftarrow> wr out k 0;
       Some (len, out)
     }
     else utf8s_to_ucs2s_loop out (k + 1) input next (len + 1)
   }"

definition utf8s_to_ucs2s :: "u16 list \<Rightarrow> bytes \<Rightarrow> (int \<times> u16 list) option" where
  "utf8s_to_ucs2s out input = do {
     out \<leftarrow> wr out 0 0;
     (len, out) \<leftarrow> utf8s_to_ucs2s_loop out 0 input 0 0;
     Some (uint len, out)
   }"

fun wrs :: "bytes \<Rightarrow> nat \<Rightarrow> int list \<Rightarrow> bytes option" where
  "wrs b i [] = Some b"
| "wrs b i (v # vs) = do { b \<leftarrow> wr b i (word_of_int v); wrs b (Suc i) vs }"

definition ucs2_to_utf8 :: "int \<Rightarrow> bytes \<Rightarrow> (int \<times> bytes) option" where
  "ucs2_to_utf8 ucs2 utf8 =
     (if ucs2 < 0x80 then do {
        utf8 \<leftarrow> wrs utf8 0 [ucs2, 0];
        Some (1, utf8)
      }
      else if ucs2 \<ge> 0x80 \<and> ucs2 < 0x800 then do {
        utf8 \<leftarrow> wrs utf8 0 [drop_bit 6 ucs2 OR 0xC0, (ucs2 AND 0x3F) OR 0x80, 0];
        Some (2, utf8)
      }
      else if ucs2 \<ge> 0x800 \<and> ucs2 < 0xFFFF then
        (if ucs2 \<ge> 0xD800 \<and> ucs2 \<le> 0xDFFF then Some (0, utf8)
         else do {
           utf8 \<leftarrow> wrs utf8 0 [drop_bit 12 ucs2 OR 0xE0, (drop_bit 6 ucs2 AND 0x3F) OR 0x80,
                               (ucs2 AND 0x3F) OR 0x80, 0];
           Some (3, utf8)
         })
      else if ucs2 \<ge> 0x10000 \<and> ucs2 < 0x10FFFF then do {
        utf8 \<leftarrow> wrs utf8 0 [0xF0 OR drop_bit 18 ucs2, 0x80 OR (drop_bit 12 ucs2 AND 0x3F),
                            0x80 OR (drop_bit 6 ucs2 AND 0x3F), 0x80 OR (ucs2 AND 0x3F), 0];
        Some (4, utf8)
      }
      else Some (-1, utf8))"

section \<open>Bits as arithmetic\<close>

lemma and_3F: "(x :: int) AND 0x3F = x mod 64"
  using take_bit_eq_mask [of 6 x] by (simp add: mask_eq_exp_minus_1 take_bit_eq_mod)

lemma and_1F: "(x :: int) AND 0x1F = x mod 32"
  using take_bit_eq_mask [of 5 x] by (simp add: mask_eq_exp_minus_1 take_bit_eq_mod)

lemma and_0F: "(x :: int) AND 0x0F = x mod 16"
  using take_bit_eq_mask [of 4 x] by (simp add: mask_eq_exp_minus_1 take_bit_eq_mod)

lemma int_bit_bound: "0 \<le> x \<Longrightarrow> x < 2 ^ k \<Longrightarrow> bit (x :: int) n \<Longrightarrow> n < k"
  by (metis bit_take_bit_iff take_bit_int_eq_self)

lemma or_shift:
  assumes "0 \<le> (x :: int)" "x < 2 ^ k"
  shows "x OR 2 ^ k * y = x + 2 ^ k * y" "2 ^ k * y OR x = 2 ^ k * y + x"
proof -
  have "\<not> bit x n \<or> \<not> bit (push_bit k y) n" for n
    using int_bit_bound [OF assms, of n] by (auto simp: bit_push_bit_iff)
  then have "x + push_bit k y = x OR push_bit k y"
    by (intro disjunctive_add) auto
  then show "x OR 2 ^ k * y = x + 2 ^ k * y" "2 ^ k * y OR x = 2 ^ k * y + x"
    by (simp_all add: push_bit_eq_mult ac_simps)
qed

lemma or_C0: "0 \<le> x \<Longrightarrow> x < 64 \<Longrightarrow> (x :: int) OR 0xC0 = x + 0xC0"
  using or_shift(1) [of x 6 3] by simp

lemma or_80: "0 \<le> x \<Longrightarrow> x < 128 \<Longrightarrow> (x :: int) OR 0x80 = x + 0x80"
  using or_shift(1) [of x 7 1] by simp

lemma or_E0: "0 \<le> x \<Longrightarrow> x < 32 \<Longrightarrow> (x :: int) OR 0xE0 = x + 0xE0"
  using or_shift(1) [of x 5 7] by simp

lemma and_high: "0 \<le> x \<Longrightarrow> x < 2 ^ (k + m) \<Longrightarrow> (x :: int) AND (2 ^ (k + m) - 2 ^ k) = 2 ^ k * (x div 2 ^ k)"
proof -
  assume x: "0 \<le> x" "x < 2 ^ (k + m)"
  have "(2 :: int) ^ (k + m) - 2 ^ k = push_bit k (mask m)"
    by (simp add: push_bit_eq_mult mask_eq_exp_minus_1 power_add algebra_simps)
  moreover have "x AND push_bit k (mask m) = push_bit k (drop_bit k x)"
    using int_bit_bound [OF x]
    by (intro bit_eqI) (auto simp: bit_simps less_diff_conv2 add.commute)
  ultimately show ?thesis by (simp add: push_bit_eq_mult drop_bit_eq_div)
qed

lemma u8_uint_256: "uint (b :: u8) < 256"
  using unsigned_less [of b, where 'a = int] by simp

lemma uint_eq_numeral: "b = numeral n \<longleftrightarrow> uint (b :: u8) = uint (numeral n :: u8)"
  by (rule word_uint_eq_iff)

lemma u8_and_E0: "(b :: u8) AND 0xE0 = 0xE0 \<longleftrightarrow> 0xE0 \<le> uint b"
proof -
  have u: "uint (b AND 0xE0) = 32 * (uint b div 32)"
    using and_high [of "uint b" 5 3] u8_uint_256 [of b] by (simp add: uint_and)
  show ?thesis using u8_uint_256 [of b] by (auto simp: uint_eq_numeral u)
qed

lemma u8_and_C0: "(b :: u8) AND 0xC0 = 0xC0 \<longleftrightarrow> 0xC0 \<le> uint b"
proof -
  have u: "uint (b AND 0xC0) = 64 * (uint b div 64)"
    using and_high [of "uint b" 6 2] u8_uint_256 [of b] by (simp add: uint_and)
  show ?thesis using u8_uint_256 [of b] by (auto simp: uint_eq_numeral u)
qed

section \<open>Round trip\<close>

text \<open>The UTF-8 encoding of a code point below \<open>0x10000\<close>, by arithmetic.\<close>

definition utf8_bytes :: "int \<Rightarrow> bytes" where
  "utf8_bytes c =
     (if c < 0x80 then [word_of_int c]
      else if c < 0x800 then [word_of_int (c div 64 + 0xC0), word_of_int (c mod 64 + 0x80)]
      else [word_of_int (c div 4096 + 0xE0), word_of_int (c div 64 mod 64 + 0x80),
            word_of_int (c mod 64 + 0x80)])"

text \<open>The code points the encoder writes in at most three bytes.\<close>

definition encodable :: "int \<Rightarrow> bool" where
  "encodable c \<longleftrightarrow> 0 < c \<and> c < 0xFFFF \<and> \<not> (0xD800 \<le> c \<and> c \<le> 0xDFFF)"

lemma wrs_list:
  "i + length vs \<le> length b \<Longrightarrow>
   wrs b i vs = Some (take i b @ map word_of_int vs @ drop (i + length vs) b)"
proof (induction vs arbitrary: b i)
  case (Cons v vs)
  then show ?case
    by (simp add: upd_conv_take_nth_drop add.commute)
qed simp

lemma ucs2_to_utf8_bytes:
  assumes "encodable c" "4 \<le> length b"
  shows "ucs2_to_utf8 c b = Some (int (length (utf8_bytes c)),
    utf8_bytes c @ 0 # drop (Suc (length (utf8_bytes c))) b)"
proof -
  have c: "0 < c" "c < 0xFFFF" using assms(1) by (auto simp: encodable_def)
  have "c div 64 mod 64 < 128" "0 \<le> c div 64 mod 64" "c mod 64 < 128" "0 \<le> c mod 64"
    by (auto intro: order_less_trans [of _ 64])
  then show ?thesis
    using assms c
    by (auto simp: ucs2_to_utf8_def wrs_list utf8_bytes_def and_3F or_80 drop_bit_eq_div encodable_def
        or_C0 or_E0 simp del: wrs.simps)
qed

lemma uint_word_of_int_u8: "0 \<le> x \<Longrightarrow> x < 256 \<Longrightarrow> uint (word_of_int x :: u8) = x"
  by (simp add: uint_word_of_int take_bit_int_eq_self)

lemma mod_marks:
  "0 \<le> q \<Longrightarrow> q < 32 \<Longrightarrow> (q + 0xC0) mod 32 = (q :: int)"
  "0 \<le> q \<Longrightarrow> q < 64 \<Longrightarrow> (q + 0x80) mod 64 = (q :: int)"
  "0 \<le> q \<Longrightarrow> q < 16 \<Longrightarrow> (q + 0xE0) mod 16 = (q :: int)"
  using mod_mult_self2 [of q 32 6] mod_mult_self2 [of q 64 2] mod_mult_self2 [of q 16 14]
  by simp_all

lemma div_mod_4096: "64 * (c div 64 mod 64) + c mod 64 = c mod (4096 :: int)"
  using zmod_zmult2_eq [of 64 c 64] by simp

lemma decode1:
  assumes "0 < c" "c < 0x80"
  shows "utf8_to_ucs2 (pre @ word_of_int c # post) (length pre) = Some (c, length pre + 1)"
proof -
  let ?b0 = "word_of_int c :: u8"
  have u: "uint ?b0 = c" by (rule uint_word_of_int_u8) (use assms in simp_all)
  have "?b0 \<noteq> 0" "?b0 < 0x80"
    using u assms by (auto simp: word_uint_eq_iff word_less_def)
  then show ?thesis by (simp add: utf8_to_ucs2_def nth_append u)
qed

lemma decode2:
  assumes "uint b0 = x + 0xC0" "uint b1 = y + 0x80" "0 \<le> x" "x < 32" "0 \<le> y" "y < 64"
  shows "utf8_to_ucs2 (pre @ b0 # b1 # post) (length pre) = Some (64 * x + y, length pre + 2)"
proof -
  have nz: "b0 \<noteq> 0" "b1 \<noteq> 0" "\<not> b0 < 0x80"
    using assms by (auto simp: word_uint_eq_iff word_less_def)
  have hi: "b0 AND 0xE0 \<noteq> 0xE0" "b0 AND 0xC0 = 0xC0"
    using assms by (simp_all add: u8_and_E0 u8_and_C0)
  have v: "uint b0 AND 0x1F = x" "uint b1 AND 0x3F = y"
    using assms by (simp_all add: and_1F and_3F mod_marks)
  have "push_bit 6 x OR y = 64 * x + y"
    using or_shift(2) [of y 6 x] assms by (simp add: push_bit_eq_mult mult.commute)
  then show ?thesis using nz hi by (simp add: utf8_to_ucs2_def nth_append v)
qed

lemma decode3:
  assumes "uint b0 = x + 0xE0" "uint b1 = y + 0x80" "uint b2 = z + 0x80"
    and "0 \<le> x" "x < 16" "0 \<le> y" "y < 64" "0 \<le> z" "z < 64"
  shows "utf8_to_ucs2 (pre @ b0 # b1 # b2 # post) (length pre) =
    Some (4096 * x + 64 * y + z, length pre + 3)"
proof -
  have nz: "b0 \<noteq> 0" "b1 \<noteq> 0" "b2 \<noteq> 0" "\<not> b0 < 0x80"
    using assms by (auto simp: word_uint_eq_iff word_less_def)
  have hi: "b0 AND 0xE0 = 0xE0" using assms by (simp add: u8_and_E0)
  have v: "uint b0 AND 0x0F = x" "uint b1 AND 0x3F = y" "uint b2 AND 0x3F = z"
    using assms by (simp_all add: and_0F and_3F mod_marks)
  have "push_bit 6 y OR z = 64 * y + z"
    using or_shift(2) [of z 6 y] assms by (simp add: push_bit_eq_mult mult.commute)
  moreover have "push_bit 12 x OR (64 * y + z) = 4096 * x + (64 * y + z)"
    using or_shift(2) [of "64 * y + z" 12 x] assms by (simp add: push_bit_eq_mult mult.commute)
  ultimately show ?thesis using nz hi by (simp add: utf8_to_ucs2_def nth_append v)
qed

lemma utf8_to_ucs2_bytes:
  assumes "encodable c"
  shows "utf8_to_ucs2 (pre @ utf8_bytes c @ post) (length pre) =
    Some (c, length pre + length (utf8_bytes c))"
proof -
  have c: "0 < c" "c < 0xFFFF" using assms by (auto simp: encodable_def)
  consider "c < 0x80" | "0x80 \<le> c" "c < 0x800" | "0x800 \<le> c" by linarith
  then show ?thesis
  proof cases
    case 1
    then show ?thesis using c by (simp add: utf8_bytes_def decode1)
  next
    case 2
    have "utf8_to_ucs2 (pre @ word_of_int (c div 64 + 0xC0) # word_of_int (c mod 64 + 0x80) # post)
        (length pre) = Some (64 * (c div 64) + c mod 64, length pre + 2)"
      using 2 by (intro decode2 uint_word_of_int_u8) simp_all
    then show ?thesis using 2 by (simp add: utf8_bytes_def del: of_int_add)
  next
    case 3
    have "utf8_to_ucs2 (pre @ word_of_int (c div 4096 + 0xE0) # word_of_int (c div 64 mod 64 + 0x80)
        # word_of_int (c mod 64 + 0x80) # post) (length pre)
      = Some (4096 * (c div 4096) + 64 * (c div 64 mod 64) + c mod 64, length pre + 3)"
      using 3 c by (intro decode3 uint_word_of_int_u8) simp_all
    moreover have "4096 * (c div 4096) + 64 * (c div 64 mod 64) + c mod 64 = c"
      using div_mod_4096 [of c] by (simp add: add.assoc)
    ultimately show ?thesis using 3 by (simp add: utf8_bytes_def del: of_int_add)
  qed
qed

lemma utf8s_to_ucs2s_loop_ok:
  "list_all encodable cs \<Longrightarrow> k + length cs < length out \<Longrightarrow> input = pre @ concat (map utf8_bytes cs) @ 0 # post \<Longrightarrow>
   utf8s_to_ucs2s_loop out k input (length pre) len =
     Some (len + of_nat (length cs), take k out @ map word_of_int cs @ 0 # drop (Suc (k + length cs)) out)"
proof (induction cs arbitrary: k out pre len)
  case Nil
  then have "utf8_to_ucs2 input (length pre) = Some (-1, length pre)"
    by (simp add: utf8_to_ucs2_def nth_append)
  then show ?case using Nil
    by (simp add: utf8s_to_ucs2s_loop.simps [of out] upd_conv_take_nth_drop)
next
  case (Cons c cs)
  have c: "encodable c" using Cons.prems by simp
  have d: "utf8_to_ucs2 input (length pre) = Some (c, length (pre @ utf8_bytes c))"
    using utf8_to_ucs2_bytes [OF c, of pre "concat (map utf8_bytes cs) @ 0 # post"] Cons.prems(3)
    by simp
  have ne: "(word_of_int c :: u16) \<noteq> -1"
  proof -
    have "uint (word_of_int c :: u16) = c" using c
      by (simp add: encodable_def uint_word_of_int take_bit_int_eq_self)
    moreover have "uint (-1 :: u16) = 0xFFFF" by (simp add: uint_word_ariths)
    ultimately show ?thesis using c by (auto simp: encodable_def)
  qed
  have "utf8s_to_ucs2s_loop (out[k := word_of_int c]) (k + 1) input (length (pre @ utf8_bytes c)) (len + 1)
      = Some (len + 1 + of_nat (length cs), take (k + 1) (out[k := word_of_int c]) @ map word_of_int cs
          @ 0 # drop (Suc (k + 1 + length cs)) (out[k := word_of_int c]))"
    using Cons.prems by (intro Cons.IH) simp_all
  then show ?case using Cons.prems(2) d ne
    by (simp add: utf8s_to_ucs2s_loop.simps [of out] upd_conv_take_nth_drop ac_simps)
qed

section \<open>Properties of the conversions\<close>



text \<open>A whole UTF-8 text is decoded to its code points, zero terminated, without
  writing past an output of one more cell than there are code points.\<close>

theorem utf8s_to_ucs2s_decodes:
  assumes "list_all encodable cs" "length cs < length out" "length cs < 65536"
  shows "utf8s_to_ucs2s out (concat (map utf8_bytes cs) @ 0 # post) =
    Some (int (length cs), map word_of_int cs @ 0 # drop (Suc (length cs)) out)"
proof -
  have "out \<noteq> []" using assms(2) by auto
  with utf8s_to_ucs2s_loop_ok [OF assms(1), of 0 "out[0 := 0]" _ "[]" post 0] assms(2,3)
  show ?thesis
    by (simp add: utf8s_to_ucs2s_def unsigned_of_nat take_bit_nat_eq_self)
qed

lemma utf8s_to_ucs2s_decodes_witness:
  "utf8s_to_ucs2s [9, 9, 9, 9] ([0x41, 0xC3, 0xA9] @ [0]) = Some (2, [0x41, 0xE9, 0, 9])"
  using utf8s_to_ucs2s_decodes [of "[0x41, 0xE9]" "[9, 9, 9, 9]" "[]"]
  by (simp add: encodable_def utf8_bytes_def)

lemma swap16_swap16: "swap16 (swap16 w) = w"
  by (rule bit_word_eqI) (auto simp: swap16_def bit_simps dest: bit_imp_le_length)

lemma big2litel_endian_loop_map:
  "i + n \<le> length da \<Longrightarrow> big2litel_endian_loop da i n =
     Some (take i da @ map swap16 (take n (drop i da)) @ drop (i + n) da)"
proof (induction n arbitrary: i da)
  case (Suc n)
  have t: "take (Suc n) (drop i da) = da ! i # take n (drop (Suc i) da)"
    using Suc.prems by (simp add: take_Suc_drop)
  show ?case using Suc.prems
    by (simp add: Suc.IH t upd_conv_take_nth_drop add.commute)
qed simp

text \<open>\<open>big2litel_endian\<close> exchanges the bytes of the first \<open>len\<close> half words, and
  doing so twice restores them.\<close>

theorem big2litel_endian_involution:
  assumes "unat len \<le> length da"
  shows "\<exists>da'. big2litel_endian da len = Some (0, da') \<and> length da' = length da
    \<and> big2litel_endian da' len = Some (0, da)"
  using assms
  by (simp add: big2litel_endian_def big2litel_endian_loop_map comp_def swap16_swap16)

lemma unilen_loop_ok:
  "di \<le> n \<Longrightarrow> n < length uni \<Longrightarrow> (\<forall>j<n. uni ! j \<noteq> 0) \<Longrightarrow> uni ! n = 0 \<Longrightarrow> di < 128 \<Longrightarrow>
   unilen_loop uni di = Some (if n < 128 then of_nat n else 0)"
proof (induction uni di rule: unilen_loop.induct)
  case (1 uni di)
  show ?case
  proof (cases "di = n")
    case False
    with 1 show ?thesis by (subst unilen_loop.simps) (auto simp: less_Suc_eq)
  qed (use 1 in simp)
qed

lemma big2litel_endian_involution_witness:
  "\<exists>da'. big2litel_endian [0x1234, 0x00FF] 2 = Some (0, da') \<and> length da' = length [0, 0 :: u16]
    \<and> big2litel_endian da' 2 = Some (0, [0x1234, 0x00FF])"
  using big2litel_endian_involution [of 2 "[0x1234, 0x00FF]"] by simp

text \<open>The encoder answers 0, not -1, for surrogates, and refuses the last code
  point of the basic plane and of Unicode.\<close>

theorem ucs2_to_utf8_refuses:
  assumes "5 \<le> length b"
  shows "\<exists>r b'. ucs2_to_utf8 c b = Some (r, b') \<and> r \<in> {-1..4}
    \<and> (r = 0 \<longleftrightarrow> 0xD800 \<le> c \<and> c \<le> 0xDFFF) \<and> (r = -1 \<longleftrightarrow> c = 0xFFFF \<or> 0x10FFFF \<le> c)"
proof -
  have w: "wrs b 0 vs = Some (map word_of_int vs @ drop (length vs) b)" if "length vs \<le> 5" for vs
    using wrs_list [of 0 vs b] that assms by simp
  show ?thesis
    by (auto simp: ucs2_to_utf8_def w simp del: wrs.simps)
qed

lemma ucs2_to_utf8_refuses_witness:
  "\<exists>r b'. ucs2_to_utf8 0xFFFF [0, 0, 0, 0, 0] = Some (r, b') \<and> r = -1"
  using ucs2_to_utf8_refuses [of "[0, 0, 0, 0, 0]" "0xFFFF"] by auto

end
