(* ===== verification/Gps.thy ===== *)
theory Gps
  imports RingBuf
begin

text \<open>
  The GPS receiver of \<open>ampm_lib/gps/ampm_gps.c\<close>: the collector that finds RMC, GGA, GSA
  and GSV sentences in the byte stream and checks their check sum, the scanner
  \<open>nmea_scanf\<close> that takes the fields of a sentence apart, and the functions that merge a
  sentence into the summary \<open>nmeaINFO\<close>.

  Floating point.  Isabelle's library has no IEEE arithmetic, so the operations on \<open>double\<close>
  that the code uses are the fields of a record \<open>fpu\<close>, an argument of every function that
  computes with them: the model fixes which operations are applied to what, in which order, and
  leaves their rounding to the processor.

  Integers of type \<open>int\<close> are \<open>int\<close>, and \<open>i32\<close> is undefined where a
  result leaves the 32 bits (a signed overflow in C).  The counters \<open>GPS_cmdCnt\<close> and
  \<open>GPS_cmdRecvLength\<close> never exceed 80 and are natural numbers.  The sentence
  structures, which all lie in \<open>GPS_Buff\<close> and are cleared before each use, are local values;
  the pointers to them and \<open>lastGpsInfo\<close> are not read by this file and are left out.
\<close>

section \<open>Floating point operations and C library functions\<close>

record 'd fpu =
  fp_strtod :: "bytes \<Rightarrow> 'd"
  fp_const :: "string \<Rightarrow> 'd"
  fp_of_u32 :: "u32 \<Rightarrow> 'd"
  fp_to_u32 :: "'d \<Rightarrow> u32 option"
  fp_floor :: "'d \<Rightarrow> 'd"
  fp_neg :: "'d \<Rightarrow> 'd"
  fp_add :: "'d \<Rightarrow> 'd \<Rightarrow> 'd"
  fp_sub :: "'d \<Rightarrow> 'd \<Rightarrow> 'd"
  fp_mul :: "'d \<Rightarrow> 'd \<Rightarrow> 'd"
  fp_div :: "'d \<Rightarrow> 'd \<Rightarrow> 'd"

definition i32 :: "int \<Rightarrow> int option" where
  "i32 n = (if - (2 ^ 31) \<le> n \<and> n < 2 ^ 31 then Some n else None)"

definition is_digit :: "u8 \<Rightarrow> bool" where
  "is_digit c = (0x30 \<le> c \<and> c \<le> 0x39)"

definition isspace :: "u8 \<Rightarrow> bool" where
  "isspace c = (c = 0x20 \<or> 0x09 \<le> c \<and> c \<le> 0x0D)"

text \<open>The value of a character as a digit of a numeral; 36 for no digit.\<close>

definition digit_value :: "u8 \<Rightarrow> nat" where
  "digit_value c =
     (if is_digit c then unat c - 0x30
      else if 0x41 \<le> c \<and> c \<le> 0x5A then unat c - 0x37
      else if 0x61 \<le> c \<and> c \<le> 0x7A then unat c - 0x57
      else 36)"

definition numeral_value :: "nat \<Rightarrow> bytes \<Rightarrow> nat" where
  "numeral_value radix ds = foldl (\<lambda>n c. n * radix + digit_value c) 0 ds"

text \<open>\<open>strtol\<close> with a 32-bit \<open>long\<close>: white space, a sign, \<open>0x\<close> before hexadecimal
  digits, the longest run of digits, and saturation.\<close>

definition strtol :: "bytes \<Rightarrow> nat \<Rightarrow> int" where
  "strtol str radix =
     (let s = dropWhile isspace (cstr str);
          negative = (s \<noteq> [] \<and> hd s = 0x2D);
          s = (if s \<noteq> [] \<and> (hd s = 0x2D \<or> hd s = 0x2B) then tl s else s);
          s = (if radix = 16 \<and> length s > 2 \<and> s ! 0 = 0x30 \<and> (s ! 1 = 0x78 \<or> s ! 1 = 0x58)
                  \<and> digit_value (s ! 2) < 16 then drop 2 s else s);
          n = int (numeral_value radix (takeWhile (\<lambda>c. digit_value c < radix) s));
          n = (if negative then - n else n)
      in max (- (2 ^ 31)) (min (2 ^ 31 - 1) n))"

section \<open>The scanner\<close>

definition NMEA_CONVSTR_BUF :: nat where "NMEA_CONVSTR_BUF = 32"
definition NMEA_TIMEPARSE_BUF :: nat where "NMEA_TIMEPARSE_BUF = 16"
definition NMEA_MAXSAT :: nat where "NMEA_MAXSAT = 12"
definition NMEA_SATINPACK :: int where "NMEA_SATINPACK = 4"

definition nmea_calc_crc :: "bytes \<Rightarrow> int" where
  "nmea_calc_crc buff = foldl (\<lambda>chsum c. chsum XOR uint c) 0 buff"

definition nmea_atoi :: "bytes \<Rightarrow> nat \<Rightarrow> int" where
  "nmea_atoi str radix = (if length str < NMEA_CONVSTR_BUF then strtol (str @ [0]) radix else 0)"

definition nmea_atof :: "'d fpu \<Rightarrow> bytes \<Rightarrow> 'd" where
  "nmea_atof fp str =
     (if length str < NMEA_CONVSTR_BUF then fp_strtod fp (cstr (str @ [0])) else fp_const fp ''0'')"

datatype nmea_toks = NMEA_TOKS_COMPARE | NMEA_TOKS_PERCENT | NMEA_TOKS_WIDTH

text \<open>What a conversion stores through its pointer argument; an empty field stores nothing.\<close>

datatype 'd nmea_val = NVoid | NChar u8 | NStr bytes | NReal 'd | NInt int

text \<open>The field a conversion takes: \<open>width\<close> characters, or all up to the next character of the
  format.  \<open>None\<close> when fewer than \<open>width\<close> characters are left.\<close>

definition nmea_token :: "nat \<Rightarrow> u8 \<Rightarrow> bytes \<Rightarrow> bytes \<Rightarrow> (bytes \<times> bytes) option" where
  "nmea_token width f fmt buff =
     (let stop = (case fmt of [] \<Rightarrow> 0 | g # _ \<Rightarrow> g);
          width = (if width = 0 \<and> (f = 0x63 \<or> f = 0x43) \<and> hd buff \<noteq> stop then 1 else width)
      in if width \<noteq> 0 then (if width \<le> length buff then Some (take width buff, drop width buff) else None)
         else if stop = 0 then Some (buff, [])
         else Some (takeWhile (\<lambda>c. c \<noteq> stop) buff, dropWhile (\<lambda>c. c \<noteq> stop) buff))"

text \<open>The value stored for a field; \<open>None\<close> for an unknown conversion, which ends the scan.\<close>

definition nmea_store :: "'d fpu \<Rightarrow> u8 \<Rightarrow> bytes \<Rightarrow> 'd nmea_val option" where
  "nmea_store fp f tok =
     (if f = 0x63 \<or> f = 0x43 then Some (if tok \<noteq> [] then NChar (hd tok) else NVoid)
      else if f = 0x73 \<or> f = 0x53 then Some (if tok \<noteq> [] then NStr tok else NVoid)
      else if f = 0x66 \<or> f = 0x67 \<or> f = 0x47 \<or> f = 0x65 \<or> f = 0x45 then
        Some (if tok \<noteq> [] then NReal (nmea_atof fp tok) else NVoid)
      else if tok = [] then Some NVoid
      else if f = 0x64 \<or> f = 0x69 then Some (NInt (nmea_atoi tok 10))
      else if f = 0x75 then Some (NInt (nmea_atoi tok 10))
      else if f = 0x78 \<or> f = 0x58 then Some (NInt (nmea_atoi tok 16))
      else if f = 0x6F then Some (NInt (nmea_atoi tok 8))
      else None)"

text \<open>One round per character of the format; \<open>beg\<close> holds the width digits since the last
  per cent sign.\<close>

fun nmea_scanf_loop ::
  "'d fpu \<Rightarrow> nmea_toks \<Rightarrow> bytes \<Rightarrow> bytes \<Rightarrow> bytes \<Rightarrow> 'd nmea_val list \<Rightarrow> 'd nmea_val list" where
  "nmea_scanf_loop fp tok_type beg [] buff out = out"
| "nmea_scanf_loop fp tok_type beg (f # fmt) buff out =
     (if buff = [] then out
      else if tok_type = NMEA_TOKS_COMPARE then
        (if f = 0x25 then nmea_scanf_loop fp NMEA_TOKS_PERCENT beg fmt buff out
         else if hd buff \<noteq> f then out
         else nmea_scanf_loop fp NMEA_TOKS_COMPARE beg fmt (tl buff) out)
      else
        (let beg = (if tok_type = NMEA_TOKS_PERCENT then [] else beg)
         in if is_digit f then nmea_scanf_loop fp NMEA_TOKS_WIDTH (beg @ [f]) fmt buff out
            else
              (let width = (if beg \<noteq> [] then nat (nmea_atoi beg 10) else 0)
               in case nmea_token width f fmt buff of
                    None \<Rightarrow> out
                  | Some (tok, buff) \<Rightarrow>
                      (case nmea_store fp f tok of
                         None \<Rightarrow> out @ [NVoid]
                       | Some v \<Rightarrow> nmea_scanf_loop fp NMEA_TOKS_COMPARE beg fmt buff (out @ [v])))))"

text \<open>The result is the list of the fields found; the C function returns its length.\<close>

definition nmea_scanf :: "'d fpu \<Rightarrow> bytes \<Rightarrow> string \<Rightarrow> 'd nmea_val list" where
  "nmea_scanf fp buff format = nmea_scanf_loop fp NMEA_TOKS_COMPARE [] (ascii format) buff []"

text \<open>Reading the stored values back; a field that was not stored keeps the value before.\<close>

definition int_at :: "'d nmea_val list \<Rightarrow> nat \<Rightarrow> int \<Rightarrow> int" where
  "int_at vs i d = (if i < length vs then (case vs ! i of NInt n \<Rightarrow> n | _ \<Rightarrow> d) else d)"

definition char_at :: "'d nmea_val list \<Rightarrow> nat \<Rightarrow> u8 \<Rightarrow> u8" where
  "char_at vs i d = (if i < length vs then (case vs ! i of NChar c \<Rightarrow> c | _ \<Rightarrow> d) else d)"

definition real_at :: "'d nmea_val list \<Rightarrow> nat \<Rightarrow> 'd \<Rightarrow> 'd" where
  "real_at vs i d = (if i < length vs then (case vs ! i of NReal x \<Rightarrow> x | _ \<Rightarrow> d) else d)"

text \<open>The text stored in \<open>time_buff\<close>: undefined when it does not fit, \<open>Some None\<close> when
  nothing was stored and the array is uninitialised.\<close>

definition time_at :: "'d nmea_val list \<Rightarrow> bytes option option" where
  "time_at vs =
     (case vs of
        NStr t # _ \<Rightarrow> if length t < NMEA_TIMEPARSE_BUF then Some (Some (cstr (t @ [0]))) else None
      | _ \<Rightarrow> Some None)"


section \<open>Sentences and the summary\<close>

record nmeaTIME =
  ti_year :: int
  ti_mon :: int
  ti_day :: int
  ti_hour :: int
  ti_min :: int
  ti_sec :: int
  ti_hsec :: int

record nmeaSATELLITE =
  sat_id :: int
  sat_in_use :: int
  sat_elv :: int
  sat_azimuth :: int
  sat_sig :: int

record nmeaSATINFO =
  sats_inuse :: int
  sats_inview :: int
  sats :: "nmeaSATELLITE list"

record 'd nmeaINFO =
  inf_smask :: int
  inf_utc :: nmeaTIME
  inf_pulse :: int
  inf_sig :: int
  inf_fix :: int
  inf_PDOP :: 'd
  inf_HDOP :: 'd
  inf_VDOP :: 'd
  inf_mlat :: 'd
  inf_ns :: u8
  inf_mlon :: 'd
  inf_ew :: u8
  inf_lat :: 'd
  inf_lon :: 'd
  inf_elv :: 'd
  inf_speed :: 'd
  inf_direction :: 'd
  inf_declination :: 'd
  inf_satinfo :: nmeaSATINFO

record 'd nmeaGPGGA =
  gga_utc :: nmeaTIME
  gga_lat :: 'd
  gga_ns :: u8
  gga_lon :: 'd
  gga_ew :: u8
  gga_sig :: int
  gga_satinuse :: int
  gga_HDOP :: 'd
  gga_elv :: 'd
  gga_elv_units :: u8
  gga_diff :: 'd
  gga_diff_units :: u8
  gga_dgps_age :: 'd
  gga_dgps_sid :: int

record 'd nmeaGPGSA =
  gsa_fix_mode :: u8
  gsa_fix_type :: int
  gsa_sat_prn :: "int list"
  gsa_PDOP :: 'd
  gsa_HDOP :: 'd
  gsa_VDOP :: 'd

record nmeaGPGSV =
  gsv_pack_count :: int
  gsv_pack_index :: int
  gsv_sat_count :: int
  gsv_sat_data :: "nmeaSATELLITE list"

record 'd nmeaGPRMC =
  rmc_utc :: nmeaTIME
  rmc_status :: u8
  rmc_lat :: 'd
  rmc_ns :: u8
  rmc_lon :: 'd
  rmc_ew :: u8
  rmc_speed :: 'd
  rmc_direction :: 'd
  rmc_declination :: 'd
  rmc_declin_ew :: u8
  rmc_mode :: u8

definition zero_time :: nmeaTIME where
  "zero_time = \<lparr>ti_year = 0, ti_mon = 0, ti_day = 0, ti_hour = 0, ti_min = 0, ti_sec = 0, ti_hsec = 0\<rparr>"

definition zero_sat :: nmeaSATELLITE where
  "zero_sat = \<lparr>sat_id = 0, sat_in_use = 0, sat_elv = 0, sat_azimuth = 0, sat_sig = 0\<rparr>"

definition NMEA_SIG_BAD :: int where "NMEA_SIG_BAD = 0"
definition NMEA_SIG_MID :: int where "NMEA_SIG_MID = 2"
definition NMEA_FIX_BAD :: int where "NMEA_FIX_BAD = 1"
definition NMEA_FIX_2D :: int where "NMEA_FIX_2D = 2"

definition GPGGA :: int where "GPGGA = 1"
definition GPGSA :: int where "GPGSA = 2"
definition GPGSV :: int where "GPGSV = 4"
definition GPRMC :: int where "GPRMC = 8"

definition nmea_zero_INFO :: "'d fpu \<Rightarrow> 'd nmeaINFO" where
  "nmea_zero_INFO fp =
     (let z = fp_const fp ''0''
      in \<lparr>inf_smask = 0, inf_utc = zero_time, inf_pulse = 0, inf_sig = NMEA_SIG_BAD, inf_fix = NMEA_FIX_BAD,
          inf_PDOP = z, inf_HDOP = z, inf_VDOP = z, inf_mlat = z, inf_ns = 0, inf_mlon = z, inf_ew = 0,
          inf_lat = z, inf_lon = z, inf_elv = z, inf_speed = z, inf_direction = z, inf_declination = z,
          inf_satinfo = \<lparr>sats_inuse = 0, sats_inview = 0, sats = replicate NMEA_MAXSAT zero_sat\<rparr>\<rparr>)"

section \<open>Taking sentences apart\<close>

definition nmea_parse_time :: "'d fpu \<Rightarrow> bytes \<Rightarrow> nmeaTIME \<Rightarrow> int \<times> nmeaTIME" where
  "nmea_parse_time fp buff res =
     (let n = length buff;
          vs = (if n = 6 then nmea_scanf fp buff ''%2d%2d%2d''
                else if n = 8 \<or> n = 9 \<or> n = 10 then nmea_scanf fp buff ''%2d%2d%2d.%d''
                else []);
          success = (n = 6 \<and> length vs = 3 \<or> (n = 8 \<or> n = 9 \<or> n = 10) \<and> length vs = 4)
      in (if success then 0 else -1,
          res\<lparr>ti_hour := int_at vs 0 (ti_hour res), ti_min := int_at vs 1 (ti_min res),
              ti_sec := int_at vs 2 (ti_sec res), ti_hsec := int_at vs 3 (ti_hsec res)\<rparr>))"

definition nmea_parse_GPGSA :: "'d fpu \<Rightarrow> bytes \<Rightarrow> int \<times> 'd nmeaGPGSA" where
  "nmea_parse_GPGSA fp buff =
     (let vs = nmea_scanf fp buff ''%C,%d,%d,%d,%d,%d,%d,%d,%d,%d,%d,%d,%d,%d,%f,%f,%f*'';
          z = fp_const fp ''0''
      in (if length vs = 17 then 1 else 0,
          \<lparr>gsa_fix_mode = char_at vs 0 0, gsa_fix_type = int_at vs 1 0,
           gsa_sat_prn = map (\<lambda>i. int_at vs (i + 2) 0) [0..<NMEA_MAXSAT],
           gsa_PDOP = real_at vs 14 z, gsa_HDOP = real_at vs 15 z, gsa_VDOP = real_at vs 16 z\<rparr>))"

text \<open>The satellites of a GSV sentence: \<open>nsat\<close> of the four belong to it.\<close>

definition gsv_nsat :: "nmeaGPGSV \<Rightarrow> int option" where
  "gsv_nsat pack = do {
     i \<leftarrow> i32 (gsv_pack_index pack - 1);
     nsat \<leftarrow> i32 (i * NMEA_SATINPACK);
     m \<leftarrow> i32 (nsat + NMEA_SATINPACK);
     if m > gsv_sat_count pack then i32 (gsv_sat_count pack - nsat) else Some NMEA_SATINPACK
   }"

definition nmea_parse_GPGSV :: "'d fpu \<Rightarrow> bytes \<Rightarrow> (int \<times> nmeaGPGSV) option" where
  "nmea_parse_GPGSV fp buff =
     (let vs = nmea_scanf fp buff ''%d,%d,%d,%d,%d,%d,%d,%d,%d,%d,%d,%d,%d,%d,%d,%d,%d,%d,%d*'';
          pack = \<lparr>gsv_pack_count = int_at vs 0 0, gsv_pack_index = int_at vs 1 0, gsv_sat_count = int_at vs 2 0,
            gsv_sat_data = map (\<lambda>k. \<lparr>sat_id = int_at vs (4 * k + 3) 0, sat_in_use = 0,
               sat_elv = int_at vs (4 * k + 4) 0, sat_azimuth = int_at vs (4 * k + 5) 0,
               sat_sig = int_at vs (4 * k + 6) 0\<rparr>) [0..<4]\<rparr>
      in do {
           nsat \<leftarrow> gsv_nsat pack;
           nsat \<leftarrow> i32 (nsat * 4);
           nsat \<leftarrow> i32 (nsat + 3);
           Some (if int (length vs) < nsat \<or> length vs > 19 then 0 else 1, pack)
         })"

definition nmea_parse_GPGGA :: "'d fpu \<Rightarrow> bytes \<Rightarrow> (int \<times> 'd nmeaGPGGA) option" where
  "nmea_parse_GPGGA fp buff =
     (let vs = nmea_scanf fp buff ''%s,%f,%C,%f,%C,%d,%d,%f,%f,%C,%f,%C,%f,%d*'';
          z = fp_const fp ''0'';
          pack = \<lparr>gga_utc = zero_time, gga_lat = real_at vs 1 z, gga_ns = char_at vs 2 0,
            gga_lon = real_at vs 3 z, gga_ew = char_at vs 4 0, gga_sig = int_at vs 5 0,
            gga_satinuse = int_at vs 6 0, gga_HDOP = real_at vs 7 z, gga_elv = real_at vs 8 z,
            gga_elv_units = char_at vs 9 0, gga_diff = real_at vs 10 z, gga_diff_units = char_at vs 11 0,
            gga_dgps_age = real_at vs 12 z, gga_dgps_sid = int_at vs 13 0\<rparr>
      in do {
           t \<leftarrow> time_at vs;
           if length vs \<noteq> 14 then Some (0, pack)
           else do {
             time_buff \<leftarrow> t;
             let (r, utc) = nmea_parse_time fp time_buff (gga_utc pack);
             Some (if r \<noteq> 0 then 0 else 1, pack\<lparr>gga_utc := utc\<rparr>)
           }
         })"

definition nmea_parse_GPRMC :: "'d fpu \<Rightarrow> bytes \<Rightarrow> (int \<times> 'd nmeaGPRMC) option" where
  "nmea_parse_GPRMC fp buff =
     (let vs = nmea_scanf fp buff ''%s,%C,%f,%C,%f,%C,%f,%f,%2d%2d%2d,%f,%C,%C*'';
          z = fp_const fp ''0'';
          pack = \<lparr>rmc_utc = zero_time\<lparr>ti_day := int_at vs 8 0, ti_mon := int_at vs 9 0, ti_year := int_at vs 10 0\<rparr>,
            rmc_status = char_at vs 1 0, rmc_lat = real_at vs 2 z, rmc_ns = char_at vs 3 0,
            rmc_lon = real_at vs 4 z, rmc_ew = char_at vs 5 0, rmc_speed = real_at vs 6 z,
            rmc_direction = real_at vs 7 z, rmc_declination = real_at vs 11 z,
            rmc_declin_ew = char_at vs 12 0, rmc_mode = char_at vs 13 0\<rparr>
      in do {
           t \<leftarrow> time_at vs;
           if length vs \<noteq> 13 \<and> length vs \<noteq> 14 then Some (0, pack)
           else do {
             time_buff \<leftarrow> t;
             let (r, utc) = nmea_parse_time fp time_buff (rmc_utc pack);
             if r \<noteq> 0 then Some (0, pack\<lparr>rmc_utc := utc\<rparr>)
             else do {
               let y = ti_year utc;
               y \<leftarrow> (if y < 90 then i32 (y + 100) else Some y);
               m \<leftarrow> i32 (ti_mon utc - 1);
               Some (1, pack\<lparr>rmc_utc := utc\<lparr>ti_year := y, ti_mon := m\<rparr>\<rparr>)
             }
           }
         })"

section \<open>Merging a sentence into the summary\<close>

definition neamFormatLatLng :: "'d fpu \<Rightarrow> 'd \<Rightarrow> 'd option" where
  "neamFormatLatLng fp v = do {
     u32temp \<leftarrow> fp_to_u32 fp v;
     let f = fp_sub fp v (fp_of_u32 fp u32temp);
     let f = fp_mul fp f (fp_const fp ''60'');
     Some (fp_add fp f (fp_mul fp (fp_of_u32 fp u32temp) (fp_const fp ''100'')))
   }"

definition formatLatLng :: "'d fpu \<Rightarrow> 'd \<Rightarrow> 'd" where
  "formatLatLng fp v =
     (let degree = fp_floor fp (fp_div fp v (fp_const fp ''100''));
          minutes = fp_sub fp v (fp_mul fp degree (fp_const fp ''100''))
      in fp_add fp degree (fp_div fp minutes (fp_const fp ''60'')))"

definition nmea_GPGGA2info :: "'d fpu \<Rightarrow> 'd nmeaGPGGA \<Rightarrow> 'd nmeaINFO \<Rightarrow> 'd nmeaINFO" where
  "nmea_GPGGA2info fp pack info = info\<lparr>
     inf_utc := (inf_utc info)\<lparr>ti_hour := ti_hour (gga_utc pack), ti_min := ti_min (gga_utc pack),
       ti_sec := ti_sec (gga_utc pack), ti_hsec := ti_hsec (gga_utc pack)\<rparr>,
     inf_sig := gga_sig pack, inf_HDOP := gga_HDOP pack, inf_elv := gga_elv pack,
     inf_mlat := gga_lat pack, inf_mlon := gga_lon pack, inf_ew := gga_ew pack, inf_ns := gga_ns pack,
     inf_lat := (if gga_ns pack = 0x4E then formatLatLng fp (gga_lat pack) else fp_neg fp (formatLatLng fp (gga_lat pack))),
     inf_lon := (if gga_ew pack = 0x45 then formatLatLng fp (gga_lon pack) else fp_neg fp (formatLatLng fp (gga_lon pack))),
     inf_smask := inf_smask info OR GPGGA\<rparr>"

text \<open>The loop over the \<open>n\<close> satellites in view, for one satellite in use; both loops count the
  satellites found.\<close>

function gsa_mark :: "int \<Rightarrow> nat \<Rightarrow> nat \<Rightarrow> nmeaSATELLITE list \<Rightarrow> int \<Rightarrow> (nmeaSATELLITE list \<times> int) option" where
  "gsa_mark prn j n ss nuse =
     (if j < n then
        (if prn \<noteq> 0 then do {
           sat \<leftarrow> rd ss j;
           if prn = sat_id sat then gsa_mark prn (j + 1) n (ss[j := sat\<lparr>sat_in_use := 1\<rparr>]) (nuse + 1)
           else gsa_mark prn (j + 1) n ss nuse
         }
         else gsa_mark prn (j + 1) n ss nuse)
      else Some (ss, nuse))"
  by pat_completeness auto
termination by (relation "measure (\<lambda>(prn, j, n, ss, nuse). n - j)") auto

fun gsa_mark_all :: "int list \<Rightarrow> nat \<Rightarrow> nmeaSATELLITE list \<Rightarrow> int \<Rightarrow> (nmeaSATELLITE list \<times> int) option" where
  "gsa_mark_all [] n ss nuse = Some (ss, nuse)"
| "gsa_mark_all (prn # prns) n ss nuse = do {
     (ss, nuse) \<leftarrow> gsa_mark prn 0 n ss nuse;
     gsa_mark_all prns n ss nuse
   }"

definition nmea_GPGSA2info :: "'d nmeaGPGSA \<Rightarrow> 'd nmeaINFO \<Rightarrow> 'd nmeaINFO option" where
  "nmea_GPGSA2info pack info = do {
     let sat_info = inf_satinfo info;
     (ss, nuse) \<leftarrow> gsa_mark_all (gsa_sat_prn pack) (nat (sats_inview sat_info)) (sats sat_info) 0;
     Some (info\<lparr>inf_fix := gsa_fix_type pack, inf_PDOP := gsa_PDOP pack, inf_HDOP := gsa_HDOP pack,
       inf_VDOP := gsa_VDOP pack, inf_satinfo := sat_info\<lparr>sats := ss, sats_inuse := nuse\<rparr>,
       inf_smask := inf_smask info OR GPGSA\<rparr>)
   }"

function gsv_store :: "nmeaGPGSV \<Rightarrow> nat \<Rightarrow> nat \<Rightarrow> nmeaSATELLITE list \<Rightarrow> nmeaSATELLITE list option" where
  "gsv_store pack isat nsat ss =
     (if isat < nsat then do {
        let isi = (gsv_pack_index pack - 1) * NMEA_SATINPACK + int isat;
        d \<leftarrow> rd (gsv_sat_data pack) isat;
        old \<leftarrow> (if isi < 0 then None else rd ss (nat isi));
        gsv_store pack (isat + 1) nsat (ss[nat isi := old\<lparr>sat_id := sat_id d, sat_elv := sat_elv d,
          sat_azimuth := sat_azimuth d, sat_sig := sat_sig d\<rparr>])
      }
      else Some ss)"
  by pat_completeness auto
termination by (relation "measure (\<lambda>(pack, isat, nsat, ss). nsat - isat)") auto

definition nmea_GPGSV2info :: "nmeaGPGSV \<Rightarrow> 'd nmeaINFO \<Rightarrow> 'd nmeaINFO option" where
  "nmea_GPGSV2info pack info =
     (if gsv_pack_index pack > gsv_pack_count pack then Some info
      else do {
        k \<leftarrow> i32 (gsv_pack_index pack * NMEA_SATINPACK);
        if k > int NMEA_MAXSAT then Some info
        else do {
          let pack = (if gsv_pack_index pack < 1 then pack\<lparr>gsv_pack_index := 1\<rparr> else pack);
          nsat \<leftarrow> gsv_nsat pack;
          ss \<leftarrow> gsv_store pack 0 (nat nsat) (sats (inf_satinfo info));
          Some (info\<lparr>inf_satinfo := (inf_satinfo info)\<lparr>sats_inview := gsv_sat_count pack, sats := ss\<rparr>,
            inf_smask := inf_smask info OR GPGSV\<rparr>)
        }
      })"

definition nmea_GPRMC2info :: "'d fpu \<Rightarrow> 'd nmeaGPRMC \<Rightarrow> 'd nmeaINFO \<Rightarrow> 'd nmeaINFO" where
  "nmea_GPRMC2info fp pack info =
     (let info =
        (if rmc_status pack = 0x41 then
           info\<lparr>inf_sig := (if inf_sig info = NMEA_SIG_BAD then NMEA_SIG_MID else inf_sig info),
                inf_fix := (if inf_fix info = NMEA_FIX_BAD then NMEA_FIX_2D else inf_fix info)\<rparr>
         else if rmc_status pack = 0x56 then info\<lparr>inf_sig := NMEA_SIG_BAD, inf_fix := NMEA_FIX_BAD\<rparr>
         else info)
      in info\<lparr>
        inf_utc := rmc_utc pack, inf_mlat := rmc_lat pack, inf_mlon := rmc_lon pack,
        inf_ew := rmc_ew pack, inf_ns := rmc_ns pack,
        inf_lat := (if rmc_ns pack = 0x4E then formatLatLng fp (rmc_lat pack) else fp_neg fp (formatLatLng fp (rmc_lat pack))),
        inf_lon := (if rmc_ew pack = 0x45 then formatLatLng fp (rmc_lon pack) else fp_neg fp (formatLatLng fp (rmc_lon pack))),
        inf_speed := fp_mul fp (rmc_speed pack) (fp_const fp ''1.852''),
        inf_direction := rmc_direction pack, inf_smask := inf_smask info OR GPRMC\<rparr>)"

section \<open>Collecting sentences\<close>

definition GPS_CMD_COUNT :: nat where "GPS_CMD_COUNT = 4"
definition GPS_MSG_MAX_SIZE :: nat where "GPS_MSG_MAX_SIZE = 80"

datatype GPS_CMD_STATE = GPS_CMD_NEW_STATE | GPS_CMD_WAIT_FINISH | GPS_CMD_FINISH

record 'd AMPM_GPS =
  gpsCalcCheckSumFlag :: u8
  gpsCheckSum :: u8
  gpsCheckSumX :: u8
  gpsGetCheckSumFlag :: u8
  GPRMC_gotDataFlag :: u8
  GPGGA_gotDataFlag :: u8
  GPGSA_gotDataFlag :: u8
  GPGSV_gotDataFlag :: u8
  buffGPRMC :: bytes
  buffGPGGA :: bytes
  buffGPGSA :: bytes
  buffGPGSV :: bytes
  gpsInfo :: "'d nmeaINFO"
  GPS_cmdCnt :: "nat list"
  GPS_numCmd :: nat
  GPS_cmdRecvLength :: nat
  GPS_cmdState :: GPS_CMD_STATE
  GPS_RxRingBuff :: RINGBUF

definition GPSInit :: "'d fpu \<Rightarrow> ('d, 'z) AMPM_GPS_scheme \<Rightarrow> ('d, 'z) AMPM_GPS_scheme option" where
  "GPSInit fp gps =
     (case RINGBUF_Init (Some (GPS_RxRingBuff gps)) (Some (rb_pt (GPS_RxRingBuff gps))) 512 of
        (_, Some ring) \<Rightarrow>
          Some (gps\<lparr>gpsCheckSum := 0, gpsCheckSumX := 0, gpsGetCheckSumFlag := 0,
            GPRMC_gotDataFlag := 0, GPGGA_gotDataFlag := 0, GPGSA_gotDataFlag := 0, GPGSV_gotDataFlag := 0,
            buffGPRMC := replicate GPS_MSG_MAX_SIZE 0, buffGPGGA := replicate GPS_MSG_MAX_SIZE 0,
            buffGPGSA := replicate GPS_MSG_MAX_SIZE 0, buffGPGSV := replicate GPS_MSG_MAX_SIZE 0,
            GPS_cmdState := GPS_CMD_FINISH, GPS_RxRingBuff := ring, gpsInfo := nmea_zero_INFO fp\<rparr>)
      | (_, None) \<Rightarrow> None)"

definition GPS_PutChar :: "u8 \<Rightarrow> ('d, 'z) AMPM_GPS_scheme \<Rightarrow> ('d, 'z) AMPM_GPS_scheme option" where
  "GPS_PutChar c gps = do {
     (_, ring) \<leftarrow> RINGBUF_Put (GPS_RxRingBuff gps) c;
     Some (gps\<lparr>GPS_RxRingBuff := ring\<rparr>)
   }"

text \<open>
  The four sentence handlers of the source are the same text over their own flag and buffer.
  \<open>checksum_char\<close> is the part that collects the check sum after the asterisk, its
  Boolean says that the sentence is complete; \<open>sentence_char\<close> is the handler with the flag
  and the buffer as arguments.
\<close>

definition hex_value :: "u8 \<Rightarrow> u8" where
  "hex_value c = (if 0x30 \<le> c \<and> c \<le> 0x39 then c - 0x30 else (c - 0x41) + 10)"

definition checksum_char :: "u8 \<Rightarrow> ('d, 'z) AMPM_GPS_scheme \<Rightarrow> bool \<times> ('d, 'z) AMPM_GPS_scheme" where
  "checksum_char c gps =
     (if c = 0x2A then (False, gps\<lparr>gpsCheckSumX := 0, gpsGetCheckSumFlag := 1\<rparr>)
      else if gpsGetCheckSumFlag gps \<noteq> 0 then
        (let x = gpsCheckSumX gps OR hex_value c;
             x = (if gpsGetCheckSumFlag gps = 1 then push_bit 4 x else x);
             f = gpsGetCheckSumFlag gps + 1
         in (f > 2, gps\<lparr>gpsCheckSumX := x, gpsGetCheckSumFlag := f\<rparr>))
      else (False, gps))"

definition sentence_char ::
  "(('d, 'z) AMPM_GPS_scheme \<Rightarrow> u8) \<Rightarrow> (('d, 'z) AMPM_GPS_scheme \<Rightarrow> ('d, 'z) AMPM_GPS_scheme)
   \<Rightarrow> (('d, 'z) AMPM_GPS_scheme \<Rightarrow> bytes) \<Rightarrow> (bytes \<Rightarrow> ('d, 'z) AMPM_GPS_scheme \<Rightarrow> ('d, 'z) AMPM_GPS_scheme)
   \<Rightarrow> u8 \<Rightarrow> ('d, 'z) AMPM_GPS_scheme \<Rightarrow> (u8 \<times> ('d, 'z) AMPM_GPS_scheme) option" where
  "sentence_char got set_got buff set_buff c gps =
     (if got gps \<noteq> 0 then Some (0, gps)
      else
        (let gps = (if GPS_cmdRecvLength gps = 0 then gps\<lparr>gpsGetCheckSumFlag := 0, gpsCheckSumX := 0\<rparr> else gps);
             (complete, gps) = checksum_char c gps
         in if complete then Some (0, if gpsCheckSumX gps = gpsCheckSum gps then set_got gps else gps)
            else do {
              b \<leftarrow> wr (buff gps) (GPS_cmdRecvLength gps) c;
              Some (0xff, set_buff b gps)
            }))"

definition GPRMC_Process :: "u8 \<Rightarrow> ('d, 'z) AMPM_GPS_scheme \<Rightarrow> (u8 \<times> ('d, 'z) AMPM_GPS_scheme) option" where
  "GPRMC_Process = sentence_char GPRMC_gotDataFlag (\<lambda>s. s\<lparr>GPRMC_gotDataFlag := 1\<rparr>) buffGPRMC (\<lambda>b s. s\<lparr>buffGPRMC := b\<rparr>)"

definition GPGGA_Process :: "u8 \<Rightarrow> ('d, 'z) AMPM_GPS_scheme \<Rightarrow> (u8 \<times> ('d, 'z) AMPM_GPS_scheme) option" where
  "GPGGA_Process = sentence_char GPGGA_gotDataFlag (\<lambda>s. s\<lparr>GPGGA_gotDataFlag := 1\<rparr>) buffGPGGA (\<lambda>b s. s\<lparr>buffGPGGA := b\<rparr>)"

definition GPGSA_Process :: "u8 \<Rightarrow> ('d, 'z) AMPM_GPS_scheme \<Rightarrow> (u8 \<times> ('d, 'z) AMPM_GPS_scheme) option" where
  "GPGSA_Process = sentence_char GPGSA_gotDataFlag (\<lambda>s. s\<lparr>GPGSA_gotDataFlag := 1\<rparr>) buffGPGSA (\<lambda>b s. s\<lparr>buffGPGSA := b\<rparr>)"

definition GPGSV_Process :: "u8 \<Rightarrow> ('d, 'z) AMPM_GPS_scheme \<Rightarrow> (u8 \<times> ('d, 'z) AMPM_GPS_scheme) option" where
  "GPGSV_Process = sentence_char GPGSV_gotDataFlag (\<lambda>s. s\<lparr>GPGSV_gotDataFlag := 1\<rparr>) buffGPGSV (\<lambda>b s. s\<lparr>buffGPGSV := b\<rparr>)"

text \<open>The table of sentences: a name in an array of 16 characters, and the handler.\<close>

datatype gps_fn = Fn_GPRMC | Fn_GPGGA | Fn_GPGSA | Fn_GPGSV

definition GPS_ProcessCmd :: "(bytes \<times> gps_fn) list" where
  "GPS_ProcessCmd =
     map (\<lambda>(name, f). (ascii name @ replicate 12 0, f))
       [(''RMC,'', Fn_GPRMC), (''GGA,'', Fn_GPGGA), (''GSA,'', Fn_GPGSA), (''GSV,'', Fn_GPGSV)]"

fun gps_process :: "gps_fn \<Rightarrow> u8 \<Rightarrow> ('d, 'z) AMPM_GPS_scheme \<Rightarrow> (u8 \<times> ('d, 'z) AMPM_GPS_scheme) option" where
  "gps_process Fn_GPRMC = GPRMC_Process"
| "gps_process Fn_GPGGA = GPGGA_Process"
| "gps_process Fn_GPGSA = GPGSA_Process"
| "gps_process Fn_GPGSV = GPGSV_Process"

text \<open>
  The search for a name.  When one is complete, the code runs the loop variable to the end of that
  name, so the outer loop goes on after it.
\<close>

definition name_end :: "bytes \<Rightarrow> nat" where
  "name_end info = length (takeWhile (\<lambda>c. c \<noteq> 0) info)"

function gps_search :: "u8 \<Rightarrow> nat \<Rightarrow> ('d, 'z) AMPM_GPS_scheme \<Rightarrow> ('d, 'z) AMPM_GPS_scheme option" where
  "gps_search c i gps =
     (if i < GPS_CMD_COUNT then
        (let info = fst (GPS_ProcessCmd ! i) in do {
           k \<leftarrow> rd (GPS_cmdCnt gps) i;
           b \<leftarrow> rd info k;
           if c = b then do {
             b' \<leftarrow> rd info (k + 1);
             let gps = gps\<lparr>GPS_cmdCnt := (GPS_cmdCnt gps)[i := k + 1]\<rparr>;
             if b' = 0 then
               gps_search c (name_end info + 1)
                 (gps\<lparr>GPS_numCmd := i, GPS_cmdState := GPS_CMD_WAIT_FINISH, GPS_cmdRecvLength := 0\<rparr>)
             else gps_search c (i + 1) gps
           }
           else gps_search c (i + 1) (gps\<lparr>GPS_cmdCnt := (GPS_cmdCnt gps)[i := 0]\<rparr>)
         })
      else Some gps)"
  by pat_completeness auto

lemma GPS_ProcessCmd_nth:
  "GPS_ProcessCmd ! 0 = ([0x52, 0x4D, 0x43, 0x2C] @ replicate 12 0, Fn_GPRMC)"
  "GPS_ProcessCmd ! Suc 0 = ([0x47, 0x47, 0x41, 0x2C] @ replicate 12 0, Fn_GPGGA)"
  "GPS_ProcessCmd ! 2 = ([0x47, 0x53, 0x41, 0x2C] @ replicate 12 0, Fn_GPGSA)"
  "GPS_ProcessCmd ! 3 = ([0x47, 0x53, 0x56, 0x2C] @ replicate 12 0, Fn_GPGSV)"
  by (simp_all add: GPS_ProcessCmd_def ascii_def of_char_def)

lemma less_4: "(i :: nat) < 4 \<Longrightarrow> i = 0 \<or> i = Suc 0 \<or> i = 2 \<or> i = 3"
  by auto

lemma name_end_4: "i < GPS_CMD_COUNT \<Longrightarrow> name_end (fst (GPS_ProcessCmd ! i)) = 4"
  by (auto simp: GPS_CMD_COUNT_def GPS_ProcessCmd_nth name_end_def dest!: less_4)

termination gps_search
  by (relation "measure (\<lambda>(c, i, gps). GPS_CMD_COUNT - i)") (auto simp: name_end_4 GPS_CMD_COUNT_def)

definition gps_restart :: "('d, 'z) AMPM_GPS_scheme \<Rightarrow> ('d, 'z) AMPM_GPS_scheme" where
  "gps_restart gps = gps\<lparr>GPS_cmdState := GPS_CMD_FINISH, GPS_cmdCnt := replicate GPS_CMD_COUNT 0\<rparr>"

definition gps_checksum :: "u8 \<Rightarrow> ('d, 'z) AMPM_GPS_scheme \<Rightarrow> ('d, 'z) AMPM_GPS_scheme" where
  "gps_checksum c gps =
     (let gps = (if c = 0x2A then gps\<lparr>gpsCalcCheckSumFlag := 0\<rparr> else gps)
      in if c = 0x24 then gps\<lparr>gpsCalcCheckSumFlag := 1, gpsCheckSum := 0, gpsGetCheckSumFlag := 0\<rparr>
         else if gpsCalcCheckSumFlag gps \<noteq> 0 then gps\<lparr>gpsCheckSum := gpsCheckSum gps XOR c\<rparr>
         else gps)"

definition GPS_ComnandParser :: "u8 \<Rightarrow> ('d, 'z) AMPM_GPS_scheme \<Rightarrow> ('d, 'z) AMPM_GPS_scheme option" where
  "GPS_ComnandParser c gps =
     (let gps = gps_checksum c gps
      in case GPS_cmdState gps of
           GPS_CMD_FINISH \<Rightarrow> gps_search c 0 gps
         | GPS_CMD_WAIT_FINISH \<Rightarrow> do {
             cmd \<leftarrow> rd GPS_ProcessCmd (GPS_numCmd gps);
             (r, gps) \<leftarrow> gps_process (snd cmd) c gps;
             let gps = (if r = 0 then gps_restart gps else gps);
             let gps = gps\<lparr>GPS_cmdRecvLength := GPS_cmdRecvLength gps + 1\<rparr>;
             Some (if GPS_cmdRecvLength gps \<ge> GPS_MSG_MAX_SIZE then gps_restart gps else gps)
           }
         | GPS_CMD_NEW_STATE \<Rightarrow> Some (gps_restart gps))"

section \<open>The task\<close>

definition task_GPRMC :: "'d fpu \<Rightarrow> ('d, 'z) AMPM_GPS_scheme \<Rightarrow> ('d, 'z) AMPM_GPS_scheme option" where
  "task_GPRMC fp gps =
     (if GPRMC_gotDataFlag gps \<noteq> 0 then do {
        (_, pack) \<leftarrow> nmea_parse_GPRMC fp (buffGPRMC gps);
        Some (gps\<lparr>gpsInfo := nmea_GPRMC2info fp pack (gpsInfo gps), GPRMC_gotDataFlag := 0\<rparr>)
      }
      else Some gps)"

definition task_GPGGA :: "'d fpu \<Rightarrow> ('d, 'z) AMPM_GPS_scheme \<Rightarrow> ('d, 'z) AMPM_GPS_scheme option" where
  "task_GPGGA fp gps =
     (if GPGGA_gotDataFlag gps \<noteq> 0 then do {
        (_, pack) \<leftarrow> nmea_parse_GPGGA fp (buffGPGGA gps);
        Some (gps\<lparr>gpsInfo := nmea_GPGGA2info fp pack (gpsInfo gps), GPGGA_gotDataFlag := 0\<rparr>)
      }
      else Some gps)"

definition task_GPGSA :: "'d fpu \<Rightarrow> ('d, 'z) AMPM_GPS_scheme \<Rightarrow> ('d, 'z) AMPM_GPS_scheme option" where
  "task_GPGSA fp gps =
     (if GPGSA_gotDataFlag gps \<noteq> 0 then do {
        let (_, pack) = nmea_parse_GPGSA fp (buffGPGSA gps);
        info \<leftarrow> nmea_GPGSA2info pack (gpsInfo gps);
        Some (gps\<lparr>gpsInfo := info, GPGSA_gotDataFlag := 0\<rparr>)
      }
      else Some gps)"

definition task_GPGSV :: "'d fpu \<Rightarrow> ('d, 'z) AMPM_GPS_scheme \<Rightarrow> ('d, 'z) AMPM_GPS_scheme option" where
  "task_GPGSV fp gps =
     (if GPGSV_gotDataFlag gps \<noteq> 0 then do {
        (_, pack) \<leftarrow> nmea_parse_GPGSV fp (buffGPGSV gps);
        info \<leftarrow> nmea_GPGSV2info pack (gpsInfo gps);
        Some (gps\<lparr>gpsInfo := info, GPGSV_gotDataFlag := 0\<rparr>)
      }
      else Some gps)"

definition gps_byte :: "'d fpu \<Rightarrow> u8 \<Rightarrow> ('d, 'z) AMPM_GPS_scheme \<Rightarrow> ('d, 'z) AMPM_GPS_scheme option" where
  "gps_byte fp c gps = do {
     gps \<leftarrow> GPS_ComnandParser c gps;
     gps \<leftarrow> task_GPRMC fp gps;
     gps \<leftarrow> task_GPGGA fp gps;
     gps \<leftarrow> task_GPGSA fp gps;
     task_GPGSV fp gps
   }"

partial_function (option) GPS_Task_loop ::
  "'d fpu \<Rightarrow> u8 \<Rightarrow> ('d, 'z) AMPM_GPS_scheme \<Rightarrow> ('d, 'z) AMPM_GPS_scheme option" where
  "GPS_Task_loop fp c gps = do {
     (r, c, ring) \<leftarrow> RINGBUF_Get (GPS_RxRingBuff gps) c;
     let gps = gps\<lparr>GPS_RxRingBuff := ring\<rparr>;
     if r = 0 then do {
       gps \<leftarrow> gps_byte fp c gps;
       GPS_Task_loop fp c gps
     }
     else Some gps
   }"

definition GPS_Task :: "'d fpu \<Rightarrow> ('d, 'z) AMPM_GPS_scheme \<Rightarrow> ('d, 'z) AMPM_GPS_scheme option" where
  "GPS_Task fp gps = GPS_Task_loop fp 0 gps"

declare GPS_Task_loop.simps [code]

end
