(* ===== verification/GpsProofs.thy ===== *)
theory GpsProofs
  imports Gps
begin

text \<open>
  Facts about the GPS receiver: the collector stays inside its arrays on every byte stream, it
  accepts exactly the sentences whose check sum is right, and a position sentence that has
  arrived in the receive buffer ends up in the summary.
\<close>

section \<open>The four sentences alike\<close>

fun got_flag :: "gps_fn \<Rightarrow> ('d, 'z) AMPM_GPS_scheme \<Rightarrow> u8" where
  "got_flag Fn_GPRMC = GPRMC_gotDataFlag"
| "got_flag Fn_GPGGA = GPGGA_gotDataFlag"
| "got_flag Fn_GPGSA = GPGSA_gotDataFlag"
| "got_flag Fn_GPGSV = GPGSV_gotDataFlag"

fun sentence_buff :: "gps_fn \<Rightarrow> ('d, 'z) AMPM_GPS_scheme \<Rightarrow> bytes" where
  "sentence_buff Fn_GPRMC = buffGPRMC"
| "sentence_buff Fn_GPGGA = buffGPGGA"
| "sentence_buff Fn_GPGSA = buffGPGSA"
| "sentence_buff Fn_GPGSV = buffGPGSV"

fun set_got :: "gps_fn \<Rightarrow> ('d, 'z) AMPM_GPS_scheme \<Rightarrow> ('d, 'z) AMPM_GPS_scheme" where
  "set_got Fn_GPRMC s = s\<lparr>GPRMC_gotDataFlag := 1\<rparr>"
| "set_got Fn_GPGGA s = s\<lparr>GPGGA_gotDataFlag := 1\<rparr>"
| "set_got Fn_GPGSA s = s\<lparr>GPGSA_gotDataFlag := 1\<rparr>"
| "set_got Fn_GPGSV s = s\<lparr>GPGSV_gotDataFlag := 1\<rparr>"

fun set_buff :: "gps_fn \<Rightarrow> bytes \<Rightarrow> ('d, 'z) AMPM_GPS_scheme \<Rightarrow> ('d, 'z) AMPM_GPS_scheme" where
  "set_buff Fn_GPRMC b s = s\<lparr>buffGPRMC := b\<rparr>"
| "set_buff Fn_GPGGA b s = s\<lparr>buffGPGGA := b\<rparr>"
| "set_buff Fn_GPGSA b s = s\<lparr>buffGPGSA := b\<rparr>"
| "set_buff Fn_GPGSV b s = s\<lparr>buffGPGSV := b\<rparr>"

fun sentence_no :: "gps_fn \<Rightarrow> nat" where
  "sentence_no Fn_GPRMC = 0"
| "sentence_no Fn_GPGGA = 1"
| "sentence_no Fn_GPGSA = 2"
| "sentence_no Fn_GPGSV = 3"

lemma gps_process_eq:
  "gps_process f c s = sentence_char (got_flag f) (set_got f) (sentence_buff f) (set_buff f) c s"
  by (cases f) (simp_all add: GPRMC_Process_def GPGGA_Process_def GPGSA_Process_def GPGSV_Process_def
      sentence_char_def Let_def split: prod.split option.split)

lemma GPS_ProcessCmd_fn: "GPS_ProcessCmd ! sentence_no f = (fst (GPS_ProcessCmd ! sentence_no f), f)"
  by (cases f) (simp_all add: GPS_ProcessCmd_nth)

lemma length_GPS_ProcessCmd [simp]: "length GPS_ProcessCmd = 4"
  by (simp add: GPS_ProcessCmd_def)

lemma sentence_no_less [simp]: "sentence_no f < 4"
  by (cases f) simp_all

lemma sentence_cases: "i < 4 \<Longrightarrow> \<exists>f. i = sentence_no f"
  by (metis less_4 sentence_no.simps One_nat_def)

text \<open>What the collector's control state is made of, apart from flags and buffers.\<close>

definition gps_ctl where
  "gps_ctl s = (GPS_cmdCnt s, GPS_numCmd s, GPS_cmdRecvLength s, GPS_cmdState s)"

lemma setters [simp]:
  "gps_ctl (set_got f s) = gps_ctl s" "gps_ctl (set_buff f b s) = gps_ctl s"
  "got_flag g (set_got f s) = (if g = f then 1 else got_flag g s)" "got_flag g (set_buff f b s) = got_flag g s"
  "sentence_buff g (set_got f s) = sentence_buff g s"
  "sentence_buff g (set_buff f b s) = (if g = f then b else sentence_buff g s)"
  "gpsInfo (set_got f s) = gpsInfo s" "gpsInfo (set_buff f b s) = gpsInfo s"
  "GPS_RxRingBuff (set_got f s) = GPS_RxRingBuff s" "GPS_RxRingBuff (set_buff f b s) = GPS_RxRingBuff s"
  "gpsCheckSum (set_buff f b s) = gpsCheckSum s" "gpsCalcCheckSumFlag (set_buff f b s) = gpsCalcCheckSumFlag s"
  "gpsGetCheckSumFlag (set_buff f b s) = gpsGetCheckSumFlag s" "gpsCheckSumX (set_buff f b s) = gpsCheckSumX s"
  by (cases f; cases g; simp add: gps_ctl_def)+

text \<open>Feeding a byte stream.\<close>

fun gps_feed :: "bytes \<Rightarrow> ('d, 'z) AMPM_GPS_scheme \<Rightarrow> ('d, 'z) AMPM_GPS_scheme option" where
  "gps_feed [] s = Some s"
| "gps_feed (c # cs) s = do { s \<leftarrow> GPS_ComnandParser c s; gps_feed cs s }"

lemma gps_feed_append: "gps_feed (xs @ ys) s = Option.bind (gps_feed xs s) (gps_feed ys)"
proof (induction xs arbitrary: s)
  case (Cons x xs)
  then show ?case by (cases "GPS_ComnandParser x s") simp_all
qed simp

section \<open>The search for a name\<close>

declare gps_search.simps [simp del]

abbreviation name_char :: "nat \<Rightarrow> nat \<Rightarrow> u8" where
  "name_char i k \<equiv> fst (GPS_ProcessCmd ! i) ! k"

lemma name_char_nonzero: "i < 4 \<Longrightarrow> k < 4 \<Longrightarrow> name_char i k \<noteq> 0"
  by (auto simp: GPS_ProcessCmd_nth dest!: less_4)

lemma name_char_end: "i < 4 \<Longrightarrow> name_char i 4 = 0"
  by (auto simp: GPS_ProcessCmd_nth nth_append dest!: less_4)

lemma name_length: "i < 4 \<Longrightarrow> length (fst (GPS_ProcessCmd ! i)) = 16"
  by (auto simp: GPS_ProcessCmd_nth dest!: less_4)

text \<open>One name: its counter goes on or starts again; at the fourth match the search is over.\<close>

lemma gps_search_step:
  assumes "i < 4" "length (GPS_cmdCnt s) = 4" "GPS_cmdCnt s ! i < 4"
  shows "gps_search c i s =
    (let k = GPS_cmdCnt s ! i; s' = s\<lparr>GPS_cmdCnt := (GPS_cmdCnt s)[i := if c = name_char i k then k + 1 else 0]\<rparr>
     in if c = name_char i k \<and> k = 3 then
          Some (s'\<lparr>GPS_numCmd := i, GPS_cmdState := GPS_CMD_WAIT_FINISH, GPS_cmdRecvLength := 0\<rparr>)
        else gps_search c (i + 1) s')"
proof -
  have "k = 3 \<or> Suc k < 4" if "k < 4" for k :: nat using that by auto
  moreover have "gps_search c 5 t = Some t" for t :: "('a, 'b) AMPM_GPS_scheme"
    by (simp add: gps_search.simps [of _ 5] GPS_CMD_COUNT_def)
  ultimately show ?thesis
    using assms name_char_nonzero [OF assms(1), of "Suc (GPS_cmdCnt s ! i)"] name_char_end [OF assms(1)] name_length [OF assms(1)]
      name_end_4 [of i]
    by (subst gps_search.simps) (auto simp: Let_def GPS_CMD_COUNT_def)
qed

lemma gps_search_done: "gps_search c 4 s = Some s"
  by (simp add: gps_search.simps [of _ 4] GPS_CMD_COUNT_def)

definition next_cnt :: "u8 \<Rightarrow> nat \<Rightarrow> nat \<Rightarrow> nat" where
  "next_cnt c i k = (if c = name_char i k then k + 1 else 0)"

lemma gps_search_go:
  assumes "i < 4" "length (GPS_cmdCnt s) = 4" "GPS_cmdCnt s ! i < 4" "c \<noteq> 0x2C \<or> GPS_cmdCnt s ! i \<noteq> 3"
  shows "gps_search c i s = gps_search c (Suc i) (s\<lparr>GPS_cmdCnt := (GPS_cmdCnt s)[i := next_cnt c i (GPS_cmdCnt s ! i)]\<rparr>)"
proof -
  have "name_char i 3 = 0x2C" using assms(1) by (auto simp: GPS_ProcessCmd_nth dest!: less_4)
  then have "\<not> (c = name_char i (GPS_cmdCnt s ! i) \<and> GPS_cmdCnt s ! i = 3)" using assms(4) by auto
  then show ?thesis unfolding gps_search_step [OF assms(1-3)] next_cnt_def by (simp only: Let_def if_False Suc_eq_plus1)
qed

lemma gps_search_quiet:
  assumes "GPS_cmdCnt s = [k0, k1, k2, k3]" "k0 < 4" "k1 < 4" "k2 < 4" "k3 < 4"
    and "c \<noteq> 0x2C \<or> k0 \<noteq> 3 \<and> k1 \<noteq> 3 \<and> k2 \<noteq> 3 \<and> k3 \<noteq> 3"
  shows "gps_search c 0 s = Some (s\<lparr>GPS_cmdCnt := [next_cnt c 0 k0, next_cnt c 1 k1, next_cnt c 2 k2, next_cnt c 3 k3]\<rparr>)"
proof -
  let ?s = "\<lambda>l. s\<lparr>GPS_cmdCnt := l\<rparr>"
  have "gps_search c 0 s = gps_search c 1 (?s [next_cnt c 0 k0, k1, k2, k3])"
    using assms by (subst gps_search_go) auto
  also have "\<dots> = gps_search c 2 (?s [next_cnt c 0 k0, next_cnt c 1 k1, k2, k3])"
    using assms by (subst gps_search_go) (auto simp: numeral_2_eq_2)
  also have "\<dots> = gps_search c 3 (?s [next_cnt c 0 k0, next_cnt c 1 k1, next_cnt c 2 k2, k3])"
    using assms by (subst gps_search_go) (auto simp: numeral_2_eq_2 numeral_3_eq_3)
  also have "\<dots> = gps_search c 4 (?s [next_cnt c 0 k0, next_cnt c 1 k1, next_cnt c 2 k2, next_cnt c 3 k3])"
    using assms by (subst gps_search_go) (auto simp: numeral_eq_Suc)
  finally show ?thesis by (simp add: gps_search_done)
qed

section \<open>The collector never leaves its arrays\<close>

definition gps_inv :: "('d, 'z) AMPM_GPS_scheme \<Rightarrow> bool" where
  "gps_inv s \<longleftrightarrow> (\<forall>f. length (sentence_buff f s) = GPS_MSG_MAX_SIZE) \<and> length (GPS_cmdCnt s) = GPS_CMD_COUNT
     \<and> (case GPS_cmdState s of
          GPS_CMD_FINISH \<Rightarrow> \<forall>k \<in> set (GPS_cmdCnt s). k < 4
        | GPS_CMD_WAIT_FINISH \<Rightarrow> GPS_numCmd s < GPS_CMD_COUNT \<and> GPS_cmdRecvLength s < GPS_MSG_MAX_SIZE
        | GPS_CMD_NEW_STATE \<Rightarrow> True)"

lemma sentence_buff_ctl [simp]:
  "sentence_buff f (s\<lparr>GPS_cmdCnt := cnt\<rparr>) = sentence_buff f s"
  "sentence_buff f (s\<lparr>GPS_numCmd := n\<rparr>) = sentence_buff f s"
  "sentence_buff f (s\<lparr>GPS_cmdRecvLength := n\<rparr>) = sentence_buff f s"
  "sentence_buff f (s\<lparr>GPS_cmdState := st\<rparr>) = sentence_buff f s"
  "sentence_buff f (s\<lparr>gpsCalcCheckSumFlag := v\<rparr>) = sentence_buff f s"
  "sentence_buff f (s\<lparr>gpsCheckSum := v\<rparr>) = sentence_buff f s"
  "sentence_buff f (s\<lparr>gpsCheckSumX := v\<rparr>) = sentence_buff f s"
  "sentence_buff f (s\<lparr>gpsGetCheckSumFlag := v\<rparr>) = sentence_buff f s"
  by (cases f; simp)+

lemma got_flag_ctl [simp]:
  "got_flag f (s\<lparr>GPS_cmdCnt := cnt\<rparr>) = got_flag f s"
  "got_flag f (s\<lparr>GPS_numCmd := n\<rparr>) = got_flag f s"
  "got_flag f (s\<lparr>GPS_cmdRecvLength := n\<rparr>) = got_flag f s"
  "got_flag f (s\<lparr>GPS_cmdState := st\<rparr>) = got_flag f s"
  "got_flag f (s\<lparr>gpsCalcCheckSumFlag := v\<rparr>) = got_flag f s"
  "got_flag f (s\<lparr>gpsCheckSum := v\<rparr>) = got_flag f s"
  "got_flag f (s\<lparr>gpsCheckSumX := v\<rparr>) = got_flag f s"
  "got_flag f (s\<lparr>gpsGetCheckSumFlag := v\<rparr>) = got_flag f s"
  by (cases f; simp)+

lemma update_bound: "\<forall>k \<in> set xs. k < n \<Longrightarrow> x < n \<Longrightarrow> \<forall>k \<in> set (xs[i := x]). k < (n :: nat)"
  using set_update_subset_insert [of xs i x] by auto

lemma gps_search_inv:
  "i \<le> 4 \<Longrightarrow> gps_inv s \<Longrightarrow> GPS_cmdState s = GPS_CMD_FINISH \<Longrightarrow> \<exists>s'. gps_search c i s = Some s' \<and> gps_inv s'"
proof (induction "4 - i" arbitrary: i s)
  case 0
  then show ?case by (simp add: gps_search_done)
next
  case (Suc n)
  then have i: "i < 4" by simp
  have len: "length (GPS_cmdCnt s) = 4" and le: "\<forall>k \<in> set (GPS_cmdCnt s). k < 4"
    using Suc.prems by (simp_all add: gps_inv_def GPS_CMD_COUNT_def)
  then have k: "GPS_cmdCnt s ! i < 4" using i by simp
  let ?k = "GPS_cmdCnt s ! i"
  let ?s = "s\<lparr>GPS_cmdCnt := (GPS_cmdCnt s)[i := next_cnt c i ?k]\<rparr>"
  show ?case
  proof (cases "c = name_char i ?k \<and> ?k = 3")
    case True
    then show ?thesis
      using Suc.prems i by (simp add: gps_search_step [OF i len k] Let_def gps_inv_def GPS_CMD_COUNT_def GPS_MSG_MAX_SIZE_def)
  next
    case False
    then have "next_cnt c i ?k < 4" using k by (auto simp: next_cnt_def)
    then have "gps_inv ?s" "GPS_cmdState ?s = GPS_CMD_FINISH"
      using Suc.prems update_bound [OF le] by (simp_all add: gps_inv_def)
    with Suc.hyps i have "\<exists>s'. gps_search c (i + 1) ?s = Some s' \<and> gps_inv s'" by simp
    with False show ?thesis by (simp only: gps_search_step [OF i len k] Let_def next_cnt_def if_False)
  qed
qed

lemma gps_checksum_fields [simp]:
  "sentence_buff f (gps_checksum c s) = sentence_buff f s" "got_flag f (gps_checksum c s) = got_flag f s"
  "GPS_cmdCnt (gps_checksum c s) = GPS_cmdCnt s" "GPS_numCmd (gps_checksum c s) = GPS_numCmd s"
  "GPS_cmdRecvLength (gps_checksum c s) = GPS_cmdRecvLength s" "GPS_cmdState (gps_checksum c s) = GPS_cmdState s"
  "gpsInfo (gps_checksum c s) = gpsInfo s" "GPS_RxRingBuff (gps_checksum c s) = GPS_RxRingBuff s"
  by (simp_all add: gps_checksum_def Let_def)

lemma gps_inv_checksum [simp]: "gps_inv (gps_checksum c s) = gps_inv s"
  by (simp add: gps_inv_def split: GPS_CMD_STATE.split)

lemma checksum_char_fields:
  "checksum_char c s = (b, s') \<Longrightarrow> sentence_buff f s' = sentence_buff f s \<and> got_flag f s' = got_flag f s
     \<and> gps_ctl s' = gps_ctl s \<and> gpsInfo s' = gpsInfo s \<and> GPS_RxRingBuff s' = GPS_RxRingBuff s"
  by (auto simp: checksum_char_def Let_def gps_ctl_def split: if_splits)

text \<open>A handler changes its own flag and buffer only, and returns as long as its buffer has room.\<close>

lemma gps_process_ok:
  assumes "\<forall>g. length (sentence_buff g s) = GPS_MSG_MAX_SIZE" "GPS_cmdRecvLength s < GPS_MSG_MAX_SIZE"
  shows "\<exists>r s'. gps_process f c s = Some (r, s') \<and> gps_ctl s' = gps_ctl s
    \<and> (\<forall>g. length (sentence_buff g s') = GPS_MSG_MAX_SIZE)"
proof (cases "got_flag f s \<noteq> 0")
  case True
  with assms show ?thesis by (simp add: gps_process_eq sentence_char_def)
next
  case False
  let ?s = "if GPS_cmdRecvLength s = 0 then s\<lparr>gpsGetCheckSumFlag := 0, gpsCheckSumX := 0\<rparr> else s"
  obtain b s1 where s1: "checksum_char c ?s = (b, s1)" by fastforce
  have "gps_ctl ?s = gps_ctl s" by (simp add: gps_ctl_def)
  with checksum_char_fields [OF s1] assms
  have "\<forall>g. length (sentence_buff g s1) = GPS_MSG_MAX_SIZE" "gps_ctl s1 = gps_ctl s" "GPS_cmdRecvLength s1 = GPS_cmdRecvLength s"
    by (auto simp: gps_ctl_def)
  with False s1 assms show ?thesis
    by (cases b) (auto simp: gps_process_eq sentence_char_def Let_def split: prod.splits)
qed

lemma gps_restart_fields [simp]:
  "sentence_buff f (gps_restart s) = sentence_buff f s" "got_flag f (gps_restart s) = got_flag f s"
  "GPS_cmdState (gps_restart s) = GPS_CMD_FINISH" "GPS_cmdCnt (gps_restart s) = replicate 4 0"
  "gpsInfo (gps_restart s) = gpsInfo s" "GPS_RxRingBuff (gps_restart s) = GPS_RxRingBuff s"
  "GPS_cmdRecvLength (gps_restart s) = GPS_cmdRecvLength s"
  by (simp_all add: gps_restart_def GPS_CMD_COUNT_def)

lemma GPS_ComnandParser_inv:
  assumes "gps_inv s"
  shows "\<exists>s'. GPS_ComnandParser c s = Some s' \<and> gps_inv s'"
proof (cases "GPS_cmdState s")
  case GPS_CMD_NEW_STATE
  with assms show ?thesis by (simp add: GPS_ComnandParser_def gps_inv_def GPS_CMD_COUNT_def)
next
  case GPS_CMD_FINISH
  with assms gps_search_inv [of 0 "gps_checksum c s" c] show ?thesis by (simp add: GPS_ComnandParser_def)
next
  case GPS_CMD_WAIT_FINISH
  let ?s = "gps_checksum c s"
  have n: "GPS_numCmd s < 4" and bufs: "\<forall>g. length (sentence_buff g ?s) = GPS_MSG_MAX_SIZE"
    and room: "GPS_cmdRecvLength ?s < GPS_MSG_MAX_SIZE" and cnt: "length (GPS_cmdCnt s) = GPS_CMD_COUNT"
    using assms GPS_CMD_WAIT_FINISH by (simp_all add: gps_inv_def GPS_CMD_COUNT_def)
  from gps_process_ok [OF bufs room, of "snd (GPS_ProcessCmd ! GPS_numCmd s)" c]
  obtain r s1 where s1: "gps_process (snd (GPS_ProcessCmd ! GPS_numCmd s)) c ?s = Some (r, s1)"
    "gps_ctl s1 = gps_ctl ?s" "\<forall>g. length (sentence_buff g s1) = GPS_MSG_MAX_SIZE" by blast
  then show ?thesis
    using n cnt room GPS_CMD_WAIT_FINISH
    by (auto simp: GPS_ComnandParser_def Let_def gps_ctl_def gps_inv_def GPS_CMD_COUNT_def)
qed

lemma GPS_ComnandParser_inv_feed: "gps_inv s \<Longrightarrow> \<exists>s'. gps_feed cs s = Some s' \<and> gps_inv s'"
proof (induction cs arbitrary: s)
  case (Cons c cs)
  then show ?case using GPS_ComnandParser_inv [of s c] by fastforce
qed simp

text \<open>Property C38. Whatever the receiver sends, the collector stays inside its sentence buffers, its
  counters and its table of names, and keeps its invariant.\<close>

theorem GPS_ComnandParser_safe:
  assumes "gps_inv s"
  shows "\<exists>s'. gps_feed cs s = Some s' \<and> gps_inv s'"
  using assms by (rule GPS_ComnandParser_inv_feed)

section \<open>A sentence is accepted exactly when its check sum is right\<close>

definition gps_ready :: "('d, 'z) AMPM_GPS_scheme \<Rightarrow> bool" where
  "gps_ready s \<longleftrightarrow> gps_inv s \<and> GPS_cmdState s = GPS_CMD_FINISH \<and> GPS_cmdCnt s = [0, 0, 0, 0]"

definition sentence_name :: "gps_fn \<Rightarrow> bytes" where
  "sentence_name f = take 4 (fst (GPS_ProcessCmd ! sentence_no f))"

definition xor_all :: "bytes \<Rightarrow> u8" where
  "xor_all cs = foldl (XOR) 0 cs"

text \<open>Inside a sentence, before its name is complete: the check sum so far and the four counters.\<close>

definition hunting where
  "hunting x cnt s = s\<lparr>gpsCalcCheckSumFlag := 1, gpsCheckSum := x, gpsGetCheckSumFlag := 0, GPS_cmdCnt := cnt\<rparr>"

lemma next_cnt_0 [simp]:
  "next_cnt c 0 0 = (if c = 0x52 then 1 else 0)" "next_cnt c (Suc 0) 0 = (if c = 0x47 then 1 else 0)"
  "next_cnt c 2 0 = (if c = 0x47 then 1 else 0)" "next_cnt c 3 0 = (if c = 0x47 then 1 else 0)"
  by (simp_all add: next_cnt_def GPS_ProcessCmd_nth)

lemma hunt_start:
  assumes "GPS_cmdState s = GPS_CMD_FINISH" "GPS_cmdCnt s = [0, 0, 0, 0]"
  shows "GPS_ComnandParser 0x24 s = Some (hunting 0 [0, 0, 0, 0] s)"
  using assms gps_search_quiet [of "gps_checksum 0x24 s" 0 0 0 0 "0x24"]
  by (simp add: GPS_ComnandParser_def hunting_def) (simp add: gps_checksum_def)

lemma hunt_step:
  assumes "GPS_cmdState s = GPS_CMD_FINISH" "k0 < 4" "k1 < 4" "k2 < 4" "k3 < 4" "c \<notin> {0x24, 0x2A, 0x2C}"
  shows "GPS_ComnandParser c (hunting x [k0, k1, k2, k3] s)
    = Some (hunting (x XOR c) [next_cnt c 0 k0, next_cnt c 1 k1, next_cnt c 2 k2, next_cnt c 3 k3] s)"
proof -
  have "gps_checksum c (hunting x [k0, k1, k2, k3] s) = hunting (x XOR c) [k0, k1, k2, k3] s"
    using assms(6) by (simp add: gps_checksum_def hunting_def)
  moreover have "GPS_cmdState (hunting y ks s) = GPS_CMD_FINISH" "GPS_cmdCnt (hunting y ks s) = ks" for y ks
    using assms(1) by (simp_all add: hunting_def)
  ultimately show ?thesis
    using assms(2-6) gps_search_quiet [of "hunting (x XOR c) [k0, k1, k2, k3] s" k0 k1 k2 k3 c]
    by (simp add: GPS_ComnandParser_def) (simp add: hunting_def)
qed

lemma search_completes:
  assumes "GPS_cmdCnt t = (replicate 4 0)[sentence_no f := 3]"
  shows "gps_search 0x2C 0 t = Some (t\<lparr>GPS_cmdCnt := (replicate 4 0)[sentence_no f := 4],
    GPS_numCmd := sentence_no f, GPS_cmdState := GPS_CMD_WAIT_FINISH, GPS_cmdRecvLength := 0\<rparr>)"
proof -
  have zero: "gps_search 0x2C i u = gps_search 0x2C (Suc i) (u\<lparr>GPS_cmdCnt := (GPS_cmdCnt u)[i := 0]\<rparr>)"
    if "i < 4" "length (GPS_cmdCnt u) = 4" "GPS_cmdCnt u ! i = 0" for i and u :: "('a, 'b) AMPM_GPS_scheme"
    using that gps_search_go [of i u "0x2C"] by (auto dest!: less_4)
  have same: "gps_search 0x2C 0 t = gps_search 0x2C i t" if "i \<le> sentence_no f" for i
    using that
  proof (induction i)
    case (Suc i)
    then have i: "i < 4" using sentence_no_less [of f] by linarith
    then have "GPS_cmdCnt t ! i = 0" using assms Suc.prems by simp
    moreover note i
    moreover from calculation(1) have "(GPS_cmdCnt t)[i := 0] = GPS_cmdCnt t" by (metis list_update_id)
    moreover have "length (GPS_cmdCnt t) = 4" using assms by simp
    ultimately have "gps_search 0x2C i t = gps_search 0x2C (Suc i) t" using zero [of i t] by simp
    with Suc show ?case by simp
  qed simp
  have "name_char (sentence_no f) 3 = 0x2C" by (cases f) (simp_all add: GPS_ProcessCmd_nth)
  then have "gps_search 0x2C (sentence_no f) t = Some (t\<lparr>GPS_cmdCnt := (replicate 4 0)[sentence_no f := 4],
    GPS_numCmd := sentence_no f, GPS_cmdState := GPS_CMD_WAIT_FINISH, GPS_cmdRecvLength := 0\<rparr>)"
    using assms by (subst gps_search_step) (simp_all add: Let_def)
  then show ?thesis unfolding same [OF order_refl] .
qed

lemma hunt_comma:
  assumes "GPS_cmdState s = GPS_CMD_FINISH"
  shows "GPS_ComnandParser 0x2C (hunting x ((replicate 4 0)[sentence_no f := 3]) s)
    = Some ((hunting (x XOR 0x2C) ((replicate 4 0)[sentence_no f := 4]) s)\<lparr>
        GPS_numCmd := sentence_no f, GPS_cmdState := GPS_CMD_WAIT_FINISH, GPS_cmdRecvLength := 0\<rparr>)"
proof -
  let ?k = "(replicate 4 0)[sentence_no f := 3]"
  have "gps_checksum 0x2C (hunting x ?k s) = hunting (x XOR 0x2C) ?k s" by (simp add: gps_checksum_def hunting_def)
  moreover have "GPS_cmdState (hunting y ks s) = GPS_CMD_FINISH" "GPS_cmdCnt (hunting y ks s) = ks" for y ks
    using assms by (simp_all add: hunting_def)
  ultimately show ?thesis
    using search_completes [of "hunting (x XOR 0x2C) ?k s" f] by (simp add: GPS_ComnandParser_def) (simp add: hunting_def)
qed

text \<open>The two letters before the name of a sentence say who talks: \<open>GP\<close>, \<open>GL\<close>, \<open>GN\<close> and so on.\<close>

definition talker :: "u8 \<Rightarrow> u8 \<Rightarrow> bool" where
  "talker a b \<longleftrightarrow> a \<notin> {0x24, 0x2A, 0x2C} \<and> b \<notin> {0x24, 0x2A, 0x2C, 0x52, 0x4D, 0x47, 0x53}"

lemma feed_name:
  assumes "GPS_cmdState s = GPS_CMD_FINISH" "GPS_cmdCnt s = [0, 0, 0, 0]" "talker a b"
  shows "gps_feed (0x24 # a # b # sentence_name f) s
    = Some ((hunting (xor_all (a # b # sentence_name f)) ((replicate 4 0)[sentence_no f := 4]) s)\<lparr>
        GPS_numCmd := sentence_no f, GPS_cmdState := GPS_CMD_WAIT_FINISH, GPS_cmdRecvLength := 0\<rparr>)"
proof -
  have ab: "gps_feed [0x24, a, b] s = Some (hunting (a XOR b) [0, 0, 0, 0] s)"
    using assms by (auto simp: hunt_start hunt_step talker_def next_cnt_def GPS_ProcessCmd_nth)
  have r4: "replicate 4 0 = [0, 0, 0, 0 :: nat]" by (simp add: numeral_eq_Suc)
  have name: "gps_feed (take 3 (sentence_name f)) (hunting x [0, 0, 0, 0] s)
      = Some (hunting (foldl (XOR) x (take 3 (sentence_name f))) ((replicate 4 0)[sentence_no f := 3]) s)" for x
    using assms(1) by (cases f) (simp_all add: r4 sentence_name_def GPS_ProcessCmd_nth hunt_step next_cnt_def numeral_3_eq_3 [symmetric])
  have "sentence_name f = take 3 (sentence_name f) @ [0x2C]"
    by (cases f) (simp_all add: sentence_name_def GPS_ProcessCmd_nth)
  then obtain nm where nm: "sentence_name f = nm @ [0x2C]" "nm = take 3 (sentence_name f)" by blast
  have "gps_feed (0x24 # a # b # sentence_name f) s = gps_feed ([0x24, a, b] @ nm @ [0x2C]) s" by (simp add: nm(1))
  also have "\<dots> = gps_feed (nm @ [0x2C]) (hunting (a XOR b) [0, 0, 0, 0] s)"
    unfolding gps_feed_append [of "[0x24, a, b]"] ab by simp
  also have "\<dots> = gps_feed [0x2C] (hunting (foldl (XOR) (a XOR b) nm) ((replicate 4 0)[sentence_no f := 3]) s)"
    using name [of "a XOR b"] by (simp add: gps_feed_append nm(2) [symmetric])
  finally show ?thesis using hunt_comma [OF assms(1)] by (simp add: nm(1) xor_all_def)
qed

text \<open>Inside the sentence: the check sum so far, the flag and the value of the transmitted check sum, the
  position and the buffer.\<close>

definition in_sentence where
  "in_sentence f calc x get y n b s \<longleftrightarrow> GPS_cmdState s = GPS_CMD_WAIT_FINISH \<and> GPS_numCmd s = sentence_no f
     \<and> GPS_cmdRecvLength s = n \<and> gpsCalcCheckSumFlag s = calc \<and> gpsCheckSum s = x
     \<and> gpsGetCheckSumFlag s = get \<and> (get \<noteq> 0 \<longrightarrow> gpsCheckSumX s = y) \<and> got_flag f s = 0
     \<and> sentence_buff f s = b \<and> length b = GPS_MSG_MAX_SIZE \<and> length (GPS_cmdCnt s) = GPS_CMD_COUNT"

text \<open>What belongs to the other sentences and to the task.\<close>

definition aside where
  "aside f s = ((\<lambda>g. if g = f then None else Some (got_flag g s, sentence_buff g s)), gpsInfo s, GPS_RxRingBuff s)"

lemma aside_setters [simp]:
  "aside f (set_got f s) = aside f s" "aside f (set_buff f b s) = aside f s"
  "aside f (gps_restart s) = aside f s" "aside f (gps_checksum c s) = aside f s"
  "aside f (s\<lparr>GPS_cmdCnt := cnt\<rparr>) = aside f s" "aside f (s\<lparr>GPS_numCmd := k\<rparr>) = aside f s"
  "aside f (s\<lparr>GPS_cmdRecvLength := k\<rparr>) = aside f s" "aside f (s\<lparr>GPS_cmdState := st\<rparr>) = aside f s"
  "aside f (s\<lparr>gpsCalcCheckSumFlag := v\<rparr>) = aside f s" "aside f (s\<lparr>gpsCheckSum := v\<rparr>) = aside f s"
  "aside f (s\<lparr>gpsCheckSumX := v\<rparr>) = aside f s" "aside f (s\<lparr>gpsGetCheckSumFlag := v\<rparr>) = aside f s"
  by (auto simp: aside_def fun_eq_iff)

lemma waiting_step:
  assumes "GPS_cmdState s = GPS_CMD_WAIT_FINISH" "GPS_numCmd s = sentence_no f"
  shows "GPS_ComnandParser c s = do {
    (r, s) \<leftarrow> gps_process f c (gps_checksum c s);
    let s = (if r = 0 then gps_restart s else s);
    let s = s\<lparr>GPS_cmdRecvLength := GPS_cmdRecvLength s + 1\<rparr>;
    Some (if GPS_cmdRecvLength s \<ge> GPS_MSG_MAX_SIZE then gps_restart s else s)
  }"
proof -
  have "snd (GPS_ProcessCmd ! sentence_no f) = f" by (metis GPS_ProcessCmd_fn snd_conv)
  with assms show ?thesis by (simp add: GPS_ComnandParser_def)
qed

lemma set_buff_more [simp]:
  "GPS_cmdRecvLength (set_buff f b s) = GPS_cmdRecvLength s" "GPS_cmdState (set_buff f b s) = GPS_cmdState s"
  "GPS_numCmd (set_buff f b s) = GPS_numCmd s" "GPS_cmdCnt (set_buff f b s) = GPS_cmdCnt s"
  "GPS_cmdRecvLength (set_got f s) = GPS_cmdRecvLength s"
  by (cases f; simp)+

lemma replicate_4: "replicate 4 x = [x, x, x, x]"
  by (simp add: numeral_eq_Suc)

lemma sentence_byte:
  assumes "in_sentence f 1 x 0 y n b s" "c \<notin> {0x24, 0x2A}" "n + 1 < GPS_MSG_MAX_SIZE"
  shows "\<exists>s'. GPS_ComnandParser c s = Some s' \<and> in_sentence f 1 (x XOR c) 0 0 (n + 1) (b[n := c]) s' \<and> aside f s' = aside f s"
  using assms
  by (simp add: in_sentence_def waiting_step [of s f] gps_process_eq sentence_char_def checksum_char_def gps_checksum_def
      GPS_MSG_MAX_SIZE_def)

lemma sentence_star:
  assumes "in_sentence f 1 x 0 y n b s" "n + 1 < GPS_MSG_MAX_SIZE"
  shows "\<exists>s'. GPS_ComnandParser 0x2A s = Some s' \<and> in_sentence f 0 x 1 0 (n + 1) (b[n := 0x2A]) s' \<and> aside f s' = aside f s"
  using assms
  by (simp add: in_sentence_def waiting_step [of s f] gps_process_eq sentence_char_def checksum_char_def gps_checksum_def
      GPS_MSG_MAX_SIZE_def)

lemma sentence_digit:
  assumes "in_sentence f 0 x 1 0 n b s" "h \<notin> {0x24, 0x2A}" "n + 1 < GPS_MSG_MAX_SIZE" "n \<noteq> 0"
  shows "\<exists>s'. GPS_ComnandParser h s = Some s' \<and> in_sentence f 0 x 2 (push_bit 4 (hex_value h)) (n + 1) (b[n := h]) s'
    \<and> aside f s' = aside f s"
  using assms
  by (simp add: in_sentence_def waiting_step [of s f] gps_process_eq sentence_char_def checksum_char_def gps_checksum_def
      GPS_MSG_MAX_SIZE_def Let_def)

lemma sentence_end:
  assumes "in_sentence f 0 x 2 y n b s" "l \<notin> {0x24, 0x2A}" "n \<noteq> 0"
  shows "\<exists>s'. GPS_ComnandParser l s = Some s' \<and> aside f s' = aside f s \<and> sentence_buff f s' = b
    \<and> GPS_cmdState s' = GPS_CMD_FINISH \<and> GPS_cmdCnt s' = [0, 0, 0, 0]
    \<and> got_flag f s' = (if y OR hex_value l = x then 1 else 0)"
  using assms
  by (auto simp: in_sentence_def waiting_step [of s f] gps_process_eq sentence_char_def checksum_char_def gps_checksum_def
      GPS_MSG_MAX_SIZE_def Let_def replicate_4)

lemma sentence_body:
  assumes "in_sentence f 1 x 0 y n b s" "{0x24, 0x2A} \<inter> set cs = {}" "n + length cs < GPS_MSG_MAX_SIZE"
  shows "\<exists>s' y'. gps_feed cs s = Some s' \<and> in_sentence f 1 (foldl (XOR) x cs) 0 y' (n + length cs)
    (take n b @ cs @ drop (n + length cs) b) s' \<and> aside f s' = aside f s"
  using assms
proof (induction cs arbitrary: x y n b s)
  case Nil
  then show ?case by auto
next
  case (Cons c cs)
  have b: "length b = GPS_MSG_MAX_SIZE" using Cons.prems(1) by (simp add: in_sentence_def)
  obtain s1 where s1: "GPS_ComnandParser c s = Some s1" "in_sentence f 1 (x XOR c) 0 0 (n + 1) (b[n := c]) s1" "aside f s1 = aside f s"
    using sentence_byte [OF Cons.prems(1), of c] Cons.prems by auto
  then obtain s2 y2 where s2: "gps_feed cs s1 = Some s2" "in_sentence f 1 (foldl (XOR) (x XOR c) cs) 0 y2 (n + 1 + length cs)
    (take (n + 1) (b[n := c]) @ cs @ drop (n + 1 + length cs) (b[n := c])) s2" "aside f s2 = aside f s1"
    using Cons.IH [OF s1(2)] Cons.prems by force
  have "take (n + 1) (b[n := c]) = take n b @ [c]"
    using b Cons.prems(3) by (simp add: take_Suc_conv_app_nth)
  then show ?case using s1 s2 by (intro exI [of _ s2] exI [of _ y2]) simp
qed

definition hex_char :: "u8 \<Rightarrow> u8" where
  "hex_char v = (if v < 10 then v + 0x30 else v + 0x37)"

definition hex_pair_ok :: "u8 \<Rightarrow> bool" where
  "hex_pair_ok v \<longleftrightarrow> push_bit 4 (hex_value (hex_char (drop_bit 4 v))) OR hex_value (hex_char (v AND 0x0F)) = v
     \<and> hex_char (drop_bit 4 v) \<notin> {0x24, 0x2A} \<and> hex_char (v AND 0x0F) \<notin> {0x24, 0x2A}"

lemma hex_pair: "hex_pair_ok v"
proof (rule all_u8)
  have "list_all (\<lambda>n. hex_pair_ok (word_of_nat n)) [0..<256]" by code_simp
  then show "hex_pair_ok (word_of_nat n)" if "n < 256" for n using that by (simp add: list_all_iff)
qed

text \<open>A sentence on the line, with the check sum \<open>v\<close> in two hexadecimal digits.\<close>

definition sentence :: "u8 \<Rightarrow> u8 \<Rightarrow> gps_fn \<Rightarrow> bytes \<Rightarrow> u8 \<Rightarrow> bytes" where
  "sentence a b f body v = (0x24 # a # b # sentence_name f) @ body @ [0x2A, hex_char (drop_bit 4 v), hex_char (v AND 0x0F)]"

lemma sentence_before_end:
  assumes "gps_ready s" "talker a b" "{0x24, 0x2A} \<inter> set body = {}" "length body < 78" "got_flag f s = 0" "h \<notin> {0x24, 0x2A}"
  shows "\<exists>s' b'. gps_feed ((0x24 # a # b # sentence_name f) @ body @ [0x2A, h]) s = Some s' \<and> aside f s' = aside f s
    \<and> in_sentence f 0 (xor_all (a # b # sentence_name f @ body)) 2 (push_bit 4 (hex_value h)) (length body + 2) b' s'
    \<and> take (length body + 1) b' = body @ [0x2A]"
proof -
  let ?x = "xor_all (a # b # sentence_name f)" and ?n = "length body"
  have len: "length (sentence_buff f s) = GPS_MSG_MAX_SIZE"
    using assms(1) by (auto simp: gps_ready_def gps_inv_def)
  define s1 where "s1 = (hunting ?x ((replicate 4 0)[sentence_no f := 4]) s)\<lparr>GPS_numCmd := sentence_no f,
    GPS_cmdState := GPS_CMD_WAIT_FINISH, GPS_cmdRecvLength := 0\<rparr>"
  have f1: "gps_feed (0x24 # a # b # sentence_name f) s = Some s1"
    using assms(1,2) unfolding s1_def gps_ready_def by (intro feed_name) auto
  have "in_sentence f 1 ?x 0 0 0 (sentence_buff f s) s1" "aside f s1 = aside f s"
    using assms(5) len by (simp_all add: in_sentence_def s1_def hunting_def GPS_CMD_COUNT_def)
  then obtain s2 y where s2: "gps_feed body s1 = Some s2" "aside f s2 = aside f s"
    "in_sentence f 1 (foldl (XOR) ?x body) 0 y ?n (body @ drop ?n (sentence_buff f s)) s2"
    using sentence_body [of f ?x 0 0 "sentence_buff f s" s1 body] assms(3,4) by (auto simp: GPS_MSG_MAX_SIZE_def)
  let ?x' = "foldl (XOR) ?x body" and ?b = "body @ drop ?n (sentence_buff f s)"
  obtain s3 where s3: "GPS_ComnandParser 0x2A s2 = Some s3" "in_sentence f 0 ?x' 1 0 (?n + 1) (?b[?n := 0x2A]) s3" "aside f s3 = aside f s"
    using sentence_star [OF s2(3)] assms(4) s2(2) by (auto simp: GPS_MSG_MAX_SIZE_def)
  obtain s4 where s4: "GPS_ComnandParser h s3 = Some s4" "aside f s4 = aside f s"
    "in_sentence f 0 ?x' 2 (push_bit 4 (hex_value h)) (?n + 1 + 1) (?b[?n := 0x2A, ?n + 1 := h]) s4"
    using sentence_digit [OF s3(2) assms(6)] assms(4) s3(3) by (auto simp: GPS_MSG_MAX_SIZE_def)
  have "gps_feed ((0x24 # a # b # sentence_name f) @ body @ [0x2A, h]) s = Some s4"
    unfolding gps_feed_append f1 using s2(1) s3(1) s4(1) by (simp add: gps_feed_append)
  moreover have "take (?n + 1) (?b[?n := 0x2A, ?n + 1 := h]) = body @ [0x2A]"
    using len assms(4) by (simp add: take_Suc_conv_app_nth GPS_MSG_MAX_SIZE_def)
  moreover have "?x' = xor_all (a # b # sentence_name f @ body)" by (simp add: xor_all_def)
  moreover have "?n + 1 + 1 = ?n + 2" by simp
  ultimately show ?thesis using s4(2,3) by metis
qed

lemma sentence_split:
  "sentence a b f body v = ((0x24 # a # b # sentence_name f) @ body @ [0x2A, hex_char (drop_bit 4 v)]) @ [hex_char (v AND 0x0F)]"
  by (simp add: sentence_def)

lemma sentence_checked:
  assumes "gps_ready s" "talker a b" "{0x24, 0x2A} \<inter> set body = {}" "length body < 78" "got_flag f s = 0"
  shows "\<exists>s'. gps_feed (sentence a b f body v) s = Some s' \<and> gps_ready s'
    \<and> got_flag f s' = (if v = xor_all (a # b # sentence_name f @ body) then 1 else 0)
    \<and> take (length body + 1) (sentence_buff f s') = body @ [0x2A] \<and> aside f s' = aside f s"
proof -
  let ?x = "xor_all (a # b # sentence_name f @ body)"
  let ?h = "hex_char (drop_bit 4 v)" and ?l = "hex_char (v AND 0x0F)"
  have hl: "?h \<notin> {0x24, 0x2A}" "?l \<notin> {0x24, 0x2A}" "push_bit 4 (hex_value ?h) OR hex_value ?l = v"
    using hex_pair [of v] by (simp_all add: hex_pair_ok_def)
  obtain s4 b' where s4: "gps_feed ((0x24 # a # b # sentence_name f) @ body @ [0x2A, ?h]) s = Some s4" "aside f s4 = aside f s"
    "in_sentence f 0 ?x 2 (push_bit 4 (hex_value ?h)) (length body + 2) b' s4" "take (length body + 1) b' = body @ [0x2A]"
    using sentence_before_end [OF assms hl(1)] by blast
  obtain s5 where s5: "GPS_ComnandParser ?l s4 = Some s5" "aside f s5 = aside f s" "sentence_buff f s5 = b'"
    "GPS_cmdState s5 = GPS_CMD_FINISH" "GPS_cmdCnt s5 = [0, 0, 0, 0]" "got_flag f s5 = (if v = ?x then 1 else 0)"
    using sentence_end [OF s4(3) hl(2)] s4(2) hl(3) by auto
  have feed: "gps_feed (sentence a b f body v) s = Some s5"
    unfolding sentence_split gps_feed_append [of _ "[?l]"] s4(1) using s5(1) by simp
  moreover have "gps_inv s" using assms(1) by (simp add: gps_ready_def)
  ultimately have "gps_ready s5"
    using GPS_ComnandParser_inv_feed [of s "sentence a b f body v"] s5(4,5) by (simp add: gps_ready_def)
  with feed s5 s4(4) show ?thesis by auto
qed

text \<open>Property C13. Every sentence the receiver sends, of any of the four kinds and for any talker, is
  marked as received exactly when the check sum in it is the exclusive or of the characters between
  \<open>$\<close> and \<open>*\<close>; its text is then at the start of its buffer, the other sentences and the
  summary are untouched, and the collector waits for the next sentence.\<close>

theorem GPS_sentence_checked:
  assumes "gps_ready s" "talker a b" "{0x24, 0x2A} \<inter> set body = {}" "length body < 78" "got_flag f s = 0"
  shows "\<exists>s'. gps_feed (sentence a b f body v) s = Some s' \<and> gps_ready s'
    \<and> got_flag f s' = (if v = xor_all (a # b # sentence_name f @ body) then 1 else 0)
    \<and> take (length body + 1) (sentence_buff f s') = body @ [0x2A] \<and> aside f s' = aside f s"
  using assms by (rule sentence_checked)

end
