(* ===== verification/GpsPosition.thy ===== *)
theory GpsPosition
  imports GpsProofs
begin

text \<open>
  The way of a position sentence through the GPS receiver: what the scanner makes of its fields,
  and how the sentence gets from the receive buffer into the summary.
\<close>

section \<open>Scanning one field\<close>

declare nmea_scanf_loop.simps [simp del]

named_theorems scan \<open>one step of the scanner\<close>

lemma scan_end [scan]: "nmea_scanf_loop fp tt beg [] buff out = out"
  by (simp add: nmea_scanf_loop.simps)

lemma scan_percent [scan]:
  "nmea_scanf_loop fp NMEA_TOKS_COMPARE beg (0x25 # fmt) (c # buff) out = nmea_scanf_loop fp NMEA_TOKS_PERCENT beg fmt (c # buff) out"
  "fld \<noteq> [] \<Longrightarrow> nmea_scanf_loop fp NMEA_TOKS_COMPARE beg (0x25 # fmt) (fld @ buff) out
     = nmea_scanf_loop fp NMEA_TOKS_PERCENT beg fmt (fld @ buff) out"
  by (simp_all add: nmea_scanf_loop.simps)

lemma scan_literal [scan]:
  "c \<noteq> 0x25 \<Longrightarrow> nmea_scanf_loop fp NMEA_TOKS_COMPARE beg (c # fmt) (c # buff) out = nmea_scanf_loop fp NMEA_TOKS_COMPARE beg fmt buff out"
  by (simp add: nmea_scanf_loop.simps)

lemma scan_char [scan]:
  "c \<noteq> g \<Longrightarrow> nmea_scanf_loop fp NMEA_TOKS_PERCENT beg (0x43 # g # fmt) (c # buff) out
     = nmea_scanf_loop fp NMEA_TOKS_COMPARE [] (g # fmt) buff (out @ [NChar c])"
  by (simp add: nmea_scanf_loop.simps is_digit_def nmea_token_def nmea_store_def)

lemma scan_two [scan]:
  "nmea_scanf_loop fp NMEA_TOKS_PERCENT beg (0x32 # 0x64 # fmt) (a # b # buff) out
     = nmea_scanf_loop fp NMEA_TOKS_COMPARE [0x32] fmt buff (out @ [NInt (nmea_atoi [a, b] 10)])"
proof -
  have "nmea_atoi [0x32] 10 = 2" by code_simp
  then show ?thesis by (simp add: nmea_scanf_loop.simps is_digit_def nmea_token_def nmea_store_def)
qed

lemma scan_rest [scan]:
  "fld \<noteq> [] \<Longrightarrow> nmea_scanf_loop fp NMEA_TOKS_PERCENT beg [0x64] fld out = out @ [NInt (nmea_atoi fld 10)]"
  by (simp add: nmea_scanf_loop.simps is_digit_def nmea_token_def nmea_store_def)

lemma token_field:
  "g \<notin> set fld \<Longrightarrow> g \<noteq> 0 \<Longrightarrow> f \<noteq> 0x63 \<Longrightarrow> f \<noteq> 0x43 \<Longrightarrow> nmea_token 0 f (g # fmt) (fld @ g # rest) = Some (fld, g # rest)"
  by (auto simp: nmea_token_def Let_def takeWhile_append dropWhile_append dest: set_takeWhileD)

lemma scan_text [scan]:
  assumes "g \<notin> set fld" "g \<noteq> 0" "fld \<noteq> []"
  shows "nmea_scanf_loop fp NMEA_TOKS_PERCENT beg (0x73 # g # fmt) (fld @ g # rest) out
    = nmea_scanf_loop fp NMEA_TOKS_COMPARE [] (g # fmt) (g # rest) (out @ [NStr fld])"
  using assms by (simp add: nmea_scanf_loop.simps is_digit_def token_field nmea_store_def)

text \<open>The text of a number: not empty, short enough for the conversion buffer, no character with a meaning of its own.\<close>

definition num_field :: "bytes \<Rightarrow> bool" where
  "num_field fld \<longleftrightarrow> fld \<noteq> [] \<and> length fld < NMEA_CONVSTR_BUF \<and> {0, 0x24, 0x2A, 0x2C} \<inter> set fld = {}"

lemma scan_real [scan]:
  assumes "num_field fld"
  shows "nmea_scanf_loop fp NMEA_TOKS_PERCENT beg (0x66 # 0x2C # fmt) (fld @ 0x2C # rest) out
    = nmea_scanf_loop fp NMEA_TOKS_COMPARE [] (0x2C # fmt) (0x2C # rest) (out @ [NReal (fp_strtod fp fld)])"
proof -
  have "0x2C \<notin> set fld" "fld \<noteq> []" "nmea_atof fp fld = fp_strtod fp fld"
    using assms by (auto simp: num_field_def nmea_atof_def)
  then show ?thesis by (simp add: nmea_scanf_loop.simps is_digit_def token_field nmea_store_def)
qed

section \<open>Numbers\<close>

lemma digit_value_bound: "is_digit c \<Longrightarrow> digit_value c < 10"
  by (auto simp: digit_value_def is_digit_def word_le_nat_alt)

lemma is_digit_plain: "is_digit c \<Longrightarrow> \<not> isspace c \<and> c \<notin> {0, 0x24, 0x2A, 0x2B, 0x2C, 0x2D, 0x2E}"
  by (auto simp: is_digit_def isspace_def word_le_nat_alt)

lemma numeral_value_bound:
  "\<forall>c \<in> set ds. is_digit c \<Longrightarrow> numeral_value 10 ds < 10 ^ length ds"
proof (induction ds rule: rev_induct)
  case (snoc d ds)
  then have "digit_value d < 10" "numeral_value 10 ds < 10 ^ length ds" by (auto intro: digit_value_bound)
  then show ?case by (simp add: numeral_value_def)
qed (simp add: numeral_value_def)

lemma nmea_atoi_digits:
  assumes "ds \<noteq> []" "\<forall>c \<in> set ds. is_digit c" "length ds \<le> 9"
  shows "nmea_atoi ds 10 = int (numeral_value 10 ds)"
proof -
  have "0 \<notin> set ds" using assms(2) is_digit_plain by blast
  moreover have "dropWhile isspace ds = ds" using assms(1,2) is_digit_plain by (cases ds) auto
  moreover have "hd ds \<noteq> 0x2D" "hd ds \<noteq> 0x2B" using assms(1,2) is_digit_plain by (cases ds; auto)+
  moreover have "takeWhile (\<lambda>c. digit_value c < 10) ds = ds" using assms(2) digit_value_bound by auto
  moreover have "int (numeral_value 10 ds) < 10 ^ 9"
  proof -
    have "numeral_value 10 ds < 10 ^ length ds" by (rule numeral_value_bound [OF assms(2)])
    also have "\<dots> \<le> 10 ^ 9" using assms(3) by (intro power_increasing) auto
    finally show ?thesis by simp
  qed
  ultimately show ?thesis using assms(3) by (simp add: nmea_atoi_def strtol_def NMEA_CONVSTR_BUF_def del: takeWhile_eq_all_conv)
qed

lemma atoi_two: "is_digit a \<Longrightarrow> is_digit b \<Longrightarrow> nmea_atoi [a, b] 10 = int (numeral_value 10 [a, b])"
  by (rule nmea_atoi_digits) auto

section \<open>The time\<close>

text \<open>\<open>hhmmss\<close>, with up to three digits after a decimal point.\<close>

definition time_text :: "bytes \<Rightarrow> bytes \<Rightarrow> bytes" where
  "time_text hms frac = hms @ (if frac = [] then [] else 0x2E # frac)"

definition time_ok :: "bytes \<Rightarrow> bytes \<Rightarrow> bool" where
  "time_ok hms frac \<longleftrightarrow> length hms = 6 \<and> length frac \<le> 3 \<and> (\<forall>c \<in> set (hms @ frac). is_digit c)"

abbreviation two :: "bytes \<Rightarrow> nat \<Rightarrow> int" where
  "two ds i \<equiv> int (numeral_value 10 [ds ! i, ds ! Suc i])"

lemma length_6: "length xs = 6 \<Longrightarrow> \<exists>a b c d e f. xs = [a, b, c, d, e, f]"
  by (auto simp: numeral_eq_Suc length_Suc_conv)

lemma time_formats:
  "ascii ''%2d%2d%2d'' = [0x25, 0x32, 0x64, 0x25, 0x32, 0x64, 0x25, 0x32, 0x64]"
  "ascii ''%2d%2d%2d.%d'' = [0x25, 0x32, 0x64, 0x25, 0x32, 0x64, 0x25, 0x32, 0x64, 0x2E, 0x25, 0x64]"
  by (simp_all add: ascii_def of_char_def)

lemma nmea_parse_time_text:
  assumes "time_ok hms frac"
  shows "nmea_parse_time fp (time_text hms frac) res = (0, res\<lparr>ti_hour := two hms 0, ti_min := two hms 2,
    ti_sec := two hms 4, ti_hsec := (if frac = [] then ti_hsec res else int (numeral_value 10 frac))\<rparr>)"
proof -
  obtain a b c d e f where hms: "hms = [a, b, c, d, e, f]" using assms length_6 [of hms] unfolding time_ok_def by blast
  have dig: "is_digit a" "is_digit b" "is_digit c" "is_digit d" "is_digit e" "is_digit f"
    using assms by (auto simp: time_ok_def hms)
  show ?thesis
  proof (cases "frac = []")
    case True
    then show ?thesis
      using dig by (simp add: nmea_parse_time_def time_text_def hms nmea_scanf_def time_formats scan atoi_two int_at_def)
  next
    case False
    then have "length frac = 1 \<or> length frac = 2 \<or> length frac = 3"
      using assms by (cases "length frac") (auto simp: time_ok_def)
    moreover have "nmea_atoi frac 10 = int (numeral_value 10 frac)"
      using False assms by (intro nmea_atoi_digits) (auto simp: time_ok_def)
    moreover obtain x xs where "frac = x # xs" using False by (cases frac) auto
    ultimately show ?thesis
      using dig by (auto simp: nmea_parse_time_def time_text_def hms nmea_scanf_def time_formats scan atoi_two int_at_def)
  qed
qed

section \<open>The fields of an RMC sentence\<close>

record rmc_text =
  tx_hms :: bytes
  tx_frac :: bytes
  tx_status :: u8
  tx_lat :: bytes
  tx_ns :: u8
  tx_lon :: bytes
  tx_ew :: u8
  tx_speed :: bytes
  tx_course :: bytes
  tx_date :: bytes
  tx_decl :: bytes
  tx_decl_ew :: u8
  tx_mode :: u8

definition rmc_ok :: "rmc_text \<Rightarrow> bool" where
  "rmc_ok r \<longleftrightarrow> time_ok (tx_hms r) (tx_frac r)
     \<and> (\<forall>t \<in> {tx_lat r, tx_lon r, tx_speed r, tx_course r, tx_decl r}. num_field t)
     \<and> (\<forall>c \<in> {tx_status r, tx_ns r, tx_ew r, tx_decl_ew r, tx_mode r}. c \<notin> {0x24, 0x2A, 0x2C})
     \<and> length (tx_date r) = 6 \<and> (\<forall>c \<in> set (tx_date r). is_digit c)"

definition rmc_body :: "rmc_text \<Rightarrow> bytes" where
  "rmc_body r = time_text (tx_hms r) (tx_frac r) @ 0x2C # tx_status r # 0x2C # tx_lat r @ 0x2C # tx_ns r # 0x2C
     # tx_lon r @ 0x2C # tx_ew r # 0x2C # tx_speed r @ 0x2C # tx_course r @ 0x2C # tx_date r @ 0x2C
     # tx_decl r @ 0x2C # tx_decl_ew r # 0x2C # [tx_mode r]"

text \<open>What the sentence says: the date counts years from 1900 and months from 0.\<close>

definition rmc_says :: "'d fpu \<Rightarrow> rmc_text \<Rightarrow> 'd nmeaGPRMC" where
  "rmc_says fp r =
     \<lparr>rmc_utc = \<lparr>ti_year = (if two (tx_date r) 4 < 90 then two (tx_date r) 4 + 100 else two (tx_date r) 4),
        ti_mon = two (tx_date r) 2 - 1, ti_day = two (tx_date r) 0, ti_hour = two (tx_hms r) 0,
        ti_min = two (tx_hms r) 2, ti_sec = two (tx_hms r) 4,
        ti_hsec = (if tx_frac r = [] then 0 else int (numeral_value 10 (tx_frac r)))\<rparr>,
      rmc_status = tx_status r, rmc_lat = fp_strtod fp (tx_lat r), rmc_ns = tx_ns r,
      rmc_lon = fp_strtod fp (tx_lon r), rmc_ew = tx_ew r, rmc_speed = fp_strtod fp (tx_speed r),
      rmc_direction = fp_strtod fp (tx_course r), rmc_declination = fp_strtod fp (tx_decl r),
      rmc_declin_ew = tx_decl_ew r, rmc_mode = tx_mode r\<rparr>"

lemma rmc_format:
  "ascii ''%s,%C,%f,%C,%f,%C,%f,%f,%2d%2d%2d,%f,%C,%C*'' =
     [0x25, 0x73, 0x2C, 0x25, 0x43, 0x2C, 0x25, 0x66, 0x2C, 0x25, 0x43, 0x2C, 0x25, 0x66, 0x2C, 0x25, 0x43, 0x2C,
      0x25, 0x66, 0x2C, 0x25, 0x66, 0x2C, 0x25, 0x32, 0x64, 0x25, 0x32, 0x64, 0x25, 0x32, 0x64, 0x2C, 0x25, 0x66, 0x2C,
      0x25, 0x43, 0x2C, 0x25, 0x43, 0x2A]"
  by (simp add: ascii_def of_char_def)

lemma two_bound: "is_digit (ds ! i) \<Longrightarrow> is_digit (ds ! Suc i) \<Longrightarrow> two ds i < 100 \<and> 0 \<le> two ds i"
  using numeral_value_bound [of "[ds ! i, ds ! Suc i]"] by simp

lemma time_text_facts:
  assumes "time_ok hms frac"
  shows "time_text hms frac \<noteq> []" "0x2C \<notin> set (time_text hms frac)" "length (time_text hms frac) < 16"
    "0 \<notin> set (time_text hms frac)" "{0x24, 0x2A} \<inter> set (time_text hms frac) = {}"
  using assms is_digit_plain by (auto simp: time_ok_def time_text_def)

lemma rmc_scan_fields:
  assumes "num_field lat" "num_field lon" "num_field sp" "num_field co" "num_field de"
    and "lat \<noteq> []" "lon \<noteq> []" "sp \<noteq> []" "co \<noteq> []" "de \<noteq> []" "t \<noteq> []" "0x2C \<notin> set t"
    and "st \<noteq> 0x2C" "ns \<noteq> 0x2C" "ew \<noteq> 0x2C" "dw \<noteq> 0x2C" "mo \<noteq> 0x2A"
  shows "nmea_scanf fp (t @ 0x2C # st # 0x2C # lat @ 0x2C # ns # 0x2C # lon @ 0x2C # ew # 0x2C # sp @ 0x2C # co @ 0x2C
      # a # b # c # d # e # f # 0x2C # de @ 0x2C # dw # 0x2C # mo # 0x2A # rest) ''%s,%C,%f,%C,%f,%C,%f,%f,%2d%2d%2d,%f,%C,%C*'' =
    [NStr t, NChar st, NReal (fp_strtod fp lat), NChar ns, NReal (fp_strtod fp lon), NChar ew,
     NReal (fp_strtod fp sp), NReal (fp_strtod fp co), NInt (nmea_atoi [a, b] 10), NInt (nmea_atoi [c, d] 10),
     NInt (nmea_atoi [e, f] 10), NReal (fp_strtod fp de), NChar dw, NChar mo]"
  unfolding nmea_scanf_def rmc_format using assms by (simp add: scan)

lemma rmc_scan:
  assumes "rmc_ok r"
  shows "nmea_scanf fp (rmc_body r @ 0x2A # rest) ''%s,%C,%f,%C,%f,%C,%f,%f,%2d%2d%2d,%f,%C,%C*'' =
    [NStr (time_text (tx_hms r) (tx_frac r)), NChar (tx_status r), NReal (fp_strtod fp (tx_lat r)), NChar (tx_ns r),
     NReal (fp_strtod fp (tx_lon r)), NChar (tx_ew r), NReal (fp_strtod fp (tx_speed r)), NReal (fp_strtod fp (tx_course r)),
     NInt (two (tx_date r) 0), NInt (two (tx_date r) 2), NInt (two (tx_date r) 4), NReal (fp_strtod fp (tx_decl r)),
     NChar (tx_decl_ew r), NChar (tx_mode r)]"
proof -
  have t: "time_text (tx_hms r) (tx_frac r) \<noteq> []" "0x2C \<notin> set (time_text (tx_hms r) (tx_frac r))"
    using time_text_facts assms by (simp_all add: rmc_ok_def)
  have "length (tx_date r) = 6" using assms by (simp add: rmc_ok_def)
  then obtain a b c d e f where date: "tx_date r = [a, b, c, d, e, f]"
    using length_6 by blast
  have dig: "is_digit a" "is_digit b" "is_digit c" "is_digit d" "is_digit e" "is_digit f"
    using assms by (auto simp: rmc_ok_def date)
  have num: "num_field (tx_lat r)" "num_field (tx_lon r)" "num_field (tx_speed r)" "num_field (tx_course r)" "num_field (tx_decl r)"
    and ch: "tx_status r \<noteq> 0x2C" "tx_ns r \<noteq> 0x2C" "tx_ew r \<noteq> 0x2C" "tx_decl_ew r \<noteq> 0x2C" "tx_mode r \<noteq> 0x2A"
    using assms by (simp_all add: rmc_ok_def)
  then have ne: "tx_lat r \<noteq> []" "tx_lon r \<noteq> []" "tx_speed r \<noteq> []" "tx_course r \<noteq> []" "tx_decl r \<noteq> []"
    by (simp_all add: num_field_def)
  have "rmc_body r @ 0x2A # rest = time_text (tx_hms r) (tx_frac r) @ 0x2C # tx_status r # 0x2C # tx_lat r @ 0x2C # tx_ns r # 0x2C
      # tx_lon r @ 0x2C # tx_ew r # 0x2C # tx_speed r @ 0x2C # tx_course r @ 0x2C # a # b # c # d # e # f # 0x2C
      # tx_decl r @ 0x2C # tx_decl_ew r # 0x2C # tx_mode r # 0x2A # rest"
    by (simp add: rmc_body_def date)
  moreover have "two (tx_date r) 0 = nmea_atoi [a, b] 10" "two (tx_date r) 2 = nmea_atoi [c, d] 10" "two (tx_date r) 4 = nmea_atoi [e, f] 10"
    by (simp_all add: date atoi_two dig)
  ultimately show ?thesis
    by (simp only: rmc_scan_fields [OF num ne t ch])
qed

lemma nmea_parse_GPRMC_text:
  assumes "rmc_ok r"
  shows "nmea_parse_GPRMC fp (rmc_body r @ 0x2A # rest) = Some (1, rmc_says fp r)"
proof -
  let ?t = "time_text (tx_hms r) (tx_frac r)"
  have ok: "time_ok (tx_hms r) (tx_frac r)" using assms by (simp add: rmc_ok_def)
  have t: "length ?t < 16" "cstr (?t @ [0]) = ?t"
    using time_text_facts [OF ok] by simp_all
  have dig: "is_digit (tx_date r ! i)" if "i < 6" for i
    using assms that by (auto simp: rmc_ok_def)
  have b: "two (tx_date r) 4 < 100" "0 \<le> two (tx_date r) 4" "two (tx_date r) 2 < 100" "0 \<le> two (tx_date r) 2"
    using two_bound [OF dig dig, of 4] two_bound [OF dig dig, of 2] by simp_all
  show ?thesis
    unfolding nmea_parse_GPRMC_def rmc_scan [OF assms] Let_def
    using t b by (auto simp: time_at_def NMEA_TIMEPARSE_BUF_def nmea_parse_time_text [OF ok] int_at_def char_at_def real_at_def
        zero_time_def rmc_says_def i32_def)
qed

section \<open>From the receive buffer to the summary\<close>

text \<open>The bytes one by one, without the ring buffer.\<close>

fun gps_run :: "'d fpu \<Rightarrow> bytes \<Rightarrow> ('d, 'z) AMPM_GPS_scheme \<Rightarrow> ('d, 'z) AMPM_GPS_scheme option" where
  "gps_run fp [] s = Some s"
| "gps_run fp (c # cs) s = do { s \<leftarrow> gps_byte fp c s; gps_run fp cs s }"

lemma gps_run_append: "gps_run fp (xs @ ys) s = Option.bind (gps_run fp xs s) (gps_run fp ys)"
proof (induction xs arbitrary: s)
  case (Cons x xs)
  then show ?case by (cases "gps_byte fp x s") simp_all
qed simp

text \<open>Neither the collector nor the parsers look at the ring buffer.\<close>

abbreviation with_ring where "with_ring q s \<equiv> s\<lparr>GPS_RxRingBuff := q\<rparr>"

lemma ring_outside:
  "(with_ring q s)\<lparr>GPS_cmdCnt := ks\<rparr> = with_ring q (s\<lparr>GPS_cmdCnt := ks\<rparr>)"
  "(with_ring q s)\<lparr>GPS_numCmd := n\<rparr> = with_ring q (s\<lparr>GPS_numCmd := n\<rparr>)"
  "(with_ring q s)\<lparr>GPS_cmdRecvLength := n\<rparr> = with_ring q (s\<lparr>GPS_cmdRecvLength := n\<rparr>)"
  "(with_ring q s)\<lparr>GPS_cmdState := st\<rparr> = with_ring q (s\<lparr>GPS_cmdState := st\<rparr>)"
  by simp_all

lemma search_ring: "gps_search c i (with_ring q s) = map_option (with_ring q) (gps_search c i s)"
proof (induction c i s rule: gps_search.induct)
  case (1 c i gps)
  then show ?case
    by (subst (1 2) gps_search.simps) (simp add: ring_outside Let_def split: Option.bind_split)
qed

lemma process_ring: "gps_process f c (with_ring q s) = map_option (map_prod id (with_ring q)) (gps_process f c s)"
  by (cases f; auto simp: gps_process_eq sentence_char_def checksum_char_def Let_def map_option_bind comp_def
      simp del: gps_process.simps intro!: Option.bind_cong)

lemma checksum_ring: "gps_checksum c (with_ring q s) = with_ring q (gps_checksum c s)"
  by (simp add: gps_checksum_def Let_def)

lemma restart_ring: "gps_restart (with_ring q s) = with_ring q (gps_restart s)"
  by (simp add: gps_restart_def)

lemma parser_ring: "GPS_ComnandParser c (with_ring q s) = map_option (with_ring q) (GPS_ComnandParser c s)"
  by (auto simp: GPS_ComnandParser_def checksum_ring search_ring process_ring restart_ring Let_def map_option_bind comp_def
      bind_map_option gps_restart_def split: GPS_CMD_STATE.split intro!: Option.bind_cong)

lemma task_ring:
  "task_GPRMC fp (with_ring q s) = map_option (with_ring q) (task_GPRMC fp s)"
  "task_GPGGA fp (with_ring q s) = map_option (with_ring q) (task_GPGGA fp s)"
  "task_GPGSA fp (with_ring q s) = map_option (with_ring q) (task_GPGSA fp s)"
  "task_GPGSV fp (with_ring q s) = map_option (with_ring q) (task_GPGSV fp s)"
  by (auto simp: task_GPRMC_def task_GPGGA_def task_GPGSA_def task_GPGSV_def map_option_bind comp_def
      split: prod.split intro!: Option.bind_cong)

lemma gps_byte_ring: "gps_byte fp c (with_ring q s) = map_option (with_ring q) (gps_byte fp c s)"
  by (simp add: gps_byte_def parser_ring task_ring bind_map_option map_option_bind comp_def)

lemma gps_run_ring: "gps_run fp cs (with_ring q s) = map_option (with_ring q) (gps_run fp cs s)"
  by (induction cs arbitrary: s) (simp_all add: gps_byte_ring bind_map_option map_option_bind comp_def)

text \<open>The task hands the bytes of the ring buffer over in order and leaves it empty.\<close>

lemma GPS_Task_loop_run:
  "rb_inv (GPS_RxRingBuff s) \<Longrightarrow> rb_list (GPS_RxRingBuff s) = cs \<Longrightarrow> gps_run fp cs s = Some t \<Longrightarrow>
   \<exists>q. rb_inv q \<and> rb_list q = [] \<and> GPS_Task_loop fp c s = Some (with_ring q t)"
proof (induction cs arbitrary: c s t)
  case Nil
  then have "RINGBUF_Get (GPS_RxRingBuff s) c = Some (-1, c, GPS_RxRingBuff s)" by (intro rb.get_empty)
  then show ?case using Nil by (intro exI [of _ "GPS_RxRingBuff s"]) (simp add: GPS_Task_loop.simps)
next
  case (Cons x cs)
  from rb.get_cons [OF Cons.prems(1,2)] obtain q where q: "RINGBUF_Get (GPS_RxRingBuff s) c = Some (0, x, q)"
    "rb_inv q" "rb_list q = cs" by blast
  from Cons.prems(3) obtain u where u: "gps_byte fp x s = Some u" "gps_run fp cs u = Some t"
    by (auto simp: Option.bind_eq_Some_conv)
  from Cons.IH [of "with_ring q u" "with_ring q t" x] q u obtain q' where q': "rb_inv q'" "rb_list q' = []"
    "GPS_Task_loop fp x (with_ring q u) = Some (with_ring q' (with_ring q t))" by (auto simp: gps_run_ring)
  then show ?case using q u
    by (intro exI [of _ q']) (simp add: GPS_Task_loop.simps [of fp c s] gps_byte_ring)
qed

text \<open>Flags are only set by the collector, so as long as none is set the task only collects.\<close>

lemma search_flags_pred: "pred_option (\<lambda>s'. got_flag f s' = got_flag f s) (gps_search c i s)"
proof (induction c i s rule: gps_search.induct)
  case (1 c i gps)
  then show ?case by (subst gps_search.simps) (simp add: Let_def split: Option.bind_split)
qed

lemma search_flags: "gps_search c i s = Some s' \<Longrightarrow> got_flag f s' = got_flag f s"
  using search_flags_pred [of f s c i] by simp

lemma process_flags: "gps_process g c s = Some (r, s') \<Longrightarrow> got_flag f s \<noteq> 0 \<Longrightarrow> got_flag f s' \<noteq> 0"
  by (auto simp: gps_process_eq sentence_char_def checksum_char_def Let_def Option.bind_eq_Some_conv split: if_splits)

lemma parser_flags: "GPS_ComnandParser c s = Some s' \<Longrightarrow> got_flag f s \<noteq> 0 \<Longrightarrow> got_flag f s' \<noteq> 0"
  by (auto simp: GPS_ComnandParser_def Let_def Option.bind_eq_Some_conv split: GPS_CMD_STATE.splits if_splits
      dest: search_flags [of _ _ _ _ f] process_flags [of _ _ _ _ _ f])

lemma feed_flags: "gps_feed cs s = Some s' \<Longrightarrow> got_flag f s \<noteq> 0 \<Longrightarrow> got_flag f s' \<noteq> 0"
  by (induction cs arbitrary: s) (auto simp: Option.bind_eq_Some_conv dest: parser_flags)

lemma gps_byte_quiet:
  assumes "GPS_ComnandParser c s = Some s'" "\<forall>f. got_flag f s' = 0"
  shows "gps_byte fp c s = Some s'"
  using assms assms(2) [rule_format, of Fn_GPRMC] assms(2) [rule_format, of Fn_GPGGA]
    assms(2) [rule_format, of Fn_GPGSA] assms(2) [rule_format, of Fn_GPGSV]
  by (simp add: gps_byte_def task_GPRMC_def task_GPGGA_def task_GPGSA_def task_GPGSV_def)

lemma gps_run_quiet:
  "gps_feed cs s = Some s' \<Longrightarrow> \<forall>f. got_flag f s' = 0 \<Longrightarrow> gps_run fp cs s = Some s'"
proof (induction cs arbitrary: s)
  case (Cons c cs)
  then obtain t where t: "GPS_ComnandParser c s = Some t" "gps_feed cs t = Some s'"
    by (auto simp: Option.bind_eq_Some_conv)
  then have "\<forall>f. got_flag f t = 0" using feed_flags [OF t(2)] Cons.prems(2) by metis
  with Cons t show ?case by (simp add: gps_byte_quiet)
qed simp

lemma rmc_body_plain: "rmc_ok r \<Longrightarrow> {0x24, 0x2A} \<inter> set (rmc_body r) = {}"
proof -
  assume r: "rmc_ok r"
  then have "{0x24, 0x2A} \<inter> set (tx_date r) = {}" using is_digit_plain by (auto simp: rmc_ok_def)
  moreover have "{0x24, 0x2A} \<inter> set (time_text (tx_hms r) (tx_frac r)) = {}" using r by (simp add: rmc_ok_def time_text_facts)
  ultimately show ?thesis using r by (simp add: rmc_body_def rmc_ok_def num_field_def)
qed

lemma aside_flags: "aside f s' = aside f s \<Longrightarrow> g \<noteq> f \<Longrightarrow> got_flag g s' = got_flag g s"
  by (auto simp: aside_def fun_eq_iff dest!: spec [of _ g])

lemma gps_ready_updates [simp]:
  "gps_ready (s\<lparr>gpsInfo := i\<rparr>) = gps_ready s" "gps_ready (s\<lparr>GPRMC_gotDataFlag := v\<rparr>) = gps_ready s"
  "gps_ready (with_ring q s) = gps_ready s"
proof -
  have "sentence_buff f (s\<lparr>gpsInfo := i\<rparr>) = sentence_buff f s" "sentence_buff f (s\<lparr>GPRMC_gotDataFlag := v\<rparr>) = sentence_buff f s"
    "sentence_buff f (with_ring q s) = sentence_buff f s" for f
    by (cases f; simp)+
  then show "gps_ready (s\<lparr>gpsInfo := i\<rparr>) = gps_ready s" "gps_ready (s\<lparr>GPRMC_gotDataFlag := v\<rparr>) = gps_ready s"
    "gps_ready (with_ring q s) = gps_ready s"
    by (simp_all add: gps_ready_def gps_inv_def split: GPS_CMD_STATE.split)
qed

lemma rmc_byte:
  assumes "GPS_ComnandParser c s = Some s1" "GPRMC_gotDataFlag s1 = 1" "\<forall>g. g \<noteq> Fn_GPRMC \<longrightarrow> got_flag g s1 = 0"
    and "take (length (rmc_body r) + 1) (buffGPRMC s1) = rmc_body r @ [0x2A]" "rmc_ok r"
  shows "gps_byte fp c s = Some (s1\<lparr>gpsInfo := nmea_GPRMC2info fp (rmc_says fp r) (gpsInfo s1), GPRMC_gotDataFlag := 0\<rparr>)"
proof -
  have "buffGPRMC s1 = rmc_body r @ 0x2A # drop (length (rmc_body r) + 1) (buffGPRMC s1)"
    using assms(4) append_take_drop_id [of "length (rmc_body r) + 1" "buffGPRMC s1"] by simp
  then have "nmea_parse_GPRMC fp (buffGPRMC s1) = Some (1, rmc_says fp r)"
    using nmea_parse_GPRMC_text [OF assms(5)] by metis
  then show ?thesis
    using assms(1,2) assms(3) [rule_format, of Fn_GPGGA] assms(3) [rule_format, of Fn_GPGSA] assms(3) [rule_format, of Fn_GPGSV]
    by (simp add: gps_byte_def task_GPRMC_def task_GPGGA_def task_GPGSA_def task_GPGSV_def)
qed


end
