(* ===== verification/GpsBoot.thy ===== *)
theory GpsBoot
  imports GpsPosition Complex_Main
begin

text \<open>
  Concrete runs of the GPS receiver: a processor with exact arithmetic, the state after start-up and
  sentences as a receiver sends them.
\<close>

section \<open>A receiver with exact arithmetic\<close>

text \<open>For concrete runs: rational numbers, and numerals without a sign.\<close>

definition exact_decimal :: "bytes \<Rightarrow> rat" where
  "exact_decimal str =
     (let whole = takeWhile (\<lambda>c. c \<noteq> 0x2E) str; part = tl (dropWhile (\<lambda>c. c \<noteq> 0x2E) str)
      in of_nat (numeral_value 10 (whole @ part)) / 10 ^ length part)"

definition exact_fpu :: "rat fpu" where
  "exact_fpu = \<lparr>fp_strtod = exact_decimal, fp_const = (\<lambda>str. exact_decimal (ascii str)), fp_of_u32 = (\<lambda>n. of_int (uint n)),
     fp_to_u32 = (\<lambda>x. if 0 \<le> x \<and> x < 2 ^ 32 then Some (word_of_int \<lfloor>x\<rfloor>) else None),
     fp_floor = (\<lambda>x. of_int \<lfloor>x\<rfloor>), fp_neg = uminus, fp_add = (+), fp_sub = (-), fp_mul = (*), fp_div = (/)\<rparr>"

text \<open>The state after start-up, with received bytes in the ring buffer.\<close>

definition gps_boot :: "'d fpu \<Rightarrow> bytes \<Rightarrow> 'd AMPM_GPS" where
  "gps_boot fp rx = \<lparr>gpsCalcCheckSumFlag = 0, gpsCheckSum = 0, gpsCheckSumX = 0, gpsGetCheckSumFlag = 0,
     GPRMC_gotDataFlag = 0, GPGGA_gotDataFlag = 0, GPGSA_gotDataFlag = 0, GPGSV_gotDataFlag = 0,
     buffGPRMC = replicate 80 0, buffGPGGA = replicate 80 0, buffGPGSA = replicate 80 0, buffGPGSV = replicate 80 0,
     gpsInfo = nmea_zero_INFO fp, GPS_cmdCnt = [0, 0, 0, 0], GPS_numCmd = 0, GPS_cmdRecvLength = 0,
     GPS_cmdState = GPS_CMD_FINISH, GPS_RxRingBuff = \<lparr>rb_head = of_nat (length rx), rb_tail = 0, rb_size = 512,
       rb_pt = rx @ replicate (512 - length rx) 0\<rparr>\<rparr>"

lemma gps_boot_ready: "gps_ready (gps_boot fp rx)" "got_flag f (gps_boot fp rx) = 0"
proof -
  have "length (sentence_buff g (gps_boot fp rx)) = 80" for g by (cases g) (simp_all add: gps_boot_def)
  then show "gps_ready (gps_boot fp rx)"
    by (simp add: gps_ready_def gps_inv_def GPS_MSG_MAX_SIZE_def GPS_CMD_COUNT_def) (simp add: gps_boot_def)
  show "got_flag f (gps_boot fp rx) = 0" by (cases f) (simp_all add: gps_boot_def)
qed

lemma gps_boot_ring:
  assumes "length rx < 512"
  shows "rb_inv (GPS_RxRingBuff (gps_boot fp rx))" "rb_list (GPS_RxRingBuff (gps_boot fp rx)) = rx"
proof -
  let ?r = "GPS_RxRingBuff (gps_boot fp rx)"
  have n: "unat (of_nat (length rx) :: u32) = length rx" using assms by (simp add: unat_of_nat take_bit_eq_mod)
  show inv: "rb_inv ?r"
    using assms by (simp add: gps_boot_def rb_inv_def word_less_nat_alt n)
  have "rb_fill ?r = length rx" using rb_fill_alt [OF inv] by (simp add: gps_boot_def n)
  then show "rb_list ?r = rx"
    using assms by (intro nth_equalityI) (simp_all add: rb_list_def, simp add: gps_boot_def nth_append)
qed

definition demo_rmc :: rmc_text where
  "demo_rmc = \<lparr>tx_hms = ascii ''015702'', tx_frac = ascii ''8'', tx_status = 0x41, tx_lat = ascii ''2500.064'', tx_ns = 0x4E,
     tx_lon = ascii ''12129.13'', tx_ew = 0x45, tx_speed = ascii ''0.00'', tx_course = ascii ''223.96'', tx_date = ascii ''301015'',
     tx_decl = ascii ''0.1'', tx_decl_ew = 0x45, tx_mode = 0x44\<rparr>"

definition demo_sum :: u8 where
  "demo_sum = xor_all (0x47 # 0x50 # sentence_name Fn_GPRMC @ rmc_body demo_rmc)"

lemma demo_rmc_ok: "rmc_ok demo_rmc"
  by (simp add: rmc_ok_def demo_rmc_def time_ok_def num_field_def ascii_def of_char_def is_digit_def NMEA_CONVSTR_BUF_def)

lemma demo_rmc_length: "length (rmc_body demo_rmc) < 78"
  "length (sentence 0x47 0x50 Fn_GPRMC (rmc_body demo_rmc) v) < 512"
  by (simp_all add: demo_rmc_def ascii_def rmc_body_def time_text_def sentence_def sentence_name_def GPS_ProcessCmd_nth)


lemma GPS_sentence_checked_witness:
  "\<exists>s'. gps_feed (sentence 0x47 0x4E Fn_GPGSA (ascii ''A,3'') 0) (gps_boot exact_fpu []) = Some s' \<and> gps_ready s'
    \<and> got_flag Fn_GPGSA s' = (if 0 = xor_all (0x47 # 0x4E # sentence_name Fn_GPGSA @ ascii ''A,3'') then 1 else 0)
    \<and> take (length (ascii ''A,3'') + 1) (sentence_buff Fn_GPGSA s') = ascii ''A,3'' @ [0x2A]
    \<and> aside Fn_GPGSA s' = aside Fn_GPGSA (gps_boot exact_fpu [])"
  by (rule GPS_sentence_checked) (simp_all add: gps_boot_ready talker_def ascii_def of_char_def del: got_flag.simps)

lemma GPS_ComnandParser_safe_witness:
  "\<exists>s'. gps_feed (ascii ''$GPGSV,*12$'') (gps_boot exact_fpu []) = Some s' \<and> gps_inv s'"
  by (rule GPS_ComnandParser_safe) (use gps_boot_ready(1) [of exact_fpu "[]"] in \<open>simp add: gps_ready_def\<close>)

end
