(* ===== verification/GpsSatellites.thy ===== *)
theory GpsSatellites
  imports GpsBoot
begin

text \<open>
  The satellite tables: what a GSA sentence marks as used, when it reads past the table, and where
  a GSV sentence puts its satellites.
\<close>

section \<open>Satellites in use\<close>

declare gsa_mark.simps [simp del] gsv_store.simps [simp del]

definition mark_sat :: "int set \<Rightarrow> nmeaSATELLITE \<Rightarrow> nmeaSATELLITE" where
  "mark_sat P sat = (if sat_id sat \<in> P then sat\<lparr>sat_in_use := 1\<rparr> else sat)"

lemma mark_sat_id [simp]: "sat_id (mark_sat P sat) = sat_id sat"
  by (simp add: mark_sat_def)

lemma mark_sat_twice [simp]: "mark_sat P (mark_sat Q sat) = mark_sat (P \<union> Q) sat"
  by (simp add: mark_sat_def)

lemma mark_sat_none [simp]: "mark_sat {} sat = sat"
  by (simp add: mark_sat_def)

lemma map_mark_sat_none [simp]: "map (mark_sat {}) ss = ss"
  by (simp add: map_idI)

definition ids_in_view :: "nat \<Rightarrow> nmeaSATELLITE list \<Rightarrow> int list" where
  "ids_in_view n ss = map sat_id (take n ss)"

lemma drop_take_Suc: "j < n \<Longrightarrow> n \<le> length ss \<Longrightarrow> drop j (take n ss) = ss ! j # drop (Suc j) (take n ss)"
  by (metis Cons_nth_drop_Suc length_take min.absorb2 nth_take)

lemma gsa_mark_table:
  assumes "prn \<noteq> 0" "j \<le> n" "n \<le> length ss"
  shows "gsa_mark prn j n ss nuse =
    Some (take j ss @ map (mark_sat {prn}) (drop j (take n ss)) @ drop n ss,
      nuse + int (count_list (map sat_id (drop j (take n ss))) prn))"
  using assms(2,3)
proof (induction "n - j" arbitrary: j ss nuse)
  case 0
  then show ?case by (simp add: gsa_mark.simps)
next
  case (Suc k)
  then have j: "j < n" "j < length ss" by simp_all
  let ?ss = "ss[j := mark_sat {prn} (ss ! j)]"
  have d: "drop j (take n ss) = ss ! j # drop (Suc j) (take n ss)" using j Suc.prems by (simp add: drop_take_Suc)
  have tail: "drop (Suc j) (take n ?ss) = drop (Suc j) (take n ss)" "drop n ?ss = drop n ss"
    using j by (simp_all add: take_update_swap)
  have head: "take (Suc j) ?ss = take j ss @ [mark_sat {prn} (ss ! j)]" using j by (simp add: take_Suc_conv_app_nth)
  have step: "gsa_mark prn j n ss nuse =
      gsa_mark prn (Suc j) n ?ss (nuse + (if sat_id (ss ! j) = prn then 1 else 0))"
    using j assms(1) by (subst gsa_mark.simps) (auto simp: mark_sat_def)
  have "k = n - Suc j" "Suc j \<le> n" "n \<le> length ?ss" using Suc by simp_all
  from Suc.hyps(1) [OF this] show ?case unfolding step tail head d by (simp add: tail)
qed

lemma gsa_mark_overrun:
  assumes "prn \<noteq> 0" "length ss < n" "j \<le> length ss"
  shows "gsa_mark prn j n ss nuse = None"
  using assms(2,3)
proof (induction "length ss - j" arbitrary: j ss nuse)
  case 0
  then show ?case using assms(1) by (simp add: gsa_mark.simps)
next
  case (Suc k)
  from Suc.hyps(1) [of "ss[j := (ss ! j)\<lparr>sat_in_use := 1\<rparr>]" "Suc j"] Suc.hyps(1) [of ss "Suc j"] Suc.hyps(2) Suc.prems assms(1)
  show ?case by (subst gsa_mark.simps) auto
qed

lemma gsa_mark_zero: "gsa_mark 0 j n ss nuse = Some (ss, nuse)"
proof (induction "n - j" arbitrary: j)
  case 0
  then show ?case by (simp add: gsa_mark.simps)
next
  case (Suc k)
  then show ?case by (subst gsa_mark.simps) simp
qed

abbreviation used :: "int list \<Rightarrow> int list" where
  "used prns \<equiv> filter (\<lambda>p. p \<noteq> 0) prns"

lemma gsa_mark_all_table:
  assumes "n \<le> length ss"
  shows "gsa_mark_all prns n ss nuse =
    Some (map (mark_sat (set (used prns))) (take n ss) @ drop n ss,
      nuse + (\<Sum>p \<leftarrow> used prns. int (count_list (ids_in_view n ss) p)))"
  using assms
proof (induction prns arbitrary: ss nuse)
  case (Cons p prns)
  show ?case
  proof (cases "p = 0")
    case True
    with Cons show ?thesis by (simp add: gsa_mark_zero)
  next
    case False
    let ?ss = "map (mark_sat {p}) (take n ss) @ drop n ss"
    have "gsa_mark p 0 n ss nuse = Some (?ss, nuse + int (count_list (ids_in_view n ss) p))"
      using gsa_mark_table [OF False, of 0 n ss nuse] Cons.prems by (simp add: ids_in_view_def)
    moreover have "n \<le> length ?ss" "take n ?ss = map (mark_sat {p}) (take n ss)" "drop n ?ss = drop n ss"
      "ids_in_view n ?ss = ids_in_view n ss"
      using Cons.prems by (simp_all add: ids_in_view_def comp_def)
    ultimately show ?thesis
      using Cons.IH [of ?ss] False by (simp add: comp_def Un_commute insert_is_Un [symmetric])
  qed
qed (simp add: ids_in_view_def)

lemma gsa_mark_all_overrun:
  assumes "length ss < n"
  shows "gsa_mark_all prns n ss nuse = (if used prns = [] then Some (ss, nuse) else None)"
  by (induction prns) (use assms in \<open>simp_all add: gsa_mark_zero gsa_mark_overrun\<close>)

text \<open>Property C36. A GSA sentence marks exactly the satellites in view that it names as used, and counts
  them; but the number in view comes unchecked from a GSV sentence, and when it exceeds the twelve
  places of the table, a sentence that names any satellite reads past it.\<close>

theorem nmea_GPGSA2info_satellites:
  assumes "inf_satinfo info = si" "length (sats si) = NMEA_MAXSAT"
  shows "nmea_GPGSA2info pack info =
    (if sats_inview si > 12 \<and> used (gsa_sat_prn pack) \<noteq> [] then None
     else Some (info\<lparr>inf_fix := gsa_fix_type pack, inf_PDOP := gsa_PDOP pack, inf_HDOP := gsa_HDOP pack, inf_VDOP := gsa_VDOP pack,
       inf_satinfo := si\<lparr>
         sats_inuse := (\<Sum>p \<leftarrow> used (gsa_sat_prn pack). int (count_list (ids_in_view (nat (sats_inview si)) (sats si)) p)),
         sats := map (mark_sat (set (used (gsa_sat_prn pack)))) (take (nat (sats_inview si)) (sats si)) @ drop (nat (sats_inview si)) (sats si)\<rparr>,
       inf_smask := inf_smask info OR GPGSA\<rparr>))"
proof (cases "sats_inview si > 12")
  case True
  then have "length (sats si) < nat (sats_inview si)" using assms(2) by (simp add: NMEA_MAXSAT_def)
  then show ?thesis
    using assms(1) True by (auto simp: nmea_GPGSA2info_def Let_def gsa_mark_all_overrun)
next
  case False
  then have "nat (sats_inview si) \<le> length (sats si)" using assms(2) by (simp add: NMEA_MAXSAT_def)
  then show ?thesis
    using assms(1) False by (simp add: nmea_GPGSA2info_def Let_def gsa_mark_all_table)
qed

section \<open>Satellites in view\<close>

definition place_sat :: "nmeaSATELLITE \<Rightarrow> nmeaSATELLITE \<Rightarrow> nmeaSATELLITE" where
  "place_sat old d = old\<lparr>sat_id := sat_id d, sat_elv := sat_elv d, sat_azimuth := sat_azimuth d, sat_sig := sat_sig d\<rparr>"

lemma gsv_store_table:
  assumes "gsv_pack_index pack = 1 + int i" "4 * i + n \<le> length ss" "n \<le> length (gsv_sat_data pack)" "k \<le> n"
  shows "gsv_store pack k n ss = Some (take (4 * i + k) ss
    @ map2 place_sat (drop (4 * i + k) (take (4 * i + n) ss)) (drop k (take n (gsv_sat_data pack))) @ drop (4 * i + n) ss)"
  using assms(2-4)
proof (induction "n - k" arbitrary: k ss)
  case 0
  then show ?case by (simp add: gsv_store.simps)
next
  case (Suc l)
  then have k: "k < n" by simp
  let ?i = "4 * i + k" and ?d = "gsv_sat_data pack ! k"
  let ?ss = "ss[?i := place_sat (ss ! ?i) ?d]"
  have at: "nat ((gsv_pack_index pack - 1) * NMEA_SATINPACK + int k) = ?i" "0 \<le> (gsv_pack_index pack - 1) * NMEA_SATINPACK + int k"
    by (simp_all add: assms(1) NMEA_SATINPACK_def nat_add_distrib nat_mult_distrib)
  have step: "gsv_store pack k n ss = gsv_store pack (Suc k) n ?ss"
    using k at Suc.prems by (subst gsv_store.simps) (simp add: Let_def place_sat_def)
  have "drop ?i (take (4 * i + n) ss) = ss ! ?i # drop (Suc ?i) (take (4 * i + n) ss)"
    "drop k (take n (gsv_sat_data pack)) = ?d # drop (Suc k) (take n (gsv_sat_data pack))"
    using k Suc.prems by (simp_all add: drop_take_Suc)
  moreover have "drop (Suc ?i) (take (4 * i + n) ?ss) = drop (Suc ?i) (take (4 * i + n) ss)" "drop (4 * i + n) ?ss = drop (4 * i + n) ss"
    using k by (simp_all add: take_update_swap)
  moreover have "take (Suc ?i) ?ss = take ?i ss @ [place_sat (ss ! ?i) ?d]" using k Suc.prems by (simp add: take_Suc_conv_app_nth)
  moreover have "l = n - Suc k" "Suc k \<le> n" "4 * i + n \<le> length ?ss" using Suc by simp_all
  ultimately show ?case using Suc.hyps(1) [of "Suc k" ?ss] Suc.prems(2) unfolding step by simp
qed

text \<open>How many of the four satellites of a sentence the counts announce.\<close>

definition gsv_count :: "nmeaGPGSV \<Rightarrow> nat" where
  "gsv_count pack = nat (min 4 (gsv_sat_count pack - 4 * (gsv_pack_index pack - 1)))"

text \<open>Property C37. The sentences 1, 2 and 3 of a GSV group put their satellites into the places 0 to 3, 4 to 7
  and 8 to 11 of the table, as many as the total leaves for them, and never outside it; the number
  in view is taken over as it is stated.\<close>

theorem nmea_GPGSV2info_places:
  assumes "gsv_pack_index pack = 1 + int i" "i < 3" "gsv_pack_index pack \<le> gsv_pack_count pack"
    and "length (sats (inf_satinfo info)) = NMEA_MAXSAT" "length (gsv_sat_data pack) = 4" "\<bar>gsv_sat_count pack\<bar> < 2 ^ 30"
  shows "nmea_GPGSV2info pack info = Some (info\<lparr>inf_satinfo := (inf_satinfo info)\<lparr>sats_inview := gsv_sat_count pack,
      sats := take (4 * i) (sats (inf_satinfo info))
        @ map2 place_sat (take (gsv_count pack) (drop (4 * i) (sats (inf_satinfo info)))) (take (gsv_count pack) (gsv_sat_data pack))
        @ drop (4 * i + gsv_count pack) (sats (inf_satinfo info))\<rparr>,
      inf_smask := inf_smask info OR GPGSV\<rparr>)"
proof -
  let ?n = "gsv_count pack"
  have n: "?n \<le> 4" by (simp add: gsv_count_def)
  have range: "i32 m = Some m" if "\<bar>m\<bar> < 2 ^ 31" for m using that by (auto simp: i32_def)
  have nsat: "\<exists>m. gsv_nsat pack = Some m \<and> nat m = ?n"
    using assms(1,2,6) by (auto simp: gsv_nsat_def gsv_count_def range NMEA_SATINPACK_def algebra_simps min_def
        intro!: exI [of _ "gsv_sat_count pack - int i * 4"])
  have store: "gsv_store pack 0 ?n (sats (inf_satinfo info)) = Some (take (4 * i) (sats (inf_satinfo info))
        @ map2 place_sat (take ?n (drop (4 * i) (sats (inf_satinfo info)))) (take ?n (gsv_sat_data pack))
        @ drop (4 * i + ?n) (sats (inf_satinfo info)))"
    using gsv_store_table [OF assms(1), of ?n "sats (inf_satinfo info)" 0] n assms(2,4,5)
    by (simp add: NMEA_MAXSAT_def drop_take)
  have "i32 (gsv_pack_index pack * NMEA_SATINPACK) = Some (4 + 4 * int i)"
    using assms(2) unfolding assms(1) NMEA_SATINPACK_def by (subst range) (simp_all add: algebra_simps)
  with nsat store assms(1-3) show ?thesis
    by (auto simp: nmea_GPGSV2info_def NMEA_MAXSAT_def)
qed

definition demo_gsv :: nmeaGPGSV where
  "demo_gsv = \<lparr>gsv_pack_count = 2, gsv_pack_index = 2, gsv_sat_count = 6,
     gsv_sat_data = [zero_sat\<lparr>sat_id := 7, sat_sig := 40\<rparr>, zero_sat\<lparr>sat_id := 9\<rparr>, zero_sat, zero_sat]\<rparr>"

lemma nmea_GPGSV2info_places_witness:
  "\<exists>info'. nmea_GPGSV2info demo_gsv (nmea_zero_INFO exact_fpu) = Some info'
    \<and> map sat_id (sats (inf_satinfo info')) = [0, 0, 0, 0, 7, 9, 0, 0, 0, 0, 0, 0]"
proof -
  have "gsv_count demo_gsv = 2" "sats (inf_satinfo (nmea_zero_INFO exact_fpu)) = replicate 12 zero_sat"
    by (simp_all add: gsv_count_def demo_gsv_def nmea_zero_INFO_def Let_def NMEA_MAXSAT_def)
  then show ?thesis
    by (subst nmea_GPGSV2info_places [of _ 1])
      (simp_all add: demo_gsv_def NMEA_MAXSAT_def numeral_eq_Suc zero_sat_def place_sat_def)
qed

definition demo_gsa :: "rat nmeaGPGSA" where
  "demo_gsa = \<lparr>gsa_fix_mode = 0x41, gsa_fix_type = 3, gsa_sat_prn = 7 # replicate 11 0, gsa_PDOP = 1, gsa_HDOP = 1, gsa_VDOP = 1\<rparr>"

text \<open>Thirteen satellites in view are too many.\<close>

lemma nmea_GPGSA2info_satellites_witness:
  "nmea_GPGSA2info demo_gsa ((nmea_zero_INFO exact_fpu)\<lparr>inf_satinfo :=
     \<lparr>sats_inuse = 0, sats_inview = 13, sats = replicate 12 zero_sat\<rparr>\<rparr>) = None"
  by (subst nmea_GPGSA2info_satellites [OF refl]) (simp_all add: NMEA_MAXSAT_def demo_gsa_def)

end
