(* ===== verification/Sst25.thy ===== *)
theory Sst25
  imports Prelude
begin

text \<open>
  The driver of the serial flash memory, \<open>ampm_lib/flash_mem/sst25.c\<close>.  The driver talks to
  the chip one byte at a time over SPI, between an assertion of the chip select line and its
  release.  The chip is hardware: it is an argument of every function, a record of what the two
  edges of the chip select line and the exchange of a byte do to a chip state.  The laws of a chip
  that the theorems rely on are stated in \<open>Sst25Proofs\<close>.

  Counters of the waiting loops are natural numbers: they start at \<open>SST25_TIMEOUT\<close> and only go down.
\<close>

section \<open>The chip and the state of the driver\<close>

record 'c spi_dev =
  spi_select :: "'c \<Rightarrow> 'c"
  spi_release :: "'c \<Rightarrow> 'c"
  spi_xfer :: "u8 \<Rightarrow> 'c \<Rightarrow> u8 \<times> 'c"

record 'c sst25 =
  sst_chip :: 'c
  countErrTemp :: u32
  writeErrCnt :: u32
  sst25buf :: bytes

definition SST25_TIMEOUT :: nat where "SST25_TIMEOUT = 10000"
definition SST25_OK :: u8 where "SST25_OK = 0"
definition SST25_FAIL :: u8 where "SST25_FAIL = 1"

definition CMD_READ80 :: u8 where "CMD_READ80 = 0x0B"
definition CMD_ERASE_4K :: u8 where "CMD_ERASE_4K = 0x20"
definition CMD_ERASE_32K :: u8 where "CMD_ERASE_32K = 0x52"
definition CMD_ERASE_64K :: u8 where "CMD_ERASE_64K = 0xD8"
definition CMD_ERASE_ALL :: u8 where "CMD_ERASE_ALL = 0x60"
definition CMD_WRITE_BYTE :: u8 where "CMD_WRITE_BYTE = 0x02"
definition CMD_READ_STATUS :: u8 where "CMD_READ_STATUS = 0x05"
definition CMD_WRITE_STATUS_ENABLE :: u8 where "CMD_WRITE_STATUS_ENABLE = 0x50"
definition CMD_WRITE_STATUS :: u8 where "CMD_WRITE_STATUS = 0x01"
definition CMD_WRITE_ENABLE :: u8 where "CMD_WRITE_ENABLE = 0x06"
definition CMD_WRITE_DISABLE :: u8 where "CMD_WRITE_DISABLE = 0x04"

datatype SST25_ERASE_MODE = all | block4k | block32k | block64k

definition SST_CS_Assert :: "'c spi_dev \<Rightarrow> ('c, 'z) sst25_scheme \<Rightarrow> ('c, 'z) sst25_scheme" where
  "SST_CS_Assert dev s = s\<lparr>sst_chip := spi_select dev (sst_chip s)\<rparr>"

definition SST_CS_DeAssert :: "'c spi_dev \<Rightarrow> ('c, 'z) sst25_scheme \<Rightarrow> ('c, 'z) sst25_scheme" where
  "SST_CS_DeAssert dev s = s\<lparr>sst_chip := spi_release dev (sst_chip s)\<rparr>"

definition SPI_Write :: "'c spi_dev \<Rightarrow> u8 \<Rightarrow> ('c, 'z) sst25_scheme \<Rightarrow> u8 \<times> ('c, 'z) sst25_scheme" where
  "SPI_Write dev x s = (let (r, c) = spi_xfer dev x (sst_chip s) in (r, s\<lparr>sst_chip := c\<rparr>))"

text \<open>Several bytes whose answers are not used, and the three bytes of an address.\<close>

definition SPI_send :: "'c spi_dev \<Rightarrow> bytes \<Rightarrow> ('c, 'z) sst25_scheme \<Rightarrow> ('c, 'z) sst25_scheme" where
  "SPI_send dev xs s = fold (\<lambda>x s. snd (SPI_Write dev x s)) xs s"

definition addr_bytes :: "u32 \<Rightarrow> bytes" where
  "addr_bytes addr = [ucast (drop_bit 16 addr), ucast (drop_bit 8 addr), ucast addr]"

section \<open>Status and waiting\<close>

definition SST25__Status :: "'c spi_dev \<Rightarrow> ('c, 'z) sst25_scheme \<Rightarrow> u8 \<times> ('c, 'z) sst25_scheme" where
  "SST25__Status dev s =
     (let s = SST_CS_Assert dev s;
          (_, s) = SPI_Write dev 0x05 s;
          (res, s) = SPI_Write dev 0xFF s
      in (res, SST_CS_DeAssert dev s))"

text \<open>\<open>while(timeout) { timeout--; i = status; if((i & bits) == 0) break; }\<close>\<close>

fun wait_clear :: "'c spi_dev \<Rightarrow> u8 \<Rightarrow> nat \<Rightarrow> ('c, 'z) sst25_scheme \<Rightarrow> nat \<times> ('c, 'z) sst25_scheme" where
  "wait_clear dev bits 0 s = (0, s)"
| "wait_clear dev bits (Suc timeout) s =
     (let (i, s) = SST25__Status dev s
      in if i AND bits = 0 then (timeout, s) else wait_clear dev bits timeout s)"

text \<open>\<open>while((status & 0x01) && timeout) timeout--;\<close>\<close>

fun wait_ready :: "'c spi_dev \<Rightarrow> nat \<Rightarrow> ('c, 'z) sst25_scheme \<Rightarrow> nat \<times> ('c, 'z) sst25_scheme" where
  "wait_ready dev 0 s = (0, snd (SST25__Status dev s))"
| "wait_ready dev (Suc timeout) s =
     (let (i, s) = SST25__Status dev s
      in if i AND 0x01 \<noteq> 0 then wait_ready dev timeout s else (Suc timeout, s))"

text \<open>\<open>do { status; timeout--; } while(((status & 0x01) || !(status & 0x02)) && timeout);\<close>
  It starts with a positive count.\<close>

fun wait_enabled :: "'c spi_dev \<Rightarrow> nat \<Rightarrow> ('c, 'z) sst25_scheme \<Rightarrow> ('c, 'z) sst25_scheme" where
  "wait_enabled dev 0 s = s"
| "wait_enabled dev (Suc timeout) s =
     (let (status, s) = SST25__Status dev s
      in if (status AND 0x01 \<noteq> 0 \<or> status AND 0x02 = 0) \<and> timeout \<noteq> 0 then wait_enabled dev timeout s else s)"

definition SST25__WriteEnable :: "'c spi_dev \<Rightarrow> ('c, 'z) sst25_scheme \<Rightarrow> ('c, 'z) sst25_scheme" where
  "SST25__WriteEnable dev s =
     (let (_, s) = wait_ready dev SST25_TIMEOUT s;
          s = SST_CS_Assert dev s;
          (_, s) = SPI_Write dev CMD_WRITE_ENABLE s;
          s = SST_CS_DeAssert dev s
      in wait_enabled dev SST25_TIMEOUT s)"

text \<open>Loops without a time limit: undefined when the chip never answers as expected.\<close>

partial_function (option) wait_forever :: "'c spi_dev \<Rightarrow> u8 \<Rightarrow> ('c, 'z) sst25_scheme \<Rightarrow> ('c, 'z) sst25_scheme option" where
  "wait_forever dev bits s =
     (let (i, s) = SST25__Status dev s in if i AND bits \<noteq> 0 then wait_forever dev bits s else Some s)"

definition SST25__WriteDisable :: "'c spi_dev \<Rightarrow> ('c, 'z) sst25_scheme \<Rightarrow> (u8 \<times> ('c, 'z) sst25_scheme) option" where
  "SST25__WriteDisable dev s = do {
     s \<leftarrow> wait_forever dev 0x01 s;
     let s = SST_CS_Assert dev s;
     let s = snd (SPI_Write dev CMD_WRITE_DISABLE s);
     let s = SST_CS_DeAssert dev s;
     s \<leftarrow> wait_forever dev 0x03 s;
     Some (0, s)
   }"

definition SST25__GlobalProtect :: "'c spi_dev \<Rightarrow> u8 \<Rightarrow> ('c, 'z) sst25_scheme \<Rightarrow> u8 \<times> ('c, 'z) sst25_scheme" where
  "SST25__GlobalProtect dev enable s =
     (let status = (if enable \<noteq> 0 then 0x3C else 0x00);
          (_, s) = wait_ready dev SST25_TIMEOUT s;
          s = SST_CS_DeAssert dev (SPI_send dev [CMD_WRITE_STATUS_ENABLE] (SST_CS_Assert dev s));
          s = SST_CS_DeAssert dev (SPI_send dev [CMD_WRITE_STATUS, status] (SST_CS_Assert dev s))
      in (0, s))"

section \<open>Erasing, programming, reading\<close>

text \<open>Both operations end by waiting until the chip is neither busy nor enabled for writing.\<close>

definition sst_finish :: "'c spi_dev \<Rightarrow> ('c, 'z) sst25_scheme \<Rightarrow> u8 \<times> ('c, 'z) sst25_scheme" where
  "sst_finish dev s =
     (let (timeout, s) = wait_clear dev 0x03 SST25_TIMEOUT s
      in if timeout = 0 then (SST25_FAIL, s\<lparr>countErrTemp := countErrTemp s + 1\<rparr>) else (SST25_OK, s))"

definition erase_command :: "SST25_ERASE_MODE \<Rightarrow> u8" where
  "erase_command m = (case m of all \<Rightarrow> CMD_ERASE_ALL | block4k \<Rightarrow> CMD_ERASE_4K | block32k \<Rightarrow> CMD_ERASE_32K
     | block64k \<Rightarrow> CMD_ERASE_64K)"

definition SST25_Erase ::
  "'c spi_dev \<Rightarrow> u32 \<Rightarrow> SST25_ERASE_MODE \<Rightarrow> ('c, 'z) sst25_scheme \<Rightarrow> u8 \<times> ('c, 'z) sst25_scheme" where
  "SST25_Erase dev addr m s =
     (let (timeout, s) = wait_clear dev 0x01 SST25_TIMEOUT s
      in if timeout = 0 then (SST25_FAIL, s\<lparr>countErrTemp := countErrTemp s + 1\<rparr>)
         else
           (let s = SST25__WriteEnable dev s;
                s = SPI_send dev [erase_command m] (SST_CS_Assert dev s)
            in if m = all then (0, SST_CS_DeAssert dev s)
               else sst_finish dev (SST_CS_DeAssert dev (SPI_send dev (addr_bytes addr) s))))"

text \<open>Programming reads \<open>count\<close> bytes of the caller's buffer.\<close>

definition SST25_program ::
  "'c spi_dev \<Rightarrow> u32 \<Rightarrow> bytes \<Rightarrow> nat \<Rightarrow> ('c, 'z) sst25_scheme \<Rightarrow> (u8 \<times> ('c, 'z) sst25_scheme) option" where
  "SST25_program dev addr buf count s =
     (let (timeout, s) = wait_clear dev 0x01 SST25_TIMEOUT s
      in if timeout = 0 then Some (SST25_FAIL, s\<lparr>countErrTemp := countErrTemp s + 1\<rparr>)
         else if length buf < count then None
         else
           (let s = SST25__WriteEnable dev s;
                s = SST_CS_Assert dev s;
                s = SPI_send dev (CMD_WRITE_BYTE # addr_bytes addr) s;
                s = SPI_send dev (take count buf) s
            in Some (sst_finish dev (SST_CS_DeAssert dev s))))"

text \<open>The bytes are returned; the caller stores them in its buffer.\<close>

fun SPI_receive :: "'c spi_dev \<Rightarrow> nat \<Rightarrow> ('c, 'z) sst25_scheme \<Rightarrow> bytes \<times> ('c, 'z) sst25_scheme" where
  "SPI_receive dev 0 s = ([], s)"
| "SPI_receive dev (Suc count) s =
     (let (b, s) = SPI_Write dev 0 s; (bs, s) = SPI_receive dev count s in (b # bs, s))"

definition SST25_fetch :: "'c spi_dev \<Rightarrow> u32 \<Rightarrow> nat \<Rightarrow> ('c, 'z) sst25_scheme \<Rightarrow> u8 \<times> bytes \<times> ('c, 'z) sst25_scheme" where
  "SST25_fetch dev addr count s =
     (let (timeout, s) = wait_ready dev SST25_TIMEOUT s;
          s = SST_CS_Assert dev s;
          s = SPI_send dev (CMD_READ80 # addr_bytes addr @ [0]) s;
          (bs, s) = SPI_receive dev count s;
          s = SST_CS_DeAssert dev s
      in (if timeout \<noteq> 0 then SST25_OK else SST25_FAIL, bs, s))"

text \<open>Writing within two sectors of 4096 bytes: a sector is erased when the write begins it.\<close>

definition SST25_put ::
  "'c spi_dev \<Rightarrow> u32 \<Rightarrow> bytes \<Rightarrow> nat \<Rightarrow> ('c, 'z) sst25_scheme \<Rightarrow> (u8 \<times> ('c, 'z) sst25_scheme) option" where
  "SST25_put dev addr buf count s = do {
     let s = (if addr AND 0xFFF = 0 then snd (SST25_Erase dev addr block4k s) else s);
     let count1 = (if unat (addr AND 0xFFF) + count > 4096 then unat ((addr + of_nat count) AND 0xFFF) else 0);
     let count = count - count1;
     (r, s) \<leftarrow> SST25_program dev addr buf count s;
     if r \<noteq> SST25_OK then Some (SST25_FAIL, s)
     else if count1 \<noteq> 0 then do {
       let s = snd (SST25_Erase dev (addr + of_nat count) block4k s);
       (r, s) \<leftarrow> SST25_program dev (addr + of_nat count) (drop count buf) count1 s;
       Some (if r \<noteq> SST25_OK then SST25_FAIL else SST25_OK, s)
     }
     else Some (SST25_OK, s)
   }"

text \<open>One piece of at most 256 bytes: write, read back into \<open>sst25buf\<close>, compare.\<close>

datatype chunk_result = Chunk_ok | Chunk_failed | Chunk_differs

definition write_chunk ::
  "'c spi_dev \<Rightarrow> u32 \<Rightarrow> bytes \<Rightarrow> nat \<Rightarrow> ('c, 'z) sst25_scheme \<Rightarrow> (chunk_result \<times> ('c, 'z) sst25_scheme) option" where
  "write_chunk dev addr buf cnt s = do {
     (r, s) \<leftarrow> SST25_put dev addr buf cnt s;
     if r \<noteq> SST25_OK then Some (Chunk_failed, s)
     else do {
       let (r, bs, s) = SST25_fetch dev addr cnt s;
       if length (sst25buf s) < cnt then None
       else do {
         let s = s\<lparr>sst25buf := bs @ drop cnt (sst25buf s)\<rparr>;
         if r \<noteq> SST25_OK then Some (Chunk_failed, s)
         else Some (if take cnt (sst25buf s) = take cnt buf then Chunk_ok else Chunk_differs, s)
       }
     }
   }"

fun write_chunks ::
  "'c spi_dev \<Rightarrow> u32 \<Rightarrow> u32 \<Rightarrow> bytes \<Rightarrow> nat \<Rightarrow> ('c, 'z) sst25_scheme \<Rightarrow> (u8 \<times> ('c, 'z) sst25_scheme) option" where
  "write_chunks dev addr offset pt cnt s =
     (if cnt = 0 then Some (SST25_OK, s)
      else if cnt \<ge> 256 then do {
        (r, s) \<leftarrow> write_chunk dev (addr + offset) pt 256 s;
        if r \<noteq> Chunk_ok then Some (SST25_FAIL, s)
        else write_chunks dev addr (offset + 256) (drop 256 pt) (cnt - 256) s
      }
      else do {
        (r, s) \<leftarrow> write_chunk dev (addr + offset) pt cnt s;
        Some (if r \<noteq> Chunk_ok then SST25_FAIL else SST25_OK, s)
      })"

declare write_chunks.simps [simp del]

definition SST25_Write ::
  "'c spi_dev \<Rightarrow> u32 \<Rightarrow> bytes \<Rightarrow> u32 \<Rightarrow> ('c, 'z) sst25_scheme \<Rightarrow> (u8 \<times> ('c, 'z) sst25_scheme) option" where
  "SST25_Write dev addr buf count s =
     (let cnt = unat (ucast count :: u16)
      in if cnt \<le> 256 then do {
           (r, s) \<leftarrow> write_chunk dev addr buf cnt s;
           Some (case r of Chunk_ok \<Rightarrow> (SST25_OK, s) | Chunk_failed \<Rightarrow> (SST25_FAIL, s)
                  | Chunk_differs \<Rightarrow> (SST25_FAIL, s\<lparr>writeErrCnt := writeErrCnt s + 1\<rparr>))
         }
         else write_chunks dev addr 0 buf cnt s)"

fun read_chunks ::
  "'c spi_dev \<Rightarrow> u32 \<Rightarrow> u32 \<Rightarrow> nat \<Rightarrow> ('c, 'z) sst25_scheme \<Rightarrow> u8 \<times> bytes \<times> ('c, 'z) sst25_scheme" where
  "read_chunks dev addr offset cnt s =
     (if cnt = 0 then (SST25_OK, [], s)
      else if cnt \<ge> 512 then
        (let (r, bs, s) = SST25_fetch dev (addr + offset) 512 s
         in if r \<noteq> SST25_OK then (SST25_FAIL, bs, s)
            else (let (r, bs', s) = read_chunks dev addr (offset + 512) (cnt - 512) s in (r, bs @ bs', s)))
      else
        (let (r, bs, s) = SST25_fetch dev (addr + offset) cnt s
         in (if r \<noteq> SST25_OK then SST25_FAIL else SST25_OK, bs, s)))"

declare read_chunks.simps [simp del]

definition SST25_Read :: "'c spi_dev \<Rightarrow> u32 \<Rightarrow> u32 \<Rightarrow> ('c, 'z) sst25_scheme \<Rightarrow> u8 \<times> bytes \<times> ('c, 'z) sst25_scheme" where
  "SST25_Read dev addr count s =
     (let cnt = unat (ucast count :: u16)
      in if cnt \<le> 512 then
           (let (r, bs, s) = SST25_fetch dev addr cnt s in (if r \<noteq> SST25_OK then SST25_FAIL else SST25_OK, bs, s))
         else read_chunks dev addr 0 cnt s)"

definition SST25_Init :: "u8" where
  "SST25_Init = 0"

end
