(* ===== verification/AmpmFf.thy ===== *)
theory AmpmFf
  imports Sst25
begin

text \<open>
  The file store of \<open>ampm_lib/ampm_ff/ampm_ff.c\<close> on the serial flash memory, and its
  stdio-like front end \<open>ampm_ff_port.c\<close>.  A file is a chain of sectors of 4096 bytes; a
  sector starts with up to three copies of the file structure (its header when it was taken, the
  link to the next sector at 68, the state at closing at 136) and holds 3840 bytes of data from
  256 on.

  A file structure is read and written as its 68 bytes in little-endian order (\<open>fil_bytes\<close>,
  \<open>fil_of\<close>).  A pointer to one is an option, \<open>None\<close> for \<open>NULL\<close>.  The numbers
  \<open>rand\<close> will return are the field \<open>rands\<close> of the state.  What an uninitialised local
  variable happens to hold is an argument.
\<close>

section \<open>The file structure\<close>

datatype AMPM_FRESULT = FR_OK | FR_ERR

record AMPM_FIL =
  file_name :: bytes
  start_sector :: u32
  previous_sector :: u32
  current_sector :: u32
  next_sector :: u32
  file_status :: u32
  file_offset :: u32
  permission :: u32
  file_size :: u32
  fil_crc :: u32

definition le32 :: "u32 \<Rightarrow> bytes" where
  "le32 n = [ucast n, ucast (drop_bit 8 n), ucast (drop_bit 16 n), ucast (drop_bit 24 n)]"

definition of_le32 :: "bytes \<Rightarrow> u32" where
  "of_le32 bs = foldr (\<lambda>b n. push_bit 8 n OR ucast b) bs 0"

definition fil_words :: "AMPM_FIL \<Rightarrow> u32 list" where
  "fil_words f = [start_sector f, previous_sector f, current_sector f, next_sector f, file_status f,
     file_offset f, permission f, file_size f, fil_crc f]"

definition fil_bytes :: "AMPM_FIL \<Rightarrow> bytes" where
  "fil_bytes f = file_name f @ concat (map le32 (fil_words f))"

definition fil_of :: "bytes \<Rightarrow> AMPM_FIL" where
  "fil_of bs =
     (let w = (\<lambda>k. of_le32 (take 4 (drop (32 + 4 * k) bs)))
      in \<lparr>file_name = take 32 bs, start_sector = w 0, previous_sector = w 1, current_sector = w 2, next_sector = w 3,
          file_status = w 4, file_offset = w 5, permission = w 6, file_size = w 7, fil_crc = w 8\<rparr>)"

record 'c amff = "'c sst25" +
  ampm_file_buf :: bytes
  rand_sec :: u32
  rands :: "nat \<Rightarrow> u32"

definition AMPM_FA_READ :: u8 where "AMPM_FA_READ = 0x01"
definition AMPM_FA_WRITE :: u8 where "AMPM_FA_WRITE = 0x02"
definition AMPM_FA_CREATE_NEW :: u8 where "AMPM_FA_CREATE_NEW = 0x04"
definition AMPM_FA_CREATE_ALWAYS :: u8 where "AMPM_FA_CREATE_ALWAYS = 0x08"
definition AMPM_FA_OPEN_ALWAYS :: u8 where "AMPM_FA_OPEN_ALWAYS = 0x10"
definition AMPM_FA_OPEN_EXISTING :: u8 where "AMPM_FA_OPEN_EXISTING = 0x80"
definition AMPM_FA_STATUS_OK :: u32 where "AMPM_FA_STATUS_OK = 0xa5a5a5a5"
definition AMPM_FA_STATUS_ERR :: u32 where "AMPM_FA_STATUS_ERR = 0x5a5a5a5a"
definition AMPM_FLASH_START_ADDR :: u32 where "AMPM_FLASH_START_ADDR = 0x00092000"
definition AMPM_FLASH_SECTOR_SIZE :: u32 where "AMPM_FLASH_SECTOR_SIZE = 0x1000"
definition FILE_HEADER_SIZE :: u32 where "FILE_HEADER_SIZE = 256"
definition DISK_SECTOR_SIZE :: u32 where "DISK_SECTOR_SIZE = 3840"
definition DISK_SECTOR_MAX :: u32 where "DISK_SECTOR_MAX = 110"

text \<open>\<open>sizeof(AMPM_FIL)\<close>; the structure is packed.\<close>

definition FIL_SIZE :: u32 where "FIL_SIZE = 68"

definition sector_addr :: "u32 \<Rightarrow> u32" where
  "sector_addr i = AMPM_FLASH_START_ADDR + i * AMPM_FLASH_SECTOR_SIZE"

definition ampm_ff_checksum :: "bytes \<Rightarrow> nat \<Rightarrow> u32" where
  "ampm_ff_checksum buff n = foldl (\<lambda>crc b. crc + ucast b) 0 (take n buff)"

text \<open>The check sum of a structure covers all of it but the check sum itself.\<close>

definition fil_sum :: "AMPM_FIL \<Rightarrow> u32" where
  "fil_sum f = ampm_ff_checksum (fil_bytes f) 64"

definition fil_seal :: "AMPM_FIL \<Rightarrow> AMPM_FIL" where
  "fil_seal f = f\<lparr>fil_crc := fil_sum f\<rparr>"

section \<open>Access to the flash memory\<close>

definition ampm_flash_erase_sector :: "'c spi_dev \<Rightarrow> u32 \<Rightarrow> ('c, 'z) sst25_scheme \<Rightarrow> AMPM_FRESULT \<times> ('c, 'z) sst25_scheme" where
  "ampm_flash_erase_sector dev addr s =
     (let (r, s) = SST25_Erase dev addr block4k s in (if r = SST25_OK then FR_OK else FR_ERR, s))"

definition ampm_flash_read :: "'c spi_dev \<Rightarrow> u32 \<Rightarrow> u32 \<Rightarrow> ('c, 'z) sst25_scheme \<Rightarrow> AMPM_FRESULT \<times> bytes \<times> ('c, 'z) sst25_scheme" where
  "ampm_flash_read dev addr count s =
     (let (r, bs, s) = SST25_Read dev addr count s in (if r = SST25_OK then FR_OK else FR_ERR, bs, s))"

definition ampm_flash_write ::
  "'c spi_dev \<Rightarrow> u32 \<Rightarrow> bytes \<Rightarrow> u32 \<Rightarrow> ('c, 'z) sst25_scheme \<Rightarrow> (AMPM_FRESULT \<times> ('c, 'z) sst25_scheme) option" where
  "ampm_flash_write dev addr buf count s = do {
     (r, s) \<leftarrow> SST25_Write dev addr buf count s;
     Some (if r = SST25_OK then FR_OK else FR_ERR, s)
   }"

text \<open>Reading and writing a structure.\<close>

definition read_fil :: "'c spi_dev \<Rightarrow> u32 \<Rightarrow> ('c, 'z) sst25_scheme \<Rightarrow> AMPM_FIL \<times> ('c, 'z) sst25_scheme" where
  "read_fil dev addr s = (let (_, bs, s) = ampm_flash_read dev addr FIL_SIZE s in (fil_of bs, s))"

definition write_fil ::
  "'c spi_dev \<Rightarrow> u32 \<Rightarrow> AMPM_FIL \<Rightarrow> ('c, 'z) sst25_scheme \<Rightarrow> (AMPM_FRESULT \<times> ('c, 'z) sst25_scheme) option" where
  "write_fil dev addr f s = ampm_flash_write dev addr (fil_bytes f) FIL_SIZE s"

section \<open>Checking structures\<close>

definition fil_valid :: "AMPM_FIL \<Rightarrow> bool" where
  "fil_valid f \<longleftrightarrow>
     file_name f ! 0 \<noteq> 0 \<and> start_sector f < DISK_SECTOR_MAX \<and> current_sector f < DISK_SECTOR_MAX
     \<and> previous_sector f < DISK_SECTOR_MAX \<and> fil_crc f = fil_sum f \<and> file_status f = AMPM_FA_STATUS_OK
     \<and> file_offset f \<le> file_size f \<and> file_size f < 100000 \<and> permission f \<le> 0xff
     \<and> length (cstr ((file_name f)[31 := 0])) < 29"

definition ampm_f_file_format_check ::
  "'c spi_dev \<Rightarrow> AMPM_FIL \<Rightarrow> ('c, 'z) sst25_scheme \<Rightarrow> AMPM_FRESULT \<times> AMPM_FIL \<times> ('c, 'z) sst25_scheme" where
  "ampm_f_file_format_check dev fil s =
     (if fil_valid fil then
        (let (fil, s) = read_fil dev (sector_addr (start_sector fil)) s
         in (if fil_valid fil then FR_OK else FR_ERR, fil, s))
      else (FR_ERR, fil, s))"

section \<open>Passes over the disk\<close>

text \<open>The sector numbers \<open>0, 1, \<dots>, DISK_SECTOR_MAX - 1\<close> of a \<open>for\<close> loop.\<close>

definition all_sectors :: "u32 list" where
  "all_sectors = map of_nat [0..<unat DISK_SECTOR_MAX]"

definition ampm_f_disk_format :: "'c spi_dev \<Rightarrow> ('c, 'z) sst25_scheme \<Rightarrow> AMPM_FRESULT \<times> ('c, 'z) sst25_scheme" where
  "ampm_f_disk_format dev s =
     (FR_OK, fold (\<lambda>i s. snd (ampm_flash_erase_sector dev (sector_addr i) s)) all_sectors s)"

definition cleanup_sector :: "'c spi_dev \<Rightarrow> u32 \<Rightarrow> ('c, 'z) sst25_scheme \<Rightarrow> ('c, 'z) sst25_scheme" where
  "cleanup_sector dev i s =
     (let (fil, s) = read_fil dev (sector_addr i) s;
          (r, fil, s) = ampm_f_file_format_check dev fil s
      in if r = FR_OK then
           (let start = start_sector fil;
                (fil, s) = read_fil dev (sector_addr (start_sector fil)) s
            in if fil_valid fil then
                 (let (fil, s) = read_fil dev (sector_addr (start_sector fil) + 2 * FIL_SIZE) s
                  in if \<not> fil_valid fil then snd (ampm_flash_erase_sector dev (sector_addr start) s) else s)
               else s)
         else s)"

definition ampm_f_disk_cleanup :: "'c spi_dev \<Rightarrow> ('c, 'z) sst25_scheme \<Rightarrow> AMPM_FRESULT \<times> ('c, 'z) sst25_scheme" where
  "ampm_f_disk_cleanup dev s = (FR_OK, fold (cleanup_sector dev) all_sectors s)"

definition ampm_f_init :: "'c spi_dev \<Rightarrow> ('c, 'z) sst25_scheme \<Rightarrow> AMPM_FRESULT \<times> ('c, 'z) sst25_scheme" where
  "ampm_f_init dev s = (if SST25_Init = SST25_OK then (FR_OK, snd (ampm_f_disk_cleanup dev s)) else (FR_ERR, s))"

fun count_free :: "'c spi_dev \<Rightarrow> u32 list \<Rightarrow> u32 \<Rightarrow> ('c, 'z) sst25_scheme \<Rightarrow> u32 \<times> ('c, 'z) sst25_scheme" where
  "count_free dev [] n s = (n, s)"
| "count_free dev (i # is) n s =
     (let (fil, s) = read_fil dev (sector_addr i) s;
          (r, _, s) = ampm_f_file_format_check dev fil s
      in count_free dev is (if r = FR_ERR then n + 1 else n) s)"

definition ampm_f_getfree :: "'c spi_dev \<Rightarrow> ('c, 'z) sst25_scheme \<Rightarrow> u32 \<times> ('c, 'z) sst25_scheme" where
  "ampm_f_getfree dev s = count_free dev all_sectors 0 s"

fun search_file :: "'c spi_dev \<Rightarrow> u32 list \<Rightarrow> AMPM_FIL \<Rightarrow> ('c, 'z) sst25_scheme \<Rightarrow> AMPM_FRESULT \<times> AMPM_FIL \<times> ('c, 'z) sst25_scheme" where
  "search_file dev [] fil s = (FR_ERR, fil, s)"
| "search_file dev (i # is) fil s =
     (let (fil, s) = read_fil dev (sector_addr i) s;
          (r, fil, s) = ampm_f_file_format_check dev fil s
      in if r = FR_OK then
           (let (fil, s) = read_fil dev (sector_addr (start_sector fil) + 2 * FIL_SIZE) s
            in if fil_valid fil then (FR_OK, fil, s) else search_file dev is fil s)
         else search_file dev is fil s)"

definition ampm_f_searchfile :: "'c spi_dev \<Rightarrow> AMPM_FIL \<Rightarrow> ('c, 'z) sst25_scheme \<Rightarrow> AMPM_FRESULT \<times> AMPM_FIL \<times> ('c, 'z) sst25_scheme" where
  "ampm_f_searchfile dev fil s = search_file dev all_sectors fil s"

text \<open>\<open>strcmp\<close> of two terminated strings.\<close>

definition same_name :: "bytes \<Rightarrow> bytes \<Rightarrow> bool option" where
  "same_name a b = (if 0 \<in> set a \<and> 0 \<in> set b then Some (cstr a = cstr b) else None)"

fun unlink_file :: "'c spi_dev \<Rightarrow> u32 list \<Rightarrow> bytes \<Rightarrow> ('c, 'z) sst25_scheme \<Rightarrow> (AMPM_FRESULT \<times> ('c, 'z) sst25_scheme) option" where
  "unlink_file dev [] fileName s = Some (FR_ERR, s)"
| "unlink_file dev (i # is) fileName s =
     (let (fil, s) = read_fil dev (sector_addr i) s;
          (r, fil, s) = ampm_f_file_format_check dev fil s
      in if r = FR_OK then do {
           eq \<leftarrow> same_name fileName (file_name fil);
           if eq then
             (let (_, s) = ampm_flash_erase_sector dev (sector_addr (start_sector fil)) s;
                  (_, s) = ampm_flash_erase_sector dev (sector_addr i) s
              in Some (FR_OK, s))
           else unlink_file dev is fileName s
         }
         else unlink_file dev is fileName s)"

definition ampm_f_unlink :: "'c spi_dev \<Rightarrow> bytes \<Rightarrow> ('c, 'z) sst25_scheme \<Rightarrow> (AMPM_FRESULT \<times> ('c, 'z) sst25_scheme) option" where
  "ampm_f_unlink dev fileName s = unlink_file dev all_sectors fileName s"

section \<open>The search that starts at a random sector\<close>

text \<open>
  \<open>for(i = rand_sec; i < DISK_SECTOR_MAX;)\<close> of \<open>ampm_f_open\<close> and
  \<open>ampm_f_find_free_sector\<close>: the loop changes \<open>i\<close> first and then looks at sector \<open>i\<close>.
  The body gets the file structure it reads into and answers with a result (the function returns it)
  or with \<open>None\<close> (the loop goes on).
\<close>

definition scan_step :: "u32 \<Rightarrow> u32 \<Rightarrow> u32 \<Rightarrow> u32 \<times> u32 \<times> u32" where
  "scan_step i temp r =
     (if r \<noteq> 0 then (i - 1, temp, r - 1) else if temp \<noteq> 0 then (temp + 1, 0, r) else (i + 1, temp, r))"

lemma scan_step_less:
  assumes "(i', temp', r') = scan_step i temp r" "i < DISK_SECTOR_MAX"
  shows "unat r' < unat r \<or> r' = r \<and> (temp' = 0 \<and> temp \<noteq> 0 \<or> temp' = temp \<and> unat i < unat i' \<and> unat i' \<le> unat DISK_SECTOR_MAX)"
proof (cases "r = 0")
  case True
  have i: "unat i < unat DISK_SECTOR_MAX" using assms(2) by (simp add: word_less_nat_alt)
  then have "unat (i + 1) = unat i + 1" by (simp add: unat_word_ariths DISK_SECTOR_MAX_def)
  with i True assms show ?thesis by (auto simp: scan_step_def split: if_splits)
next
  case False
  then have "unat (r - 1) < unat r" by (simp add: unat_minus_one unat_gt_0)
  with False assms show ?thesis by (simp add: scan_step_def)
qed

type_synonym ('r, 's) scan_body = "u32 \<Rightarrow> AMPM_FIL \<Rightarrow> 's \<Rightarrow> ('r option \<times> AMPM_FIL \<times> 's) option"

function scan_sectors ::
  "('r, ('c, 'z) amff_scheme) scan_body \<Rightarrow> u32 \<Rightarrow> u32 \<Rightarrow> u32 \<Rightarrow> AMPM_FIL \<Rightarrow> ('c, 'z) amff_scheme
    \<Rightarrow> ('r option \<times> AMPM_FIL \<times> ('c, 'z) amff_scheme) option" where
  "scan_sectors body i temp r fil s =
     (if i < DISK_SECTOR_MAX then
        (case scan_step i temp r of (i, temp, r) \<Rightarrow> do {
          (res, fil, s) \<leftarrow> body i fil (s\<lparr>rand_sec := r\<rparr>);
          (case res of Some x \<Rightarrow> Some (Some x, fil, s) | None \<Rightarrow> scan_sectors body i temp r fil s)
        })
      else Some (None, fil, s))"
  by pat_completeness auto

termination
  by (relation "measures [\<lambda>(_, _, _, r, _). unat r, \<lambda>(_, _, temp, _). if temp = 0 then 0 else 1,
    \<lambda>(_, i, _). unat DISK_SECTOR_MAX - unat i]") (auto dest!: scan_step_less)

declare scan_sectors.simps [simp del]

text \<open>\<open>rand_sec = rand(); rand_sec %= DISK_SECTOR_MAX;\<close>\<close>

definition next_rand :: "('c, 'z) amff_scheme \<Rightarrow> u32 \<times> ('c, 'z) amff_scheme" where
  "next_rand s = (rands s 0 mod DISK_SECTOR_MAX,
     s\<lparr>rands := \<lambda>n. rands s (n + 1), rand_sec := rands s 0 mod DISK_SECTOR_MAX\<rparr>)"

section \<open>Opening a file\<close>

text \<open>\<open>strcpy\<close> into the 32 bytes of the name: undefined when the name does not fit.\<close>

definition copy_name :: "bytes \<Rightarrow> bytes \<Rightarrow> bytes option" where
  "copy_name old fileName =
     (if 0 \<in> set fileName \<and> length (cstr fileName) < 32
      then Some (cstr fileName @ [0] @ drop (length (cstr fileName) + 1) old) else None)"

definition new_fil :: "AMPM_FIL \<Rightarrow> bytes \<Rightarrow> u32 \<Rightarrow> AMPM_FIL" where
  "new_fil fil name i = fil_seal (fil\<lparr>file_name := name, start_sector := i, current_sector := i, previous_sector := i,
     next_sector := 0xffffffff, file_size := 0, file_offset := 0, file_status := AMPM_FA_STATUS_OK,
     permission := ucast AMPM_FA_WRITE\<rparr>)"

definition open_sector ::
  "'c spi_dev \<Rightarrow> bytes \<Rightarrow> u8 \<Rightarrow> (AMPM_FRESULT, ('c, 'z) sst25_scheme) scan_body" where
  "open_sector dev fileName mode i fil s =
     (let (fil, s) = read_fil dev (sector_addr i) s;
          (r, fil, s) = ampm_f_file_format_check dev fil s
      in if r = FR_OK then
           if mode AND (AMPM_FA_READ OR AMPM_FA_OPEN_ALWAYS OR AMPM_FA_OPEN_EXISTING) \<noteq> 0 then do {
             eq \<leftarrow> same_name fileName (file_name fil);
             if eq then
               (let (fil, s) = read_fil dev (sector_addr (start_sector fil) + 2 * FIL_SIZE) s
                in if fil_valid fil then
                     Some (Some FR_OK,
                       fil\<lparr>permission := if mode AND AMPM_FA_WRITE \<noteq> 0 then ucast AMPM_FA_WRITE else ucast AMPM_FA_READ,
                         file_offset := 0\<rparr>, s)
                   else Some (None, fil, s))
             else Some (None, fil, s)
           }
           else Some (None, fil, s)
         else if mode AND (AMPM_FA_CREATE_ALWAYS OR AMPM_FA_CREATE_NEW) \<noteq> 0 then do {
           name \<leftarrow> copy_name (file_name fil) fileName;
           let fil = new_fil fil name i;
           (r, s) \<leftarrow> write_fil dev (sector_addr (start_sector fil)) fil s;
           Some (Some r, fil, s)
         }
         else Some (None, fil, s))"

definition ampm_f_open ::
  "'c spi_dev \<Rightarrow> AMPM_FIL option \<Rightarrow> bytes \<Rightarrow> u8 \<Rightarrow> ('c, 'z) amff_scheme
    \<Rightarrow> (AMPM_FRESULT \<times> AMPM_FIL option \<times> ('c, 'z) amff_scheme) option" where
  "ampm_f_open dev fp fileName mode s =
     (case fp of None \<Rightarrow> Some (FR_ERR, None, s)
      | Some fil \<Rightarrow> (case next_rand s of (r, s) \<Rightarrow> do {
          (res, fil, s) \<leftarrow> scan_sectors (open_sector dev fileName mode) r r r fil s;
          Some (case res of Some x \<Rightarrow> (x, Some fil, s)
                 | None \<Rightarrow> (FR_ERR, Some (fil\<lparr>file_name := (file_name fil)[0 := 0]\<rparr>), s))
        }))"

definition free_sector :: "'c spi_dev \<Rightarrow> (u32, ('c, 'z) sst25_scheme) scan_body" where
  "free_sector dev i fil s =
     (let (fil, s) = read_fil dev (sector_addr i) s;
          (r, fil, s) = ampm_f_file_format_check dev fil s
      in Some (if r = FR_ERR then Some i else None, fil, s))"

text \<open>The local structure is filled before it is looked at; its first value does not matter.\<close>

definition blank_fil :: AMPM_FIL where
  "blank_fil = fil_of (replicate 68 0)"

definition ampm_f_find_free_sector ::
  "'c spi_dev \<Rightarrow> ('c, 'z) amff_scheme \<Rightarrow> (u32 option \<times> ('c, 'z) amff_scheme) option" where
  "ampm_f_find_free_sector dev s =
     (case next_rand s of (r, s) \<Rightarrow> do {
        (res, _, s) \<leftarrow> scan_sectors (free_sector dev) r r r blank_fil s;
        Some (res, s)
      })"

section \<open>Closing and seeking\<close>

text \<open>The checks on an open structure that \<open>ampm_f_close\<close> and \<open>ampm_f_read\<close> share, negated.\<close>

definition fil_usable :: "AMPM_FIL \<Rightarrow> bool" where
  "fil_usable fil \<longleftrightarrow>
     start_sector fil < DISK_SECTOR_MAX \<and> current_sector fil < DISK_SECTOR_MAX \<and> previous_sector fil < DISK_SECTOR_MAX
     \<and> file_name fil ! 0 \<noteq> 0 \<and> file_size fil \<le> 100000 \<and> file_offset fil \<le> 100000 \<and> file_offset fil \<le> file_size fil
     \<and> permission fil \<le> ucast AMPM_FA_WRITE"

definition data_addr :: "u32 \<Rightarrow> u32 \<Rightarrow> u32" where
  "data_addr sector offset = sector_addr sector + offset mod DISK_SECTOR_SIZE + FILE_HEADER_SIZE"

definition clear_name :: "AMPM_FIL \<Rightarrow> AMPM_FIL" where
  "clear_name fil = fil\<lparr>file_name := (file_name fil)[0 := 0]\<rparr>"

definition ampm_f_close ::
  "'c spi_dev \<Rightarrow> AMPM_FIL option \<Rightarrow> ('c, 'z) amff_scheme \<Rightarrow> (AMPM_FRESULT \<times> AMPM_FIL option \<times> ('c, 'z) amff_scheme) option" where
  "ampm_f_close dev fp s =
     (case fp of None \<Rightarrow> Some (FR_ERR, None, s)
      | Some fil \<Rightarrow>
          if \<not> fil_usable fil then Some (FR_ERR, Some fil, s)
          else if permission fil = ucast AMPM_FA_WRITE then do {
            let temp = file_size fil mod 256;
            (_, s) \<leftarrow> ampm_flash_write dev (data_addr (current_sector fil) (file_offset fil - temp)) (ampm_file_buf s) 256 s;
            let (rfil, s) = read_fil dev (sector_addr (start_sector fil) + FIL_SIZE) s;
            let fil = fil_seal (fil\<lparr>current_sector := start_sector fil, next_sector := next_sector rfil,
              previous_sector := start_sector fil\<rparr>);
            (r, s) \<leftarrow> write_fil dev (sector_addr (start_sector fil) + 2 * FIL_SIZE) fil s;
            if r \<noteq> FR_OK then
              Some (FR_ERR, Some fil, snd (ampm_flash_erase_sector dev (sector_addr (start_sector fil)) s))
            else Some (FR_OK, Some (clear_name fil), s)
          }
          else Some (FR_OK, Some (clear_name fil), s))"

fun seek_sectors :: "'c spi_dev \<Rightarrow> nat \<Rightarrow> u32 \<Rightarrow> AMPM_FIL \<Rightarrow> ('c, 'z) sst25_scheme
    \<Rightarrow> (u32 \<times> AMPM_FIL) option \<times> ('c, 'z) sst25_scheme" where
  "seek_sectors dev 0 current rfil s = (Some (current, rfil), s)"
| "seek_sectors dev (Suc n) current rfil s =
     (let (rfil, s) = read_fil dev (sector_addr current + FIL_SIZE) s
      in if \<not> fil_valid rfil then (None, s) else seek_sectors dev n (next_sector rfil) rfil s)"

text \<open>\<open>rfil\<close> is not initialised when the target is in the first sector.\<close>

definition ampm_f_lseek ::
  "'c spi_dev \<Rightarrow> AMPM_FIL \<Rightarrow> AMPM_FIL \<Rightarrow> u32 \<Rightarrow> ('c, 'z) sst25_scheme \<Rightarrow> AMPM_FRESULT \<times> AMPM_FIL \<times> ('c, 'z) sst25_scheme" where
  "ampm_f_lseek dev rfil fil seek s =
     (let (r, s) = seek_sectors dev (unat (seek div DISK_SECTOR_SIZE)) (start_sector fil) rfil s
      in case r of None \<Rightarrow> (FR_ERR, fil, s)
         | Some (current, rfil) \<Rightarrow>
             (FR_OK, fil\<lparr>current_sector := current, next_sector := next_sector rfil,
                previous_sector := previous_sector rfil, file_offset := seek\<rparr>, s))"

definition ampm_f_next_sector ::
  "'c spi_dev \<Rightarrow> AMPM_FIL \<Rightarrow> ('c, 'z) sst25_scheme \<Rightarrow> AMPM_FRESULT \<times> AMPM_FIL \<times> ('c, 'z) sst25_scheme" where
  "ampm_f_next_sector dev fil s =
     (let (rfil, s) = read_fil dev (sector_addr (start_sector fil) + FIL_SIZE) s
      in if \<not> fil_valid rfil then (FR_ERR, fil, s)
         else (FR_OK, fil\<lparr>current_sector := next_sector rfil, next_sector := next_sector rfil,
                previous_sector := previous_sector rfil\<rparr>, s))"

section \<open>Reading\<close>

text \<open>
  The result is the code returned, the bytes stored from the start of the caller's buffer on, the
  number reported in \<open>*br\<close> when it is set, the file structure and the state.
\<close>

definition ampm_f_read ::
  "'c spi_dev \<Rightarrow> AMPM_FIL option \<Rightarrow> u32 \<Rightarrow> ('c, 'z) sst25_scheme
    \<Rightarrow> AMPM_FRESULT \<times> bytes \<times> u32 option \<times> AMPM_FIL option \<times> ('c, 'z) sst25_scheme" where
  "ampm_f_read dev fp btr s =
     (case fp of None \<Rightarrow> (FR_ERR, [], None, None, s)
      | Some fil \<Rightarrow>
          if \<not> fil_usable fil then (FR_ERR, [], None, Some fil, s)
          else
            (let br = (if file_offset fil + btr < file_size fil then btr else file_size fil - file_offset fil);
                 temp = file_offset fil mod DISK_SECTOR_SIZE
             in if temp + br \<le> DISK_SECTOR_SIZE then
                  (let (_, bs, s) = ampm_flash_read dev (sector_addr (current_sector fil) + FILE_HEADER_SIZE + temp) br s
                   in (FR_OK, bs, Some br, Some (fil\<lparr>file_offset := file_offset fil + br\<rparr>), s))
                else
                  (let temp0 = DISK_SECTOR_SIZE - temp;
                       (_, bs, s) = ampm_flash_read dev (sector_addr (current_sector fil) + FILE_HEADER_SIZE + temp) temp0 s;
                       temp = (temp + br) mod DISK_SECTOR_SIZE;
                       (r, fil, s) = ampm_f_next_sector dev fil s
                   in if r = FR_ERR then (FR_ERR, bs, Some br, Some fil, s)
                      else
                        (let (_, bs', s) = ampm_flash_read dev (sector_addr (current_sector fil) + FILE_HEADER_SIZE) temp s
                         in (FR_OK, bs @ bs', Some br, Some (fil\<lparr>file_offset := file_offset fil + br\<rparr>), s)))))"

section \<open>Writing\<close>

definition bad_status :: "AMPM_FIL \<Rightarrow> AMPM_FIL" where
  "bad_status fil = fil\<lparr>file_status := AMPM_FA_STATUS_ERR\<rparr>"

text \<open>When a sector is full: take a free one, link the old one to it, write the header of the new one.\<close>

definition extend_file ::
  "'c spi_dev \<Rightarrow> AMPM_FIL \<Rightarrow> ('c, 'z) amff_scheme \<Rightarrow> (AMPM_FRESULT \<times> AMPM_FIL \<times> ('c, 'z) amff_scheme) option" where
  "extend_file dev fil s = do {
     (free, s) \<leftarrow> ampm_f_find_free_sector dev s;
     (case free of None \<Rightarrow> Some (FR_ERR, bad_status fil, s)
      | Some sector \<Rightarrow> do {
          let fil = fil_seal (fil\<lparr>next_sector := sector\<rparr>);
          (r, s) \<leftarrow> write_fil dev (sector_addr (current_sector fil) + FIL_SIZE) fil s;
          if r \<noteq> FR_OK then Some (FR_ERR, bad_status fil, s)
          else do {
            let fil = fil_seal (fil\<lparr>previous_sector := current_sector fil, current_sector := sector\<rparr>);
            (r, s) \<leftarrow> write_fil dev (sector_addr (current_sector fil)) fil s;
            if r \<noteq> FR_OK then Some (FR_ERR, bad_status fil, s)
            else Some (FR_OK, fil, s)
          }
        })
   }"

text \<open>When the buffer is full: write it, and extend the file when its sector is full too.\<close>

definition flush_file ::
  "'c spi_dev \<Rightarrow> AMPM_FIL \<Rightarrow> ('c, 'z) amff_scheme \<Rightarrow> (AMPM_FRESULT \<times> AMPM_FIL \<times> ('c, 'z) amff_scheme) option" where
  "flush_file dev fil s = do {
     (r, s) \<leftarrow> ampm_flash_write dev (data_addr (current_sector fil) (file_offset fil - 256)) (ampm_file_buf s) 256 s;
     if r \<noteq> FR_OK then Some (FR_ERR, bad_status fil, s)
     else do {
       (r, fil, s) \<leftarrow> (if file_offset fil mod DISK_SECTOR_SIZE = 0 then extend_file dev fil s else Some (FR_OK, fil, s));
       if r \<noteq> FR_OK then Some (FR_ERR, fil, s)
       else Some (FR_OK, fil, s\<lparr>ampm_file_buf := replicate 256 0xff\<rparr>)
     }
   }"

text \<open>The counter of the loop has 16 bits, so the loop has no end of its own when \<open>btr > 65535\<close>.\<close>

partial_function (option) write_loop ::
  "'c spi_dev \<Rightarrow> bytes \<Rightarrow> u32 \<Rightarrow> u16 \<Rightarrow> AMPM_FIL \<Rightarrow> ('c, 'z) amff_scheme
    \<Rightarrow> (AMPM_FRESULT \<times> AMPM_FIL \<times> ('c, 'z) amff_scheme) option" where
  "write_loop dev buff btr i fil s =
     (if ucast i < btr then
        if unat i < length buff then do {
          let s = s\<lparr>ampm_file_buf := (ampm_file_buf s)[unat (file_offset fil mod 256) := buff ! unat i]\<rparr>;
          let fil = fil\<lparr>file_size := file_size fil + 1, file_offset := file_offset fil + 1\<rparr>;
          (r, fil, s) \<leftarrow> (if file_offset fil mod 256 = 0 then flush_file dev fil s else Some (FR_OK, fil, s));
          if r \<noteq> FR_OK then Some (FR_ERR, fil, s)
          else write_loop dev buff btr (i + 1) fil s
        }
        else None
      else Some (FR_OK, fil, s))"

definition ampm_f_write ::
  "'c spi_dev \<Rightarrow> AMPM_FIL option \<Rightarrow> bytes \<Rightarrow> u32 \<Rightarrow> ('c, 'z) amff_scheme
    \<Rightarrow> (AMPM_FRESULT \<times> u32 option \<times> AMPM_FIL option \<times> ('c, 'z) amff_scheme) option" where
  "ampm_f_write dev fp buff btr s =
     (case fp of None \<Rightarrow> Some (FR_ERR, None, None, s)
      | Some fil \<Rightarrow>
          if \<not> fil_usable fil \<or> permission fil \<noteq> ucast AMPM_FA_WRITE then Some (FR_ERR, None, Some fil, s)
          else do {
            (r, fil, s) \<leftarrow> write_loop dev buff btr 0 fil s;
            Some (r, Some btr, Some fil, s)
          })"

text \<open>
  \<open>sprintf\<close> with a format and no arguments: undefined when the format asks for one, or when the
  text and its terminator do not fit the buffer of 256 bytes.
\<close>

fun printf_text :: "bytes \<Rightarrow> bytes option" where
  "printf_text [] = Some []"
| "printf_text (c # cs) =
     (if c = 0x25 then
        (case cs of [] \<Rightarrow> None
         | d # ds \<Rightarrow> if d = 0x25 then map_option (Cons 0x25) (printf_text ds) else None)
      else map_option (Cons c) (printf_text cs))"

definition ampm_f_printf ::
  "'c spi_dev \<Rightarrow> AMPM_FIL option \<Rightarrow> bytes \<Rightarrow> ('c, 'z) amff_scheme
    \<Rightarrow> (AMPM_FRESULT \<times> AMPM_FIL option \<times> ('c, 'z) amff_scheme) option" where
  "ampm_f_printf dev fp format s =
     (case fp of None \<Rightarrow> Some (FR_ERR, None, s)
      | Some fil \<Rightarrow>
          if start_sector fil > DISK_SECTOR_MAX \<or> file_name fil ! 0 = 0 \<or> permission fil \<noteq> ucast AMPM_FA_WRITE
            \<or> file_size fil > 100000 \<or> file_offset fil > 100000 \<or> file_offset fil > file_size fil
          then Some (FR_ERR, Some fil, s)
          else do {
            buffer \<leftarrow> (if 0 \<in> set format then printf_text (cstr format) else None);
            if length buffer \<ge> 256 then None
            else do {
              (r, _, fp, s) \<leftarrow> ampm_f_write dev (Some fil) buffer (of_nat (length buffer)) s;
              Some (r, fp, s)
            }
          })"

section \<open>The front end with the names of the C library\<close>

text \<open>
  \<open>mem\<close> is what \<open>malloc\<close> returns, with the contents of the memory when it succeeds; \<open>res0\<close> and
  \<open>rfil\<close> are the first values of uninitialised variables.  \<open>free\<close> ends the life of a structure.
\<close>

definition ampm_fopen_win32 ::
  "'c spi_dev \<Rightarrow> AMPM_FIL option \<Rightarrow> AMPM_FRESULT \<Rightarrow> AMPM_FIL \<Rightarrow> bytes \<Rightarrow> bytes \<Rightarrow> ('c, 'z) amff_scheme
    \<Rightarrow> (AMPM_FIL option \<times> ('c, 'z) amff_scheme) option" where
  "ampm_fopen_win32 dev mem res0 rfil filename mode s =
     (if mode = [] then None
      else do {
        (res, file, s) \<leftarrow>
          (if mode ! 0 = 0x72 then ampm_f_open dev mem filename AMPM_FA_READ s
           else if mode ! 0 = 0x77 then ampm_f_open dev mem filename AMPM_FA_CREATE_ALWAYS s
           else if mode ! 0 = 0x61 then do {
             (res, file, s) \<leftarrow> ampm_f_open dev mem filename (AMPM_FA_OPEN_ALWAYS OR AMPM_FA_READ OR AMPM_FA_WRITE) s;
             (case file of
                Some fil \<Rightarrow>
                  if res = FR_OK then
                    (let (_, fil, s) = ampm_f_lseek dev rfil fil (file_size fil) s in Some (res, Some fil, s))
                  else Some (res, Some fil, s)
              | None \<Rightarrow> Some (res, None, s))
           }
           else Some (res0, mem, s));
        Some (if res \<noteq> FR_OK then None else file, s)
      })"

definition ampm_fread_win32 ::
  "'c spi_dev \<Rightarrow> AMPM_FIL option \<Rightarrow> u32 \<Rightarrow> u32 \<Rightarrow> ('c, 'z) sst25_scheme
    \<Rightarrow> AMPM_FRESULT \<times> bytes \<times> AMPM_FIL option \<times> ('c, 'z) sst25_scheme" where
  "ampm_fread_win32 dev fp size0 count s = (let (r, bs, _, fp, s) = ampm_f_read dev fp size0 s in (r, bs, fp, s))"

definition ampm_fwrite_win32 ::
  "'c spi_dev \<Rightarrow> AMPM_FIL option \<Rightarrow> bytes \<Rightarrow> u32 \<Rightarrow> u32 \<Rightarrow> ('c, 'z) amff_scheme
    \<Rightarrow> (AMPM_FRESULT \<times> AMPM_FIL option \<times> ('c, 'z) amff_scheme) option" where
  "ampm_fwrite_win32 dev fp ptr size0 count s = do {
     (r, _, fp, s) \<leftarrow> ampm_f_write dev fp ptr size0 s;
     Some (r, fp, s)
   }"

definition AMPM_SEEK_SET :: u8 where "AMPM_SEEK_SET = 0"
definition AMPM_SEEK_END :: u8 where "AMPM_SEEK_END = 2"

definition ampm_fseek_win32 ::
  "'c spi_dev \<Rightarrow> AMPM_FIL \<Rightarrow> AMPM_FIL \<Rightarrow> u32 \<Rightarrow> u8 \<Rightarrow> ('c, 'z) sst25_scheme
    \<Rightarrow> AMPM_FRESULT \<times> AMPM_FIL \<times> ('c, 'z) sst25_scheme" where
  "ampm_fseek_win32 dev rfil fil offset origin s =
     (if origin = AMPM_SEEK_SET then ampm_f_lseek dev rfil fil 0 s
      else if origin = AMPM_SEEK_END then ampm_f_lseek dev rfil fil (file_size fil) s
      else (FR_ERR, fil, s))"

definition ampm_fclose_win32 ::
  "'c spi_dev \<Rightarrow> AMPM_FIL option \<Rightarrow> ('c, 'z) amff_scheme \<Rightarrow> (AMPM_FRESULT \<times> ('c, 'z) amff_scheme) option" where
  "ampm_fclose_win32 dev fp s = do {
     (res, _, s) \<leftarrow> ampm_f_close dev fp s;
     Some (res, s)
   }"

end
