(* ===== verification/Sst25Proofs.thy ===== *)
theory Sst25Proofs
  imports Sst25
begin

text \<open>
  What the flash driver promises on a chip that behaves as the data sheet of the family says:
  reading returns the contents, an erased or fresh place takes the bytes written, and a write
  reported as done is in the memory.  The laws of the chip are stated for whole transactions, from
  the assertion of the chip select line to its release.
\<close>

section \<open>Transactions\<close>

fun spi_session :: "'c spi_dev \<Rightarrow> bytes \<Rightarrow> 'c \<Rightarrow> bytes \<times> 'c" where
  "spi_session dev [] c = ([], c)"
| "spi_session dev (x # xs) c =
     (let (r, c) = spi_xfer dev x c; (rs, c) = spi_session dev xs c in (r # rs, c))"

definition transact :: "'c spi_dev \<Rightarrow> bytes \<Rightarrow> 'c \<Rightarrow> bytes \<times> 'c" where
  "transact dev xs c = (let (rs, c) = spi_session dev xs (spi_select dev c) in (rs, spi_release dev c))"

lemma spi_session_append:
  "spi_session dev (xs @ ys) c =
     (let (rs, c) = spi_session dev xs c; (rs', c) = spi_session dev ys c in (rs @ rs', c))"
  by (induction xs arbitrary: c) (simp_all split: prod.split)

lemma spi_session_length [simp]: "length (fst (spi_session dev xs c)) = length xs"
  by (induction xs arbitrary: c) (simp_all split: prod.split, metis fst_conv)

lemma SPI_send_session: "SPI_send dev xs s = s\<lparr>sst_chip := snd (spi_session dev xs (sst_chip s))\<rparr>"
proof (induction xs arbitrary: s)
  case (Cons x xs)
  then show ?case by (simp add: SPI_send_def SPI_Write_def split: prod.split)
qed (simp add: SPI_send_def)

lemma SPI_receive_session:
  "SPI_receive dev n s = (fst (spi_session dev (replicate n 0) (sst_chip s)),
     s\<lparr>sst_chip := snd (spi_session dev (replicate n 0) (sst_chip s))\<rparr>)"
  by (induction n arbitrary: s) (simp_all add: SPI_Write_def split: prod.split)

text \<open>A command of the driver as a transaction.\<close>

definition chip_do :: "'c spi_dev \<Rightarrow> bytes \<Rightarrow> ('c, 'z) sst25_scheme \<Rightarrow> ('c, 'z) sst25_scheme" where
  "chip_do dev xs s = s\<lparr>sst_chip := snd (transact dev xs (sst_chip s))\<rparr>"

lemma chip_do_fields [simp]:
  "sst_chip (chip_do dev xs s) = snd (transact dev xs (sst_chip s))" "sst25buf (chip_do dev xs s) = sst25buf s"
  by (simp_all add: chip_do_def)

lemma send_transact: "SST_CS_DeAssert dev (SPI_send dev xs (SST_CS_Assert dev s)) = chip_do dev xs s"
  by (simp add: SST_CS_Assert_def SST_CS_DeAssert_def SPI_send_session chip_do_def transact_def split: prod.split)

lemma SPI_send_send: "SPI_send dev ys (SPI_send dev xs s) = SPI_send dev (xs @ ys) s"
  by (simp add: SPI_send_def)

lemma SST25__Status_transact:
  "SST25__Status dev s = (fst (transact dev [0x05, 0xFF] (sst_chip s)) ! 1, chip_do dev [0x05, 0xFF] s)"
  by (simp add: SST25__Status_def SST_CS_Assert_def SST_CS_DeAssert_def SPI_Write_def transact_def chip_do_def split: prod.split)

section \<open>The chip\<close>

definition programmed :: "(nat \<Rightarrow> u8) \<Rightarrow> nat \<Rightarrow> bytes \<Rightarrow> nat \<Rightarrow> u8" where
  "programmed m a ds x = (if a \<le> x \<and> x < a + length ds then m x AND ds ! (x - a) else m x)"

definition erased :: "(nat \<Rightarrow> u8) \<Rightarrow> nat \<Rightarrow> nat \<Rightarrow> u8" where
  "erased m a x = (if x div 4096 = a div 4096 then 0xFF else m x)"

text \<open>
  \<open>cap\<close> is the capacity in bytes; \<open>mem\<close>, \<open>busy\<close> and \<open>wel\<close> read a chip state: its contents, how many more status reads will
  report it busy, and the write enable latch.  Polling shows and uses up the busy time; write
  enable sets the latch; programming within one page of 256 bytes clears bits, erasing sets a sector
  of 4096 bytes to ones, and both take at most 9000 polls; reading returns the contents.
\<close>

definition status_law where
  "status_law dev mem busy wel \<longleftrightarrow> (\<forall>c. let (rs, c') = transact dev [0x05, 0xFF] c in
     (rs ! 1 AND 1 \<noteq> 0 \<longleftrightarrow> busy c \<noteq> (0 :: nat)) \<and> (rs ! 1 AND 2 \<noteq> 0 \<longleftrightarrow> wel c)
     \<and> mem c' = (mem c :: nat \<Rightarrow> u8) \<and> wel c' = wel c \<and> busy c' = busy c - 1)"

definition enable_law where
  "enable_law dev mem busy wel \<longleftrightarrow> (\<forall>c. busy c = (0 :: nat) \<longrightarrow> (let c' = snd (transact dev [0x06] c) in
     mem c' = (mem c :: nat \<Rightarrow> u8) \<and> wel c' \<and> busy c' = 0))"

definition program_law where
  "program_law dev cap mem busy wel \<longleftrightarrow> (\<forall>c a ds. busy c = (0 :: nat) \<longrightarrow> wel c \<longrightarrow> unat a < cap \<longrightarrow>
     unat a mod 256 + length ds \<le> 256 \<longrightarrow> (let c' = snd (transact dev (0x02 # addr_bytes a @ ds) c) in
     mem c' = programmed (mem c) (unat a) ds \<and> \<not> wel c' \<and> busy c' \<le> 9000))"

definition erase_law where
  "erase_law dev cap mem busy wel \<longleftrightarrow> (\<forall>c a. busy c = (0 :: nat) \<longrightarrow> wel c \<longrightarrow> unat a < cap \<longrightarrow>
     (let c' = snd (transact dev (0x20 # addr_bytes a) c) in
     mem c' = erased (mem c) (unat a) \<and> \<not> wel c' \<and> busy c' \<le> 9000))"

definition read_law where
  "read_law dev cap mem busy wel \<longleftrightarrow> (\<forall>c a n. busy c = (0 :: nat) \<longrightarrow> unat a + n \<le> cap \<longrightarrow>
     (let (rs, c') = transact dev (0x0B # addr_bytes a @ 0 # replicate n 0) c in
     drop 5 rs = map (\<lambda>i. mem c (unat a + i)) [0..<n] \<and> mem c' = (mem c :: nat \<Rightarrow> u8) \<and> wel c' = (wel c :: bool) \<and> busy c' = 0))"

definition flash_chip :: "'c spi_dev \<Rightarrow> nat \<Rightarrow> ('c \<Rightarrow> nat \<Rightarrow> u8) \<Rightarrow> ('c \<Rightarrow> nat) \<Rightarrow> ('c \<Rightarrow> bool) \<Rightarrow> bool" where
  "flash_chip dev cap mem busy wel \<longleftrightarrow> cap \<le> 2 ^ 24 \<and> 4096 dvd cap \<and> status_law dev mem busy wel \<and> enable_law dev mem busy wel
     \<and> program_law dev cap mem busy wel \<and> erase_law dev cap mem busy wel \<and> read_law dev cap mem busy wel"

section \<open>Waiting\<close>

lemma status_steps:
  assumes "status_law dev mem busy wel"
  shows "fst (transact dev [0x05, 0xFF] c) ! 1 AND 1 \<noteq> 0 \<longleftrightarrow> busy c \<noteq> 0"
    "fst (transact dev [0x05, 0xFF] c) ! 1 AND 2 \<noteq> 0 \<longleftrightarrow> wel c"
    "mem (snd (transact dev [0x05, 0xFF] c)) = mem c" "wel (snd (transact dev [0x05, 0xFF] c)) = wel c"
    "busy (snd (transact dev [0x05, 0xFF] c)) = busy c - 1"
  using assms [unfolded status_law_def, rule_format, of c] by (auto split: prod.splits)

lemma and_3: "(i :: u8) AND 3 = 0 \<longleftrightarrow> i AND 1 = 0 \<and> i AND 2 = 0"
proof -
  have "list_all (\<lambda>n. (word_of_nat n :: u8) AND 3 = 0 \<longleftrightarrow> word_of_nat n AND 1 = (0 :: u8) \<and> word_of_nat n AND 2 = (0 :: u8)) [0..<256]"
    by code_simp
  then show ?thesis
    using all_u8 [of "\<lambda>i. i AND 3 = 0 \<longleftrightarrow> i AND 1 = 0 \<and> i AND 2 = 0" i] unfolding list_all_iff by (metis atLeastLessThan_iff set_upt zero_le)
qed

text \<open>A wait only polls: it leaves a chip with the same contents that is not busy.\<close>

definition rested where
  "rested mem busy wel c c' \<longleftrightarrow> mem c' = mem c \<and> wel c' = wel c \<and> busy c' = (0 :: nat)"

lemma wait_clear_rested:
  assumes "status_law dev mem busy wel"
  shows "busy (sst_chip s) < t \<Longrightarrow> bits = 1 \<or> bits = 3 \<and> \<not> wel (sst_chip s) \<Longrightarrow>
    \<exists>c. wait_clear dev bits t s = (t - Suc (busy (sst_chip s)), s\<lparr>sst_chip := c\<rparr>) \<and> rested mem busy wel (sst_chip s) c"
proof (induction t arbitrary: s)
  case (Suc t)
  let ?c = "snd (transact dev [0x05, 0xFF] (sst_chip s))"
  note st = status_steps [OF assms, of "sst_chip s"]
  show ?case
  proof (cases "busy (sst_chip s) = 0")
    case True
    with st Suc.prems(2) show ?thesis
      by (auto simp: SST25__Status_transact chip_do_def rested_def and_3 intro!: exI [of _ ?c])
  next
    case False
    then have "\<not> fst (transact dev [0x05, 0xFF] (sst_chip s)) ! 1 AND bits = 0"
      using st(1) Suc.prems(2) by (auto simp: and_3)
    moreover have "busy (sst_chip s) - 1 < t" using Suc.prems(1) False by simp
    then obtain c where "wait_clear dev bits t (chip_do dev [0x05, 0xFF] s) = (t - Suc (busy (sst_chip s) - 1), s\<lparr>sst_chip := c\<rparr>)"
      "rested mem busy wel (sst_chip s) c"
      using Suc.IH [of "chip_do dev [0x05, 0xFF] s"] Suc.prems False st by (auto simp: chip_do_def rested_def)
    ultimately show ?thesis using False Suc.prems(1) by (auto simp: SST25__Status_transact)
  qed
qed simp

lemma wait_ready_rested:
  assumes "status_law dev mem busy wel"
  shows "busy (sst_chip s) \<le> t \<Longrightarrow>
    \<exists>c. wait_ready dev t s = (t - busy (sst_chip s), s\<lparr>sst_chip := c\<rparr>) \<and> rested mem busy wel (sst_chip s) c"
proof (induction t arbitrary: s)
  case 0
  with status_steps [OF assms, of "sst_chip s"] show ?case
    by (auto simp: SST25__Status_transact chip_do_def rested_def)
next
  case (Suc t)
  let ?c = "snd (transact dev [0x05, 0xFF] (sst_chip s))"
  note st = status_steps [OF assms, of "sst_chip s"]
  show ?case
  proof (cases "busy (sst_chip s) = 0")
    case True
    with st show ?thesis
      by (auto simp: SST25__Status_transact chip_do_def rested_def intro!: exI [of _ ?c])
  next
    case False
    have "busy (sst_chip s) - 1 \<le> t" using Suc.prems by simp
    then obtain c where "wait_ready dev t (chip_do dev [0x05, 0xFF] s) = (t - (busy (sst_chip s) - 1), s\<lparr>sst_chip := c\<rparr>)"
      "rested mem busy wel (sst_chip s) c"
      using Suc.IH [of "chip_do dev [0x05, 0xFF] s"] Suc.prems False st by (auto simp: chip_do_def rested_def)
    then show ?thesis using False Suc.prems st(1) by (auto simp: SST25__Status_transact)
  qed
qed

text \<open>Conversely, when the timeout is not used up the chip is at rest, however long it was busy.\<close>

lemma wait_ready_ok:
  assumes "status_law dev mem busy wel"
  shows "wait_ready dev t s = (k, s') \<Longrightarrow> k \<noteq> 0 \<Longrightarrow> \<exists>c. s' = s\<lparr>sst_chip := c\<rparr> \<and> rested mem busy wel (sst_chip s) c"
proof (induction t arbitrary: s)
  case (Suc t)
  note st = status_steps [OF assms, of "sst_chip s"]
  show ?case
  proof (cases "busy (sst_chip s) = 0")
    case True
    with Suc.prems st show ?thesis
      by (auto simp: SST25__Status_transact chip_do_def rested_def)
  next
    case False
    then have "wait_ready dev t (chip_do dev [0x05, 0xFF] s) = (k, s')"
      using Suc.prems st(1) by (simp add: SST25__Status_transact)
    from Suc.IH [OF this Suc.prems(2)] st show ?thesis by (auto simp: chip_do_def rested_def)
  qed
qed simp

lemma SST25__WriteEnable_sets:
  assumes "flash_chip dev cap mem busy wel" "busy (sst_chip s) \<le> 9000"
  shows "\<exists>c. SST25__WriteEnable dev s = s\<lparr>sst_chip := c\<rparr> \<and> mem c = mem (sst_chip s) \<and> wel c \<and> busy c = 0"
proof -
  have law: "status_law dev mem busy wel" "enable_law dev mem busy wel" using assms(1) by (simp_all add: flash_chip_def)
  obtain c t where c: "wait_ready dev SST25_TIMEOUT s = (t, s\<lparr>sst_chip := c\<rparr>)" "rested mem busy wel (sst_chip s) c"
    using wait_ready_rested [OF law(1), of s SST25_TIMEOUT] assms(2) by (auto simp: SST25_TIMEOUT_def)
  let ?c = "snd (transact dev [0x06] c)"
  have e: "mem ?c = mem (sst_chip s)" "wel ?c" "busy ?c = 0"
    using law(2) [unfolded enable_law_def, rule_format, of c] c(2) by (simp_all add: rested_def Let_def)
  have "SST25__WriteEnable dev s = wait_enabled dev SST25_TIMEOUT (chip_do dev [0x06] (s\<lparr>sst_chip := c\<rparr>))"
    using send_transact [of dev "[0x06]" "s\<lparr>sst_chip := c\<rparr>"]
    by (simp add: SST25__WriteEnable_def c(1) CMD_WRITE_ENABLE_def SPI_send_def split: prod.split) (metis snd_conv)
  also have "chip_do dev [0x06] (s\<lparr>sst_chip := c\<rparr>) = s\<lparr>sst_chip := ?c\<rparr>" by (simp add: chip_do_def)
  also have "wait_enabled dev SST25_TIMEOUT (s\<lparr>sst_chip := ?c\<rparr>) = s\<lparr>sst_chip := snd (transact dev [0x05, 0xFF] ?c)\<rparr>"
    using status_steps [OF law(1), of ?c] e
    by (simp add: SST25_TIMEOUT_def wait_enabled.simps(2) [of _ 9999, simplified] SST25__Status_transact chip_do_def)
  finally show ?thesis using status_steps [OF law(1), of ?c] e by auto
qed

section \<open>Erasing, programming, reading\<close>

lemma wait_start:
  assumes "flash_chip dev cap mem busy wel" "busy (sst_chip s) \<le> 9000"
  shows "\<exists>c t. wait_clear dev 0x01 SST25_TIMEOUT s = (Suc t, s\<lparr>sst_chip := c\<rparr>) \<and> rested mem busy wel (sst_chip s) c"
proof -
  have law: "status_law dev mem busy wel" using assms(1) by (simp add: flash_chip_def)
  have "SST25_TIMEOUT - Suc (busy (sst_chip s)) = Suc (SST25_TIMEOUT - Suc (Suc (busy (sst_chip s))))"
    using assms(2) by (simp add: SST25_TIMEOUT_def)
  with wait_clear_rested [where wel = wel, OF law, of s SST25_TIMEOUT 1] assms(2) show ?thesis
    by (auto simp: SST25_TIMEOUT_def)
qed

lemma finish_ok:
  assumes "flash_chip dev cap mem busy wel" "busy (sst_chip s) \<le> 9000" "\<not> wel (sst_chip s)"
  shows "\<exists>c. sst_finish dev s = (SST25_OK, s\<lparr>sst_chip := c\<rparr>) \<and> rested mem busy wel (sst_chip s) c"
proof -
  have law: "status_law dev mem busy wel" using assms(1) by (simp add: flash_chip_def)
  with wait_clear_rested [where wel = wel, OF law, of s SST25_TIMEOUT 3] assms(2,3) show ?thesis
    by (auto simp: sst_finish_def SST25_TIMEOUT_def)
qed

lemma enabled_start:
  assumes "flash_chip dev cap mem busy wel" "busy (sst_chip s) \<le> 9000"
  shows "\<exists>c c' t. wait_clear dev 0x01 SST25_TIMEOUT s = (Suc t, s\<lparr>sst_chip := c'\<rparr>)
    \<and> SST25__WriteEnable dev (s\<lparr>sst_chip := c'\<rparr>) = s\<lparr>sst_chip := c\<rparr> \<and> mem c = mem (sst_chip s) \<and> wel c \<and> busy c = 0"
proof -
  obtain c' t where c': "wait_clear dev 0x01 SST25_TIMEOUT s = (Suc t, s\<lparr>sst_chip := c'\<rparr>)" "rested mem busy wel (sst_chip s) c'"
    using wait_start [OF assms] by blast
  with SST25__WriteEnable_sets [OF assms(1), of "s\<lparr>sst_chip := c'\<rparr>"] show ?thesis
    by (auto simp: rested_def)
qed

lemma SST25_Erase_erases:
  assumes "flash_chip dev cap mem busy wel" "busy (sst_chip s) \<le> 9000" "unat a < cap"
  shows "\<exists>c. SST25_Erase dev a block4k s = (SST25_OK, s\<lparr>sst_chip := c\<rparr>) \<and> mem c = erased (mem (sst_chip s)) (unat a) \<and> busy c = 0"
proof -
  obtain c c' t where c: "wait_clear dev 0x01 SST25_TIMEOUT s = (Suc t, s\<lparr>sst_chip := c'\<rparr>)"
    "SST25__WriteEnable dev (s\<lparr>sst_chip := c'\<rparr>) = s\<lparr>sst_chip := c\<rparr>" "mem c = mem (sst_chip s)" "wel c" "busy c = 0"
    using enabled_start [OF assms(1,2)] by blast
  let ?c = "snd (transact dev (0x20 # addr_bytes a) c)"
  have "erase_law dev cap mem busy wel" using assms(1) by (simp add: flash_chip_def)
  then have e: "mem ?c = erased (mem c) (unat a)" "\<not> wel ?c" "busy ?c \<le> 9000"
    using c(3-5) assms(3) by (auto simp: erase_law_def Let_def)
  have "SST25_Erase dev a block4k s = sst_finish dev (s\<lparr>sst_chip := ?c\<rparr>)"
    using send_transact [of dev "0x20 # addr_bytes a" "s\<lparr>sst_chip := c\<rparr>"]
    by (simp add: SST25_Erase_def c(1,2) erase_command_def CMD_ERASE_4K_def SPI_send_send chip_do_def)
  with finish_ok [OF assms(1), of "s\<lparr>sst_chip := ?c\<rparr>"] e c(3) show ?thesis by (auto simp: rested_def)
qed

lemma SST25_program_programs:
  assumes "flash_chip dev cap mem busy wel" "busy (sst_chip s) \<le> 9000" "unat a < cap"
    and "unat a mod 256 + n \<le> 256" "n \<le> length buf"
  shows "\<exists>c. SST25_program dev a buf n s = Some (SST25_OK, s\<lparr>sst_chip := c\<rparr>)
    \<and> mem c = programmed (mem (sst_chip s)) (unat a) (take n buf) \<and> busy c = 0"
proof -
  obtain c c' t where c: "wait_clear dev 0x01 SST25_TIMEOUT s = (Suc t, s\<lparr>sst_chip := c'\<rparr>)"
    "SST25__WriteEnable dev (s\<lparr>sst_chip := c'\<rparr>) = s\<lparr>sst_chip := c\<rparr>" "mem c = mem (sst_chip s)" "wel c" "busy c = 0"
    using enabled_start [OF assms(1,2)] by blast
  let ?c = "snd (transact dev (0x02 # addr_bytes a @ take n buf) c)"
  have "program_law dev cap mem busy wel" using assms(1) by (simp add: flash_chip_def)
  then have e: "mem ?c = programmed (mem c) (unat a) (take n buf)" "\<not> wel ?c" "busy ?c \<le> 9000"
    using c(3-5) assms(3-5) by (auto simp: program_law_def Let_def)
  have "SST25_program dev a buf n s = Some (sst_finish dev (s\<lparr>sst_chip := ?c\<rparr>))"
    using send_transact [of dev "0x02 # addr_bytes a @ take n buf" "s\<lparr>sst_chip := c\<rparr>"] assms(5)
    by (simp add: SST25_program_def c(1,2) CMD_WRITE_BYTE_def SPI_send_send chip_do_def)
  with finish_ok [OF assms(1), of "s\<lparr>sst_chip := ?c\<rparr>"] e c(3) show ?thesis by (auto simp: rested_def)
qed

lemma fetch_at_rest:
  assumes "read_law dev cap mem busy wel" "busy (sst_chip s) = 0" "unat a + n \<le> cap"
    "wait_ready dev SST25_TIMEOUT s0 = (t, s)"
  shows "\<exists>c. SST25_fetch dev a n s0 = (if t \<noteq> 0 then SST25_OK else SST25_FAIL,
      map (\<lambda>i. mem (sst_chip s) (unat a + i)) [0..<n], s\<lparr>sst_chip := c\<rparr>)
    \<and> mem c = mem (sst_chip s) \<and> busy c = 0"
proof -
  let ?cmd = "0x0B # addr_bytes a @ [0]" and ?c0 = "spi_select dev (sst_chip s)"
  obtain rs c1 where c1: "spi_session dev ?cmd ?c0 = (rs, c1)" by fastforce
  obtain bs c2 where c2: "spi_session dev (replicate n 0) c1 = (bs, c2)" by fastforce
  have all: "transact dev (0x0B # addr_bytes a @ 0 # replicate n 0) (sst_chip s) = (rs @ bs, spi_release dev c2)"
    using spi_session_append [of dev ?cmd "replicate n 0" ?c0] c1 c2 by (simp add: transact_def)
  have "length rs = 5" using spi_session_length [of dev ?cmd ?c0] c1 by (simp add: addr_bytes_def)
  then have law: "bs = map (\<lambda>i. mem (sst_chip s) (unat a + i)) [0..<n]" "mem (spi_release dev c2) = mem (sst_chip s)" "busy (spi_release dev c2) = 0"
    using assms(1) [unfolded read_law_def, rule_format, OF assms(2,3)] by (simp_all add: all)
  show ?thesis
    using law by (simp add: SST25_fetch_def assms(4) SST_CS_Assert_def SST_CS_DeAssert_def SPI_send_session SPI_receive_session CMD_READ80_def c1 c2
        del: spi_session.simps) blast
qed

lemma SST25_fetch_reads:
  assumes "flash_chip dev cap mem busy wel" "busy (sst_chip s) \<le> 9000" "unat a + n \<le> cap"
  shows "\<exists>c. SST25_fetch dev a n s = (SST25_OK, map (\<lambda>i. mem (sst_chip s) (unat a + i)) [0..<n], s\<lparr>sst_chip := c\<rparr>)
    \<and> mem c = mem (sst_chip s) \<and> busy c = 0"
proof -
  have law: "status_law dev mem busy wel" "read_law dev cap mem busy wel" using assms(1) by (simp_all add: flash_chip_def)
  obtain c where c: "wait_ready dev SST25_TIMEOUT s = (SST25_TIMEOUT - busy (sst_chip s), s\<lparr>sst_chip := c\<rparr>)"
    "rested mem busy wel (sst_chip s) c"
    using wait_ready_rested [OF law(1), of s SST25_TIMEOUT] assms(2) by (auto simp: SST25_TIMEOUT_def)
  have "SST25_TIMEOUT - busy (sst_chip s) \<noteq> 0" using assms(2) by (simp add: SST25_TIMEOUT_def)
  with fetch_at_rest [OF law(2) _ assms(3) c(1)] c(2) show ?thesis by (auto simp: rested_def)
qed

lemma SST25_fetch_ok:
  assumes "flash_chip dev cap mem busy wel" "SST25_fetch dev a n s = (SST25_OK, bs, s')" "unat a + n \<le> cap"
  shows "bs = map (\<lambda>i. mem (sst_chip s) (unat a + i)) [0..<n] \<and> mem (sst_chip s') = mem (sst_chip s)"
proof -
  have law: "status_law dev mem busy wel" "read_law dev cap mem busy wel" using assms(1) by (simp_all add: flash_chip_def)
  obtain t s0 where t: "wait_ready dev SST25_TIMEOUT s = (t, s0)" by fastforce
  have "t \<noteq> 0" using assms(2) t by (auto simp: SST25_fetch_def SST25_OK_def SST25_FAIL_def split: prod.splits if_splits)
  with wait_ready_ok [OF law(1) t] obtain c where c: "s0 = s\<lparr>sst_chip := c\<rparr>" "rested mem busy wel (sst_chip s) c" by blast
  with fetch_at_rest [OF law(2) _ assms(3) t] assms(2) show ?thesis by (auto simp: rested_def)
qed

section \<open>Writing\<close>

text \<open>The contents after a write to one page: a write that begins a sector erases it first.\<close>

definition after_write :: "(nat \<Rightarrow> u8) \<Rightarrow> nat \<Rightarrow> bytes \<Rightarrow> nat \<Rightarrow> u8" where
  "after_write m a ds = programmed (if a mod 4096 = 0 then erased m a else m) a ds"

lemma and_FFF: "unat (a AND 0xFFF :: u32) = unat a mod 4096"
proof -
  have "a AND 0xFFF = take_bit 12 a" by (simp add: take_bit_eq_mask mask_eq_exp_minus_1)
  then show ?thesis by (simp only: unsigned_take_bit_eq) (simp add: take_bit_eq_mod)
qed

lemma page_fits: "x < 256 * k \<Longrightarrow> x mod 256 + n \<le> 256 \<Longrightarrow> x + n \<le> 256 * (k :: nat)"
proof -
  assume x: "x < 256 * k" "x mod 256 + n \<le> 256"
  then have "Suc (x div 256) \<le> k" by (simp add: Suc_leI less_mult_imp_div_less mult.commute)
  then have "256 * Suc (x div 256) \<le> 256 * k" by (rule mult_le_mono2)
  moreover have "x + n = 256 * (x div 256) + (x mod 256 + n)" by (metis add.assoc mult_div_mod_eq)
  then have "x + n \<le> 256 * (x div 256) + 256" using x(2) by (metis add_left_mono)
  ultimately show ?thesis by (metis mult_Suc_right add.commute order_trans)
qed

lemma SST25_put_page:
  assumes "flash_chip dev cap mem busy wel" "busy (sst_chip s) \<le> 9000" "unat a < cap"
    and "unat a mod 256 + n \<le> 256" "n \<le> length buf"
  shows "\<exists>c. SST25_put dev a buf n s = Some (SST25_OK, s\<lparr>sst_chip := c\<rparr>)
    \<and> mem c = after_write (mem (sst_chip s)) (unat a) (take n buf) \<and> busy c = 0"
proof -
  have al: "a AND 0xFFF = 0 \<longleftrightarrow> unat a mod 4096 = 0" using and_FFF [of a] by (metis unat_0 unat_eq_zero)
  have "unat a mod 4096 + n \<le> 4096"
    using page_fits [of "unat a mod 4096" 16 n] assms(4) by (simp add: mod_mod_cancel)
  then have one: "\<not> unat (a AND 0xFFF) + n > 4096" by (simp add: and_FFF)
  let ?s = "if a AND 0xFFF = 0 then snd (SST25_Erase dev a block4k s) else s"
  obtain c where c: "?s = s\<lparr>sst_chip := c\<rparr>" "mem c = (if unat a mod 4096 = 0 then erased (mem (sst_chip s)) (unat a) else mem (sst_chip s))"
    "busy c \<le> 9000"
    using SST25_Erase_erases [OF assms(1-3)] assms(2) al by (cases "a AND 0xFFF = 0") (auto intro: that [of "sst_chip s"])
  from SST25_program_programs [OF assms(1) _ assms(3-5), of "s\<lparr>sst_chip := c\<rparr>"] c(2,3) obtain c' where
    "SST25_program dev a buf n (s\<lparr>sst_chip := c\<rparr>) = Some (SST25_OK, s\<lparr>sst_chip := c'\<rparr>)"
    "mem c' = after_write (mem (sst_chip s)) (unat a) (take n buf)" "busy c' = 0"
    by (auto simp: after_write_def)
  then show ?thesis using one unfolding SST25_put_def c(1) Let_def by (intro exI [of _ c']) simp
qed

lemma small_count: "unat (count :: u32) < 65536 \<Longrightarrow> unat (ucast count :: u16) = unat count"
  by (simp add: unsigned_ucast_eq take_bit_eq_mod)

lemma SST25_Write_one_page:
  assumes "flash_chip dev cap mem busy wel" "busy (sst_chip s) \<le> 9000" "length (sst25buf s) = 256"
    and "unat a < cap" "unat a mod 256 + n \<le> 256" "n = length ds" "unat count = n"
  shows "\<exists>c b e. SST25_Write dev a ds count s =
      Some (if map (after_write (mem (sst_chip s)) (unat a) ds) [unat a..<unat a + n] = ds then SST25_OK else SST25_FAIL,
        s\<lparr>sst_chip := c, sst25buf := b, writeErrCnt := e\<rparr>)
    \<and> mem c = after_write (mem (sst_chip s)) (unat a) ds \<and> busy c = 0 \<and> length b = 256"
proof -
  have n: "n \<le> 256" "unat (ucast count :: u16) = n" using assms(5,7) by (simp_all add: small_count)
  obtain c where c: "SST25_put dev a ds n s = Some (SST25_OK, s\<lparr>sst_chip := c\<rparr>)"
    "mem c = after_write (mem (sst_chip s)) (unat a) ds" "busy c = 0"
    using SST25_put_page [OF assms(1,2,4,5), of ds] assms(6) by auto
  obtain k where "cap = 256 * k" using assms(1) by (auto simp: flash_chip_def dvd_def intro: that [of "16 * k" for k])
  then have "unat a + n \<le> cap" using page_fits [of "unat a" k n] assms(4,5) by simp
  with SST25_fetch_reads [OF assms(1), of "s\<lparr>sst_chip := c\<rparr>" a n] c(3) obtain c' where c':
    "SST25_fetch dev a n (s\<lparr>sst_chip := c\<rparr>) = (SST25_OK, map (\<lambda>i. mem c (unat a + i)) [0..<n], s\<lparr>sst_chip := c'\<rparr>)"
    "mem c' = mem c" "busy c' = 0" by auto
  have "map (\<lambda>i. mem c (unat a + i)) [0..<n] = map (after_write (mem (sst_chip s)) (unat a) ds) [unat a..<unat a + n]"
    by (simp add: c(2) map_add_upt [symmetric] comp_def add.commute)
  moreover define bs where "bs = map (after_write (mem (sst_chip s)) (unat a) ds) [unat a..<unat a + n]"
  ultimately have "SST25_Write dev a ds count s = Some (if bs = ds then SST25_OK else SST25_FAIL,
      s\<lparr>sst_chip := c', sst25buf := bs @ drop n (sst25buf s), writeErrCnt := if bs = ds then writeErrCnt s else writeErrCnt s + 1\<rparr>)"
    using n c c' assms(3,6) by (simp add: SST25_Write_def write_chunk_def Let_def)
  moreover have "length (bs @ drop n (sst25buf s)) = 256" using n assms(3) by (simp add: bs_def)
  ultimately show ?thesis using c(2) c'(2,3) unfolding bs_def [symmetric]
    by (intro exI conjI) (assumption | simp)+
qed

text \<open>Property C26. Writing up to 256 bytes within one page of a working chip leaves exactly the written bytes
  combined with what was there, on top of a freshly erased sector when the write begins one, and
  reports success exactly when the memory then reads back as the data.\<close>

theorem SST25_Write_page:
  assumes "flash_chip dev cap mem busy wel" "busy (sst_chip s) \<le> 9000" "length (sst25buf s) = 256"
    and "unat a < cap" "unat a mod 256 + n \<le> 256" "n = length ds" "unat count = n"
  shows "\<exists>c b e. SST25_Write dev a ds count s =
      Some (if map (after_write (mem (sst_chip s)) (unat a) ds) [unat a..<unat a + n] = ds then SST25_OK else SST25_FAIL,
        s\<lparr>sst_chip := c, sst25buf := b, writeErrCnt := e\<rparr>)
    \<and> mem c = after_write (mem (sst_chip s)) (unat a) ds \<and> busy c = 0 \<and> length b = 256"
  using assms by (rule SST25_Write_one_page)

text \<open>Property C27. Whatever the address, up to 256 bytes reported as written are in the memory.\<close>

theorem SST25_Write_verified:
  assumes "flash_chip dev cap mem busy wel" "SST25_Write dev a buf count s = Some (SST25_OK, s')"
    and "unat count = n" "n \<le> 256" "unat a + n \<le> cap"
  shows "map (mem (sst_chip s')) [unat a..<unat a + n] = take n buf"
proof -
  have "unat (ucast count :: u16) = n" using assms(3,4) by (simp add: small_count)
  moreover have "r = Chunk_ok" if "(case r of Chunk_ok \<Rightarrow> (SST25_OK, t) | Chunk_failed \<Rightarrow> (SST25_FAIL, t)
      | Chunk_differs \<Rightarrow> (SST25_FAIL, t\<lparr>writeErrCnt := writeErrCnt t + 1\<rparr>)) = (SST25_OK, s')" for r t
    using that by (cases r) (auto simp: SST25_OK_def SST25_FAIL_def)
  ultimately have s1: "write_chunk dev a buf n s = Some (Chunk_ok, s')"
    using assms(2,4) by (fastforce simp: SST25_Write_def Option.bind_eq_Some_conv)
  then obtain s2 where put: "SST25_put dev a buf n s = Some (SST25_OK, s2)"
    by (auto simp: write_chunk_def Let_def Option.bind_eq_Some_conv split: prod.splits if_splits)
  obtain r bs s3 where f: "SST25_fetch dev a n s2 = (r, bs, s3)" by (metis prod_cases3)
  with s1 put have s2: "SST25_fetch dev a n s2 = (SST25_OK, bs, s3)" "take n (bs @ drop n (sst25buf s3)) = take n buf"
    "sst_chip s' = sst_chip s3"
    by (auto simp: write_chunk_def Let_def split: if_splits)
  with SST25_fetch_ok [OF assms(1) s2(1) assms(5)] show ?thesis
    by (simp add: map_add_upt [symmetric] comp_def add.commute)
qed

end
