(* ===== verification/AmpmFfDisk.thy ===== *)
theory AmpmFfDisk
  imports AmpmFf Sst25Proofs
begin

text \<open>
  The file store seen as functions of the contents of the memory.  On a chip that obeys its laws,
  every operation that only looks at the disk is a function of the contents, and a write to blank
  memory changes exactly the bytes written.
\<close>

section \<open>Driver states\<close>

text \<open>The memory holds \<open>m\<close>, the chip is at rest soon, and the file store's own state is \<open>e\<close>.\<close>

definition flash_at where
  "flash_at mem busy m e s \<longleftrightarrow>
     mem (sst_chip s) = m \<and> busy (sst_chip s) \<le> (9000 :: nat) \<and> length (sst25buf s) = 256 \<and> sst25.more s = e"

lemma more_fields:
  assumes "sst25.more s' = sst25.more s"
  shows "ampm_file_buf s' = ampm_file_buf s" and "rand_sec s' = rand_sec s" and "rands s' = rands s"
  using assms by (cases s; cases s'; simp)+

lemma flash_at_fields:
  assumes "flash_at mem busy m (sst25.more s) s'"
  shows "ampm_file_buf s' = ampm_file_buf s" and "rand_sec s' = rand_sec s" and "rands s' = rands s"
  using more_fields [of s' s] assms unfolding flash_at_def by blast+

definition bytes_at :: "(nat \<Rightarrow> u8) \<Rightarrow> nat \<Rightarrow> nat \<Rightarrow> bytes" where
  "bytes_at m a n = map m [a..<a + n]"

definition fil_at :: "(nat \<Rightarrow> u8) \<Rightarrow> nat \<Rightarrow> AMPM_FIL" where
  "fil_at m a = fil_of (bytes_at m a 68)"

lemma length_bytes_at [simp]: "length (bytes_at m a n) = n"
  by (simp add: bytes_at_def)

lemma map_from: "map (\<lambda>i. f (a + i)) [0..<n] = map f [a..<a + n]"
  by (induction n) simp_all

lemma fetch_at:
  assumes "flash_chip dev cap mem busy wel" "flash_at mem busy m e s" "unat a + n \<le> cap"
  shows "\<exists>s'. SST25_fetch dev a n s = (SST25_OK, bytes_at m (unat a) n, s') \<and> flash_at mem busy m e s'"
proof -
  obtain c where "SST25_fetch dev a n s = (SST25_OK, map (\<lambda>i. m (unat a + i)) [0..<n], s\<lparr>sst_chip := c\<rparr>)" "mem c = m" "busy c = 0"
    using SST25_fetch_reads [OF assms(1) _ assms(3)] assms(2) by (auto simp: flash_at_def)
  then show ?thesis using assms(2) by (auto simp: map_from bytes_at_def flash_at_def)
qed

lemma bytes_at_append: "bytes_at m a (k + n) = bytes_at m a k @ bytes_at m (a + k) n"
  unfolding bytes_at_def add.assoc [symmetric] map_append [symmetric] by (subst upt_add_eq_append) simp_all

lemma offset_step:
  assumes "unat (a + o1 :: u32) = unat a + k" "unat a + k + 512 < 2 ^ 32"
  shows "unat (a + (o1 + 512)) = unat a + (k + 512)"
proof -
  have "unat (a + o1 + 512) = (unat (a + o1) + 512) mod 2 ^ 32"
    using unat_word_ariths(1) [of "a + o1" 512] by simp
  also have "\<dots> = unat a + (k + 512)" using assms by simp
  finally show ?thesis by (simp only: add.assoc)
qed

lemma read_chunks_at:
  assumes "flash_chip dev cap mem busy wel"
  shows "flash_at mem busy m e s \<Longrightarrow> unat (a + offset) = unat a + k \<Longrightarrow> unat a + k + n \<le> cap \<Longrightarrow>
    \<exists>s'. read_chunks dev a offset n s = (SST25_OK, bytes_at m (unat a + k) n, s') \<and> flash_at mem busy m e s'"
proof (induction n arbitrary: offset k s rule: less_induct)
  case (less n)
  consider "n = 0" | "0 < n" "n < 512" | "512 \<le> n" by linarith
  then show ?case
  proof cases
    case 1
    with less.prems show ?thesis by (subst read_chunks.simps) (simp add: bytes_at_def)
  next
    case 2
    from fetch_at [OF assms less.prems(1), of "a + offset" n] less.prems(2,3) 2 show ?thesis
      by (subst read_chunks.simps) auto
  next
    case 3
    from fetch_at [OF assms less.prems(1), of "a + offset" 512] less.prems(2,3) 3 obtain s1 where
      s1: "SST25_fetch dev (a + offset) 512 s = (SST25_OK, bytes_at m (unat a + k) 512, s1)" "flash_at mem busy m e s1" by auto
    have "cap \<le> 2 ^ 24" using assms by (simp add: flash_chip_def)
    with less.prems(2,3) 3 have "unat (a + (offset + 512)) = unat a + (k + 512)" by (intro offset_step) simp_all
    from less.IH [OF _ s1(2) this, of "n - 512"] less.prems(3) 3 obtain s2 where
      "read_chunks dev a (offset + 512) (n - 512) s1 = (SST25_OK, bytes_at m (unat a + (k + 512)) (n - 512), s2)" "flash_at mem busy m e s2"
      by auto
    with s1(1) 3 show ?thesis
      using bytes_at_append [of m "unat a + k" 512 "n - 512"] by (subst read_chunks.simps) (simp add: add.assoc)
  qed
qed

lemma flash_read_at:
  assumes "flash_chip dev cap mem busy wel" "flash_at mem busy m e s" "unat a + n \<le> cap" "unat count = n" "n < 65536"
  shows "\<exists>s'. ampm_flash_read dev a count s = (FR_OK, bytes_at m (unat a) n, s') \<and> flash_at mem busy m e s'"
proof (cases "n \<le> 512")
  case True
  with fetch_at [OF assms(1-3)] assms(4,5) show ?thesis
    by (auto simp: ampm_flash_read_def SST25_Read_def small_count)
next
  case False
  with read_chunks_at [OF assms(1,2), of a 0 0 n] assms(3-5) show ?thesis
    by (auto simp: ampm_flash_read_def SST25_Read_def small_count)
qed

lemma read_fil_at:
  assumes "flash_chip dev cap mem busy wel" "flash_at mem busy m e s" "unat a + 68 \<le> cap"
  shows "\<exists>s'. read_fil dev a s = (fil_at m (unat a), s') \<and> flash_at mem busy m e s'"
  using flash_read_at [OF assms(1,2,3), of FIL_SIZE] by (auto simp: read_fil_def fil_at_def FIL_SIZE_def)

section \<open>Where the sectors are\<close>

definition sector_pos :: "nat \<Rightarrow> nat" where
  "sector_pos i = 0x92000 + i * 4096"

lemma sector_addr_pos: "unat i \<le> 110 \<Longrightarrow> unat (sector_addr i) = sector_pos (unat i)"
  by (simp add: sector_addr_def sector_pos_def AMPM_FLASH_START_ADDR_def AMPM_FLASH_SECTOR_SIZE_def unat_word_ariths)

lemma sector_plus: "unat i \<le> 110 \<Longrightarrow> unat k < 4096 \<Longrightarrow> unat (sector_addr i + k) = sector_pos (unat i) + unat k"
  by (simp add: unat_word_ariths(1) sector_addr_pos) (simp add: sector_pos_def)

text \<open>The memory up to the end of the disk is 1 MB: the 110 sectors fit, sector 110 is just outside.\<close>

lemma sector_pos_bound: "sector_pos 110 \<le> cap \<Longrightarrow> i < 110 \<Longrightarrow> k \<le> 4096 \<Longrightarrow> sector_pos i + k \<le> cap"
  by (simp add: sector_pos_def)

lemma sector_max: "i < DISK_SECTOR_MAX \<longleftrightarrow> unat i < 110"
  by (simp add: DISK_SECTOR_MAX_def word_less_nat_alt)

lemma fil_valid_sector: "fil_valid f \<Longrightarrow> unat (start_sector f) < 110"
  by (simp add: fil_valid_def sector_max)

section \<open>Files on the disk\<close>

text \<open>A sector is taken when its header is valid and so is the header of the file it names.\<close>

definition header_at :: "(nat \<Rightarrow> u8) \<Rightarrow> nat \<Rightarrow> AMPM_FIL" where
  "header_at m i = fil_at m (sector_pos i)"

definition start_header :: "(nat \<Rightarrow> u8) \<Rightarrow> nat \<Rightarrow> AMPM_FIL" where
  "start_header m i = header_at m (unat (start_sector (header_at m i)))"

definition taken :: "(nat \<Rightarrow> u8) \<Rightarrow> nat \<Rightarrow> bool" where
  "taken m i \<longleftrightarrow> fil_valid (header_at m i) \<and> fil_valid (start_header m i)"

lemma format_check_at:
  assumes "flash_chip dev cap mem busy wel" "flash_at mem busy m e s" "unat i \<le> 110"
    and "sector_pos 110 \<le> cap" "sector_pos (unat i) + 4096 \<le> cap"
  obtains h s1 f s2 where "read_fil dev (sector_addr i) s = (h, s1)"
    and "ampm_f_file_format_check dev h s1 = (if taken m (unat i) then FR_OK else FR_ERR, f, s2)"
    and "flash_at mem busy m e s2"
    and "f = (if fil_valid (header_at m (unat i)) then start_header m (unat i) else header_at m (unat i))"
proof -
  have "unat (sector_addr i) + 68 \<le> cap" using assms(3,5) by (simp add: sector_addr_pos)
  from read_fil_at [OF assms(1,2) this] obtain s1 where s1:
    "read_fil dev (sector_addr i) s = (header_at m (unat i), s1)" "flash_at mem busy m e s1"
    using assms(3) by (auto simp: header_at_def sector_addr_pos)
  show thesis
  proof (cases "fil_valid (header_at m (unat i))")
    case True
    let ?k = "start_sector (header_at m (unat i))"
    from True have k: "unat ?k < 110" by (rule fil_valid_sector)
    with sector_pos_bound [OF assms(4) k, of 68] have "unat (sector_addr ?k) + 68 \<le> cap" by (simp add: sector_addr_pos)
    from read_fil_at [OF assms(1) s1(2) this] k obtain s2 where
      "read_fil dev (sector_addr ?k) s1 = (start_header m (unat i), s2)" "flash_at mem busy m e s2"
      by (auto simp: start_header_def sector_addr_pos header_at_def)
    with True that [OF s1(1), of "start_header m (unat i)" s2] show ?thesis
      by (simp add: ampm_f_file_format_check_def taken_def)
  next
    case False
    with s1 that [OF s1(1), of "header_at m (unat i)" s1] show ?thesis
      by (simp add: ampm_f_file_format_check_def taken_def)
  qed
qed

section \<open>Counting the free sectors\<close>

lemma count_free_at:
  assumes "flash_chip dev cap mem busy wel" "sector_pos 110 \<le> cap"
  shows "flash_at mem busy m e s \<Longrightarrow> \<forall>i\<in>set is. unat i < 110 \<Longrightarrow>
    \<exists>s'. count_free dev is n s = (n + of_nat (length (filter (\<lambda>i. \<not> taken m (unat i)) is)), s') \<and> flash_at mem busy m e s'"
proof (induction "is" arbitrary: n s)
  case (Cons i "is")
  from Cons.prems have i: "unat i < 110" by simp
  from format_check_at [OF assms(1) Cons.prems(1) less_imp_le [OF i] assms(2) sector_pos_bound [OF assms(2) i order_refl]] obtain h s1 f s2 where c: "read_fil dev (sector_addr i) s = (h, s1)"
    "ampm_f_file_format_check dev h s1 = (if taken m (unat i) then FR_OK else FR_ERR, f, s2)" "flash_at mem busy m e s2"
    by metis
  then show ?case using Cons.IH [OF c(3), of "if taken m (unat i) then n else n + 1"] Cons.prems(2) by (auto simp: add.assoc)
qed simp

section \<open>The search that starts at a random sector\<close>

definition scan_order :: "nat \<Rightarrow> nat list" where
  "scan_order r = rev [0..<r] @ [Suc r..<111]"

text \<open>What a search answers over a list of sectors, when its body answers \<open>g i\<close> at sector \<open>i\<close>.\<close>

definition scanned where
  "scanned g P Q ns res fil s \<longleftrightarrow>
     (case find (\<lambda>i. g i \<noteq> None) ns of None \<Rightarrow> res = None \<and> P s | Some i \<Rightarrow> res = g i \<and> Q i fil s)"

lemma scanned_here: "g n = Some x \<Longrightarrow> Q n fil s \<Longrightarrow> scanned g P Q (n # ns) (Some x) fil s"
  by (simp add: scanned_def)

lemma scanned_next: "g n = None \<Longrightarrow> scanned g P Q (n # ns) = scanned g P Q ns"
  by (simp add: scanned_def fun_eq_iff)

text \<open>The body answers \<open>g\<close>, keeping \<open>P\<close> while the search goes on and with \<open>Q\<close> at its end.\<close>

definition serves where
  "serves body g P Q \<longleftrightarrow> (\<forall>i fil s. unat i \<le> 110 \<longrightarrow> P s \<longrightarrow>
     (\<exists>fil' s'. body i fil s = Some (g (unat i), fil', s') \<and> (if g (unat i) = None then P s' else Q (unat i) fil' s')))"

definition rand_free where
  "rand_free P \<longleftrightarrow> (\<forall>s r. P s \<longrightarrow> P (s\<lparr>rand_sec := r\<rparr>))"

lemma scan_sectors_step:
  assumes body: "serves body g P Q" and set: "rand_free P"
    and i: "i < DISK_SECTOR_MAX" "scan_step i temp r = (i', temp', r')" "unat i' \<le> 110"
    and rest: "\<And>fil s. P s \<Longrightarrow> \<exists>res fil' s'. scan_sectors body i' temp' r' fil s = Some (res, fil', s') \<and> scanned g P Q ns res fil' s'"
    and P: "P s"
  shows "\<exists>res fil' s'. scan_sectors body i temp r fil s = Some (res, fil', s') \<and> scanned g P Q (unat i' # ns) res fil' s'"
proof -
  obtain fil1 s1 where b: "body i' fil (s\<lparr>rand_sec := r'\<rparr>) = Some (g (unat i'), fil1, s1)"
    "if g (unat i') = None then P s1 else Q (unat i') fil1 s1"
    using body [unfolded serves_def] set [unfolded rand_free_def] i(3) P by blast
  show ?thesis
  proof (cases "g (unat i')")
    case None
    with b have "P s1" by simp
    from rest [OF this, of fil1] None show ?thesis
      by (subst scan_sectors.simps) (simp add: i(1,2) b(1) scanned_next)
  next
    case (Some x)
    with b show ?thesis by (subst scan_sectors.simps) (auto simp: i(1,2) intro!: scanned_here)
  qed
qed

lemma scan_sectors_up:
  assumes body: "serves body g P Q" and set: "rand_free P"
  shows "unat i \<le> 110 \<Longrightarrow> P s \<Longrightarrow>
    \<exists>res fil' s'. scan_sectors body i 0 0 fil s = Some (res, fil', s') \<and> scanned g P Q [Suc (unat i)..<111] res fil' s'"
proof (induction "110 - unat i" arbitrary: i s fil)
  case 0
  then show ?case by (subst scan_sectors.simps) (simp add: sector_max scanned_def)
next
  case (Suc k)
  then have i: "unat i < 110" "unat (i + 1) = Suc (unat i)" by (simp_all add: unat_word_ariths)
  have rest: "\<exists>res fil' s'. scan_sectors body (i + 1) 0 0 fil s = Some (res, fil', s') \<and> scanned g P Q [Suc (unat (i + 1))..<111] res fil' s'"
    if "P s" for s fil using Suc.hyps(1) [of "i + 1" s fil] Suc.hyps(2) i that by simp
  have "i < DISK_SECTOR_MAX" "scan_step i 0 0 = (i + 1, 0, 0)" "unat (i + 1) \<le> 110"
    using i by (simp_all add: sector_max scan_step_def)
  from scan_sectors_step [OF body set this rest Suc.prems(2)] i show ?case
    by (simp add: upt_conv_Cons)
qed

lemma scan_sectors_down:
  assumes body: "serves body g P Q" and set: "rand_free P"
    and t: "unat t < 110" "t \<noteq> 0"
  shows "unat k \<le> unat t \<Longrightarrow> P s \<Longrightarrow> \<exists>res fil' s'. scan_sectors body k t k fil s = Some (res, fil', s')
    \<and> scanned g P Q (rev [0..<unat k] @ [Suc (unat t)..<111]) res fil' s'"
proof (induction "unat k" arbitrary: k s fil)
  case 0
  then have k: "k = 0" by (simp add: unat_eq_zero)
  have t': "unat (t + 1) = Suc (unat t)" using t by (simp add: unat_word_ariths)
  have "0 < DISK_SECTOR_MAX" "scan_step 0 t 0 = (t + 1, 0, 0)" "unat (t + 1) \<le> 110"
    using t t' by (simp_all add: sector_max scan_step_def)
  from scan_sectors_step [OF body set this
      scan_sectors_up [OF body set this(3)] 0(3)] t show ?case
    by (simp add: k t' upt_conv_Cons)
next
  case (Suc n)
  from Suc.hyps(2) have k: "k \<noteq> 0" by auto
  then have "unat (k - 1) = unat k - 1" by (rule unat_minus_one)
  with Suc.hyps(2) have n: "unat (k - 1) = n" by simp
  have rest: "\<exists>res fil' s'. scan_sectors body (k - 1) t (k - 1) fil s = Some (res, fil', s')
      \<and> scanned g P Q (rev [0..<n] @ [Suc (unat t)..<111]) res fil' s'" if "P s" for s fil
    using Suc.hyps(1) [of "k - 1" s fil] Suc.hyps(2) Suc.prems(1) n that by simp
  have "k < DISK_SECTOR_MAX" "scan_step k t k = (k - 1, t, k - 1)" "unat (k - 1) \<le> 110"
    using k n t Suc.prems(1) Suc.hyps(2) by (simp_all add: sector_max scan_step_def)
  from scan_sectors_step [OF body set this rest Suc.prems(2)] n show ?case
    by (simp add: Suc.hyps(2) [symmetric])
qed

lemma scan_sectors_scans:
  assumes body: "serves body g P Q" and set: "rand_free P" and r: "unat r < 110" and P: "P s"
  shows "\<exists>res fil' s'. scan_sectors body r r r fil s = Some (res, fil', s') \<and> scanned g P Q (scan_order (unat r)) res fil' s'"
proof (cases "r = 0")
  case True
  have "\<exists>res fil' s'. scan_sectors body 0 0 0 fil s = Some (res, fil', s') \<and> scanned g P Q [Suc (unat (0 :: u32))..<111] res fil' s'"
    by (rule scan_sectors_up [OF body set _ P]) simp
  with True show ?thesis by (simp add: scan_order_def)
next
  case False
  from scan_sectors_down [OF body set r False order_refl P] show ?thesis
    by (simp add: scan_order_def)
qed

end
