(* ===== verification/AmpmFfFiles.thy ===== *)
theory AmpmFfFiles
  imports AmpmFfDisk
begin

text \<open>
  Opening files: which sector a search ends in, what it finds there, what a new file puts there.
\<close>

section \<open>Counting\<close>

lemma all_sectors_bound: "\<forall>i\<in>set all_sectors. unat i < 110"
  by (auto simp: all_sectors_def DISK_SECTOR_MAX_def unat_of_nat)

lemma filter_map_card: "length (filter P (map f [0..<n])) = card {i. i < n \<and> P (f i)}"
  by (simp add: length_filter_conv_card cong: conj_cong)

text \<open>On a working chip of at least 1 MB, the free sectors counted are the sectors of the disk
  whose own header or whose file's header is not valid; the memory is unchanged.\<close>

theorem ampm_f_getfree_counts:
  assumes "flash_chip dev cap mem busy wel" "sector_pos 110 \<le> cap" "flash_at mem busy m e s"
  shows "\<exists>s'. ampm_f_getfree dev s = (of_nat (card {i. i < 110 \<and> \<not> taken m i}), s') \<and> flash_at mem busy m e s'"
proof -
  have "length (filter (\<lambda>i. \<not> taken m (unat i)) all_sectors) = card {i. i < 110 \<and> \<not> taken m (unat (of_nat i :: u32))}"
    unfolding all_sectors_def filter_map_card by (simp add: DISK_SECTOR_MAX_def)
  also have "\<dots> = card {i. i < 110 \<and> \<not> taken m i}"
    by (rule arg_cong [of _ _ card]) (auto simp: unat_of_nat)
  finally show ?thesis
    using count_free_at [OF assms(1,2,3) all_sectors_bound, of 0] by (simp add: ampm_f_getfree_def)
qed

section \<open>Opening an existing file\<close>

lemma cstr_terminated:
  assumes "length xs = 32" "length (cstr (xs[31 := 0])) < 31"
  shows "0 \<in> set xs"
proof -
  define k where "k = length (takeWhile (\<lambda>c. c \<noteq> 0) (xs[31 := 0]))"
  have k: "k < 31" using assms(2) by (simp add: k_def cstr_def)
  then have "k < length (xs[31 := 0])" using assms(1) by simp
  then have "xs[31 := 0] ! k = 0" using nth_length_takeWhile [of "\<lambda>c. c \<noteq> 0" "xs[31 := 0]"] unfolding k_def by simp
  with k have "xs ! k = 0" by simp
  with k assms(1) show ?thesis using nth_mem [of k xs] by simp
qed

lemma length_fil_name [simp]: "length (file_name (fil_at m a)) = 32"
  by (simp add: fil_at_def fil_of_def Let_def)

lemma header_name [simp]: "length (file_name (header_at m i)) = 32" "length (file_name (start_header m i)) = 32"
  by (simp_all add: header_at_def start_header_def)

lemma same_name_taken:
  "taken m i \<Longrightarrow> 0 \<in> set name \<Longrightarrow> same_name name (file_name (start_header m i)) = Some (cstr name = cstr (file_name (start_header m i)))"
  using cstr_terminated [of "file_name (start_header m i)"] by (simp add: same_name_def taken_def fil_valid_def)

text \<open>The header written when a file is closed, and whether opening \<open>name\<close> succeeds at sector \<open>i\<close>.\<close>

definition closing_header :: "(nat \<Rightarrow> u8) \<Rightarrow> nat \<Rightarrow> AMPM_FIL" where
  "closing_header m i = fil_at m (sector_pos (unat (start_sector (start_header m i))) + 136)"

definition holds_file :: "(nat \<Rightarrow> u8) \<Rightarrow> bytes \<Rightarrow> nat \<Rightarrow> bool" where
  "holds_file m name i \<longleftrightarrow> taken m i \<and> cstr name = cstr (file_name (start_header m i)) \<and> fil_valid (closing_header m i)"

definition opened :: "u8 \<Rightarrow> AMPM_FIL \<Rightarrow> AMPM_FIL" where
  "opened mode f = f\<lparr>permission := if mode AND AMPM_FA_WRITE \<noteq> 0 then ucast AMPM_FA_WRITE else ucast AMPM_FA_READ, file_offset := 0\<rparr>"

definition may_open :: "u8 \<Rightarrow> bool" where
  "may_open mode \<longleftrightarrow> mode AND (AMPM_FA_READ OR AMPM_FA_OPEN_ALWAYS OR AMPM_FA_OPEN_EXISTING) \<noteq> 0"

definition may_create :: "u8 \<Rightarrow> bool" where
  "may_create mode \<longleftrightarrow> mode AND (AMPM_FA_CREATE_ALWAYS OR AMPM_FA_CREATE_NEW) \<noteq> 0"

lemma open_sector_opens:
  assumes "flash_chip dev cap mem busy wel" "sector_pos 111 \<le> cap" "flash_at mem busy m e s"
    and "unat i \<le> 110" "0 \<in> set name" "may_open mode" "\<not> may_create mode"
  shows "\<exists>f s'. open_sector dev name mode i fil s = Some (if holds_file m name (unat i) then Some FR_OK else None, f, s')
    \<and> flash_at mem busy m e s' \<and> (holds_file m name (unat i) \<longrightarrow> f = opened mode (closing_header m (unat i)))"
proof -
  have cap: "sector_pos 110 \<le> cap" "sector_pos (unat i) + 4096 \<le> cap" using assms(2,4) by (simp_all add: sector_pos_def)
  from format_check_at [OF assms(1,3,4) cap] obtain h s1 f s2 where c: "read_fil dev (sector_addr i) s = (h, s1)"
    "ampm_f_file_format_check dev h s1 = (if taken m (unat i) then FR_OK else FR_ERR, f, s2)" "flash_at mem busy m e s2"
    "f = (if fil_valid (header_at m (unat i)) then start_header m (unat i) else header_at m (unat i))" by metis
  show ?thesis
  proof (cases "taken m (unat i) \<and> cstr name = cstr (file_name (start_header m (unat i)))")
    case True
    then have f: "f = start_header m (unat i)" "fil_valid f" using c(4) by (simp_all add: taken_def)
    then have k: "unat (start_sector f) < 110" by (simp add: fil_valid_sector)
    have a: "unat (sector_addr (start_sector f) + 2 * FIL_SIZE) = sector_pos (unat (start_sector f)) + 136"
      using sector_plus [of "start_sector f" 136] k by (simp add: FIL_SIZE_def)
    have "unat (sector_addr (start_sector f) + 2 * FIL_SIZE) + 68 \<le> cap"
      using sector_pos_bound [OF cap(1) k, of 204] by (simp add: a)
    from read_fil_at [OF assms(1) c(3) this] obtain s3 where
      "read_fil dev (sector_addr (start_sector f) + 2 * FIL_SIZE) s2 = (closing_header m (unat i), s3)" "flash_at mem busy m e s3"
      unfolding a closing_header_def f(1) [symmetric] by blast
    with True f assms(5,6) c(1,2) same_name_taken [of m "unat i" name] show ?thesis
      by (auto simp: open_sector_def holds_file_def may_open_def opened_def)
  next
    case False
    then show ?thesis
      using assms(5-7) c same_name_taken [of m "unat i" name]
      by (cases "taken m (unat i)") (auto simp: open_sector_def holds_file_def may_open_def may_create_def taken_def)
  qed
qed

lemma next_rand_bound: "unat (r mod DISK_SECTOR_MAX) < 110"
  by (simp add: DISK_SECTOR_MAX_def unat_mod_distrib)

text \<open>A state of the store: contents of the memory, of the file buffer, the numbers \<open>rand\<close> will give.\<close>

definition store_running where
  "store_running mem busy m buf rs s \<longleftrightarrow> flash_at mem busy m (sst25.more s) s \<and> ampm_file_buf s = buf \<and> rands s = rs"

lemma store_running_flash: "store_running mem busy m buf rs s \<Longrightarrow> flash_at mem busy m (sst25.more s) s"
  by (simp add: store_running_def)

lemma store_running_keep: "store_running mem busy m buf rs s \<Longrightarrow> flash_at mem busy m' (sst25.more s) s' \<Longrightarrow> store_running mem busy m' buf rs s'"
  using flash_at_fields [of mem busy m' s s'] by (simp add: store_running_def) (simp add: flash_at_def)

lemma running_rand_sec: "store_running mem busy m buf rs s \<Longrightarrow> store_running mem busy m buf rs (s\<lparr>rand_sec := r\<rparr>)"
  by (simp add: store_running_def flash_at_def)

lemma running_buf: "store_running mem busy m buf rs s \<Longrightarrow> store_running mem busy m buf' rs (s\<lparr>ampm_file_buf := buf'\<rparr>)"
  by (simp add: store_running_def flash_at_def)

lemma running_next_rand:
  "store_running mem busy m buf rs s \<Longrightarrow> \<exists>s'. next_rand s = (rs 0 mod DISK_SECTOR_MAX, s') \<and> store_running mem busy m buf (\<lambda>n. rs (n + 1)) s'"
  by (simp add: store_running_def next_rand_def flash_at_def)

lemma running_rand_free: "rand_free (store_running mem busy m buf rs)"
  by (simp add: rand_free_def running_rand_sec)

text \<open>The sector in which a search for \<open>name\<close> ends.\<close>

definition found_in :: "(nat \<Rightarrow> u8) \<Rightarrow> bytes \<Rightarrow> u32 \<Rightarrow> nat option" where
  "found_in m name r = find (holds_file m name) (scan_order (unat (r mod DISK_SECTOR_MAX)))"

text \<open>A search from a random sector, started in a running store.\<close>

lemma random_search:
  assumes "serves body g (store_running mem busy m buf (\<lambda>n. rs (n + 1))) Q" "store_running mem busy m buf rs s"
  obtains res f s0 s' where "next_rand s = (rs 0 mod DISK_SECTOR_MAX, s0)"
    and "scan_sectors body (rs 0 mod DISK_SECTOR_MAX) (rs 0 mod DISK_SECTOR_MAX) (rs 0 mod DISK_SECTOR_MAX) fil s0 = Some (res, f, s')"
    and "scanned g (store_running mem busy m buf (\<lambda>n. rs (n + 1))) Q (scan_order (unat (rs 0 mod DISK_SECTOR_MAX))) res f s'"
proof -
  obtain s0 where s0: "next_rand s = (rs 0 mod DISK_SECTOR_MAX, s0)" "store_running mem busy m buf (\<lambda>n. rs (n + 1)) s0"
    using running_next_rand [OF assms(2)] by blast
  then show thesis
    using scan_sectors_scans [OF assms(1) running_rand_free next_rand_bound s0(2), where fil = fil] that [OF s0(1)] by blast
qed

lemma ampm_f_open_searches:
  fixes s :: "('c, 'z) amff_scheme"
  assumes "flash_chip dev cap mem busy wel" "sector_pos 111 \<le> cap" "store_running mem busy m buf rs s"
    and "0 \<in> set name" "may_open mode" "\<not> may_create mode"
  shows "\<exists>f s'. ampm_f_open dev (Some fil) name mode s = Some (if found_in m name (rs 0) = None then FR_ERR else FR_OK, Some f, s')
    \<and> (\<forall>i. found_in m name (rs 0) = Some i \<longrightarrow> f = opened mode (closing_header m i))
    \<and> store_running mem busy m buf (\<lambda>n. rs (n + 1)) s'"
proof -
  let ?r = "rs 0 mod DISK_SECTOR_MAX" and ?P = "store_running mem busy m buf (\<lambda>n. rs (n + 1))"
  define g where "g i = (if holds_file m name i then Some FR_OK else None)" for i
  define Q where "Q i f s' \<longleftrightarrow> f = opened mode (closing_header m i) \<and> store_running mem busy m buf (\<lambda>n. rs (n + 1)) s'"
    for i f and s' :: "('c, 'z) amff_scheme"
  have "serves (open_sector dev name mode) g ?P Q"
  proof (unfold serves_def, intro allI impI)
    fix i fil and t :: "('c, 'z) amff_scheme" assume i: "unat (i :: u32) \<le> 110" "?P t"
    from open_sector_opens [OF assms(1,2) store_running_flash [OF i(2)] i(1) assms(4-6), of fil] obtain f s' where b:
      "open_sector dev name mode i fil t = Some (g (unat i), f, s')" "flash_at mem busy m (sst25.more t) s'"
      "holds_file m name (unat i) \<longrightarrow> f = opened mode (closing_header m (unat i))" unfolding g_def by blast
    from store_running_keep [OF i(2) b(2)] b(1,3)
    show "\<exists>f (s' :: ('c, 'z) amff_scheme). open_sector dev name mode i fil t = Some (g (unat i), f, s') \<and> (if g (unat i) = None then ?P s' else Q (unat i) f s')"
      by (auto simp: g_def Q_def)
  qed
  from random_search [OF this assms(3), of fil] obtain s0 res f s' where s0: "next_rand s = (?r, s0)"
    and sc: "scan_sectors (open_sector dev name mode) ?r ?r ?r fil s0 = Some (res, f, s')" "scanned g ?P Q (scan_order (unat ?r)) res f s'" by metis
  have op: "ampm_f_open dev (Some fil) name mode s = Some (case res of Some x \<Rightarrow> (x, Some f, s')
      | None \<Rightarrow> (FR_ERR, Some (f\<lparr>file_name := (file_name f)[0 := 0]\<rparr>), s'))"
    using sc(1) by (simp add: ampm_f_open_def s0)
  have eta: "(\<lambda>i. g i \<noteq> None) = holds_file m name" by (auto simp: g_def)
  show ?thesis
  proof (cases "found_in m name (rs 0)")
    case None
    then show ?thesis using sc(2) op unfolding scanned_def eta found_in_def [symmetric] by auto
  next
    case (Some i)
    then have "holds_file m name i" by (auto simp: found_in_def find_Some_iff)
    with Some sc(2) op show ?thesis unfolding scanned_def eta found_in_def [symmetric] by (auto simp: g_def Q_def)
  qed
qed

end
