(* ===== verification/AmpmFfWrite.thy ===== *)
theory AmpmFfWrite
  imports AmpmFfFiles
begin

text \<open>
  What the file store puts on the disk: the bytes of file structures, new files, data, closing
  headers, and the way back.
\<close>

section \<open>File structures as bytes\<close>

lemma of_le32_le32: "of_le32 (le32 n) = n"
proof (rule bit_word_eqI)
  fix k assume "k < LENGTH(32)"
  then consider "k < 8" | "8 \<le> k" "k < 16" | "16 \<le> k" "k < 24" | "24 \<le> k" "k < 32" by fastforce
  then show "bit (of_le32 (le32 n)) k = bit n k"
    by cases (auto simp: of_le32_def le32_def bit_simps)
qed

lemma length_le32 [simp]: "length (le32 n) = 4"
  by (simp add: le32_def)

lemma length_fil_bytes: "length (file_name f) = 32 \<Longrightarrow> length (fil_bytes f) = 68"
  by (simp add: fil_bytes_def fil_words_def)

lemma fil_of_fil_bytes_core: "length (file_name f) = 32 \<Longrightarrow> fil_of (fil_bytes f) = f"
  by (simp add: fil_of_def fil_bytes_def fil_words_def Let_def of_le32_le32)

lemma fil_sum_crc: "length (file_name f) = 32 \<Longrightarrow> fil_sum (f\<lparr>fil_crc := c\<rparr>) = fil_sum f"
  by (simp add: fil_sum_def ampm_ff_checksum_def fil_bytes_def fil_words_def)

section \<open>Writing to blank memory\<close>

lemma and_ones: "(0xFF :: u8) AND b = b"
proof -
  have "(0xFF :: u8) = - 1" by simp
  then show ?thesis by (simp only: and.left_neutral)
qed

definition blank_at :: "(nat \<Rightarrow> u8) \<Rightarrow> nat \<Rightarrow> nat \<Rightarrow> bool" where
  "blank_at m a n \<longleftrightarrow> (\<forall>x. a \<le> x \<longrightarrow> x < a + n \<longrightarrow> m x = 0xFF)"

lemma programmed_outside [simp]: "x < a \<or> a + length ds \<le> x \<Longrightarrow> programmed m a ds x = m x"
  by (auto simp: programmed_def)

lemma bytes_at_programmed: "blank_at m a (length ds) \<Longrightarrow> bytes_at (programmed m a ds) a (length ds) = ds"
  by (rule nth_equalityI) (simp_all add: bytes_at_def programmed_def blank_at_def and_ones)

lemma programmed_append: "programmed (programmed m a xs) (a + length xs) ys = programmed m a (xs @ ys)"
  by (rule ext) (auto simp: programmed_def nth_append)

lemma blank_programmed: "blank_at m a n \<Longrightarrow> b + length ds \<le> a \<or> a + n \<le> b \<Longrightarrow> blank_at (programmed m b ds) a n"
  by (auto simp: blank_at_def)

lemma bytes_at_outside: "b + length ds \<le> a \<or> a + n \<le> b \<Longrightarrow> bytes_at (programmed m b ds) a n = bytes_at m a n"
  by (auto simp: bytes_at_def)

lemma written_inside: "a mod 4096 \<noteq> 0 \<Longrightarrow> after_write m a ds = programmed m a ds"
  by (simp add: after_write_def)

lemma blank_erased: "a mod 4096 = 0 \<Longrightarrow> a \<le> b \<Longrightarrow> b + n \<le> a + 4096 \<Longrightarrow> blank_at (erased m a) b n"
proof -
  assume a: "a mod 4096 = 0" "a \<le> b" "b + n \<le> a + 4096"
  have "x div 4096 = a div 4096" if "b \<le> x" "x < b + n" for x
  proof -
    from a(1) obtain k where k: "a = 4096 * k" by auto
    with a that have "4096 * k \<le> x" "x < 4096 * Suc k" by simp_all
    then show ?thesis by (simp add: k div_nat_eqI)
  qed
  then show ?thesis by (simp add: blank_at_def erased_def)
qed

lemma bytes_at_written:
  assumes "a mod 4096 = 0 \<and> length ds \<le> 4096 \<or> blank_at m a (length ds) \<and> a mod 4096 \<noteq> 0"
  shows "bytes_at (after_write m a ds) a (length ds) = ds"
  using assms blank_erased [of a a "length ds" m] bytes_at_programmed [of "erased m a" a ds] bytes_at_programmed [of m a ds]
  by (auto simp: after_write_def)

lemma flash_write_at:
  assumes "flash_chip dev cap mem busy wel" "flash_at mem busy m e s" "unat a < cap"
    and "unat a mod 256 + length ds \<le> 256" "unat count = length ds"
    and "unat a mod 4096 = 0 \<or> blank_at m (unat a) (length ds) \<and> unat a mod 4096 \<noteq> 0"
  shows "\<exists>s'. ampm_flash_write dev a ds count s = Some (FR_OK, s') \<and> flash_at mem busy (after_write m (unat a) ds) e s'"
proof -
  have "length ds \<le> 4096" using assms(4) by linarith
  with bytes_at_written [of "unat a" ds m] assms(6) have "map (after_write m (unat a) ds) [unat a..<unat a + length ds] = ds"
    by (auto simp: bytes_at_def)
  moreover have "mem (sst_chip s) = m" "busy (sst_chip s) \<le> 9000" "length (sst25buf s) = 256" "sst25.more s = e"
    using assms(2) by (simp_all add: flash_at_def)
  ultimately show ?thesis
    using SST25_Write_one_page [OF assms(1) _ _ assms(3,4) refl assms(5), of s]
    by (auto simp: ampm_flash_write_def flash_at_def)
qed

lemma write_fil_at:
  assumes "flash_chip dev cap mem busy wel" "flash_at mem busy m e s" "unat a < cap" "length (file_name f) = 32"
    and "unat a mod 256 + 68 \<le> 256" "unat a mod 4096 = 0 \<or> blank_at m (unat a) 68 \<and> unat a mod 4096 \<noteq> 0"
  shows "\<exists>s'. write_fil dev a f s = Some (FR_OK, s') \<and> flash_at mem busy (after_write m (unat a) (fil_bytes f)) e s'"
  using flash_write_at [OF assms(1-3), of "fil_bytes f" FIL_SIZE] assms(4-6)
  by (simp add: write_fil_def length_fil_bytes FIL_SIZE_def)

lemma fil_at_written:
  assumes "length (file_name f) = 32" "a mod 4096 = 0 \<or> blank_at m a 68 \<and> a mod 4096 \<noteq> 0"
  shows "fil_at (after_write m a (fil_bytes f)) a = f"
  using bytes_at_written [of a "fil_bytes f" m] assms by (auto simp: fil_at_def length_fil_bytes fil_of_fil_bytes_core)

section \<open>Creating a file\<close>

lemma sector_pos_mod [simp]: "sector_pos i mod 4096 = 0"
proof -
  have "sector_pos i = 4096 * (146 + i)" by (simp add: sector_pos_def)
  then show ?thesis by simp
qed

lemma sector_pos_plus_mod: "k < 4096 \<Longrightarrow> (sector_pos i + k) mod 4096 = k"
  by (simp add: mod_add_eq [of "sector_pos i" 4096 k, symmetric])

lemma sector_pos_plus_256: "k < 4096 \<Longrightarrow> (sector_pos i + k) mod 256 = k mod 256"
  using mod_mod_cancel [of 256 4096 "sector_pos i + k"] by (simp add: sector_pos_plus_mod)

text \<open>What a search leaves in the structure at a sector that is not taken, and the new header made of it.\<close>

definition rejected :: "(nat \<Rightarrow> u8) \<Rightarrow> nat \<Rightarrow> AMPM_FIL" where
  "rejected m i = (if fil_valid (header_at m i) then start_header m i else header_at m i)"

definition created :: "(nat \<Rightarrow> u8) \<Rightarrow> bytes \<Rightarrow> nat \<Rightarrow> AMPM_FIL" where
  "created m name i = new_fil (rejected m i) (cstr name @ [0] @ drop (length (cstr name) + 1) (file_name (rejected m i))) (of_nat i)"

lemma created_name:
  assumes "length (cstr name) < 32"
  shows "length (file_name (created m name i)) = 32" and "cstr (file_name (created m name i)) = cstr name"
  using assms by (simp_all add: created_def new_fil_def fil_seal_def rejected_def)

lemma created_fields [simp]:
  "start_sector (created m name i) = of_nat i" "current_sector (created m name i) = of_nat i"
  "previous_sector (created m name i) = of_nat i" "file_size (created m name i) = 0" "file_offset (created m name i) = 0"
  "permission (created m name i) = 2" "file_status (created m name i) = AMPM_FA_STATUS_OK"
  by (simp_all add: created_def new_fil_def fil_seal_def AMPM_FA_WRITE_def)

lemma new_fil_start [simp]: "start_sector (new_fil f name i) = i"
  by (simp add: new_fil_def fil_seal_def)

lemma open_sector_creates:
  assumes "flash_chip dev cap mem busy wel" "sector_pos 111 \<le> cap" "flash_at mem busy m e s"
    and "unat i \<le> 110" "0 \<in> set name" "length (cstr name) < 32" "may_create mode" "\<not> may_open mode"
  shows "\<exists>f s'. open_sector dev name mode i fil s = Some (if taken m (unat i) then None else Some FR_OK, f, s')
    \<and> (if taken m (unat i) then flash_at mem busy m e s'
       else f = created m name (unat i)
         \<and> flash_at mem busy (after_write m (sector_pos (unat i)) (fil_bytes (created m name (unat i)))) e s')"
proof -
  have cap: "sector_pos 110 \<le> cap" "sector_pos (unat i) + 4096 \<le> cap" using assms(2,4) by (simp_all add: sector_pos_def)
  from format_check_at [OF assms(1,3,4) cap] obtain h s1 f s2 where c: "read_fil dev (sector_addr i) s = (h, s1)"
    "ampm_f_file_format_check dev h s1 = (if taken m (unat i) then FR_OK else FR_ERR, f, s2)" "flash_at mem busy m e s2"
    "f = rejected m (unat i)" unfolding rejected_def by metis
  show ?thesis
  proof (cases "taken m (unat i)")
    case True
    with c assms(8) show ?thesis by (auto simp: open_sector_def may_open_def)
  next
    case False
    let ?f = "created m name (unat i)"
    have a: "unat (sector_addr i) = sector_pos (unat i)" using assms(4) by (rule sector_addr_pos)
    have "unat (sector_addr i) mod 256 + 68 \<le> 256" using sector_pos_plus_256 [of 0] by (simp add: a)
    with write_fil_at [OF assms(1) c(3), of "sector_addr i" ?f] created_name(1) [OF assms(6)] cap(2) obtain s3 where
      "write_fil dev (sector_addr i) ?f s2 = Some (FR_OK, s3)"
      "flash_at mem busy (after_write m (sector_pos (unat i)) (fil_bytes ?f)) e s3" by (auto simp: a)
    moreover have "new_fil f (cstr name @ [0] @ drop (length (cstr name) + 1) (file_name f)) i = ?f" "start_sector ?f = i"
      by (simp_all add: created_def c(4))
    ultimately show ?thesis
      using False c(1,2) assms(5-8) by (auto simp: open_sector_def may_create_def copy_name_def Let_def)
  qed
qed

text \<open>The sector a new file is put in.\<close>

definition free_in :: "(nat \<Rightarrow> u8) \<Rightarrow> u32 \<Rightarrow> nat option" where
  "free_in m r = find (\<lambda>i. \<not> taken m i) (scan_order (unat (r mod DISK_SECTOR_MAX)))"

lemma ampm_f_open_creates:
  fixes s :: "('c, 'z) amff_scheme"
  assumes "flash_chip dev cap mem busy wel" "sector_pos 111 \<le> cap" "store_running mem busy m buf rs s"
    and "0 \<in> set name" "length (cstr name) < 32" "may_create mode" "\<not> may_open mode" "free_in m (rs 0) = Some i"
  shows "\<exists>s'. ampm_f_open dev (Some fil) name mode s = Some (FR_OK, Some (created m name i), s')
    \<and> store_running mem busy (after_write m (sector_pos i) (fil_bytes (created m name i))) buf (\<lambda>n. rs (n + 1)) s'"
proof -
  let ?r = "rs 0 mod DISK_SECTOR_MAX" and ?P = "store_running mem busy m buf (\<lambda>n. rs (n + 1))"
  define g where "g i = (if taken m i then None else Some FR_OK)" for i
  define Q where "Q i f s' \<longleftrightarrow> f = created m name i
      \<and> store_running mem busy (after_write m (sector_pos i) (fil_bytes (created m name i))) buf (\<lambda>n. rs (n + 1)) s'"
    for i f and s' :: "('c, 'z) amff_scheme"
  have "serves (open_sector dev name mode) g ?P Q"
  proof (unfold serves_def, intro allI impI)
    fix i fil and t :: "('c, 'z) amff_scheme" assume i: "unat (i :: u32) \<le> 110" "?P t"
    from open_sector_creates [OF assms(1,2) store_running_flash [OF i(2)] i(1) assms(4-7), of fil] store_running_keep [OF i(2)]
    show "\<exists>f (s' :: ('c, 'z) amff_scheme). open_sector dev name mode i fil t = Some (g (unat i), f, s')
        \<and> (if g (unat i) = None then ?P s' else Q (unat i) f s')"
      by (cases "taken m (unat i)") (fastforce simp: g_def Q_def)+
  qed
  from random_search [OF this assms(3), of fil] obtain s0 res f s' where s0: "next_rand s = (?r, s0)"
    and sc: "scan_sectors (open_sector dev name mode) ?r ?r ?r fil s0 = Some (res, f, s')" "scanned g ?P Q (scan_order (unat ?r)) res f s'" by metis
  have eta: "(\<lambda>i. g i \<noteq> None) = (\<lambda>i. \<not> taken m i)" by (auto simp: g_def)
  have "\<not> taken m i" using assms(8) by (auto simp: free_in_def find_Some_iff)
  with sc(2) assms(8) have "res = Some FR_OK" "Q i f s'" unfolding scanned_def eta free_in_def by (simp_all add: g_def)
  then show ?thesis using sc(1) by (simp add: ampm_f_open_def s0 Q_def)
qed

section \<open>Writing data\<close>

lemma data_addr_pos:
  assumes "i < 110" "q < 3840"
  shows "unat (data_addr (of_nat i) (of_nat q)) = sector_pos i + 256 + q"
proof -
  have i: "unat (of_nat i :: u32) = i" and q: "unat (of_nat q :: u32) = q" using assms by (simp_all add: unat_of_nat)
  have "unat (of_nat q mod DISK_SECTOR_SIZE + FILE_HEADER_SIZE :: u32) = q + 256"
    using assms by (simp add: unat_word_ariths(1) unat_mod_distrib DISK_SECTOR_SIZE_def FILE_HEADER_SIZE_def q)
  then show ?thesis
    using sector_plus [of "of_nat i" "of_nat q mod DISK_SECTOR_SIZE + FILE_HEADER_SIZE"] assms
    by (simp add: data_addr_def i add.assoc)
qed

text \<open>
  After \<open>j\<close> bytes: the full pages of 256 bytes are in the memory, the rest is at the start of the
  buffer, and the file structure counts \<open>j\<close>.
\<close>

definition writing where
  "writing mem busy m rs a ds f j fil s \<longleftrightarrow>
     (\<exists>buf. store_running mem busy (programmed m a (take (256 * (j div 256)) ds)) buf rs s \<and> length buf = 256
       \<and> take (j mod 256) buf = drop (256 * (j div 256)) (take j ds))
     \<and> fil = f\<lparr>file_size := of_nat j, file_offset := of_nat j\<rparr>"

lemma div_mod_Suc: "Suc j mod 256 \<noteq> 0 \<Longrightarrow> Suc j div 256 = j div 256 \<and> Suc j mod 256 = Suc (j mod 256)"
  by (simp add: mod_Suc div_Suc split: if_splits)

lemma div_mod_Suc_0: "Suc j mod 256 = 0 \<Longrightarrow> Suc j div 256 = Suc (j div 256) \<and> j mod 256 = 255 \<and> 256 * (j div 256) + 256 = Suc j"
proof -
  assume z: "Suc j mod 256 = 0"
  then have "j mod 256 = 255" by (simp add: mod_Suc split: if_splits)
  moreover have "256 * (j div 256) + j mod 256 = j" by simp
  ultimately show ?thesis using z by (simp add: div_Suc)
qed

lemma put_byte:
  assumes "take (j mod 256) buf = drop (256 * (j div 256)) (take j ds)" "length buf = 256" "j < length ds"
  shows "take (Suc (j mod 256)) (buf[j mod 256 := ds ! j]) = drop (256 * (j div 256)) (take (Suc j) ds)"
proof -
  have j: "256 * (j div 256) \<le> j" by simp
  have "take (Suc (j mod 256)) (buf[j mod 256 := ds ! j]) = take (j mod 256) buf @ [ds ! j]"
    using assms(2) by (subst take_Suc_conv_app_nth) simp_all
  also have "\<dots> = drop (256 * (j div 256)) (take (Suc j) ds)"
    using assms(1,3) j by (simp add: take_Suc_conv_app_nth)
  finally show ?thesis .
qed

lemma take_page: "q \<le> k \<Longrightarrow> take q ds @ drop q (take k ds) = take k ds"
  by (metis append_take_drop_id min.absorb1 take_take)

lemma flush_page:
  assumes chip: "flash_chip dev cap mem busy wel" "sector_pos 110 \<le> cap" "i < 110" "blank_at m (sector_pos i + 256) 3840"
    and s: "store_running mem busy (programmed m (sector_pos i + 256) (take q ds)) buf rs s"
    and len: "length buf = 256" "q = length (take q ds)" "q mod 256 = 0" "q + 256 < 3840"
    and fil: "current_sector fil = of_nat i" "file_offset fil = of_nat (q + 256)"
  shows "\<exists>s'. flush_file dev fil s = Some (FR_OK, fil, s')
    \<and> store_running mem busy (programmed m (sector_pos i + 256) (take q ds @ buf)) (replicate 256 0xff) rs s'"
proof -
  let ?m = "programmed m (sector_pos i + 256) (take q ds)"
  have off: "file_offset fil - 256 = of_nat q" by (simp add: fil)
  have a: "unat (data_addr (current_sector fil) (file_offset fil - 256)) = sector_pos i + 256 + q"
    unfolding fil(1) off using chip(3) len(4) by (intro data_addr_pos) simp_all
  have "q + 256 \<le> 3840" using len(4) by simp
  have p: "(sector_pos i + 256 + q) mod 4096 = 256 + q" "(sector_pos i + 256 + q) mod 256 = 0"
    using sector_pos_plus_mod [of "256 + q" i] sector_pos_plus_256 [of "256 + q" i] len(3,4) by (simp_all add: add.assoc)
  have "sector_pos i + 4096 \<le> cap" using sector_pos_bound [OF chip(2,3) order_refl] .
  then have c: "sector_pos i + 256 + q < cap" using len(4) by simp
  have "blank_at m (sector_pos i + 256 + q) 256" using chip(4) len(4) by (simp add: blank_at_def)
  then have "blank_at ?m (sector_pos i + 256 + q) 256" using len(2) by (intro blank_programmed) simp_all
  with flash_write_at [OF chip(1) store_running_flash [OF s], of "data_addr (current_sector fil) (file_offset fil - 256)" buf 256] p c len(1)
  obtain s1 where w: "ampm_flash_write dev (data_addr (current_sector fil) (file_offset fil - 256)) buf 256 s = Some (FR_OK, s1)"
    "flash_at mem busy (after_write ?m (sector_pos i + 256 + q) buf) (sst25.more s) s1" by (auto simp: a)
  have "after_write ?m (sector_pos i + 256 + q) buf = programmed m (sector_pos i + 256) (take q ds @ buf)"
    using programmed_append [of m "sector_pos i + 256" "take q ds" buf] p(1) len(2) by (simp add: written_inside)
  with store_running_keep [OF s w(2)] have r: "store_running mem busy (programmed m (sector_pos i + 256) (take q ds @ buf)) buf rs s1" by simp
  have "file_offset fil mod DISK_SECTOR_SIZE \<noteq> 0"
  proof
    assume "file_offset fil mod DISK_SECTOR_SIZE = 0"
    then have "unat (file_offset fil mod DISK_SECTOR_SIZE) = 0" by simp
    then show False using len(4) by (simp add: fil(2) unat_mod_distrib DISK_SECTOR_SIZE_def unat_of_nat del: of_nat_add)
  qed
  with w(1) running_buf [OF r, of "replicate 256 0xff"] s show ?thesis
    by (auto simp: flush_file_def store_running_def)
qed

lemma unat_mod_256: "j < 100000 \<Longrightarrow> unat (of_nat j mod 256 :: u32) = j mod 256"
  by (simp add: unat_mod_distrib unat_of_nat)

lemma page_word:
  assumes "j < 100000"
  shows "(of_nat j mod 256 :: u32) = 0 \<longleftrightarrow> j mod 256 = 0"
  unfolding word_unat_eq_iff unat_mod_256 [OF assms] by simp

lemma write_loop_writes:
  assumes chip: "flash_chip dev cap mem busy wel" "sector_pos 110 \<le> cap" "i < 110" "blank_at m (sector_pos i + 256) 3840"
    and f: "current_sector f = of_nat i" and n: "length ds = n" "n < 3840"
  shows "writing mem busy m rs (sector_pos i + 256) ds f j fil s \<Longrightarrow> j \<le> n \<Longrightarrow>
    \<exists>fil' s'. write_loop dev ds (of_nat n) (of_nat j) fil s = Some (FR_OK, fil', s')
      \<and> writing mem busy m rs (sector_pos i + 256) ds f n fil' s'"
proof (induction "n - j" arbitrary: j fil s)
  case 0
  have "take_bit 32 j = j" using 0 n(2) by (simp add: take_bit_nat_eq_self)
  with 0 have "\<not> ucast (of_nat j :: u16) < (of_nat n :: u32)" using n(2)
    by (simp add: word_less_nat_alt unsigned_ucast_eq unat_of_nat)
  with 0 show ?case by (subst write_loop.simps) auto
next
  case (Suc k)
  let ?a = "sector_pos i + 256" and ?q = "256 * (j div 256)"
  from Suc have j: "j < n" "j < 3840" using n(2) by simp_all
  obtain buf where r: "store_running mem busy (programmed m ?a (take ?q ds)) buf rs s" "length buf = 256"
    "take (j mod 256) buf = drop ?q (take j ds)" and fil: "fil = f\<lparr>file_size := of_nat j, file_offset := of_nat j\<rparr>"
    using Suc.prems(1) unfolding writing_def by blast
  let ?buf = "buf[j mod 256 := ds ! j]" and ?s = "s\<lparr>ampm_file_buf := buf[j mod 256 := ds ! j]\<rparr>"
    and ?fil = "f\<lparr>file_size := of_nat (Suc j), file_offset := of_nat (Suc j)\<rparr>"
  have buf: "(ampm_file_buf s)[unat (of_nat j mod 256 :: u32) := ds ! j] = ?buf"
    using r(1) j by (simp add: store_running_def unat_mod_256)
  have suc: "(of_nat j :: u16) + 1 = of_nat (Suc j)" "(of_nat j :: u32) + 1 = of_nat (Suc j)" by simp_all
  have "take_bit 32 j = j" using j(2) by (simp add: take_bit_nat_eq_self)
  then have more: "ucast (of_nat j :: u16) < (of_nat n :: u32)" "unat (of_nat j :: u16) = j"
    using j n(2) by (simp_all add: word_less_nat_alt unsigned_ucast_eq unat_of_nat)
  have page: "(of_nat (Suc j) mod 256 :: u32) = 0 \<longleftrightarrow> Suc j mod 256 = 0"
    using page_word [of "Suc j"] j by simp
  have next': "write_loop dev ds (of_nat n) (of_nat j) fil s = (do {
       (r, fil, s) \<leftarrow> (if Suc j mod 256 = 0 then flush_file dev ?fil ?s else Some (FR_OK, ?fil, ?s));
       if r \<noteq> FR_OK then Some (FR_ERR, fil, s) else write_loop dev ds (of_nat n) (of_nat (Suc j)) fil s })"
    using more n(1) j(1) page by (subst write_loop.simps) (simp add: Let_def buf fil suc del: of_nat_Suc cong: if_cong)
  have step: "\<exists>s'. (if Suc j mod 256 = 0 then flush_file dev ?fil ?s else Some (FR_OK, ?fil, ?s)) = Some (FR_OK, ?fil, s')
      \<and> writing mem busy m rs ?a ds f (Suc j) ?fil s'"
  proof (cases "Suc j mod 256 = 0")
    case False
    with div_mod_Suc [OF False] running_buf [OF r(1), of ?buf] put_byte [OF r(3,2)] j n(1) r(2) show ?thesis
      by (auto simp: writing_def intro!: exI [of _ ?buf])
  next
    case True
    from div_mod_Suc_0 [OF this] have q: "Suc j div 256 = Suc (j div 256)" "j mod 256 = 255" "?q + 256 = Suc j" by simp_all
    have "take 256 ?buf = drop ?q (take (Suc j) ds)" using put_byte [OF r(3,2)] j(1) n(1) q(2) by simp
    then have "take ?q ds @ ?buf = take (Suc j) ds" using take_page [of ?q "Suc j" ds] q(3) r(2) by simp
    moreover have "256 * (Suc j div 256) = Suc j" using q(1,3) by simp
    moreover have "?q = length (take ?q ds)" "?q + 256 < 3840" using j n q(3) by simp_all
    then obtain s' where "flush_file dev ?fil ?s = Some (FR_OK, ?fil, s')"
      "store_running mem busy (programmed m ?a (take ?q ds @ ?buf)) (replicate 256 0xff) rs s'"
      using flush_page [OF chip running_buf [OF r(1), of ?buf], of ?fil] r(2) f q(3) by auto
    ultimately show ?thesis using True by (auto simp: writing_def intro!: exI [of _ "replicate 256 0xff"])
  qed
  then obtain s' where s': "writing mem busy m rs ?a ds f (Suc j) ?fil s'"
    "write_loop dev ds (of_nat n) (of_nat j) fil s = write_loop dev ds (of_nat n) (of_nat (Suc j)) ?fil s'"
    unfolding next' by auto
  have "k = n - Suc j" "Suc j \<le> n" using Suc.hyps(2) j(1) by simp_all
  from Suc.hyps(1) [OF this(1) s'(1) this(2)] show ?case unfolding s'(2) .
qed

section \<open>Closing\<close>

text \<open>The header \<open>ampm_f_close\<close> writes, given the link it reads at 68.\<close>

definition closing_fil :: "AMPM_FIL \<Rightarrow> u32 \<Rightarrow> AMPM_FIL" where
  "closing_fil fil link = fil_seal (fil\<lparr>current_sector := start_sector fil, next_sector := link, previous_sector := start_sector fil\<rparr>)"

lemma closing_fil_fields [simp]:
  "file_name (closing_fil fil link) = file_name fil" "start_sector (closing_fil fil link) = start_sector fil"
  "current_sector (closing_fil fil link) = start_sector fil" "previous_sector (closing_fil fil link) = start_sector fil"
  "file_size (closing_fil fil link) = file_size fil" "file_offset (closing_fil fil link) = file_offset fil"
  "permission (closing_fil fil link) = permission fil" "file_status (closing_fil fil link) = file_status fil"
  by (simp_all add: closing_fil_def fil_seal_def)

lemma fil_seal_start [simp]: "start_sector (fil_seal f) = start_sector f"
  by (simp add: fil_seal_def)

lemma fil_seal_sum: "length (file_name f) = 32 \<Longrightarrow> fil_crc (fil_seal f) = fil_sum (fil_seal f)"
  by (simp add: fil_seal_def fil_sum_crc)

lemma close_writes:
  assumes chip: "flash_chip dev cap mem busy wel" "sector_pos 110 \<le> cap" "i < 110" "blank_at m (sector_pos i + 68) 4028"
    and s: "store_running mem busy (programmed m (sector_pos i + 256) (take q ds)) buf rs s" "length buf = 256"
    and q: "q = 256 * (n div 256)" "n < 3840" "length ds = n"
    and fil: "start_sector fil = of_nat i" "current_sector fil = of_nat i" "previous_sector fil = of_nat i"
      "file_size fil = of_nat n" "file_offset fil = of_nat n" "permission fil = 2" "length (file_name fil) = 32" "file_name fil ! 0 \<noteq> 0"
  shows "\<exists>s' link. ampm_f_close dev (Some fil) s = Some (FR_OK, Some (clear_name (closing_fil fil link)), s')
    \<and> store_running mem busy (programmed (programmed m (sector_pos i + 256) (take q ds @ buf)) (sector_pos i + 136)
        (fil_bytes (closing_fil fil link))) buf rs s'"
proof -
  let ?m = "programmed m (sector_pos i + 256) (take q ds)" and ?m1 = "programmed m (sector_pos i + 256) (take q ds @ buf)"
  have i: "unat (of_nat i :: u32) = i" using chip(3) by (simp add: unat_of_nat)
  have cap: "sector_pos i + 4096 \<le> cap" using sector_pos_bound [OF chip(2,3) order_refl] .
  have ql: "q \<le> n" "q < 3840" "q mod 256 = 0" "q + 256 \<le> 3840" using q(1,2) by simp_all
  have "(of_nat n :: u32) - of_nat n mod 256 = of_nat q"
  proof -
    have uq: "unat (of_nat q :: u32) = q" using ql(2) by (simp add: unat_of_nat)
    have "unat ((of_nat n :: u32) - of_nat n mod 256) = n - n mod 256"
      using q(2) by (simp add: unat_sub_if' unat_mod_distrib unat_of_nat)
    also have "\<dots> = q" unfolding q(1) by (rule minus_mod_eq_mult_div)
    finally show ?thesis unfolding word_unat_eq_iff uq .
  qed
  then have a: "unat (data_addr (current_sector fil) (file_offset fil - file_size fil mod 256)) = sector_pos i + 256 + q"
    using data_addr_pos [OF chip(3) ql(2)] by (simp add: fil)
  have p: "(sector_pos i + 256 + q) mod 4096 = 256 + q" "(sector_pos i + 256 + q) mod 256 = 0"
    using sector_pos_plus_mod [of "256 + q" i] sector_pos_plus_256 [of "256 + q" i] ql by (simp_all add: add.assoc)
  have "blank_at m (sector_pos i + 256 + q) 256" using chip(4) ql by (auto simp: blank_at_def)
  then have "blank_at ?m (sector_pos i + 256 + q) 256" using q(3) ql by (intro blank_programmed) simp_all
  with flash_write_at [OF chip(1) store_running_flash [OF s(1)], of "data_addr (current_sector fil) (file_offset fil - file_size fil mod 256)" buf 256]
    p cap ql s(2) obtain s1 where w: "ampm_flash_write dev (data_addr (current_sector fil) (file_offset fil - file_size fil mod 256)) buf 256 s
      = Some (FR_OK, s1)" "flash_at mem busy (after_write ?m (sector_pos i + 256 + q) buf) (sst25.more s) s1" by (auto simp: a)
  have "after_write ?m (sector_pos i + 256 + q) buf = ?m1"
    using programmed_append [of m "sector_pos i + 256" "take q ds" buf] p(1) q(3) ql by (simp add: written_inside)
  with store_running_keep [OF s(1) w(2)] have r1: "store_running mem busy ?m1 buf rs s1" by simp
  have "unat (sector_addr (of_nat i) + FIL_SIZE) + 68 \<le> cap" using sector_plus [of "of_nat i" FIL_SIZE] chip(3) cap by (simp add: i FIL_SIZE_def)
  from read_fil_at [OF chip(1) store_running_flash [OF r1] this] obtain rfil s2 where
    rd: "read_fil dev (sector_addr (of_nat i) + FIL_SIZE) s1 = (rfil, s2)" "flash_at mem busy ?m1 (sst25.more s1) s2" by blast
  define f where "f = closing_fil fil (next_sector rfil)"
  have r2: "store_running mem busy ?m1 buf rs s2" by (rule store_running_keep [OF r1 rd(2)])
  have b: "unat (sector_addr (of_nat i) + 2 * FIL_SIZE) = sector_pos i + 136"
    using sector_plus [of "of_nat i" 136] chip(3) by (simp add: i FIL_SIZE_def)
  have p2: "(sector_pos i + 136) mod 4096 = 136" "(sector_pos i + 136) mod 256 = 136"
    using sector_pos_plus_mod [of 136 i] sector_pos_plus_256 [of 136 i] by simp_all
  have "blank_at m (sector_pos i + 136) 68" using chip(4) by (auto simp: blank_at_def)
  then have "blank_at ?m1 (sector_pos i + 136) 68" by (intro blank_programmed) simp_all
  with write_fil_at [OF chip(1) store_running_flash [OF r2], of "sector_addr (of_nat i) + 2 * FIL_SIZE" f] p2 cap fil(7) obtain s3 where
    w3: "write_fil dev (sector_addr (of_nat i) + 2 * FIL_SIZE) f s2 = Some (FR_OK, s3)"
      "flash_at mem busy (after_write ?m1 (sector_pos i + 136) (fil_bytes f)) (sst25.more s2) s3" by (auto simp: b f_def)
  have r3: "store_running mem busy (programmed ?m1 (sector_pos i + 136) (fil_bytes f)) buf rs s3"
    using store_running_keep [OF r2 w3(2)] p2(1) by (simp add: written_inside)
  have "fil_usable fil"
    using q(2) chip(3) fil by (simp add: fil_usable_def sector_max i AMPM_FA_WRITE_def word_le_nat_alt unat_of_nat)
  moreover have buf: "ampm_file_buf s = buf" using s(1) by (simp add: store_running_def)
  ultimately have "ampm_f_close dev (Some fil) s = Some (FR_OK, Some (clear_name f), s3)"
    using w(1) rd(1) w3(1) by (simp add: ampm_f_close_def fil(1,6) AMPM_FA_WRITE_def Let_def closing_fil_def f_def)
  with r3 show ?thesis unfolding f_def by blast
qed

end
