(* ===== verification/AmpmFfStore.thy ===== *)
theory AmpmFfStore
  imports AmpmFfWrite
begin

text \<open>
  The way of a file through the store: created, written, closed, found again and read.
\<close>

section \<open>A stored file\<close>

text \<open>
  \<open>stored\<close>: nothing changed outside sector \<open>i\<close>, which holds the header \<open>h\<close> of the file, its
  closing header \<open>f\<close> and its data.
\<close>

definition stored where
  "stored m m' i h f ds \<longleftrightarrow>
     (\<forall>x. x < sector_pos i \<or> sector_pos i + 4096 \<le> x \<longrightarrow> m' x = m x)
     \<and> header_at m' i = h \<and> fil_at m' (sector_pos i + 136) = f \<and> bytes_at m' (sector_pos i + 256) (length ds) = ds"

lemma erased_outside: "x < sector_pos i \<or> sector_pos i + 4096 \<le> x \<Longrightarrow> erased m (sector_pos i) x = m x"
proof -
  assume x: "x < sector_pos i \<or> sector_pos i + 4096 \<le> x"
  have p: "sector_pos i = 4096 * (146 + i)" by (simp add: sector_pos_def)
  have "x div 4096 \<noteq> 146 + i"
  proof
    assume "x div 4096 = 146 + i"
    moreover have "4096 * (x div 4096) \<le> x" "x < 4096 * Suc (x div 4096)" by simp_all
    ultimately show False using x by (auto simp: p)
  qed
  then show ?thesis by (simp add: erased_def p)
qed

lemma take_bytes_at: "n \<le> k \<Longrightarrow> take n (bytes_at m a k) = bytes_at m a n"
  using bytes_at_append [of m a n "k - n"] by simp

lemma stored_memory:
  assumes h: "length (file_name h) = 32" and f: "length (file_name f) = 32" and xs: "length xs \<le> 3840" "length ds \<le> length xs" "take (length ds) xs = ds"
  shows "stored m (programmed (programmed (after_write m (sector_pos i) (fil_bytes h)) (sector_pos i + 256) xs) (sector_pos i + 136) (fil_bytes f)) i h f ds"
proof -
  let ?p = "sector_pos i" and ?e = "erased m (sector_pos i)"
  let ?m1 = "after_write m ?p (fil_bytes h)"
  let ?m2 = "programmed ?m1 (?p + 256) xs" let ?m3 = "programmed ?m2 (?p + 136) (fil_bytes f)"
  have m1: "?m1 = programmed ?e ?p (fil_bytes h)" by (simp add: after_write_def)
  have b1: "blank_at ?m1 (?p + 68) 4028"
    unfolding m1 using h blank_erased [of ?p "?p + 68" 4028 m] by (intro blank_programmed) (simp_all add: length_fil_bytes)
  then have bx: "blank_at ?m1 (?p + 256) (length xs)" and bf: "blank_at ?m1 (?p + 136) 68"
    using xs(1) by (auto simp: blank_at_def)
  have out: "?m3 x = m x" if "x < ?p \<or> ?p + 4096 \<le> x" for x
    using that h f xs(1) erased_outside [OF that, of m] unfolding m1 by (auto simp: length_fil_bytes)
  have "header_at ?m3 i = h"
    using fil_at_written [of h ?p m] h f by (simp add: header_at_def fil_at_def bytes_at_outside length_fil_bytes)
  moreover have "fil_at ?m3 (?p + 136) = f"
    using fil_at_written [of f "?p + 136" ?m2] blank_programmed [OF bf, of "?p + 256" xs] f sector_pos_plus_mod [of 136 i]
    by (simp add: written_inside)
  moreover have "bytes_at ?m3 (?p + 256) (length ds) = ds"
  proof -
    have "bytes_at ?m2 (?p + 256) (length xs) = xs" using bx by (rule bytes_at_programmed)
    then have "take (length ds) (bytes_at ?m2 (?p + 256) (length xs)) = ds" using xs(3) by simp
    then have "bytes_at ?m2 (?p + 256) (length ds) = ds"
      using take_bytes_at [OF xs(2)] by metis
    then show ?thesis using f by (simp add: bytes_at_outside length_fil_bytes)
  qed
  ultimately show ?thesis using out by (simp add: stored_def)
qed

text \<open>A header made for a name that is not empty and shorter than 29 bytes is valid.\<close>

lemma cstr_nth_0: "cstr xs \<noteq> [] \<Longrightarrow> xs ! 0 \<noteq> 0"
  by (cases xs) (auto simp: cstr_def)

lemma cstr_last_zero:
  assumes "length (cstr xs) < 29" "length xs = 32" "0 \<in> set xs"
  shows "cstr (xs[31 := 0]) = cstr xs"
proof -
  from cstr_split [OF assms(3)] obtain r where r: "xs = cstr xs @ 0 # r" by blast
  have "31 - length (cstr xs) = Suc (30 - length (cstr xs))" using assms(1) by simp
  then have "xs[31 := 0] = cstr xs @ 0 # r[30 - length (cstr xs) := 0]"
    using assms(1) by (subst r) (simp add: list_update_append)
  then show ?thesis by (simp add: r [symmetric])
qed

lemma valid_header:
  assumes "file_name f = file_name (created m name i)" "cstr name \<noteq> []" "length (cstr name) < 29"
    and "unat (start_sector f) < 110" "unat (current_sector f) < 110" "unat (previous_sector f) < 110"
    and "fil_crc f = fil_sum f" "file_status f = AMPM_FA_STATUS_OK" "file_offset f \<le> file_size f" "file_size f < 100000"
    and "permission f \<le> 0xff"
  shows "fil_valid f"
proof -
  have l: "length (cstr name) < 32" using assms(3) by simp
  have n: "length (file_name f) = 32" "cstr (file_name f) = cstr name"
    using created_name [OF l, of m i] by (simp_all add: assms(1))
  have z: "0 \<in> set (file_name f)" using assms(1) by (simp add: created_def new_fil_def fil_seal_def)
  have "length (cstr ((file_name f)[31 := 0])) < 29" using cstr_last_zero [of "file_name f"] n z assms(3) by simp
  moreover have "file_name f ! 0 \<noteq> 0" using cstr_nth_0 [of "file_name f"] n(2) assms(2) by simp
  ultimately show ?thesis using assms by (simp add: fil_valid_def sector_max)
qed

lemma created_crc:
  assumes "length (cstr name) < 32"
  shows "fil_crc (created m name i) = fil_sum (created m name i)"
  using created_name(1) [OF assms, of m i] fil_seal_sum
  by (simp add: created_def new_fil_def fil_seal_def fil_sum_crc)

lemma created_valid:
  assumes "cstr name \<noteq> []" "length (cstr name) < 29" "i < 110"
  shows "fil_valid (created m name i)"
  using assms by (intro valid_header [where m = m and i = i and name = name]) (simp_all add: unat_of_nat created_crc)

section \<open>Create, write, close\<close>

text \<open>The file of a fresh name, before anything looks for it again.\<close>

definition new_name where
  "new_name m name \<longleftrightarrow> 0 \<in> set name \<and> cstr name \<noteq> [] \<and> length (cstr name) < 29 \<and> (\<forall>j\<le>110. \<not> holds_file m name j)"

definition put_file where
  "put_file dev fil name ds s = do {
     (r1, f1, s) \<leftarrow> ampm_f_open dev (Some fil) name AMPM_FA_CREATE_ALWAYS s;
     (r2, b, f2, s) \<leftarrow> ampm_f_write dev f1 ds (of_nat (length ds)) s;
     (r3, f3, s) \<leftarrow> ampm_f_close dev f2 s;
     Some ([r1, r2, r3], s)
   }"

lemma at_start: "file_size f = 0 \<Longrightarrow> file_offset f = 0 \<Longrightarrow> f\<lparr>file_size := 0, file_offset := 0\<rparr> = f" "programmed m a [] = m"
  by simp (rule ext, auto simp: programmed_def)

lemma put_file_stores:
  assumes chip: "flash_chip dev cap mem busy wel" "sector_pos 111 \<le> cap"
    and s: "store_running mem busy m buf rs s" "length buf = 256" "new_name m name" "free_in m (rs 0) = Some i" "i < 110" "length ds < 3840"
  shows "\<exists>s' m' f buf'. put_file dev fil name ds s = Some ([FR_OK, FR_OK, FR_OK], s')
    \<and> store_running mem busy m' buf' (\<lambda>n. rs (n + 1)) s' \<and> stored m m' i (created m name i) f ds
    \<and> fil_valid f \<and> start_sector f = of_nat i \<and> current_sector f = of_nat i \<and> previous_sector f = of_nat i
    \<and> file_size f = of_nat (length ds) \<and> file_name f ! 0 \<noteq> 0"
proof -
  let ?h = "created m name i" and ?n = "length ds" and ?q = "256 * (length ds div 256)" and ?p = "sector_pos i"
  let ?m1 = "after_write m ?p (fil_bytes ?h)" and ?rs = "\<lambda>n. rs (n + 1)"
  have name: "0 \<in> set name" "cstr name \<noteq> []" "length (cstr name) < 29" "length (cstr name) < 32" using s(3) by (simp_all add: new_name_def)
  note h = created_name [OF name(4), of m i]
  have cap: "sector_pos 110 \<le> cap" using chip(2) by (simp add: sector_pos_def)
  have mode: "may_create AMPM_FA_CREATE_ALWAYS" "\<not> may_open AMPM_FA_CREATE_ALWAYS"
    by (simp_all add: may_create_def may_open_def AMPM_FA_CREATE_ALWAYS_def AMPM_FA_CREATE_NEW_def AMPM_FA_READ_def
        AMPM_FA_OPEN_ALWAYS_def AMPM_FA_OPEN_EXISTING_def)
  from ampm_f_open_creates [OF chip s(1) name(1,4) mode s(4), of fil] obtain s1 where
    o: "ampm_f_open dev (Some fil) name AMPM_FA_CREATE_ALWAYS s = Some (FR_OK, Some ?h, s1)" "store_running mem busy ?m1 buf ?rs s1" by blast
  have blank: "blank_at ?m1 (?p + 68) 4028"
    unfolding after_write_def using h(1) blank_erased [of ?p "?p + 68" 4028 m] by (auto intro!: blank_programmed simp: length_fil_bytes)
  then have b: "blank_at ?m1 (?p + 256) 3840" by (auto simp: blank_at_def)
  have i: "unat (of_nat i :: u32) = i" using s(5) by (simp add: unat_of_nat)
  have h0: "file_name ?h ! 0 \<noteq> 0" using cstr_nth_0 [of "file_name ?h"] h(2) name(2) by simp
  have "writing mem busy ?m1 ?rs (?p + 256) ds ?h 0 ?h s1"
    using o(2) s(2) by (auto simp: writing_def at_start)
  from write_loop_writes [OF chip(1) cap s(5) b _ refl s(6) this] obtain f2 s2 where
    w: "write_loop dev ds (of_nat ?n) 0 ?h s1 = Some (FR_OK, f2, s2)" "writing mem busy ?m1 ?rs (?p + 256) ds ?h ?n f2 s2" by auto
  have "fil_usable ?h" using h0 s(5) by (simp add: fil_usable_def sector_max i AMPM_FA_WRITE_def)
  then have wr: "ampm_f_write dev (Some ?h) ds (of_nat ?n) s1 = Some (FR_OK, Some (of_nat ?n), Some f2, s2)"
    using w(1) by (simp add: ampm_f_write_def AMPM_FA_WRITE_def)
  from w(2) obtain buf2 where w2: "store_running mem busy (programmed ?m1 (?p + 256) (take ?q ds)) buf2 ?rs s2" "length buf2 = 256"
    "take (?n mod 256) buf2 = drop ?q ds" and f2: "f2 = ?h\<lparr>file_size := of_nat ?n, file_offset := of_nat ?n\<rparr>"
    unfolding writing_def by auto
  from close_writes [OF chip(1) cap s(5) blank w2(1,2) refl s(6) refl, of f2] h(1) h0 obtain s3 link where
    c: "ampm_f_close dev (Some f2) s2 = Some (FR_OK, Some (clear_name (closing_fil f2 link)), s3)"
    "store_running mem busy (programmed (programmed ?m1 (?p + 256) (take ?q ds @ buf2)) (?p + 136) (fil_bytes (closing_fil f2 link))) buf2 ?rs s3"
    by (auto simp: f2)
  let ?f = "closing_fil f2 link" and ?xs = "take ?q ds @ buf2"
  have q: "length (take ?q ds) = ?q" "?q + ?n mod 256 = ?n" by simp_all
  have "take ?n ?xs = take ?q ds @ drop ?q ds" using q w2(3) by (metis (no_types, lifting) add_diff_cancel_left' take_append le_add1 take_all_iff)
  then have xs: "take ?n ?xs = ds" by simp
  have "?q \<le> 3584" using s(6) by simp
  moreover have "length ?xs = ?q + 256" by (simp only: length_append q(1) w2(2))
  moreover have "?n mod 256 < 256" by simp
  ultimately have len: "length ?xs \<le> 3840" "?n \<le> length ?xs" using q(2) by linarith+
  have "stored m (programmed (programmed ?m1 (?p + 256) ?xs) (?p + 136) (fil_bytes ?f)) i ?h ?f ds"
    using h(1) by (intro stored_memory len xs) (simp_all add: f2)
  moreover have "fil_crc ?f = fil_sum ?f" unfolding closing_fil_def by (rule fil_seal_sum) (simp add: f2 h(1))
  then have "fil_valid ?f"
    using name s(5,6) by (intro valid_header [where m = m and i = i and name = name])
      (simp_all add: f2 i unat_of_nat word_less_nat_alt)
  moreover have "put_file dev fil name ds s = Some ([FR_OK, FR_OK, FR_OK], s3)" by (simp add: put_file_def o(1) wr c(1))
  ultimately show ?thesis using c(2) h0 by (fastforce simp: f2)
qed

section \<open>Found again\<close>

lemma fil_at_unchanged:
  assumes "stored m m' i h f ds" "j \<noteq> i" "k \<le> 4000"
  shows "fil_at m' (sector_pos j + k) = fil_at m (sector_pos j + k)"
proof -
  have "m' x = m x" if "sector_pos j + k \<le> x" "x < sector_pos j + k + 68" for x
  proof (cases "j < i")
    case True
    then have "sector_pos j + 4096 \<le> sector_pos i" by (simp add: sector_pos_def)
    with that assms(1,3) show ?thesis by (simp add: stored_def)
  next
    case False
    with assms(2) have "sector_pos i + 4096 \<le> sector_pos j" by (simp add: sector_pos_def)
    with that assms(1) show ?thesis by (simp add: stored_def)
  qed
  then have "bytes_at m' (sector_pos j + k) 68 = bytes_at m (sector_pos j + k) 68"
    unfolding bytes_at_def by (intro map_cong refl) simp
  then show ?thesis by (simp add: fil_at_def)
qed

lemma header_unchanged: "stored m m' i h f ds \<Longrightarrow> j \<noteq> i \<Longrightarrow> header_at m' j = header_at m j"
  using fil_at_unchanged [of m m' i h f ds j 0] by (simp add: header_at_def)

text \<open>The headers at the start of the stored file's sector lead to its closing header.\<close>

lemma stored_own:
  assumes "stored m m' i h f ds" "start_sector h = of_nat i" "i < 110"
  shows "header_at m' i = h" and "start_header m' i = h" and "closing_header m' i = f"
  using assms by (simp_all add: stored_def start_header_def closing_header_def unat_of_nat)

lemma stored_held:
  assumes "stored m m' i (created m name i) f ds" "new_name m name" "i < 110" "fil_valid f"
  shows "holds_file m' name i"
proof -
  have "length (cstr name) < 32" using assms(2) by (simp add: new_name_def)
  from created_name(2) [OF this, of m i] created_valid [of name i m] stored_own [OF assms(1) _ assms(3)] assms(2-4) show ?thesis
    by (simp add: holds_file_def taken_def new_name_def)
qed

lemma stored_only:
  assumes "stored m m' i (created m name i) f ds" "new_name m name" "i < 110" "holds_file m' name j" "j \<le> 110"
  shows "closing_header m' j = f"
proof -
  let ?k = "unat (start_sector (header_at m' j))"
  note own = stored_own [OF assms(1) created_fields(1) assms(3)]
  show ?thesis
  proof (cases "j = i \<or> ?k = i")
    case True
    then have "start_header m' j = created m name i" using own(1,2) by (auto simp: start_header_def)
    then show ?thesis using own(2,3) by (simp add: closing_header_def)
  next
    case False
    then have hj: "header_at m' j = header_at m j" "header_at m' ?k = header_at m ?k" using header_unchanged [OF assms(1)] by blast+
    then have sj: "start_header m' j = start_header m j" by (simp add: start_header_def)
    show ?thesis
    proof (cases "unat (start_sector (start_header m' j)) = i")
      case True
      then show ?thesis using own(2,3) assms(3) by (simp add: closing_header_def unat_of_nat)
    next
      case False
      then have "closing_header m' j = closing_header m j"
        using fil_at_unchanged [OF assms(1), of _ 136] by (simp add: closing_header_def sj)
      with assms(2,4,5) hj sj show ?thesis by (auto simp: new_name_def holds_file_def taken_def)
    qed
  qed
qed

lemma scan_order_set: "set (scan_order r) = {0..110} - {r}" if "r \<le> 110"
  using that by (auto simp: scan_order_def)

lemma read_stored:
  assumes chip: "flash_chip dev cap mem busy wel" "sector_pos 111 \<le> cap" "store_running mem busy m buf rs s"
    and f: "fil_valid f" "start_sector f = of_nat i" "current_sector f = of_nat i" "previous_sector f = of_nat i"
      "file_size f = of_nat (length ds)" "i < 110" "length ds < 3840"
    and d: "bytes_at m (sector_pos i + 256) (length ds) = ds" "length ds \<le> unat btr"
  shows "\<exists>f' s'. ampm_f_read dev (Some (opened AMPM_FA_READ f)) btr s = (FR_OK, ds, Some (of_nat (length ds)), Some f', s')"
proof -
  let ?f = "opened AMPM_FA_READ f"
  have i: "unat (of_nat i :: u32) = i" and n: "unat (of_nat (length ds) :: u32) = length ds" using f(6,7) by (simp_all add: unat_of_nat)
  have op: "start_sector ?f = of_nat i" "current_sector ?f = of_nat i" "previous_sector ?f = of_nat i" "file_name ?f = file_name f"
    "file_size ?f = of_nat (length ds)" "file_offset ?f = 0" "permission ?f = 1"
    by (simp_all add: opened_def f AMPM_FA_READ_def AMPM_FA_WRITE_def)
  have "fil_usable ?f"
    using f(1,6,7) by (simp add: fil_usable_def op sector_max i n AMPM_FA_WRITE_def word_le_nat_alt fil_valid_def)
  moreover have "\<not> btr < of_nat (length ds)" using d(2) n by (simp add: word_less_nat_alt)
  moreover have "(of_nat (length ds) :: u32) \<le> DISK_SECTOR_SIZE" using f(7) n by (simp add: word_le_nat_alt DISK_SECTOR_SIZE_def)
  moreover have a: "unat (sector_addr (of_nat i) + FILE_HEADER_SIZE) = sector_pos i + 256"
    using sector_plus [of "of_nat i" FILE_HEADER_SIZE] f(6) by (simp add: i FILE_HEADER_SIZE_def)
  have "sector_pos i + 4096 \<le> cap" using chip(2) f(6) by (simp add: sector_pos_def)
  then obtain s1 where "ampm_flash_read dev (sector_addr (of_nat i) + FILE_HEADER_SIZE) (of_nat (length ds)) s = (FR_OK, ds, s1)"
    using flash_read_at [OF chip(1) store_running_flash [OF chip(3)], of "sector_addr (of_nat i) + FILE_HEADER_SIZE" "length ds" "of_nat (length ds)"]
      f(7) d(1) n by (auto simp: a)
  ultimately show ?thesis by (simp add: ampm_f_read_def op Let_def)
qed

text \<open>Property C24. On a working chip larger than the disk, a file created under a new name in a sector of the
  disk, written with fewer than 3840 bytes and closed is found again by a search that does not
  start at its sector, and reading it gives the bytes written; every step reports success.\<close>

theorem stored_file_comes_back:
  assumes "flash_chip dev cap mem busy wel" "sector_pos 111 \<le> cap" "store_running mem busy m buf rs s" "length buf = 256"
    and "new_name m name" "free_in m (rs 0) = Some i" "i < 110" "length ds < 3840" "length ds \<le> unat btr"
    and "unat (rs 1 mod DISK_SECTOR_MAX) \<noteq> i"
  shows "\<exists>s1 f s2 f' s3. put_file dev fil name ds s = Some ([FR_OK, FR_OK, FR_OK], s1)
    \<and> ampm_f_open dev (Some fil') name AMPM_FA_READ s1 = Some (FR_OK, Some f, s2)
    \<and> ampm_f_read dev (Some f) btr s2 = (FR_OK, ds, Some (of_nat (length ds)), Some f', s3)"
proof -
  from put_file_stores [OF assms(1-8), of fil] obtain s1 m' f buf' where
    p: "put_file dev fil name ds s = Some ([FR_OK, FR_OK, FR_OK], s1)" "store_running mem busy m' buf' (\<lambda>n. rs (n + 1)) s1"
      "stored m m' i (created m name i) f ds"
    and f: "fil_valid f" "start_sector f = of_nat i" "current_sector f = of_nat i" "previous_sector f = of_nat i"
      "file_size f = of_nat (length ds)" by blast
  have mode: "may_open AMPM_FA_READ" "\<not> may_create AMPM_FA_READ" and name: "0 \<in> set name"
    using assms(5) by (simp_all add: may_create_def may_open_def AMPM_FA_CREATE_ALWAYS_def AMPM_FA_CREATE_NEW_def AMPM_FA_READ_def
        AMPM_FA_OPEN_ALWAYS_def AMPM_FA_OPEN_EXISTING_def new_name_def)
  let ?r = "unat (rs 1 mod DISK_SECTOR_MAX)"
  have r: "?r \<le> 110" using next_rand_bound [of "rs 1"] by simp
  have "i \<in> set (scan_order ?r)" using assms(7,10) r by (simp add: scan_order_set)
  then obtain j where j: "found_in m' name (rs 1) = Some j"
    using stored_held [OF p(3) assms(5,7) f(1)] unfolding found_in_def by (metis find_None_iff option.exhaust)
  then have "holds_file m' name j" "j \<in> set (scan_order ?r)" by (auto simp: found_in_def find_Some_iff)
  then have c: "closing_header m' j = f" using stored_only [OF p(3) assms(5,7)] r by (simp add: scan_order_set)
  from ampm_f_open_searches [OF assms(1,2) p(2) name mode, of fil'] j c obtain s2 where
    o: "ampm_f_open dev (Some fil') name AMPM_FA_READ s1 = Some (FR_OK, Some (opened AMPM_FA_READ f), s2)"
    "store_running mem busy m' buf' (\<lambda>n. rs (n + 2)) s2" by auto
  have "bytes_at m' (sector_pos i + 256) (length ds) = ds" using p(3) by (simp add: stored_def)
  from read_stored [OF assms(1,2) o(2) f assms(7,8) this assms(9)] p(1) o(1) show ?thesis by blast
qed

text \<open>Property C25. When the search for it starts at its own sector, a file just stored on a disk without other
  files is not found: opening it reports an error.\<close>

theorem stored_file_missed:
  assumes "flash_chip dev cap mem busy wel" "sector_pos 111 \<le> cap" "store_running mem busy m buf rs s" "length buf = 256"
    and "new_name m name" "free_in m (rs 0) = Some i" "i < 110" "length ds < 3840"
    and "unat (rs 1 mod DISK_SECTOR_MAX) = i" "\<forall>j\<le>110. \<not> fil_valid (header_at m j)"
  shows "\<exists>s1 f s2. put_file dev fil name ds s = Some ([FR_OK, FR_OK, FR_OK], s1)
    \<and> ampm_f_open dev (Some fil') name AMPM_FA_READ s1 = Some (FR_ERR, f, s2)"
proof -
  from put_file_stores [OF assms(1-8), of fil] obtain s1 m' f buf' where
    p: "put_file dev fil name ds s = Some ([FR_OK, FR_OK, FR_OK], s1)" "store_running mem busy m' buf' (\<lambda>n. rs (n + 1)) s1"
      "stored m m' i (created m name i) f ds" by blast
  have mode: "may_open AMPM_FA_READ" "\<not> may_create AMPM_FA_READ" and name: "0 \<in> set name"
    using assms(5) by (simp_all add: may_create_def may_open_def AMPM_FA_CREATE_ALWAYS_def AMPM_FA_CREATE_NEW_def AMPM_FA_READ_def
        AMPM_FA_OPEN_ALWAYS_def AMPM_FA_OPEN_EXISTING_def new_name_def)
  have "\<not> holds_file m' name j" if "j \<in> set (scan_order i)" for j
  proof -
    from that assms(7) have "j \<noteq> i" "j \<le> 110" by (simp_all add: scan_order_set)
    with header_unchanged [OF p(3)] assms(10) show ?thesis by (simp add: holds_file_def taken_def)
  qed
  then have "found_in m' name (rs 1) = None" unfolding found_in_def assms(9) by (simp add: find_None_iff)
  with ampm_f_open_searches [OF assms(1,2) p(2) name mode, of fil'] obtain f2 s2 where
    "ampm_f_open dev (Some fil') name AMPM_FA_READ s1 = Some (FR_ERR, Some f2, s2)" by auto
  with p(1) show ?thesis by blast
qed

end
