(* ===== verification/Sst25Boot.thy ===== *)
theory Sst25Boot
  imports AmpmFfStore
begin

text \<open>
  A serial flash chip of 16 MB as a program: it collects the bytes of a transaction and acts on them
  when the chip select line is released.  It obeys the laws assumed of a chip, so the theorems of
  the driver and of the file store apply to it.
\<close>

record nor_chip =
  nor_mem :: "nat \<Rightarrow> u8"
  nor_busy :: nat
  nor_wel :: bool
  nor_in :: bytes

definition nor_addr :: "bytes \<Rightarrow> nat" where
  "nor_addr bs = unat (bs ! 1) * 65536 + unat (bs ! 2) * 256 + unat (bs ! 3)"

definition nor_out :: "nor_chip \<Rightarrow> bytes \<Rightarrow> u8" where
  "nor_out c bs =
     (if bs = [] then 0
      else if bs ! 0 = 0x05 then (if nor_busy c = 0 then 0 else 1) OR (if nor_wel c then 2 else 0)
      else if bs ! 0 = 0x0B \<and> 5 \<le> length bs then nor_mem c (nor_addr bs + (length bs - 5))
      else 0)"

definition nor_act :: "nor_chip \<Rightarrow> nor_chip" where
  "nor_act c =
     (let bs = nor_in c
      in if bs = [] then c
         else if bs ! 0 = 0x05 then c\<lparr>nor_busy := nor_busy c - 1\<rparr>
         else if bs ! 0 = 0x06 then c\<lparr>nor_wel := True\<rparr>
         else if bs ! 0 = 0x20 then c\<lparr>nor_mem := erased (nor_mem c) (nor_addr bs), nor_wel := False, nor_busy := 3\<rparr>
         else if bs ! 0 = 0x02 then c\<lparr>nor_mem := programmed (nor_mem c) (nor_addr bs) (drop 4 bs), nor_wel := False, nor_busy := 1\<rparr>
         else c)"

definition nor25 :: "nor_chip spi_dev" where
  "nor25 = \<lparr>spi_select = (\<lambda>c. c\<lparr>nor_in := []\<rparr>), spi_release = nor_act,
     spi_xfer = (\<lambda>x c. (nor_out c (nor_in c), c\<lparr>nor_in := nor_in c @ [x]\<rparr>))\<rparr>"

lemma nor_session:
  "spi_session nor25 xs c = (map (\<lambda>k. nor_out c (nor_in c @ take k xs)) [0..<length xs], c\<lparr>nor_in := nor_in c @ xs\<rparr>)"
proof (induction xs arbitrary: c)
  case (Cons x xs)
  have "nor_out (c\<lparr>nor_in := bs'\<rparr>) bs = nor_out c bs" for bs bs' by (simp add: nor_out_def)
  then show ?case
    using Cons.IH [of "c\<lparr>nor_in := nor_in c @ [x]\<rparr>"]
    by (simp add: nor25_def upt_conv_Cons map_Suc_upt [symmetric] comp_def del: upt_Suc)
qed simp

lemma nor_transact:
  "transact nor25 xs c = (map (\<lambda>k. nor_out c (take k xs)) [0..<length xs], nor_act (c\<lparr>nor_in := xs\<rparr>))"
proof -
  have "nor_out (c\<lparr>nor_in := bs'\<rparr>) bs = nor_out c bs" for bs bs' by (simp add: nor_out_def)
  then show ?thesis using nor_session [of xs "c\<lparr>nor_in := []\<rparr>"] by (simp add: transact_def) (simp add: nor25_def)
qed

lemma nor_addr_bytes:
  assumes "unat (a :: u32) < 2 ^ 24"
  shows "nor_addr (x # addr_bytes a @ bs) = unat a"
proof -
  have b: "unat (ucast (drop_bit k a) :: u8) = unat a div 2 ^ k mod 256" for k
    using assms unfolding unsigned_ucast_eq unsigned_drop_bit_eq by (simp add: take_bit_eq_mod) (simp add: drop_bit_eq_div)
  have "unat (ucast a :: u8) = unat a mod 256" by (simp add: unsigned_ucast_eq take_bit_eq_mod)
  moreover have "unat a div 65536 mod 256 = unat a div 65536" using assms by (simp add: less_mult_imp_div_less)
  moreover have "unat a div 65536 * 65536 + unat a div 256 mod 256 * 256 + unat a mod 256 = unat a"
  proof -
    have "256 * (unat a div 256) + unat a mod 256 = unat a" by (rule mult_div_mod_eq)
    moreover have "256 * (unat a div 65536) + unat a div 256 mod 256 = unat a div 256"
      using mult_div_mod_eq [of 256 "unat a div 256"] by (simp add: div_mult2_eq [symmetric])
    ultimately show ?thesis by linarith
  qed
  ultimately show ?thesis using b [of 16] b [of 8] by (simp add: nor_addr_def addr_bytes_def)
qed

lemma nor_addr_bytes_0: "unat (a :: u32) < 2 ^ 24 \<Longrightarrow> nor_addr (x # addr_bytes a) = unat a"
  using nor_addr_bytes [of a x "[]"] by simp

lemma nor_status_law: "status_law nor25 nor_mem nor_busy nor_wel"
proof -
  have "((1 :: u8) AND 2 = 0)" "((3 :: u8) AND 1 = 1)" "((3 :: u8) AND 2 = 2)" "((2 :: u8) AND 1 = 0)" "((1 :: u8) OR 2) = 3" by simp_all
  then show ?thesis by (auto simp: status_law_def nor_transact nor_act_def nor_out_def upt_rec)
qed

lemma nor_read_law: "read_law nor25 (2 ^ 24) nor_mem nor_busy nor_wel"
proof (unfold read_law_def, intro allI impI, goal_cases)
  case (1 c a n)
  let ?xs = "0x0B # addr_bytes a @ 0 # replicate n 0"
  have len: "length ?xs = 5 + n" by (simp add: addr_bytes_def)
  have "nor_out c (take (5 + i) ?xs) = nor_mem c (unat a + i)" if "i < n" for i
  proof -
    have "take (5 + i) ?xs = 0x0B # addr_bytes a @ 0 # take i (replicate n 0)" by (simp add: addr_bytes_def eval_nat_numeral)
    moreover have "unat a < 2 ^ 24" using 1(2) that by simp
    ultimately show ?thesis using that by (simp add: nor_out_def nor_addr_bytes) (simp add: addr_bytes_def)
  qed
  then have "drop 5 (map (\<lambda>k. nor_out c (take k ?xs)) [0..<5 + n]) = map (\<lambda>i. nor_mem c (unat a + i)) [0..<n]"
    by (intro nth_equalityI) simp_all
  then show ?case unfolding nor_transact len using 1(1) by (simp add: nor_act_def)
qed

lemma nor_chip_laws: "flash_chip nor25 (2 ^ 24) nor_mem nor_busy nor_wel"
proof -
  have "enable_law nor25 nor_mem nor_busy nor_wel" by (simp add: enable_law_def nor_transact nor_act_def)
  moreover have "program_law nor25 (2 ^ 24) nor_mem nor_busy nor_wel"
    by (simp add: program_law_def nor_transact nor_act_def nor_addr_bytes) (simp add: addr_bytes_def)
  moreover have "erase_law nor25 (2 ^ 24) nor_mem nor_busy nor_wel"
    by (simp add: erase_law_def nor_transact nor_act_def nor_addr_bytes_0)
  ultimately show ?thesis using nor_status_law nor_read_law by (simp add: flash_chip_def)
qed

section \<open>Witnesses\<close>

text \<open>An erased chip and a store on it whose next two random numbers are \<open>a\<close> and \<open>b\<close>.\<close>

definition blank_chip :: nor_chip where
  "blank_chip = \<lparr>nor_mem = (\<lambda>_. 0xFF), nor_busy = 0, nor_wel = False, nor_in = []\<rparr>"

definition blank_store :: "u32 \<Rightarrow> u32 \<Rightarrow> nor_chip amff" where
  "blank_store a b = \<lparr>sst_chip = blank_chip, countErrTemp = 0, writeErrCnt = 0, sst25buf = replicate 256 0,
     ampm_file_buf = replicate 256 0, rand_sec = 0, rands = (\<lambda>n. if n = 0 then a else b)\<rparr>"

lemma blank_written: "map (after_write (\<lambda>_. 0xFF) 0x1080 [1, 2]) [0x1080..<0x1082] = [1, 2]"
  by (simp add: upt_rec after_write_def programmed_def and_ones)

theorem SST25_Write_page_witness:
  "\<exists>c b e. SST25_Write nor25 0x1080 [1, 2] 2 (blank_store 0 0) =
      Some (SST25_OK, (blank_store 0 0)\<lparr>sst_chip := c, sst25buf := b, writeErrCnt := e\<rparr>)
    \<and> nor_mem c = after_write (\<lambda>_. 0xFF) 0x1080 [1, 2] \<and> nor_busy c = 0 \<and> length b = 256"
  using SST25_Write_page [OF nor_chip_laws _ _ _ _ refl, of "blank_store 0 0" "0x1080" "[1, 2]" 2] blank_written
  by (simp add: blank_store_def blank_chip_def)

theorem SST25_Write_verified_witness:
  "\<exists>s'. SST25_Write nor25 0x1080 [1, 2] 2 (blank_store 0 0) = Some (SST25_OK, s')
    \<and> map (nor_mem (sst_chip s')) [0x1080..<0x1082] = [1, 2]"
proof -
  have "\<exists>s'. SST25_Write nor25 0x1080 [1, 2] 2 (blank_store 0 0) = Some (SST25_OK, s')"
    using SST25_Write_one_page [OF nor_chip_laws _ _ _ _ refl, of "blank_store 0 0" "0x1080" "[1, 2]" 2] blank_written
    by (auto simp: blank_store_def blank_chip_def)
  then obtain s' where "SST25_Write nor25 0x1080 [1, 2] 2 (blank_store 0 0) = Some (SST25_OK, s')" by blast
  with SST25_Write_verified [OF nor_chip_laws this, of 2] show ?thesis by simp
qed

lemma blank_header: "\<not> fil_valid (header_at (\<lambda>_. 0xFF) i)"
proof -
  have "bytes_at (\<lambda>_. 0xFF) a n = replicate n 0xFF" for a n
    by (rule nth_equalityI) (simp_all add: bytes_at_def)
  then have "header_at (\<lambda>_. 0xFF) i = fil_of (replicate 68 0xFF)" by (simp add: header_at_def fil_at_def)
  moreover have "start_sector (fil_of (replicate 68 0xFF)) = 0xFFFFFFFF" by code_simp
  ultimately show ?thesis by (simp add: fil_valid_def DISK_SECTOR_MAX_def)
qed

lemma blank_free: "\<not> taken (\<lambda>_. 0xFF) i"
  by (simp add: taken_def blank_header)

lemma blank_running: "store_running nor_mem nor_busy (\<lambda>_. 0xFF) (replicate 256 0) (\<lambda>n. if n = 0 then a else b) (blank_store a b)"
  by (simp add: store_running_def flash_at_def blank_store_def blank_chip_def)

lemma blank_name: "new_name (\<lambda>_. 0xFF) [0x41, 0]"
  by (simp add: new_name_def holds_file_def blank_free cstr_def)

lemma blank_free_in: "free_in (\<lambda>_. 0xFF) 5 = Some 4"
  by (simp add: free_in_def blank_free scan_order_def DISK_SECTOR_MAX_def upt_rec)

theorem ampm_f_getfree_counts_witness:
  "\<exists>s'. ampm_f_getfree nor25 (blank_store 0 0) = (110, s')"
proof -
  have "flash_at nor_mem nor_busy (\<lambda>_. 0xFF) (sst25.more (blank_store 0 0)) (blank_store 0 0)"
    using blank_running [of 0 0] by (rule store_running_flash)
  from ampm_f_getfree_counts [OF nor_chip_laws _ this] show ?thesis by (auto simp: sector_pos_def blank_free)
qed

theorem stored_file_comes_back_witness:
  "\<exists>s1 f s2 f' s3. put_file nor25 blank_fil [0x41, 0] [1, 2, 3] (blank_store 5 7) = Some ([FR_OK, FR_OK, FR_OK], s1)
    \<and> ampm_f_open nor25 (Some blank_fil) [0x41, 0] AMPM_FA_READ s1 = Some (FR_OK, Some f, s2)
    \<and> ampm_f_read nor25 (Some f) 10 s2 = (FR_OK, [1, 2, 3], Some 3, Some f', s3)"
  using stored_file_comes_back [OF nor_chip_laws _ blank_running [of 5 7] _ blank_name, of 4 "[1, 2, 3]" 10 blank_fil blank_fil]
  by (simp add: sector_pos_def blank_free_in DISK_SECTOR_MAX_def)

theorem stored_file_missed_witness:
  "\<exists>s1 f s2. put_file nor25 blank_fil [0x41, 0] [1, 2, 3] (blank_store 5 4) = Some ([FR_OK, FR_OK, FR_OK], s1)
    \<and> ampm_f_open nor25 (Some blank_fil) [0x41, 0] AMPM_FA_READ s1 = Some (FR_ERR, f, s2)"
  using stored_file_missed [OF nor_chip_laws _ blank_running [of 5 4] _ blank_name, of 4 "[1, 2, 3]" blank_fil blank_fil]
  by (simp add: sector_pos_def blank_free_in DISK_SECTOR_MAX_def blank_header)

end
