(* ===== verification/Dtmf.thy ===== *)
theory Dtmf
  imports RingBuf
begin

text \<open>
  The detector of dialling tones: \<open>ampm_lib/lib/DTMF.c\<close> and \<open>ampm_lib/dtmf/DTMF_app.c\<close>.  A timer
  interrupt stores a sample of the converter 8000 times a second; every 85 samples a window of 128
  samples is normalised, the power at the eight tone frequencies and their harmonics is computed by
  the recursion of Goertzel, and a digit found in enough windows is reported.

  \<open>int\<close> and \<open>long\<close> have 32 bits.  Signed arithmetic is that of the processor: sums and products wrap,
  shifts to the right keep the sign, and shifts to the left of negative numbers shift their bits.  A
  \<open>short\<close> is a 16-bit word read with its sign.
\<close>

section \<open>State\<close>

definition DTMF_DATA_DEEP :: nat where "DTMF_DATA_DEEP = 128"
definition DTMFsz :: u32 where "DTMFsz = 256"

record DTMF =
  AIindex :: u32
  AIcheck :: u32
  dt_digit :: u8
  dt_early :: u8
  dt_new :: u8
  dt_d :: bytes
  dt_d_i :: u32
  AInput :: "u16 list"

text \<open>The registers \<open>TPM3_Init\<close> and \<open>TPM3_DeInit\<close> set, and whether the interrupt is enabled.\<close>

record tim3 =
  APB1ENR :: u32
  tim_PSC :: u16
  tim_ARR :: u16
  tim_CR1 :: u16
  tim_CR2 :: u16
  tim_DIER :: u16
  tim_SR :: u16
  tim_priority :: u32
  tim_irq :: bool

record dtmf =
  dail1 :: DTMF
  DTMFin :: "u16 list"
  DTMF_ringBuff :: RINGBUF
  DTMF_buf :: bytes
  DEMF_Enable :: u8
  toggle :: u32
  TIM3 :: tim3

definition DTMFchar :: bytes where
  "DTMFchar = ascii ''123A456B789C*0#D''"

section \<open>Goertzel's recursion\<close>

definition goertzel_step :: "u32 \<Rightarrow> u16 \<Rightarrow> u32 \<times> u32 \<Rightarrow> u32 \<times> u32" where
  "goertzel_step cos_fact x v = (case v of (v1, v2) \<Rightarrow> (signed_drop_bit 14 (cos_fact * v1) - v2 + scast x, v1))"

definition Goertzel :: "u32 \<Rightarrow> u16 list \<Rightarrow> u32" where
  "Goertzel cos_fact xs =
     (let (v1, v2) = fold (goertzel_step cos_fact) xs (0, 0);
          p1 = v1 * v1;
          p2 = v2 * v2;
          p01 = v1 * v2;
          pwr = p1 - cos_fact * signed_drop_bit 14 p01 + p2
      in if sint pwr < 0 then 0 else signed_drop_bit 16 pwr)"

definition DTMF_697Hz :: u32 where "DTMF_697Hz = 27980"
definition DTMF_770Hz :: u32 where "DTMF_770Hz = 26956"
definition DTMF_852Hz :: u32 where "DTMF_852Hz = 25701"
definition DTMF_941Hz :: u32 where "DTMF_941Hz = 24219"
definition DTMF_1209Hz :: u32 where "DTMF_1209Hz = 19073"
definition DTMF_1336Hz :: u32 where "DTMF_1336Hz = 16325"
definition DTMF_1477Hz :: u32 where "DTMF_1477Hz = 13085"
definition DTMF_1633Hz :: u32 where "DTMF_1633Hz = 9315"
definition DTMF_1394Hz :: u32 where "DTMF_1394Hz = 15014"
definition DTMF_1540Hz :: u32 where "DTMF_1540Hz = 11583"
definition DTMF_1704Hz :: u32 where "DTMF_1704Hz = 7549"
definition DTMF_1882Hz :: u32 where "DTMF_1882Hz = 3032"
definition DTMF_2418Hz :: u32 where "DTMF_2418Hz = - 10565"
definition DTMF_2672Hz :: u32 where "DTMF_2672Hz = - 16503"
definition DTMF_2954Hz :: u32 where "DTMF_2954Hz = - 22318"
definition DTMF_3266Hz :: u32 where "DTMF_3266Hz = - 27472"

section \<open>Gain control\<close>

text \<open>
  The first loop reads \<open>n\<close> samples backwards from \<open>idx\<close> and fills \<open>DTMFin\<close> from its end; it keeps the
  smallest and the largest sample and the scaled sum.
\<close>

fun gain_read :: "u16 list \<Rightarrow> nat \<Rightarrow> u32 \<Rightarrow> u32 \<Rightarrow> u32 \<Rightarrow> u32 \<Rightarrow> u16 list \<Rightarrow> (u32 \<times> u32 \<times> u32 \<times> u16 list) option" where
  "gain_read inp 0 idx mn mx avg ds = Some (mn, mx, avg, ds)"
| "gain_read inp (Suc n) idx mn mx avg ds = do {
     x \<leftarrow> rd inp (unat (idx AND (DTMFsz - 1)));
     let v = (ucast x :: u32);
     gain_read inp n (idx - 1) (if v < mn then v else mn) (if v > mx then v else mx)
       (avg + (0x10000 div of_nat DTMF_DATA_DEEP) * v) (ucast v # ds)
   }"

text \<open>\<open>for (v = 0; v < 15 && (min & 0x8000) == 0; v++) min <<= 1;\<close>\<close>

fun gain_shift :: "nat \<Rightarrow> nat \<Rightarrow> u32 \<Rightarrow> nat" where
  "gain_shift 0 v m = v"
| "gain_shift (Suc n) v m = (if m AND 0x8000 = 0 then gain_shift n (v + 1) (push_bit 1 m) else v)"

definition scale_down :: "u32 \<Rightarrow> nat \<Rightarrow> u16 \<Rightarrow> u16" where
  "scale_down avg v x = ucast (signed_drop_bit v (scast (ucast (scast x - avg :: u32) :: u16) :: u32))"

definition scale_up :: "u32 \<Rightarrow> nat \<Rightarrow> u16 \<Rightarrow> u16" where
  "scale_up avg v x = ucast (push_bit v (scast x - avg :: u32))"

definition normalise :: "u32 \<Rightarrow> u32 \<Rightarrow> u32 \<Rightarrow> u16 list \<Rightarrow> u16 list" where
  "normalise mn mx avg ds =
     (let avg = drop_bit 16 avg;
          v = gain_shift 15 0 (mx - mn)
      in if v < 7 then map (scale_down avg (7 - v)) ds else map (scale_up avg (v - 7)) ds)"

definition GainControl :: "DTMF \<Rightarrow> u16 list option" where
  "GainControl t = do {
     (mn, mx, avg, ds) \<leftarrow> gain_read (AInput t) DTMF_DATA_DEEP (AIindex t) 0xFFFF 0 (0x10000 div of_nat DTMF_DATA_DEEP) [];
     Some (normalise mn mx avg ds)
   }"

section \<open>Digits\<close>

definition chk_valid :: "u32 list \<Rightarrow> u32 \<Rightarrow> u32 \<Rightarrow> bool" where
  "chk_valid p d pref =
     (if d = 0 then False
      else
        (let pref = pref div 8
         in \<not> (d \<noteq> 1 \<and> p ! 0 > pref) \<and> \<not> (d \<noteq> 2 \<and> p ! 1 > pref)
            \<and> \<not> (d \<noteq> 3 \<and> p ! 2 > pref) \<and> \<not> (d \<noteq> 4 \<and> p ! 3 > pref)))"

text \<open>The strongest of four powers above a threshold, counted from 1, and its power.\<close>

definition strongest :: "u32 list \<Rightarrow> u32 \<Rightarrow> u32 \<times> u32" where
  "strongest p ampl =
     (let (k, ampl) = (0, ampl);
          (k, ampl) = (if p ! 0 > ampl then (1, p ! 0) else (k, ampl));
          (k, ampl) = (if p ! 1 > ampl then (2, p ! 1) else (k, ampl));
          (k, ampl) = (if p ! 2 > ampl then (3, p ! 2) else (k, ampl))
      in if p ! 3 > ampl then (4, p ! 3) else (k, ampl))"

text \<open>The checks of the second harmonics: whether the digit is still valid.\<close>

definition row_harmonic :: "u32 \<Rightarrow> u32 \<Rightarrow> u32 \<Rightarrow> u16 list \<Rightarrow> bool" where
  "row_harmonic row col campl xs =
     (if row = 1 then (col = 2 \<or> col = 3 \<or> \<not> Goertzel DTMF_1394Hz xs > campl div 8)
      else if row = 2 then (col = 3 \<or> col = 4 \<or> \<not> Goertzel DTMF_1540Hz xs > campl div 8)
      else if row = 3 then (col = 4 \<or> \<not> Goertzel DTMF_1704Hz xs > campl div 8)
      else if row = 4 then \<not> Goertzel DTMF_1882Hz xs > campl div 8
      else True)"

definition col_harmonic :: "u32 \<Rightarrow> u32 \<Rightarrow> u32 \<Rightarrow> u16 list \<Rightarrow> bool" where
  "col_harmonic row col rampl xs =
     (if col = 1 then \<not> Goertzel DTMF_2418Hz xs > rampl div 8
      else if col = 2 then \<not> Goertzel DTMF_2672Hz xs > rampl div 8
      else if col = 3 then (row = 4 \<or> \<not> Goertzel DTMF_2954Hz xs > rampl div 8)
      else if col = 4 then \<not> Goertzel DTMF_3266Hz xs > rampl div 8
      else True)"

definition DTMF_digit :: "u16 list \<Rightarrow> u8" where
  "DTMF_digit xs =
     (let p = [Goertzel DTMF_697Hz xs, Goertzel DTMF_770Hz xs, Goertzel DTMF_852Hz xs, Goertzel DTMF_941Hz xs];
          (row, rampl) = strongest p 0x40
      in if \<not> chk_valid p row rampl then 0
         else
           (let p = [Goertzel DTMF_1209Hz xs, Goertzel DTMF_1336Hz xs, Goertzel DTMF_1477Hz xs, Goertzel DTMF_1633Hz xs];
                (col, campl) = strongest p 0x50
            in if \<not> chk_valid p col campl then 0
               else if col \<noteq> 0 \<and> row \<noteq> 0 then
                 (if push_bit 4 rampl < campl then 0
                  else if push_bit 3 campl < rampl then 0
                  else if \<not> row_harmonic row col campl xs then 0
                  else if \<not> col_harmonic row col rampl xs then 0
                  else ucast (push_bit 2 (row - 1) OR (col - 1) OR 0x10))
               else 0))"

section \<open>Reporting\<close>

text \<open>The digit \<open>d\<close> of a window against the digits of the last four windows.\<close>

definition window_digit :: "u8 \<Rightarrow> DTMF \<Rightarrow> DTMF option" where
  "window_digit d t = do {
     d0 \<leftarrow> rd (dt_d t) 0;
     d1 \<leftarrow> rd (dt_d t) 1;
     d2 \<leftarrow> rd (dt_d t) 2;
     d3 \<leftarrow> rd (dt_d t) 3;
     let cnt = length (filter (\<lambda>x. x = d) [d0, d1, d2, d3]);
     ds \<leftarrow> wr (dt_d t) (unat (dt_d_i t AND 3)) d;
     let t = t\<lparr>dt_early := d, dt_d := ds, dt_d_i := dt_d_i t + 1\<rparr>;
     Some (if cnt \<ge> 2 \<and> dt_digit t \<noteq> d then t\<lparr>dt_digit := d, dt_new := (if d \<noteq> 0 then 1 else dt_new t)\<rparr> else t)
   }"

definition DTMF_Detect :: "dtmf \<Rightarrow> dtmf option" where
  "DTMF_Detect s =
     (let t = dail1 s
      in if AIindex t \<ge> AIcheck t then do {
           xs \<leftarrow> GainControl t;
           let t = t\<lparr>AIindex := AIindex t AND (DTMFsz - 1)\<rparr>;
           let t = t\<lparr>AIcheck := AIindex t + of_nat (DTMF_DATA_DEEP * 2 div 3)\<rparr>;
           t \<leftarrow> window_digit (DTMF_digit xs) t;
           Some (s\<lparr>dail1 := t, DTMFin := xs\<rparr>)
         }
         else Some s)"

definition DTMF_Task :: "dtmf \<Rightarrow> (u8 \<times> dtmf) option" where
  "DTMF_Task s =
     (if DEMF_Enable s \<noteq> 0 then do {
        s \<leftarrow> (if AIindex (dail1 s) \<ge> AIcheck (dail1 s) then DTMF_Detect s else Some s);
        if dt_new (dail1 s) \<noteq> 0 then do {
          c \<leftarrow> rd DTMFchar (unat (dt_digit (dail1 s) AND 0x0F));
          (_, r) \<leftarrow> RINGBUF_Put (DTMF_ringBuff s) c;
          Some (c, s\<lparr>DTMF_ringBuff := r, dail1 := (dail1 s)\<lparr>dt_new := 0\<rparr>\<rparr>)
        }
        else Some (0, s)
      }
      else Some (0, s))"

section \<open>The timer\<close>

definition RCC_APB1ENR_TIM3EN :: u32 where "RCC_APB1ENR_TIM3EN = 0x00000002"

text \<open>The interrupt; \<open>adc\<close> is the sample the converter has left in memory.\<close>

definition TIM3_IRQHandler :: "u16 \<Rightarrow> dtmf \<Rightarrow> dtmf option" where
  "TIM3_IRQHandler adc s =
     (if tim_SR (TIM3 s) AND 1 \<noteq> 0 then do {
        let t = dail1 s;
        inp \<leftarrow> wr (AInput t) (unat (AIindex t AND (DTMFsz - 1))) adc;
        Some (s\<lparr>toggle := toggle s XOR 1, TIM3 := (TIM3 s)\<lparr>tim_SR := NOT 0x0001\<rparr>,
          dail1 := t\<lparr>AInput := inp, AIindex := AIindex t + 1\<rparr>\<rparr>)
      }
      else Some s)"

definition TPM3_DeInit :: "dtmf \<Rightarrow> dtmf" where
  "TPM3_DeInit s = s\<lparr>TIM3 := (TIM3 s)\<lparr>APB1ENR := APB1ENR (TIM3 s) AND NOT RCC_APB1ENR_TIM3EN, tim_irq := False\<rparr>\<rparr>"

definition TPM3_Init :: "u32 \<Rightarrow> dtmf \<Rightarrow> dtmf" where
  "TPM3_Init pclk s =
     (let t = (TIM3 s)\<lparr>APB1ENR := APB1ENR (TIM3 s) OR RCC_APB1ENR_TIM3EN, tim_PSC := ucast (pclk div 1000000) - 1,
            tim_ARR := 1000000 div 8000 - 1, tim_CR1 := 0, tim_CR2 := 0, tim_DIER := 1,
            tim_priority := push_bit 3 0x01 OR 1, tim_irq := True\<rparr>
      in s\<lparr>TIM3 := t\<lparr>tim_CR1 := tim_CR1 t OR 1\<rparr>\<rparr>)"

definition DTMF_DeInit :: "dtmf \<Rightarrow> dtmf" where
  "DTMF_DeInit s = TPM3_DeInit (s\<lparr>DEMF_Enable := 0\<rparr>)"

text \<open>\<open>clock\<close> is \<open>SystemCoreClock\<close>.\<close>

definition DTMF_Init :: "u32 \<Rightarrow> dtmf \<Rightarrow> dtmf" where
  "DTMF_Init clock s =
     (let (_, r) = RINGBUF_Init (Some (DTMF_ringBuff s)) (Some (DTMF_buf s)) 32;
          s = (case r of Some r \<Rightarrow> s\<lparr>DTMF_ringBuff := r\<rparr> | None \<Rightarrow> s)
      in (TPM3_Init clock s)\<lparr>DEMF_Enable := 1\<rparr>)"

end
