(* ===== verification/DtmfProofs.thy ===== *)
theory DtmfProofs
  imports Dtmf
begin

text \<open>
  The detector of dialling tones as a function of the samples heard: which samples a window holds,
  and that the task reports the digits of the windows after a vote over the last four.
\<close>

section \<open>The sample memory\<close>

lemma and_255: "unat ((x :: u32) AND 0xFF) = unat x mod 256"
proof -
  have "x AND 0xFF = take_bit 8 x" by (simp add: take_bit_eq_mask mask_eq_exp_minus_1)
  then show ?thesis by (simp only: unsigned_take_bit_eq) (simp add: take_bit_eq_mod)
qed

text \<open>
  \<open>p\<close> is everything that was ever stored, starting with the 256 cells of the memory before the first
  sample; the memory holds its last 256 elements, each at its number modulo 256.
\<close>

definition remembers :: "u16 list \<Rightarrow> u16 list \<Rightarrow> bool" where
  "remembers p inp \<longleftrightarrow> length inp = 256 \<and> 256 \<le> length p
     \<and> (\<forall>n. length p - 256 \<le> n \<longrightarrow> n < length p \<longrightarrow> inp ! (n mod 256) = p ! n)"

lemma remembers_store:
  assumes "remembers p inp"
  shows "remembers (p @ [x]) (inp[length p mod 256 := x])"
proof -
  have "inp[length p mod 256 := x] ! (n mod 256) = (p @ [x]) ! n" if "Suc (length p) - 256 \<le> n" "n < Suc (length p)" for n
  proof (cases "n = length p")
    case True
    with assms show ?thesis by (simp add: remembers_def)
  next
    case False
    with that have n: "n < length p" "length p - n < 256" by simp_all
    have "n mod 256 \<noteq> length p mod 256"
    proof
      assume "n mod 256 = length p mod 256"
      then have "256 dvd length p - n" using n(1) mod_eq_dvd_iff_nat [of n "length p" 256] by simp
      with n show False by (auto dest: dvd_imp_le)
    qed
    with that n assms show ?thesis by (simp add: remembers_def nth_append)
  qed
  with assms show ?thesis by (simp add: remembers_def)
qed

lemma index_back:
  assumes "unat (idx :: u32) mod 256 = n mod 256" "k \<le> n" "k < 256"
  shows "unat ((idx - of_nat k) AND 0xFF) = (n - k) mod 256"
proof -
  have "int (unat (idx - of_nat k)) mod 256 = (int (unat idx) - int k) mod 256"
    by (simp add: uint_word_ariths mod_mod_cancel uint_nat [symmetric] unsigned_of_nat take_bit_eq_mod mod_simps assms(3) less_trans [OF assms(3)])
  also have "\<dots> = (int (unat idx) mod 256 - int k) mod 256" by (simp add: mod_diff_left_eq)
  also have "int (unat idx) mod 256 = int n mod 256" using assms(1) by (metis of_nat_mod of_nat_numeral)
  also have "(int n mod 256 - int k) mod 256 = int ((n - k) mod 256)" using assms(2) by (simp add: mod_diff_left_eq of_nat_diff zmod_int)
  finally have "int (unat (idx - of_nat k) mod 256) = int ((n - k) mod 256)" by (simp add: zmod_int)
  then show ?thesis by (simp only: and_255 of_nat_eq_iff)
qed

section \<open>The window\<close>

text \<open>
  The last 127 samples and, in the place of the newest, the sample before the last 255: the index
  points at the cell that will be written next.
\<close>

definition window :: "u16 list \<Rightarrow> u16 list" where
  "window p = drop (length p - 127) p @ [p ! (length p - 256)]"

definition gain :: "u16 list \<Rightarrow> u16 list" where
  "gain xs = normalise (fold (\<lambda>x mn. if ucast x < mn then ucast x else mn) (rev xs) 0xFFFF)
     (fold (\<lambda>x mx. if ucast x > mx then ucast x else mx) (rev xs) 0) (fold (\<lambda>x a. a + 512 * ucast x) (rev xs) 512) xs"

lemma ucast_back [simp]: "ucast (ucast (x :: u16) :: u32) = x"
  by (rule bit_word_eqI) (simp add: bit_simps)

lemma gain_read_reads:
  assumes "length inp = 256"
  shows "xs = map (\<lambda>k. inp ! unat ((idx - of_nat k) AND 0xFF)) [0..<n] \<Longrightarrow>
    gain_read inp n idx mn mx avg ds =
      Some (fold (\<lambda>x mn. if ucast x < mn then ucast x else mn) xs mn, fold (\<lambda>x mx. if ucast x > mx then ucast x else mx) xs mx,
        fold (\<lambda>x a. a + 512 * ucast x) xs avg, rev xs @ ds)"
proof (induction n arbitrary: idx mn mx avg ds xs)
  case (Suc n)
  have xs: "xs = inp ! unat (idx AND 0xFF) # map (\<lambda>k. inp ! unat ((idx - 1 - of_nat k) AND 0xFF)) [0..<n]"
    unfolding Suc.prems by (simp add: upt_conv_Cons map_Suc_upt [symmetric] comp_def algebra_simps del: upt_Suc)
  have "unat (idx AND 0xFF) < 256" by (simp add: and_255)
  then show ?case
    using Suc.IH [OF refl, of "idx - 1"] assms by (simp add: xs DTMFsz_def DTMF_DATA_DEEP_def Let_def)
qed simp

lemma back_window:
  assumes "remembers p inp" "unat (idx :: u32) mod 256 = length p mod 256"
  shows "map (\<lambda>k. inp ! unat ((idx - of_nat k) AND 0xFF)) [0..<128] = rev (window p)"
proof (rule nth_equalityI)
  have p: "256 \<le> length p" using assms(1) by (simp add: remembers_def)
  then show "length (map (\<lambda>k. inp ! unat ((idx - of_nat k) AND 0xFF)) [0..<128]) = length (rev (window p))"
    by (simp add: window_def)
  fix k assume "k < length (map (\<lambda>k. inp ! unat ((idx - of_nat k) AND 0xFF)) [0..<128])"
  then have k: "k < 128" by simp
  then have "map (\<lambda>k. inp ! unat ((idx - of_nat k) AND 0xFF)) [0..<128] ! k = inp ! ((length p - k) mod 256)"
    using index_back [OF assms(2), of k] p by simp
  also have "\<dots> = rev (window p) ! k"
  proof (cases k)
    case 0
    have "length p mod 256 = (length p - 256) mod 256" using p by (metis le_mod_geq)
    with 0 p assms(1) show ?thesis by (simp add: remembers_def window_def)
  next
    case (Suc j)
    with k p assms(1) show ?thesis by (simp add: remembers_def window_def rev_nth)
  qed
  finally show "map (\<lambda>k. inp ! unat ((idx - of_nat k) AND 0xFF)) [0..<128] ! k = rev (window p) ! k" .
qed

lemma GainControl_window:
  assumes "remembers p (AInput t)" "unat (AIindex t) mod 256 = length p mod 256"
  shows "GainControl t = Some (gain (window p))"
proof -
  have "length (AInput t) = 256" using assms(1) by (simp add: remembers_def)
  from gain_read_reads [OF this back_window [OF assms, symmetric]] show ?thesis
    by (simp add: GainControl_def gain_def DTMF_DATA_DEEP_def)
qed

section \<open>The vote\<close>

text \<open>The digits of the last four windows, oldest first.\<close>

definition recent :: "DTMF \<Rightarrow> bytes" where
  "recent t = rotate (unat (dt_d_i t) mod 4) (dt_d t)"

lemma and_3_mod: "unat ((x :: u32) AND 3) = unat x mod 4"
proof -
  have "x AND 3 = take_bit 2 x" by (simp add: take_bit_eq_mask mask_eq_exp_minus_1)
  then show ?thesis by (simp only: unsigned_take_bit_eq) (simp add: take_bit_eq_mod)
qed

lemma unat_inc_mod_4: "unat ((x :: u32) + 1) mod 4 = Suc (unat x) mod 4"
proof -
  have wrap: "(unat x + 1) mod 2 ^ 32 mod 4 = (unat x + 1) mod 4" by (rule mod_mod_cancel) simp
  have "unat (x + 1) = (unat x + 1) mod 2 ^ 32" using unat_word_ariths(1) [of x 1] by simp
  with wrap show ?thesis by (simp only: Suc_eq_plus1)
qed

lemma rotate_2_3: "rotate 2 [a, b, c, e] = [c, e, a, b]" "rotate 3 [a, b, c, e] = [e, a, b, c]"
  by (simp_all add: rotate_drop_take)

lemma four_cells:
  assumes "length ds = 4"
  obtains a b c e where "ds = [a, b, c, e]"
  using assms by (auto simp: length_Suc_conv numeral_eq_Suc)

lemma rotate_put:
  assumes "length ds = 4" "r < 4"
  shows "rotate (Suc r mod 4) (ds[r := d]) = tl (rotate r ds) @ [d]"
proof -
  from assms(1) obtain a b c e where ds: "ds = [a, b, c, e]" by (rule four_cells)
  from assms(2) consider "r = 0" | "r = 1" | "r = 2" | "r = 3" by linarith
  then show ?thesis by cases (simp_all add: ds rotate_2_3)
qed

lemma count_rotate: "count_list (rotate n xs) d = count_list xs d"
proof -
  let ?k = "n mod length xs"
  have "count_list (rotate n xs) d = count_list (take ?k xs) d + count_list (drop ?k xs) d"
    unfolding rotate_drop_take count_list_append by (rule add.commute)
  also have "\<dots> = count_list xs d" unfolding count_list_append [symmetric] append_take_drop_id ..
  finally show ?thesis .
qed

lemma vote_count:
  assumes "length ds = 4"
  shows "length (filter (\<lambda>x. x = d) [ds ! 0, ds ! Suc 0, ds ! 2, ds ! 3]) = count_list (rotate n ds) d"
proof -
  from assms obtain a b c e where ds: "ds = [a, b, c, e]" by (rule four_cells)
  show ?thesis unfolding count_rotate by (simp add: ds)
qed

definition elects :: "bytes \<Rightarrow> u8 \<Rightarrow> u8 \<Rightarrow> bool" where
  "elects h cur d \<longleftrightarrow> 2 \<le> count_list h d \<and> cur \<noteq> d"

lemma window_digit_votes:
  assumes "length (dt_d t) = 4"
  shows "\<exists>t'. window_digit d t = Some t' \<and> length (dt_d t') = 4 \<and> recent t' = tl (recent t) @ [d]
    \<and> dt_digit t' = (if elects (recent t) (dt_digit t) d then d else dt_digit t)
    \<and> dt_new t' = (if elects (recent t) (dt_digit t) d \<and> d \<noteq> 0 then 1 else dt_new t)
    \<and> AIindex t' = AIindex t \<and> AIcheck t' = AIcheck t \<and> AInput t' = AInput t"
proof -
  let ?r = "unat (dt_d_i t) mod 4"
  have put: "rotate (Suc (unat (dt_d_i t)) mod 4) ((dt_d t)[?r := d]) = tl (recent t) @ [d]"
    using rotate_put [OF assms, of ?r d] by (simp add: recent_def mod_Suc_eq)
  have "window_digit d t = Some (let t' = t\<lparr>dt_early := d, dt_d := (dt_d t)[?r := d], dt_d_i := dt_d_i t + 1\<rparr>
      in if elects (recent t) (dt_digit t) d then t'\<lparr>dt_digit := d, dt_new := (if d \<noteq> 0 then 1 else dt_new t)\<rparr> else t')"
    using vote_count [OF assms, of d ?r] assms
    by (simp add: window_digit_def and_3_mod Let_def recent_def [symmetric] elects_def del: filter.simps)
  then show ?thesis using put assms by (simp add: recent_def Let_def unat_inc_mod_4)
qed

section \<open>The timer and the task\<close>

text \<open>One period of the timer with the sample \<open>x\<close>: the update flag is set and the interrupt runs.\<close>

definition timer_tick :: "u16 \<Rightarrow> dtmf \<Rightarrow> dtmf option" where
  "timer_tick x s = TIM3_IRQHandler x (s\<lparr>TIM3 := (TIM3 s)\<lparr>tim_SR := tim_SR (TIM3 s) OR 1\<rparr>\<rparr>)"

fun ticks :: "u16 list \<Rightarrow> dtmf \<Rightarrow> dtmf option" where
  "ticks [] s = Some s"
| "ticks (x # xs) s = do { s \<leftarrow> timer_tick x s; ticks xs s }"

text \<open>The main loop: the task is called after each block of samples, of any length, and returns a character.\<close>

fun hear :: "u16 list list \<Rightarrow> dtmf \<Rightarrow> (bytes \<times> dtmf) option" where
  "hear [] s = Some ([], s)"
| "hear (b # bs) s = do {
     s \<leftarrow> ticks b s;
     (c, s) \<leftarrow> DTMF_Task s;
     (cs, s) \<leftarrow> hear bs s;
     Some (c # cs, s)
   }"

text \<open>
  What the task returns as a function of the samples: \<open>need\<close> samples are missing to the next window,
  \<open>cur\<close> is the digit found last and \<open>h\<close> holds the digits of the last four windows.
\<close>

definition reported :: "bytes \<Rightarrow> u8 \<Rightarrow> u8 \<Rightarrow> u8" where
  "reported h cur d = (if elects h cur d \<and> d \<noteq> 0 then DTMFchar ! unat (d AND 0x0F) else 0)"

fun reports :: "u16 list \<Rightarrow> nat \<Rightarrow> u8 \<Rightarrow> bytes \<Rightarrow> u16 list list \<Rightarrow> bytes" where
  "reports p need cur h [] = []"
| "reports p need cur h (b # bs) =
     (if length b < need then 0 # reports (p @ b) (need - length b) cur h bs
      else
        (let d = DTMF_digit (gain (window (p @ b)))
         in reported h cur d # reports (p @ b) 85 (if elects h cur d then d else cur) (tl h @ [d]) bs))"

definition tuned :: "u16 list \<Rightarrow> dtmf \<Rightarrow> bool" where
  "tuned p s \<longleftrightarrow> DEMF_Enable s \<noteq> 0 \<and> remembers p (AInput (dail1 s))
     \<and> unat (AIindex (dail1 s)) mod 256 = length p mod 256
     \<and> length (dt_d (dail1 s)) = 4 \<and> dt_new (dail1 s) = 0 \<and> rb_inv (DTMF_ringBuff s)"

definition listening :: "u16 list \<Rightarrow> nat \<Rightarrow> dtmf \<Rightarrow> bool" where
  "listening p need s \<longleftrightarrow> tuned p s
     \<and> unat (AIcheck (dail1 s)) = unat (AIindex (dail1 s)) + need \<and> unat (AIcheck (dail1 s)) \<le> 340"

lemma flag_set: "((r :: u16) OR 1) AND 1 \<noteq> 0"
proof
  assume "(r OR 1) AND 1 = 0"
  then have "bit ((r OR 1) AND 1) 0 = bit (0 :: u16) 0" by simp
  then show False by (simp add: bit_simps)
qed

lemma timer_tick_stores:
  assumes "remembers p (AInput (dail1 s))" "unat (AIindex (dail1 s)) mod 256 = length p mod 256"
  shows "timer_tick x s = Some (s\<lparr>toggle := toggle s XOR 1, TIM3 := (TIM3 s)\<lparr>tim_SR := NOT 1\<rparr>,
      dail1 := (dail1 s)\<lparr>AInput := (AInput (dail1 s))[length p mod 256 := x], AIindex := AIindex (dail1 s) + 1\<rparr>\<rparr>)"
proof -
  have "length (AInput (dail1 s)) = 256" using assms(1) by (simp add: remembers_def)
  then show ?thesis
    using assms(2) by (simp add: timer_tick_def TIM3_IRQHandler_def DTMFsz_def and_255 flag_set Let_def)
qed

text \<open>What a block of samples leaves as it was.\<close>

definition same_digits :: "dtmf \<Rightarrow> dtmf \<Rightarrow> bool" where
  "same_digits s s' \<longleftrightarrow> DEMF_Enable s' = DEMF_Enable s \<and> DTMF_ringBuff s' = DTMF_ringBuff s
     \<and> AIcheck (dail1 s') = AIcheck (dail1 s) \<and> dt_d (dail1 s') = dt_d (dail1 s) \<and> dt_d_i (dail1 s') = dt_d_i (dail1 s)
     \<and> dt_digit (dail1 s') = dt_digit (dail1 s) \<and> dt_new (dail1 s') = dt_new (dail1 s)"

lemma inc_mod_256:
  assumes "unat (i :: u32) mod 256 = n mod 256" "unat i + 1 < 4294967296"
  shows "unat (i + 1) mod 256 = Suc n mod 256" "unat (i + 1) = unat i + 1"
proof -
  show "unat (i + 1) = unat i + 1" using assms(2) by (simp add: unat_word_ariths(1))
  then show "unat (i + 1) mod 256 = Suc n mod 256" using assms(1) by (simp add: mod_Suc)
qed

lemma ticks_remember:
  assumes "remembers p (AInput (dail1 s))" "unat (AIindex (dail1 s)) mod 256 = length p mod 256"
    "unat (AIindex (dail1 s)) + length b < 4294967296"
  shows "\<exists>s'. ticks b s = Some s' \<and> same_digits s s' \<and> remembers (p @ b) (AInput (dail1 s'))
    \<and> unat (AIindex (dail1 s')) mod 256 = length (p @ b) mod 256
    \<and> unat (AIindex (dail1 s')) = unat (AIindex (dail1 s)) + length b"
  using assms
proof (induction b arbitrary: p s)
  case Nil
  then show ?case by (simp add: same_digits_def)
next
  case (Cons x b)
  define s1 where "s1 = s\<lparr>toggle := toggle s XOR 1, TIM3 := (TIM3 s)\<lparr>tim_SR := NOT 1\<rparr>,
      dail1 := (dail1 s)\<lparr>AInput := (AInput (dail1 s))[length p mod 256 := x], AIindex := AIindex (dail1 s) + 1\<rparr>\<rparr>"
  have tick: "timer_tick x s = Some s1" unfolding s1_def by (rule timer_tick_stores [OF Cons.prems(1,2)])
  have i: "unat (AIindex (dail1 s)) + 1 < 4294967296" using Cons.prems(3) by simp
  note inc = inc_mod_256 [OF Cons.prems(2) i]
  have s1: "remembers (p @ [x]) (AInput (dail1 s1))" "AIindex (dail1 s1) = AIindex (dail1 s) + 1" "same_digits s s1"
    using remembers_store [OF Cons.prems(1)] by (simp_all add: s1_def same_digits_def)
  have "unat (AIindex (dail1 s1)) mod 256 = length (p @ [x]) mod 256" using inc(1) s1(2) by simp
  moreover have "unat (AIindex (dail1 s1)) + length b < 4294967296" using inc(2) s1(2) Cons.prems(3) by simp
  ultimately obtain s' where "ticks b s1 = Some s'" "same_digits s1 s'" "remembers ((p @ [x]) @ b) (AInput (dail1 s'))"
    "unat (AIindex (dail1 s')) mod 256 = length ((p @ [x]) @ b) mod 256"
    "unat (AIindex (dail1 s')) = unat (AIindex (dail1 s1)) + length b"
    using Cons.IH [OF s1(1)] by blast
  then show ?case using tick s1(2,3) inc(2) by (simp add: same_digits_def)
qed

section \<open>One call of the task\<close>

lemma DTMF_Task_waits:
  assumes "listening p need s" "0 < need"
  shows "DTMF_Task s = Some (0, s)"
  using assms by (simp add: listening_def tuned_def DTMF_Task_def word_le_nat_alt)

text \<open>A window is complete: what \<open>DTMF_Detect\<close> leaves, and what the task reports.\<close>

lemma DTMF_Detect_window:
  assumes "remembers p (AInput (dail1 s))" "unat (AIindex (dail1 s)) mod 256 = length p mod 256"
    "AIcheck (dail1 s) \<le> AIindex (dail1 s)" "length (dt_d (dail1 s)) = 4" "dt_new (dail1 s) = 0"
    "d = DTMF_digit (gain (window p))" "e = elects (recent (dail1 s)) (dt_digit (dail1 s)) d"
  shows "\<exists>t. DTMF_Detect s = Some (s\<lparr>dail1 := t, DTMFin := gain (window p)\<rparr>) \<and> length (dt_d t) = 4
    \<and> recent t = tl (recent (dail1 s)) @ [d] \<and> dt_digit t = (if e then d else dt_digit (dail1 s))
    \<and> dt_new t = (if e \<and> d \<noteq> 0 then 1 else 0) \<and> AInput t = AInput (dail1 s)
    \<and> AIindex t = AIindex (dail1 s) AND 0xFF \<and> AIcheck t = (AIindex (dail1 s) AND 0xFF) + 85"
proof -
  let ?t = "(dail1 s)\<lparr>AIindex := AIindex (dail1 s) AND 0xFF, AIcheck := (AIindex (dail1 s) AND 0xFF) + 85\<rparr>"
  have "length (dt_d ?t) = 4" using assms(4) by simp
  from window_digit_votes [OF this, of d] obtain t where t: "window_digit d ?t = Some t" "length (dt_d t) = 4"
    "recent t = tl (recent ?t) @ [d]" "dt_digit t = (if elects (recent ?t) (dt_digit ?t) d then d else dt_digit ?t)"
    "dt_new t = (if elects (recent ?t) (dt_digit ?t) d \<and> d \<noteq> 0 then 1 else dt_new ?t)"
    "AIindex t = AIindex ?t" "AIcheck t = AIcheck ?t" "AInput t = AInput ?t" by blast
  have r: "recent ?t = recent (dail1 s)" "dt_digit ?t = dt_digit (dail1 s)" "dt_new ?t = 0"
    using assms(5) by (simp_all add: recent_def)
  have "DTMF_Detect s = Some (s\<lparr>dail1 := t, DTMFin := gain (window p)\<rparr>)"
    using t(1) assms(3) by (simp add: DTMF_Detect_def GainControl_window [OF assms(1,2)] assms(6) [symmetric] DTMFsz_def DTMF_DATA_DEEP_def)
  with t(2-8) show ?thesis unfolding r assms(7) [symmetric] by (intro exI [of _ t]) simp
qed

lemma take_take_append: "take n (take n xs @ ys) = take n (xs @ ys)"
  by (cases "n \<le> length xs") simp_all

text \<open>The queue of the digits keeps the oldest ones: a digit that finds it full is dropped.\<close>

lemma RINGBUF_Put_keeps:
  assumes "rb_inv r"
  shows "\<exists>rc r'. RINGBUF_Put r c = Some (rc, r') \<and> rb_inv r' \<and> rb_cap r' = rb_cap r
    \<and> rb_list r' = take (rb_cap r) (rb_list r @ [c])"
proof -
  from rb.put_total [OF assms, of c] obtain rc r' where r': "RINGBUF_Put r c = Some (rc, r')" "rb_inv r'" "rb_cap r' = rb_cap r"
    "if length (rb_list r) < rb_cap r then rc = 0 \<and> rb_list r' = rb_list r @ [c] else rc = - 1 \<and> r' = r" by blast
  have "length (rb_list r) \<le> rb_cap r" by (rule rb.bounded [OF assms])
  then have "rb_list r' = take (rb_cap r) (rb_list r @ [c])" using r'(4) by (cases "length (rb_list r) < rb_cap r") simp_all
  with r'(1-3) show ?thesis by blast
qed

lemma DTMFchar_in: "unat ((d :: u8) AND 0x0F) < length DTMFchar"
proof -
  have "d AND 0x0F = take_bit 4 d" by (simp add: take_bit_eq_mask mask_eq_exp_minus_1)
  then have "unat (d AND 0x0F) < 16" by (simp only: unsigned_take_bit_eq) (simp add: take_bit_eq_mod)
  then show ?thesis by (simp add: DTMFchar_def ascii_def)
qed

definition keeps_digits :: "dtmf \<Rightarrow> bytes \<Rightarrow> dtmf \<Rightarrow> bool" where
  "keeps_digits s cs s' \<longleftrightarrow> rb_cap (DTMF_ringBuff s') = rb_cap (DTMF_ringBuff s)
     \<and> rb_list (DTMF_ringBuff s') = take (rb_cap (DTMF_ringBuff s)) (rb_list (DTMF_ringBuff s) @ filter (\<lambda>c. c \<noteq> 0) cs)"

lemma keeps_digits_0: "rb_inv (DTMF_ringBuff s) \<Longrightarrow> keeps_digits s [0] s"
  using rb.bounded [of "DTMF_ringBuff s"] by (simp add: keeps_digits_def)

lemma keeps_digits_trans:
  assumes "keeps_digits s cs s1" "keeps_digits s1 cs' s2"
  shows "keeps_digits s (cs @ cs') s2"
proof -
  let ?q = "DTMF_ringBuff s" and ?f = "filter (\<lambda>c. c \<noteq> 0)"
  have "rb_list (DTMF_ringBuff s2) = take (rb_cap ?q) (take (rb_cap ?q) (rb_list ?q @ ?f cs) @ ?f cs')"
    using assms by (simp only: keeps_digits_def)
  also have "\<dots> = take (rb_cap ?q) (rb_list ?q @ ?f (cs @ cs'))" by (simp only: take_take_append filter_append append_assoc)
  finally show ?thesis using assms by (simp only: keeps_digits_def)
qed

lemma DTMFchar_nonzero: "DTMFchar ! unat ((d :: u8) AND 0x0F) \<noteq> 0"
proof -
  have "list_all (\<lambda>c. c \<noteq> 0) DTMFchar" by code_simp
  then show ?thesis using DTMFchar_in [of d] by (simp add: list_all_length)
qed

lemma DTMF_Task_window:
  assumes "tuned p s" "AIcheck (dail1 s) \<le> AIindex (dail1 s)" "d = DTMF_digit (gain (window p))"
    "e = elects (recent (dail1 s)) (dt_digit (dail1 s)) d" "c = reported (recent (dail1 s)) (dt_digit (dail1 s)) d"
  shows "\<exists>s'. DTMF_Task s = Some (c, s') \<and> listening p 85 s' \<and> recent (dail1 s') = tl (recent (dail1 s)) @ [d]
    \<and> dt_digit (dail1 s') = (if e then d else dt_digit (dail1 s)) \<and> keeps_digits s [c] s'"
proof -
  have t: "DEMF_Enable s \<noteq> 0" "remembers p (AInput (dail1 s))" "unat (AIindex (dail1 s)) mod 256 = length p mod 256"
    "length (dt_d (dail1 s)) = 4" "dt_new (dail1 s) = 0" "rb_inv (DTMF_ringBuff s)"
    using assms(1) by (simp_all add: tuned_def)
  from DTMF_Detect_window [OF t(2,3) assms(2) t(4,5) assms(3,4)] obtain u where
    u: "DTMF_Detect s = Some (s\<lparr>dail1 := u, DTMFin := gain (window p)\<rparr>)" "length (dt_d u) = 4"
      "recent u = tl (recent (dail1 s)) @ [d]" "dt_digit u = (if e then d else dt_digit (dail1 s))"
      "dt_new u = (if e \<and> d \<noteq> 0 then 1 else 0)" "AInput u = AInput (dail1 s)"
      "AIindex u = AIindex (dail1 s) AND 0xFF" "AIcheck u = (AIindex (dail1 s) AND 0xFF) + 85" by blast
  have i: "unat (AIindex u) = unat (AIindex (dail1 s)) mod 256" "unat (AIcheck u) = unat (AIindex (dail1 s)) mod 256 + 85"
    using u(7,8) by (simp_all add: and_255 unat_word_ariths(1))
  have on: "listening p 85 s'" if "DEMF_Enable s' = DEMF_Enable s" "AInput (dail1 s') = AInput u" "AIindex (dail1 s') = AIindex u"
    "AIcheck (dail1 s') = AIcheck u" "dt_d (dail1 s') = dt_d u" "dt_new (dail1 s') = 0" "rb_inv (DTMF_ringBuff s')" for s'
    using that t(1-3) u(2,6) i by (simp add: listening_def tuned_def)
  show ?thesis
  proof (cases "e \<and> d \<noteq> 0")
    case False
    then have c: "c = 0" using assms(4,5) by (auto simp: reported_def)
    let ?s = "s\<lparr>dail1 := u, DTMFin := gain (window p)\<rparr>"
    have new: "dt_new u = 0" using False u(5) by simp
    have "DTMF_Task s = Some (c, ?s)" using t(1) assms(2) u(1) new by (simp add: DTMF_Task_def c)
    moreover have "listening p 85 ?s" by (rule on) (simp_all add: new t(6))
    moreover have "keeps_digits s [c] ?s" using keeps_digits_0 [OF t(6)] by (simp add: keeps_digits_def c)
    ultimately show ?thesis using u(3,4) by (intro exI [of _ ?s]) simp
  next
    case True
    then have c: "c = DTMFchar ! unat (dt_digit u AND 0x0F)" using assms(4,5) u(4) by (simp add: reported_def)
    from RINGBUF_Put_keeps [OF t(6), of c] obtain rc r' where r': "RINGBUF_Put (DTMF_ringBuff s) c = Some (rc, r')" "rb_inv r'"
      "rb_cap r' = rb_cap (DTMF_ringBuff s)" "rb_list r' = take (rb_cap (DTMF_ringBuff s)) (rb_list (DTMF_ringBuff s) @ [c])" by blast
    let ?s = "s\<lparr>dail1 := u\<lparr>dt_new := 0\<rparr>, DTMFin := gain (window p), DTMF_ringBuff := r'\<rparr>"
    have new: "dt_new u = 1" using True u(5) by simp
    have "DTMF_Task s = Some (c, ?s)"
      using t(1) assms(2) u(1) new r'(1) DTMFchar_in [of "dt_digit u"] by (simp add: DTMF_Task_def c [symmetric])
    moreover have "listening p 85 ?s" by (rule on) (simp_all add: r'(2))
    moreover have "keeps_digits s [c] ?s" using r'(3,4) DTMFchar_nonzero [of "dt_digit u"] by (simp add: keeps_digits_def c [symmetric])
    ultimately show ?thesis using u(3,4) by (intro exI [of _ ?s]) (simp add: recent_def)
  qed
qed

section \<open>The digits of a stream of samples\<close>

lemma same_digits_recent: "same_digits s s' \<Longrightarrow> recent (dail1 s') = recent (dail1 s)"
  by (simp add: same_digits_def recent_def)

lemma hear_step:
  assumes "listening p need s" "length b < 0x80000000"
  shows "\<exists>s1. ticks b s = Some s1 \<and> same_digits s s1 \<and> tuned (p @ b) s1
    \<and> (if length b < need then listening (p @ b) (need - length b) s1 else AIcheck (dail1 s1) \<le> AIindex (dail1 s1))"
proof -
  have l: "tuned p s" "unat (AIcheck (dail1 s)) = unat (AIindex (dail1 s)) + need" "unat (AIcheck (dail1 s)) \<le> 340"
    using assms(1) by (simp_all add: listening_def)
  then have t: "remembers p (AInput (dail1 s))" "unat (AIindex (dail1 s)) mod 256 = length p mod 256"
    "unat (AIindex (dail1 s)) + length b < 4294967296" using assms(2) by (simp_all add: tuned_def)
  from ticks_remember [OF this] obtain s1 where s1: "ticks b s = Some s1" "same_digits s s1"
    "remembers (p @ b) (AInput (dail1 s1))" "unat (AIindex (dail1 s1)) mod 256 = length (p @ b) mod 256"
    "unat (AIindex (dail1 s1)) = unat (AIindex (dail1 s)) + length b" by blast
  then have "tuned (p @ b) s1" using l(1) by (simp add: tuned_def same_digits_def)
  then show ?thesis using s1(1,2,5) l(2,3) by (auto simp: listening_def same_digits_def word_le_nat_alt)
qed

lemma hear_reports:
  assumes "listening p need s" "\<forall>b\<in>set bs. length b < 0x80000000"
    "cs = reports p need (dt_digit (dail1 s)) (recent (dail1 s)) bs"
  shows "\<exists>s' need'. hear bs s = Some (cs, s') \<and> listening (p @ concat bs) need' s' \<and> keeps_digits s cs s'"
  using assms
proof (induction bs arbitrary: p need s cs)
  case Nil
  then have "rb_inv (DTMF_ringBuff s)" by (simp add: listening_def tuned_def)
  then have "keeps_digits s [] s" using keeps_digits_0 [of s] by (simp add: keeps_digits_def)
  then show ?case using Nil.prems by (intro exI [of _ s] exI [of _ need]) simp
next
  case (Cons b bs)
  have b: "length b < 0x80000000" "\<forall>b\<in>set bs. length b < 0x80000000" using Cons.prems(2) by simp_all
  from hear_step [OF Cons.prems(1) b(1)] obtain s1 where s1: "ticks b s = Some s1" "same_digits s s1" "tuned (p @ b) s1"
    "if length b < need then listening (p @ b) (need - length b) s1 else AIcheck (dail1 s1) \<le> AIindex (dail1 s1)" by blast
  have same: "recent (dail1 s1) = recent (dail1 s)" "dt_digit (dail1 s1) = dt_digit (dail1 s)"
    "DTMF_ringBuff s1 = DTMF_ringBuff s"
    using s1(2) same_digits_recent [OF s1(2)] by (simp_all add: same_digits_def)
  obtain c s2 need2 cs2 where s2: "DTMF_Task s1 = Some (c, s2)" "listening (p @ b) need2 s2" "keeps_digits s [c] s2"
    "cs = c # cs2" "cs2 = reports (p @ b) need2 (dt_digit (dail1 s2)) (recent (dail1 s2)) bs"
  proof (cases "length b < need")
    case True
    then have l: "listening (p @ b) (need - length b) s1" using s1(4) by simp
    moreover have "DTMF_Task s1 = Some (0, s1)" using True by (intro DTMF_Task_waits [OF l]) simp
    moreover have "keeps_digits s [0] s1" using keeps_digits_0 [of s1] s1(3) same(3) by (simp add: tuned_def keeps_digits_def)
    ultimately show ?thesis using that Cons.prems(3) True same by simp
  next
    case False
    then have check: "AIcheck (dail1 s1) \<le> AIindex (dail1 s1)" using s1(4) by simp
    define d where "d = DTMF_digit (gain (window (p @ b)))"
    define c where "c = reported (recent (dail1 s)) (dt_digit (dail1 s)) d"
    define e where "e = elects (recent (dail1 s)) (dt_digit (dail1 s)) d"
    from DTMF_Task_window [OF s1(3) check d_def e_def [folded same] c_def [folded same]] obtain s2 where
      s2: "DTMF_Task s1 = Some (c, s2)" "listening (p @ b) 85 s2" "recent (dail1 s2) = tl (recent (dail1 s1)) @ [d]"
      "dt_digit (dail1 s2) = (if e then d else dt_digit (dail1 s1))" "keeps_digits s1 [c] s2" by blast
    have "keeps_digits s [c] s2" using s2(5) same(3) by (simp only: keeps_digits_def)
    moreover have "cs = c # reports (p @ b) 85 (dt_digit (dail1 s2)) (recent (dail1 s2)) bs"
      using False unfolding Cons.prems(3) s2(3,4) same(1,2) c_def e_def d_def by (simp only: reports.simps Let_def if_False)
    ultimately show ?thesis using that s2(1,2) by blast
  qed
  from Cons.IH [OF s2(2) b(2) s2(5)] obtain s' need' where "hear bs s2 = Some (cs2, s')"
    "listening ((p @ b) @ concat bs) need' s'" "keeps_digits s2 cs2 s'" by blast
  moreover from this(3) have "keeps_digits s cs s'" using keeps_digits_trans [OF s2(3)] by (simp add: s2(4))
  ultimately show ?case by (intro exI [of _ s'] exI [of _ need']) (simp add: s1(1) s2(1) s2(4))
qed

section \<open>A digit held and a flat line\<close>

text \<open>Blocks of 85 samples whose windows all show the digit \<open>d\<close>.\<close>

fun tone :: "u8 \<Rightarrow> u16 list \<Rightarrow> u16 list list \<Rightarrow> bool" where
  "tone d p [] = True"
| "tone d p (b # bs) = (length b = 85 \<and> DTMF_digit (gain (window (p @ b))) = d \<and> tone d (p @ b) bs)"

lemma tone_lengths: "tone d p bs \<Longrightarrow> \<forall>b\<in>set bs. length b < 0x80000000"
  by (induction bs arbitrary: p) auto

lemma reports_held: "tone d p bs \<Longrightarrow> reports p 85 d h bs = replicate (length bs) 0"
  by (induction bs arbitrary: p h) (simp_all add: reported_def elects_def Let_def)

lemma reports_digit_once:
  assumes "tone d p (b1 # b2 # b3 # bs)" "d \<noteq> 0" "cur \<noteq> d" "count_list h d = 0" "length h = 4"
  shows "reports p 85 cur h (b1 # b2 # b3 # bs) = [0, 0, DTMFchar ! unat (d AND 0x0F)] @ replicate (length bs) 0"
proof -
  from assms(5) obtain u v w x where h: "h = [u, v, w, x]" by (rule four_cells)
  then have no: "\<not> elects h cur d" "\<not> elects (tl h @ [d]) cur d" "elects (tl (tl h @ [d]) @ [d]) cur d"
    using assms(3,4) by (auto simp: elects_def split: if_splits)
  have "tone d (((p @ b1) @ b2) @ b3) bs" "\<not> length b1 < 85" "\<not> length b2 < 85" "\<not> length b3 < 85"
    and digits: "DTMF_digit (gain (window (p @ b1))) = d" "DTMF_digit (gain (window ((p @ b1) @ b2))) = d"
      "DTMF_digit (gain (window (((p @ b1) @ b2) @ b3))) = d"
    using assms(1) by simp_all
  then show ?thesis using no assms(2)
    by (simp only: reports.simps Let_def if_False if_True digits reported_def reports_held not_False_eq_True simp_thms append_Cons append_Nil)
qed

text \<open>A line that does not move: whatever its level, the window is normalised to zeros.\<close>

lemma unat_wide: "unat (ucast (x :: u16) :: u32) = unat x" "unat (x :: u16) < 65536"
proof -
  show "unat x < 65536" by (rule order_less_le_trans [OF unsigned_less]) simp
  then show "unat (ucast x :: u32) = unat x" by (simp add: unsigned_ucast_eq take_bit_nat_eq_self)
qed

lemma flat_min: "0 < n \<Longrightarrow> fold (\<lambda>x mn :: u32. if ucast x < mn then ucast x else mn) (replicate n (x :: u16)) 0xFFFF = ucast x"
proof (induction n)
  case (Suc n)
  have "(ucast x :: u32) < 0xFFFF \<or> (ucast x :: u32) = 0xFFFF"
    using unat_wide [of x] by (auto simp: word_less_nat_alt word_unat_eq_iff)
  moreover have "fold (\<lambda>x mn :: u32. if ucast x < mn then ucast x else mn) (replicate n x) (ucast x) = ucast x"
    by (induction n) simp_all
  ultimately show ?case by (auto split: if_splits)
qed simp

lemma flat_max: "0 < n \<Longrightarrow> fold (\<lambda>x mx :: u32. if ucast x > mx then ucast x else mx) (replicate n (x :: u16)) 0 = ucast x"
proof (induction n)
  case (Suc n)
  have "(0 :: u32) < ucast x \<or> (ucast x :: u32) = 0" by (auto simp: word_gt_0)
  moreover have "fold (\<lambda>x mx :: u32. if ucast x > mx then ucast x else mx) (replicate n x) (ucast x) = ucast x"
    by (induction n) simp_all
  ultimately show ?case by auto
qed simp

lemma flat_sum: "fold (\<lambda>x a :: u32. a + 512 * ucast x) (replicate n (x :: u16)) a = a + of_nat n * (512 * ucast x)"
  by (induction n arbitrary: a) (simp_all add: algebra_simps)

lemma flat_average: "drop_bit 16 (512 + 65536 * ucast (x :: u16) :: u32) = ucast x"
proof (rule word_unat_eq_iff [THEN iffD2])
  have "unat (512 + 65536 * ucast x :: u32) = 512 + 65536 * unat x"
    using unat_wide [of x] by (simp add: unat_word_ariths)
  moreover have "drop_bit 16 (512 + 65536 * unat x) = unat x" by (simp add: drop_bit_eq_div)
  ultimately show "unat (drop_bit 16 (512 + 65536 * ucast x :: u32)) = unat (ucast x :: u32)"
    by (simp only: unat_drop_bit_eq unat_wide)
qed

lemma scale_up_level: "scale_up (ucast x) 8 x = 0"
proof -
  have "take_bit 16 (uint x) = uint x" by (simp add: bintr_uint)
  then have "sint x - uint x = 0 \<or> sint x - uint x = - 65536" by (simp add: sint_uint signed_take_bit_eq_take_bit_minus)
  then have "(word_of_int (sint x - uint x) :: u32) = 0 \<or> (word_of_int (sint x - uint x) :: u32) = word_of_int (- 65536)"
    by (elim disjE) (simp_all only: of_int_0 simp_thms)
  moreover have "(word_of_int (sint x - uint x) :: u32) = scast x - ucast x" by simp
  ultimately have "(scast x - ucast x :: u32) = 0 \<or> (scast x - ucast x :: u32) = word_of_int (- 65536)" by (simp only:)
  moreover have "ucast (push_bit 8 (word_of_int (- 65536)) :: u32) = (0 :: u16)" by code_simp
  ultimately show ?thesis by (auto simp: scale_up_def)
qed

lemma gain_flat: "gain (replicate 128 x) = replicate 128 0"
proof -
  have "gain_shift 15 0 0 = 15" by code_simp
  then have "normalise (ucast x) (ucast x) (512 + 65536 * ucast x) (replicate 128 x) = map (scale_up (ucast x) 8) (replicate 128 x)"
    by (simp add: normalise_def flat_average Let_def)
  also have "\<dots> = replicate 128 0" unfolding map_replicate scale_up_level ..
  finally show ?thesis using flat_sum [of 128 x 512] by (simp add: gain_def flat_min flat_max del: fold_replicate)
qed

lemma Goertzel_zeros: "Goertzel c (replicate n 0) = 0"
proof -
  have "fold (goertzel_step c) (replicate n 0) (0, 0) = (0, 0)" by (induction n) (simp_all add: goertzel_step_def)
  then show ?thesis by (simp add: Goertzel_def)
qed

lemma DTMF_digit_zeros: "DTMF_digit (replicate n 0) = 0"
proof -
  have "strongest [0, 0, 0, 0] 0x40 = (0, 0x40)" by code_simp
  then show ?thesis by (simp add: DTMF_digit_def Goertzel_zeros chk_valid_def)
qed

lemma window_flat: "256 \<le> n \<Longrightarrow> window (p @ replicate n x) = replicate 128 x"
  by (rule nth_equalityI) (auto simp: window_def nth_append less_Suc_eq)

lemma reports_flat:
  "256 \<le> n \<Longrightarrow> \<forall>b\<in>set bs. set b \<subseteq> {x} \<Longrightarrow> reports (p @ replicate n x) need cur h bs = replicate (length bs) 0"
proof (induction bs arbitrary: n need cur h)
  case (Cons b bs)
  then have "b = replicate (length b) x" by (intro replicate_eqI) auto
  then have b: "(p @ replicate n x) @ b = p @ replicate (n + length b) x" by (metis append.assoc replicate_add)
  have n: "256 \<le> n + length b" using Cons.prems(1) by simp
  then have d: "DTMF_digit (gain (window (p @ replicate (n + length b) x))) = 0"
    by (simp only: window_flat gain_flat DTMF_digit_zeros)
  have bs: "\<forall>b\<in>set bs. set b \<subseteq> {x}" using Cons.prems(2) by simp
  have "reported h cur 0 = 0" by (simp add: reported_def)
  then show ?case using Cons.IH [OF n bs] unfolding reports.simps b d by simp
qed simp

section \<open>Properties\<close>


text \<open>The memory of the program when it starts, with the detector switched on.\<close>

definition dtmf_boot :: dtmf where
  "dtmf_boot = DTMF_Init 72000000
     \<lparr>dail1 = \<lparr>AIindex = 0, AIcheck = 128, dt_digit = 0, dt_early = 0, dt_new = 0, dt_d = [0, 0, 0, 0], dt_d_i = 0, AInput = replicate 256 0\<rparr>,
      DTMFin = replicate 128 0, DTMF_ringBuff = \<lparr>rb_head = 0, rb_tail = 0, rb_size = 0, rb_pt = []\<rparr>, DTMF_buf = replicate 32 0,
      DEMF_Enable = 0, toggle = 0, TIM3 = \<lparr>APB1ENR = 0, tim_PSC = 0, tim_ARR = 0, tim_CR1 = 0, tim_CR2 = 0, tim_DIER = 0,
        tim_SR = 0, tim_priority = 0, tim_irq = False\<rparr>\<rparr>"

lemma dtmf_boot_listening:
  "listening (replicate 256 0) 128 dtmf_boot" "dt_digit (dail1 dtmf_boot) = 0" "recent (dail1 dtmf_boot) = [0, 0, 0, 0]"
  by (simp_all add: dtmf_boot_def DTMF_Init_def RINGBUF_Init_def TPM3_Init_def listening_def tuned_def remembers_def rb_inv_def recent_def Let_def)


text \<open>Property C29. A key held is reported once: if three or more windows show the digit \<open>d\<close>, which was in none of the last
  four windows, then the task returns its character after the third and nothing before or after, however long the
  key is held.\<close>

theorem DTMF_Task_digit_once:
  assumes "listening p 85 s" "tone d p (b1 # b2 # b3 # bs)" "d \<noteq> 0" "dt_digit (dail1 s) \<noteq> d" "count_list (recent (dail1 s)) d = 0"
  shows "\<exists>s'. hear (b1 # b2 # b3 # bs) s = Some ([0, 0, DTMFchar ! unat (d AND 0x0F)] @ replicate (length bs) 0, s')"
proof -
  have "length (recent (dail1 s)) = 4" using assms(1) by (simp add: listening_def tuned_def recent_def)
  from reports_digit_once [OF assms(2-5) this] hear_reports [OF assms(1) tone_lengths [OF assms(2)] refl] show ?thesis by auto
qed

text \<open>One step of the tones of the key 5, 753 and 1318 Hz, as the converter may deliver them.\<close>

definition key_5 :: "u16 list" where
  "key_5 =
   [2048, 2757, 2950, 2556, 1978, 1692, 1813, 2038, 2004, 1693, 1468, 1695, 2338, 2929, 2973, 2403, 1654,
    1279, 1469, 1926, 2192, 2102, 1912, 1992, 2402, 2784, 2701, 2083, 1349, 1059, 1420, 2109, 2581, 2554,
    2230, 2031, 2156, 2382, 2316, 1840, 1287, 1160, 1655, 2441, 2936, 2809, 2256, 1780, 1714, 1940, 2065,
    1866, 1542, 1515, 1987, 2676, 3037, 2747, 2013, 1395, 1312, 1694, 2104, 2184, 1994, 1904, 2170, 2627,
    2817, 2442, 1693, 1123, 1167, 1758, 2401, 2628, 2403, 2092, 2058, 2283, 2404, 2118, 1540, 1146, 1339]"

lemma window_append:
  assumes "256 \<le> length r"
  shows "window (q @ r) = window r"
proof -
  have "(q @ r) ! (length (q @ r) - 256) = r ! (length r - 256)" using assms by (simp add: nth_append less_diff_conv2)
  with assms show ?thesis by (simp add: window_def)
qed

lemma window_blocks: "length b = 85 \<Longrightarrow> window (b @ b @ b @ b) = drop 43 b @ b @ [b ! 84]"
  by (simp add: window_def nth_append)

text \<open>The window of steady tones, normalised, and its digit.\<close>

definition key_5_window :: "u16 list" where
  "key_5_window = drop 43 key_5 @ key_5 @ [key_5 ! 84]"

lemma key_5_gain:
  "gain key_5_window =
   [99, 223, 191, 53, 65470, 65453, 65510, 5, 65491, 65410, 65404, 65522, 158, 248, 176, 65528, 65374,
    65353, 65448, 15, 35, 65523, 65501, 31, 146, 193, 99, 65448, 65306, 65317, 65464, 89, 146, 90,
    12, 3, 60, 90, 18, 65410, 65311, 65360, 1, 178, 226, 128, 65519, 65448, 65478, 65534, 65526,
    65448, 65392, 65449, 73, 221, 232, 90, 65438, 65345, 65392, 65506, 37, 14, 65503, 65523, 89, 185,
    164, 10, 65362, 65290, 65380, 16, 134, 127, 46, 65533, 28, 84, 68, 65485, 65347, 65315, 65439,
    99, 223, 191, 53, 65470, 65453, 65510, 5, 65491, 65410, 65404, 65522, 158, 248, 176, 65528, 65374,
    65353, 65448, 15, 35, 65523, 65501, 31, 146, 193, 99, 65448, 65306, 65317, 65464, 89, 146, 90,
    12, 3, 60, 90, 18, 65410, 65311, 65360, 65360]"
proof -
  let ?w = "drop 43 key_5 @ key_5 @ [key_5 ! 84]"
  have "fold (\<lambda>x mn :: u32. if ucast x < mn then ucast x else mn) (rev ?w) 0xFFFF = 1059" by (simp add: key_5_def)
  moreover have "fold (\<lambda>x mx :: u32. if ucast x > mx then ucast x else mx) (rev ?w) 0 = 3037" by (simp add: key_5_def)
  moreover have "fold (\<lambda>x a :: u32. a + 512 * ucast x) (rev ?w) 512 = 133908480" by (simp add: key_5_def)
  ultimately have "gain key_5_window = normalise 1059 3037 133908480 ?w" unfolding gain_def key_5_window_def by (simp only:)
  also have "\<dots> =
   [99, 223, 191, 53, 65470, 65453, 65510, 5, 65491, 65410, 65404, 65522, 158, 248, 176, 65528, 65374,
    65353, 65448, 15, 35, 65523, 65501, 31, 146, 193, 99, 65448, 65306, 65317, 65464, 89, 146, 90,
    12, 3, 60, 90, 18, 65410, 65311, 65360, 1, 178, 226, 128, 65519, 65448, 65478, 65534, 65526,
    65448, 65392, 65449, 73, 221, 232, 90, 65438, 65345, 65392, 65506, 37, 14, 65503, 65523, 89, 185,
    164, 10, 65362, 65290, 65380, 16, 134, 127, 46, 65533, 28, 84, 68, 65485, 65347, 65315, 65439,
    99, 223, 191, 53, 65470, 65453, 65510, 5, 65491, 65410, 65404, 65522, 158, 248, 176, 65528, 65374,
    65353, 65448, 15, 35, 65523, 65501, 31, 146, 193, 99, 65448, 65306, 65317, 65464, 89, 146, 90,
    12, 3, 60, 90, 18, 65410, 65311, 65360, 65360]" by code_simp
  finally show ?thesis .
qed

lemma key_5_digit: "DTMF_digit (gain key_5_window) = 0x15"
  unfolding key_5_gain by code_simp

lemma key_5_tone: "tone 0x15 (q @ key_5 @ key_5 @ key_5) (replicate n key_5)"
proof (induction n arbitrary: q)
  case (Suc n)
  have len: "length key_5 = 85" by (simp add: key_5_def)
  then have "window (q @ key_5 @ key_5 @ key_5 @ key_5) = key_5_window"
    by (simp add: window_append window_blocks key_5_window_def)
  then show ?case using Suc.IH [of "q @ key_5"] len key_5_digit by simp
qed simp

text \<open>The key 1 was heard before, and three steps of the key 5 are in the memory.\<close>

definition dtmf_key :: dtmf where
  "dtmf_key = dtmf_boot\<lparr>dail1 := (dail1 dtmf_boot)\<lparr>AIcheck := 85, AInput := [0] @ key_5 @ key_5 @ key_5,
     dt_digit := 0x10, dt_d := [0x10, 0x10, 0, 0]\<rparr>\<rparr>"

lemma dtmf_key_listening: "listening ([0] @ key_5 @ key_5 @ key_5) 85 dtmf_key"
proof -
  have "length key_5 = 85" by (simp add: key_5_def)
  then show ?thesis using dtmf_boot_listening(1)
    by (simp add: listening_def tuned_def remembers_def dtmf_key_def dtmf_boot_def DTMF_Init_def RINGBUF_Init_def TPM3_Init_def Let_def)
qed

lemma DTMF_Task_digit_once_witness:
  "\<exists>s'. hear [key_5, key_5, key_5, key_5] dtmf_key = Some ([0, 0, 53, 0], s')"
proof -
  have t: "tone 0x15 ([0] @ key_5 @ key_5 @ key_5) [key_5, key_5, key_5, key_5]"
    using key_5_tone [of "[0]" 4] by (simp add: numeral_eq_Suc)
  have "DTMFchar ! unat ((0x15 :: u8) AND 0x0F) = 53" by code_simp
  then show ?thesis using DTMF_Task_digit_once [OF dtmf_key_listening t] by (simp add: dtmf_key_def recent_def)
qed

text \<open>A flat line is never a key: once 256 samples of one level are in the memory, the task returns 0 at
  every call for as long as the level stays, whatever level it is and whatever was heard before.\<close>

lemma DTMF_Task_flat:
  assumes "listening (p @ replicate 256 x) need s" "\<forall>b\<in>set bs. set b \<subseteq> {x} \<and> length b < 0x80000000"
  shows "\<exists>s'. hear bs s = Some (replicate (length bs) 0, s')"
proof -
  have "\<forall>b\<in>set bs. length b < 0x80000000" "\<forall>b\<in>set bs. set b \<subseteq> {x}" using assms(2) by simp_all
  from hear_reports [OF assms(1) this(1) refl] reports_flat [OF order.refl this(2), of p need] show ?thesis by auto
qed

end
