(* ===== verification/Tick.thy ===== *)
theory Tick
  imports SysTick
begin

text \<open>
  The driver of the tick timer, \<open>ampm_lib/lib/tick.c\<close>: the registers it sets and the interrupt, which is
  the routine of \<open>SysTick\<close>.
\<close>

record systick_timer =
  st_LOAD :: u32
  st_VAL :: u32
  st_CTRL :: u32
  st_priority :: u32

text \<open>\<open>clock\<close> is \<open>SystemCoreClock\<close>.\<close>

definition TICK_Init :: "u32 \<Rightarrow> u32 \<Rightarrow> systick_timer \<Rightarrow> systick_timer" where
  "TICK_Init clock timeMs s =
     s\<lparr>st_LOAD := clock div 1000 * timeMs - 1, st_priority := push_bit 3 0x01 OR 1, st_VAL := 0, st_CTRL := 0x07\<rparr>"

definition TICK_DeInit :: "systick_timer \<Rightarrow> systick_timer" where
  "TICK_DeInit s = s\<lparr>st_CTRL := 0x00\<rparr>"

definition SysTick_Handler :: "systick \<Rightarrow> systick" where
  "SysTick_Handler s = SysTick_Task s"

text \<open>
  The timer counts \<open>LOAD + 1\<close> cycles: as many as \<open>timeMs\<close> milliseconds have, when they fit the word and the
  clock is a whole number of kilohertz.
\<close>

lemma TICK_Init_period:
  assumes "unat clock div 1000 * unat timeMs < 4294967296" "1000 dvd unat clock" "0 < unat clock" "0 < timeMs"
  shows "(unat (st_LOAD (TICK_Init clock timeMs s)) + 1) * 1000 = unat clock * unat timeMs"
proof -
  have prod: "unat (clock div 1000 * timeMs) = unat clock div 1000 * unat timeMs"
  proof -
    have "unat (clock div 1000) = unat clock div 1000" by (simp add: unat_div_distrib)
    then show ?thesis using assms(1) by (simp only: unat_word_ariths(2)) simp
  qed
  have "0 < unat clock div 1000" using assms(2,3) by (auto elim: dvdE)
  moreover have "0 < unat timeMs" using assms(4) by (simp add: word_less_nat_alt)
  ultimately have pos: "0 < unat (clock div 1000 * timeMs)" unfolding prod by (rule mult_pos_pos)
  then have "unat (clock div 1000 * timeMs - 1) + 1 = unat clock div 1000 * unat timeMs"
    unfolding prod [symmetric] by (simp add: unat_minus_one unat_gt_0)
  then show ?thesis using assms(2) by (simp add: TICK_Init_def)
qed

end
