(* ===== verification/Spec2Isabelle.thy ===== *)
theory Spec2Isabelle
  imports GsmScripts GsmMainProofs AtProofs PduProofs PacketQueue DataCmp SysTick AmpmList Encoding MTime Sprintf GpsSatellites Sst25Boot DtmfProofs Tick
begin

text \<open>
  Verification of the C library of the GSM and GPS tracker firmware, \<open>src/firmware/ampm_lib\<close>.

  The program.  The firmware runs on an STM32F103 under mbed OS.  A main task
  (\<open>ampm_gsm/ampm_gsm_main_task.c\<close>) owns the GSM modem: it starts it (\<open>ampm_gsm_startup.c\<close>), makes
  and takes voice calls (\<open>ampm_gsm_call.c\<close>), sends and reads short messages (\<open>ampm_gsm_sms.c\<close>,
  \<open>sms/pdu.c\<close>), dials up a data connection (\<open>ampm_gsm_dial_up.c\<close>) and sends the modem to sleep.
  All of them hand commands to one engine (\<open>lib/sparser.c\<close>), which sends a command over the serial
  line, feeds the received bytes to a parser of the expected answers, repeats the command when none
  comes in time and reports the outcome to a callback; \<open>ampm_gsm_io.c\<close> is the engine's serial end.
  Meanwhile every received byte also passes a parser of unsolicited codes
  (\<open>at_command_parser.c\<close>), which notices calls and messages that come in.  GPS sentences are
  collected and decoded by \<open>gps/ampm_gps.c\<close>, data is logged to files on a serial flash memory
  (\<open>ampm_ff/ampm_ff.c\<close> on \<open>flash_mem/sst25.c\<close>), and \<open>lib/\<close> holds what all of them use.

  Conventions (theory \<open>Prelude\<close>).  Machine integers are words of their width, a C \<open>int\<close> is an
  \<open>int\<close> where its range is checked, buffers are lists of bytes.  An access outside a buffer, a text
  without terminator where one is needed, and other undefined behaviour is the value \<open>None\<close>, so a
  theorem that an operation is \<open>Some\<close> says that it stays inside its memory.  Static variables are
  the fields of one record per file, extended from the records of the files it uses, so a
  function of one file runs unchanged in the state of the whole program.  Objects reached by
  pointers (list items, calls, messages) live in explicit heaps.  Function pointers are values of a
  datatype, and what they do is a dispatch function passed as an argument.  What the library gets
  from outside (received bytes, the answers of the PPP stack and of the application, the outcome of
  \<open>malloc\<close>, random numbers, the flash chip, floating point) is an argument or a stream in the state.

  Theories and the files they model.

    \<open>RingBuf\<close> (\<open>lib/ringbuf.c\<close>): the queue refines a bounded list, through the locale \<open>byte_fifo\<close>.
    \<open>Fcs\<close> (\<open>lib/fcs.c\<close>): the table is the CRC division, a frame with its check sum gives the good value.
    \<open>Protocol\<close> (\<open>lib/protocol.c\<close>): both byte stuffing parsers, one locale \<open>unstuffer\<close> for both;
    encoded packets come out again, damaged ones do not, no byte stream leaves the buffer.
    \<open>PacketQueue\<close>, \<open>DataCmp\<close>, \<open>SysTick\<close>, \<open>AmpmList\<close>, \<open>Encoding\<close>, \<open>MTime\<close>, \<open>Sprintf\<close> (the files of
    the same names in \<open>lib/\<close>): queues of frames, text search, tick and timeouts, linked lists as
    sequences, UCS-2 and UTF-8, calendar, formatter.
    \<open>CmdEngine\<close>, \<open>StrParser\<close> (\<open>lib/sparser.c\<close>), \<open>GsmIo\<close> (\<open>ampm_gsm_io.c\<close>): the command engine and its
    channel; a command is answered, or given up after its repetitions, in a bounded number of rounds.
    \<open>GsmCommon\<close> (\<open>ampm_gsm_common.c\<close>, \<open>ampm_gsm_ring.c\<close>, \<open>ampm_gsm_dial_up.c\<close>), \<open>GsmStartup\<close>
    (\<open>ampm_gsm_startup.c\<close>, the scripts and module identification of \<open>ampm_gsm_main_task.c\<close>); \<open>GsmBoot\<close> and
    \<open>GsmScripts\<close>: every script of the firmware completes.
    \<open>GsmCall\<close>, \<open>GsmCallProofs\<close>: calls, their list, number comparison, state reports of the modem.
    \<open>Pdu\<close>, \<open>PduProofs\<close>: the septet and number codes of messages are inverted by their decoders.
    \<open>GsmSms\<close>, \<open>GsmSmsProofs\<close>, \<open>GsmSmsRead\<close>: message objects, the queue of unread messages, reading.
    \<open>AtParser\<close>, \<open>AtProofs\<close>: unsolicited codes and the number of a caller.
    \<open>GsmMain\<close>, \<open>GsmMainProofs\<close>: one round of the main task; which phase follows which, what happens to a
    call that comes in, and that commands and PPP data do not mix.
    \<open>Gps\<close>, \<open>GpsProofs\<close>, \<open>GpsPosition\<close>, \<open>GpsSatellites\<close>, \<open>GpsBoot\<close>: only checked sentences are decoded, the
    position in a sentence is the position in the summary, satellite tables.
    \<open>Sst25\<close>, \<open>Sst25Proofs\<close>: the flash driver on a chip that obeys \<open>flash_chip\<close>, the behaviour the data
    sheets document.  \<open>AmpmFf\<close>, \<open>AmpmFfDisk\<close>, \<open>AmpmFfFiles\<close>, \<open>AmpmFfWrite\<close>, \<open>AmpmFfStore\<close>: the file store as
    functions of the memory contents; a file that was stored is found and read back, unless the
    search starts at its own sector.  \<open>Sst25Boot\<close>: a chip as a program that obeys the laws.
    \<open>Dtmf\<close>, \<open>DtmfProofs\<close> (\<open>lib/DTMF.c\<close>, \<open>dtmf/DTMF_app.c\<close>): the detector of dialling tones as a function of the
    samples heard: which samples a window holds, the vote of the windows, a key held is reported once.
    \<open>Tick\<close> (\<open>lib/tick.c\<close>): the driver of the tick timer.

  Bounds.  Loops whose end the code does not guarantee are \<open>partial_function (option)\<close>; other loops are
  structural or have a termination proof.  Runs of the command engine are counted in rounds of its
  task; 40 rounds are enough for every line of a startup script because a command that is accepted
  takes fewer, which evaluation shows line by line.  The laws of the flash chip allow it to be busy
  for 9000 polls, fewer than the 10000 of the driver's timeout.  The theorems on stored files are
  for files within one sector (fewer than 3840 bytes); longer ones are affected by the defects of
  \<open>ampm_f_next_sector\<close> and \<open>ampm_f_read\<close> listed with the findings.

  Not modelled.  The C++ files bind the library to mbed's serial ports and threads; \<open>common/comm.c\<close>
  has two empty weak functions; \<open>sms/sms_main.c\<close> and
  \<open>sms/pdu_test.c\<close> are programs for a PC.  The firmware is built without \<open>USE_DTMF\<close>, so calls do not
  start the detector of dialling tones, whose files are verified on their own.
  mbed OS, lwIP and the USB host are third-party code.  Interrupts are modelled at the points where
  their bytes are taken from the queues; floating point arithmetic is an argument of the GPS theories.
\<close>

end
